(* ===== verification/Prelude.thy ===== *)
theory Prelude
  imports Main "HOL-Library.List_Lexorder" "HOL-Library.Char_ord" "HOL-Library.Word"
begin

text \<open>
  Shared vocabulary of the development.

  Go strings are byte strings, so they are \<^typ>\<open>string\<close> (a list of 8-bit characters) and
  \<open>len\<close> is \<^const>\<open>length\<close>; the comparison operators of Go strings and \<open>sort.Strings\<close> are the
  byte-wise lexicographic order that the two order theories imported here install.

  A Go function that returns a value or an error is a value of \<open>error + 'a\<close>; an error is
  named by its message, without the context that \<open>fmt.Errorf("...: %w")\<close> puts before it.

  Code that touches files runs in the \<open>io\<close> type: every system call consults a plan of
  faults and may fail or be the point where the process dies.  The weakest precondition
  calculus at the end turns a program in \<open>io\<close> into one formula over the file map, for all
  fault plans at once.
\<close>

section \<open>Strings\<close>

type_synonym error = string

definition has_prefix :: "string \<Rightarrow> string \<Rightarrow> bool" where
  "has_prefix s p \<longleftrightarrow> take (length p) s = p"

lemma has_prefix_append [simp]: "has_prefix (p @ s) p"
  by (simp add: has_prefix_def)

lemma has_prefixE: "has_prefix s p \<Longrightarrow> \<exists>r. s = p @ r"
  unfolding has_prefix_def by (metis append_take_drop_id)

fun split_on :: "char \<Rightarrow> string \<Rightarrow> string list" where
  "split_on c [] = [[]]"
| "split_on c (x # xs) =
     (if x = c then [] # split_on c xs
      else (case split_on c xs of [] \<Rightarrow> [[x]] | y # ys \<Rightarrow> (x # y) # ys))"

fun join_with :: "string \<Rightarrow> string list \<Rightarrow> string" where
  "join_with sep [] = []"
| "join_with sep [x] = x"
| "join_with sep (x # y # ys) = x @ sep @ join_with sep (y # ys)"

lemma split_on_not_Nil [simp]: "split_on c s \<noteq> []"
  by (induction s) (auto split: list.splits)

lemma split_on_no_sep: "c \<notin> set s \<Longrightarrow> split_on c s = [s]"
  by (induction s) auto

lemma split_on_append: "split_on c (a @ c # b) = split_on c a @ split_on c b"
proof (induction a)
  case Nil
  then show ?case by simp
next
  case (Cons x a)
  then show ?case by (cases "split_on c a") auto
qed

lemma split_on_elem: "p \<in> set (split_on c s) \<Longrightarrow> c \<notin> set p"
proof (induction s arbitrary: p)
  case Nil
  then show ?case by simp
next
  case (Cons x s)
  show ?case
  proof (cases "x = c")
    case True
    with Cons show ?thesis by auto
  next
    case False
    obtain y ys where ys: "split_on c s = y # ys"
      by (cases "split_on c s") auto
    with Cons False show ?thesis by auto
  qed
qed

lemma split_on_join_with:
  "ps \<noteq> [] \<Longrightarrow> (\<forall>p \<in> set ps. c \<notin> set p) \<Longrightarrow> split_on c (join_with [c] ps) = ps"
proof (induction ps)
  case Nil
  then show ?case by simp
next
  case (Cons p ps)
  then show ?case
    by (cases ps) (simp_all add: split_on_no_sep split_on_append)
qed

text \<open>
  \<open>strings.TrimSpace\<close> drops white space runes at both ends: the six ASCII ones and the UTF-8
  encodings of U+0085, U+00A0, U+1680, U+2000..U+200A, U+2028, U+2029, U+202F, U+205F, U+3000.
\<close>

definition space_runes :: "string list" where
  "space_runes =
    [[CHR 0x09], [CHR 0x0A], [CHR 0x0B], [CHR 0x0C], [CHR 0x0D], [CHR 0x20], [CHR 0xC2, CHR 0x85],
     [CHR 0xC2, CHR 0xA0], [CHR 0xE1, CHR 0x9A, CHR 0x80], [CHR 0xE2, CHR 0x80, CHR 0xA8],
     [CHR 0xE2, CHR 0x80, CHR 0xA9], [CHR 0xE2, CHR 0x80, CHR 0xAF],
     [CHR 0xE2, CHR 0x81, CHR 0x9F], [CHR 0xE3, CHR 0x80, CHR 0x80],
     [CHR 0xE2, CHR 0x80, CHR 0x80], [CHR 0xE2, CHR 0x80, CHR 0x81],
     [CHR 0xE2, CHR 0x80, CHR 0x82], [CHR 0xE2, CHR 0x80, CHR 0x83],
     [CHR 0xE2, CHR 0x80, CHR 0x84], [CHR 0xE2, CHR 0x80, CHR 0x85],
     [CHR 0xE2, CHR 0x80, CHR 0x86], [CHR 0xE2, CHR 0x80, CHR 0x87],
     [CHR 0xE2, CHR 0x80, CHR 0x88], [CHR 0xE2, CHR 0x80, CHR 0x89],
     [CHR 0xE2, CHR 0x80, CHR 0x8A]]"

definition rune_len :: "string list \<Rightarrow> string \<Rightarrow> nat" where
  "rune_len rs s = (case filter (has_prefix s) rs of [] \<Rightarrow> 0 | r # _ \<Rightarrow> length r)"

function drop_runes :: "string list \<Rightarrow> string \<Rightarrow> string" where
  "drop_runes rs s =
     (if s = [] \<or> rune_len rs s = 0 then s else drop_runes rs (drop (rune_len rs s) s))"
  by pat_completeness auto
termination by (relation "measure (\<lambda>(rs, s). length s)") auto

declare drop_runes.simps [simp del]

definition trim_space :: "string \<Rightarrow> string" where
  "trim_space s = rev (drop_runes (map rev space_runes) (rev (drop_runes space_runes s)))"

definition lower_ascii :: "string \<Rightarrow> string" where
  "lower_ascii s = map (\<lambda>c. if of_char c \<in> {65 .. 90 :: nat} then char_of (of_char c + 32 :: nat) else c) s"

definition upper_ascii :: "string \<Rightarrow> string" where
  "upper_ascii s = map (\<lambda>c. if of_char c \<in> {97 .. 122 :: nat} then char_of (of_char c - 32 :: nat) else c) s"

text \<open>
  \<open>strings.ToLower\<close> and \<open>strings.ToUpper\<close>.  The only other runes whose lower case is ASCII are
  U+0130 and U+212A, the only ones whose upper case is ASCII U+0131 and U+017F (all in UTF-8).
  Runes that stay outside ASCII are left as they are: the code only compares the result with
  ASCII strings.
\<close>

fun to_lower :: "string \<Rightarrow> string" where
  "to_lower (a # b # c # s) =
     (if [a, b] = [CHR 0xC4, CHR 0xB0] then CHR ''i'' # to_lower (c # s)
      else if [a, b, c] = [CHR 0xE2, CHR 0x84, CHR 0xAA] then CHR ''k'' # to_lower s
      else lower_ascii [a] @ to_lower (b # c # s))"
| "to_lower [a, b] = (if [a, b] = [CHR 0xC4, CHR 0xB0] then ''i'' else lower_ascii [a, b])"
| "to_lower s = lower_ascii s"

fun to_upper :: "string \<Rightarrow> string" where
  "to_upper (a # b # s) =
     (if [a, b] = [CHR 0xC4, CHR 0xB1] then CHR ''I'' # to_upper s
      else if [a, b] = [CHR 0xC5, CHR 0xBF] then CHR ''S'' # to_upper s
      else upper_ascii [a] @ to_upper (b # s))"
| "to_upper s = upper_ascii s"

section \<open>Results\<close>

definition sum_bind :: "'e + 'a \<Rightarrow> ('a \<Rightarrow> 'e + 'b) \<Rightarrow> 'e + 'b" where
  "sum_bind r k = (case r of Inl e \<Rightarrow> Inl e | Inr x \<Rightarrow> k x)"

lemma sum_bind_simps [simp]:
  "sum_bind (Inl e) k = Inl e"
  "sum_bind (Inr x) k = k x"
  by (simp_all add: sum_bind_def)

lemma sum_bind_Inr: "sum_bind r k = Inr y \<longleftrightarrow> (\<exists>x. r = Inr x \<and> k x = Inr y)"
  by (cases r) auto

fun map_results :: "('a \<Rightarrow> 'e + 'b) \<Rightarrow> 'a list \<Rightarrow> 'e + 'b list" where
  "map_results f [] = Inr []"
| "map_results f (x # xs) =
     sum_bind (f x) (\<lambda>y. sum_bind (map_results f xs) (\<lambda>ys. Inr (y # ys)))"

lemma map_results_length: "map_results f xs = Inr ys \<Longrightarrow> length ys = length xs"
  by (induction xs arbitrary: ys) (auto simp: sum_bind_Inr)

lemma map_results_nth:
  "map_results f xs = Inr ys \<Longrightarrow> i < length xs \<Longrightarrow> f (xs ! i) = Inr (ys ! i)"
  by (induction xs arbitrary: ys i) (auto simp: sum_bind_Inr nth_Cons split: nat.splits)

lemma map_results_set:
  "map_results f xs = Inr ys \<Longrightarrow> y \<in> set ys \<Longrightarrow> \<exists>x \<in> set xs. f x = Inr y"
  by (induction xs arbitrary: ys) (auto simp: sum_bind_Inr)

section \<open>Maps\<close>

text \<open>
  A Go map is an association list in the order of its keys, without duplicates: two such lists
  are equal when they map alike, \<open>len\<close> is \<^const>\<open>length\<close>, and \<open>json.Marshal\<close> writes the keys in
  that order.
\<close>

definition map_del :: "'k \<Rightarrow> ('k \<times> 'v) list \<Rightarrow> ('k \<times> 'v) list" where
  "map_del k m = filter (\<lambda>e. fst e \<noteq> k) m"

definition map_put :: "'k::linorder \<Rightarrow> 'v \<Rightarrow> ('k \<times> 'v) list \<Rightarrow> ('k \<times> 'v) list" where
  "map_put k v m = insort_key fst (k, v) (map_del k m)"

definition go_map :: "('k::linorder \<times> 'v) list \<Rightarrow> bool" where
  "go_map m \<longleftrightarrow> sorted (map fst m) \<and> distinct (map fst m)"

lemma go_map_Nil [simp]: "go_map []" by (simp add: go_map_def)

lemma map_del_keys: "fst ` set (map_del k m) = fst ` set m - {k}"
  by (auto simp: map_del_def)

lemma map_put_keys [simp]: "fst ` set (map_put k v m) = insert k (fst ` set m)"
  by (auto simp: map_put_def set_insort_key map_del_def)

lemma map_put_set: "e \<in> set (map_put k v m) \<longleftrightarrow> e = (k, v) \<or> e \<in> set m \<and> fst e \<noteq> k"
  by (auto simp: map_put_def set_insort_key map_del_def)

lemma distinct_insort_fst: "distinct (map fst (insort_key fst e m)) = (fst e \<notin> fst ` set m \<and> distinct (map fst m))"
  by (induction m) (auto simp: set_insort_key)

lemma go_map_del: "go_map m \<Longrightarrow> go_map (map_del k m)"
  by (simp add: go_map_def map_del_def distinct_map_filter sorted_filter)

lemma go_map_put: "go_map m \<Longrightarrow> go_map (map_put k v m)"
  using go_map_del [of m k] map_del_keys [of k m]
  by (auto simp: go_map_def map_put_def sorted_insort_key distinct_insort_fst)

lemma go_map_of: "go_map m \<Longrightarrow> map_of m k = Some v \<longleftrightarrow> (k, v) \<in> set m"
  by (simp add: go_map_def)

lemma map_of_del [simp]: "map_of (map_del k m) = (map_of m)(k := None)"
  by (induction m) (auto simp: map_del_def)

lemma map_of_put [simp]: "go_map m \<Longrightarrow> map_of (map_put k v m) = (map_of m)(k \<mapsto> v)"
proof (rule ext)
  fix x
  assume m: "go_map m"
  show "map_of (map_put k v m) x = ((map_of m)(k \<mapsto> v)) x"
  proof (cases "map_of (map_put k v m) x")
    case None
    then have "x \<notin> insert k (fst ` set m)" by (simp add: map_of_eq_None_iff)
    then have "x \<noteq> k" "map_of m x = None" by (simp_all add: map_of_eq_None_iff)
    then show ?thesis using None by simp
  next
    case (Some y)
    then have "(x, y) = (k, v) \<or> (x, y) \<in> set m \<and> x \<noteq> k"
      using map_of_SomeD [OF Some] by (simp add: map_put_set)
    then have "((map_of m)(k \<mapsto> v)) x = Some y"
      using m by (auto simp: go_map_of)
    then show ?thesis using Some by simp
  qed
qed

lemma length_map_put: "go_map m \<Longrightarrow> length (map_put k v m) = (if k \<in> fst ` set m then length m else Suc (length m))"
proof -
  assume m: "go_map m"
  have "length n = card (fst ` set n)" if "go_map n" for n :: "('a \<times> 'b) list"
    using that distinct_card [of "map fst n"] by (simp add: go_map_def)
  from this [OF m] this [OF go_map_put [OF m, of k v]] show ?thesis
    by (auto simp: card_insert_if)
qed

lemma length_map_del: "length (map_del k m) \<le> length m"
  by (simp add: map_del_def)

section \<open>Files, faults and programs that touch files\<close>

text \<open>
  A document is bytes that decode, strictly and without trailing data, to a value: \<open>Doc d n\<close>
  is such a file of \<open>n\<close> bytes, and \<open>Junk n\<close> is \<open>n\<close> bytes that do not decode (a torn write
  among them).  A file is a real file, a directory, a symbolic link or anything else
  (a socket or a device), which is what \<open>Lstat\<close> tells apart.
\<close>

datatype 'd content = Doc 'd nat | Junk nat

fun content_size :: "'d content \<Rightarrow> nat" where
  "content_size (Doc d n) = n"
| "content_size (Junk n) = n"

datatype 'd node = Reg "'d content" | Dir | Link | Special

type_synonym 'd fs = "string \<Rightarrow> 'd node option"

datatype fault = Pass | Fail | Die

record 'd world =
  files :: "'d fs"
  plan :: "fault list"

datatype 'a outcome = Ok 'a | Failed error | Died

type_synonym ('d, 'a) io = "'d world \<Rightarrow> 'a outcome \<times> 'd world"

definition io_ret :: "'a \<Rightarrow> ('d, 'a) io" where
  "io_ret x = (\<lambda>w. (Ok x, w))"

definition io_fail :: "error \<Rightarrow> ('d, 'a) io" where
  "io_fail e = (\<lambda>w. (Failed e, w))"

definition io_bind :: "('d, 'a) io \<Rightarrow> ('a \<Rightarrow> ('d, 'b) io) \<Rightarrow> ('d, 'b) io" where
  "io_bind m k = (\<lambda>w. case m w of
     (Ok x, w') \<Rightarrow> k x w'
   | (Failed e, w') \<Rightarrow> (Failed e, w')
   | (Died, w') \<Rightarrow> (Died, w'))"

definition io_seq :: "('d, 'a) io \<Rightarrow> ('d, 'b) io \<Rightarrow> ('d, 'b) io" where
  "io_seq m k = io_bind m (\<lambda>_. k)"

text \<open>\<open>io_try m\<close> runs \<open>m\<close> and hands its error to the code as a value, as \<open>x, err := f()\<close> does.\<close>

definition io_try :: "('d, 'a) io \<Rightarrow> ('d, error + 'a) io" where
  "io_try m = (\<lambda>w. case m w of
     (Ok x, w') \<Rightarrow> (Ok (Inr x), w')
   | (Failed e, w') \<Rightarrow> (Ok (Inl e), w')
   | (Died, w') \<Rightarrow> (Died, w'))"

definition io_lift :: "error + 'a \<Rightarrow> ('d, 'a) io" where
  "io_lift r = (case r of Inl e \<Rightarrow> io_fail e | Inr x \<Rightarrow> io_ret x)"

definition io_when :: "bool \<Rightarrow> ('d, unit) io \<Rightarrow> ('d, unit) io" where
  "io_when b m = (if b then m else io_ret ())"

text \<open>
  A system call: it happens, it fails without effect, or the process dies before it.  Its
  action maps the files it finds to a result and the files it leaves.
\<close>

definition sys :: "('d fs \<Rightarrow> 'a outcome \<times> 'd fs) \<Rightarrow> ('d, 'a) io" where
  "sys act = (\<lambda>w.
     let happen = (\<lambda>p. case act (files w) of (r, f) \<Rightarrow> (r, \<lparr>files = f, plan = p\<rparr>))
     in case plan w of
          [] \<Rightarrow> happen []
        | Pass # p \<Rightarrow> happen p
        | Fail # p \<Rightarrow> (Failed ''I/O error'', w\<lparr>plan := p\<rparr>)
        | Die # p \<Rightarrow> (Died, w))"

definition lstat :: "string \<Rightarrow> ('d, 'd node option) io" where
  "lstat p = sys (\<lambda>f. (Ok (f p), f))"

definition read_file :: "string \<Rightarrow> ('d, 'd content) io" where
  "read_file p = sys (\<lambda>f. case f p of
     Some (Reg c) \<Rightarrow> (Ok c, f)
   | _ \<Rightarrow> (Failed ''read error'', f))"

definition create_excl :: "string \<Rightarrow> ('d, unit) io" where
  "create_excl p = sys (\<lambda>f. case f p of
     None \<Rightarrow> (Ok (), f(p \<mapsto> Reg (Junk 0)))
   | Some _ \<Rightarrow> (Failed ''file exists'', f))"

definition write_file :: "string \<Rightarrow> 'd content \<Rightarrow> ('d, unit) io" where
  "write_file p c = sys (\<lambda>f. (Ok (), f(p \<mapsto> Reg c)))"

definition fsync_file :: "string \<Rightarrow> ('d, unit) io" where
  "fsync_file p = sys (\<lambda>f. (Ok (), f))"

definition close_file :: "string \<Rightarrow> ('d, unit) io" where
  "close_file p = sys (\<lambda>f. (Ok (), f))"

definition sync_fs :: "string \<Rightarrow> ('d, unit) io" where
  "sync_fs d = sys (\<lambda>f. (Ok (), f))"

definition remove_file :: "string \<Rightarrow> ('d, unit) io" where
  "remove_file p = sys (\<lambda>f. case f p of
     None \<Rightarrow> (Failed ''no such file'', f)
   | Some n \<Rightarrow> if n = Dir then (Failed ''is a directory'', f) else (Ok (), f(p := None)))"

definition rename_file :: "string \<Rightarrow> string \<Rightarrow> ('d, unit) io" where
  "rename_file a b = sys (\<lambda>f. case f a of
     None \<Rightarrow> (Failed ''no such file'', f)
   | Some n \<Rightarrow>
       if n = Dir \<or> f b = Some Dir then (Failed ''is a directory'', f)
       else (Ok (), (f(a := None))(b \<mapsto> n)))"

definition make_dir :: "string \<Rightarrow> ('d, unit) io" where
  "make_dir p = sys (\<lambda>f. case f p of
     None \<Rightarrow> (Ok (), f(p \<mapsto> Dir))
   | Some _ \<Rightarrow> (Failed ''file exists'', f))"

section \<open>Weakest preconditions over all fault plans\<close>

text \<open>
  \<open>wp b m Q E C f\<close>: started on the file map \<open>f\<close> under any plan of faults, \<open>m\<close> returns a
  value that satisfies \<open>Q\<close> with the files it leaves, or fails with an error that satisfies \<open>E\<close>
  with the files it leaves, or dies leaving files that satisfy \<open>C\<close>.  \<open>C\<close> is thus what holds at
  every point where the process can be killed.  With \<open>b\<close> false the plans are those of a power
  loss: calls do not fail, but the process may die before any of them.
\<close>

definition allowed :: "bool \<Rightarrow> 'd world \<Rightarrow> bool" where
  "allowed b w \<longleftrightarrow> b \<or> Fail \<notin> set (plan w)"

text \<open>Under a plan without deaths nothing dies, and no death appears in the plan.\<close>

definition deathless :: "'d world \<Rightarrow> bool" where
  "deathless w \<longleftrightarrow> Die \<notin> set (plan w)"

definition outcome_sat :: "bool \<Rightarrow> ('a \<Rightarrow> 'd fs \<Rightarrow> bool) \<Rightarrow> (error \<Rightarrow> 'd fs \<Rightarrow> bool) \<Rightarrow>
    ('d fs \<Rightarrow> bool) \<Rightarrow> bool \<Rightarrow> 'a outcome \<times> 'd world \<Rightarrow> bool" where
  "outcome_sat b Q E C calm rw = (case rw of (r, w) \<Rightarrow> allowed b w \<and> (calm \<longrightarrow> deathless w) \<and> (case r of
     Ok x \<Rightarrow> Q x (files w)
   | Failed e \<Rightarrow> E e (files w)
   | Died \<Rightarrow> \<not> calm \<and> C (files w)))"

lemma outcome_sat_simps [simp]:
  "outcome_sat b Q E C calm (Ok x, w) \<longleftrightarrow> allowed b w \<and> (calm \<longrightarrow> deathless w) \<and> Q x (files w)"
  "outcome_sat b Q E C calm (Failed e, w) \<longleftrightarrow> allowed b w \<and> (calm \<longrightarrow> deathless w) \<and> E e (files w)"
  "outcome_sat b Q E C calm (Died, w) \<longleftrightarrow> allowed b w \<and> (calm \<longrightarrow> deathless w) \<and> \<not> calm \<and> C (files w)"
  by (simp_all add: outcome_sat_def)

lemma deathless_simps [simp]:
  "deathless \<lparr>files = f, plan = []\<rparr>"
  "deathless \<lparr>files = f, plan = Pass # p\<rparr> \<longleftrightarrow> deathless \<lparr>files = f, plan = p\<rparr>"
  "deathless \<lparr>files = f, plan = Fail # p\<rparr> \<longleftrightarrow> deathless \<lparr>files = f, plan = p\<rparr>"
  "\<not> deathless \<lparr>files = f, plan = Die # p\<rparr>"
  by (auto simp: deathless_def)

lemma allowed_simps [simp]:
  "allowed True w" "allowed b \<lparr>files = f, plan = []\<rparr>" "allowed b \<lparr>files = f, plan = [Die]\<rparr>"
  "allowed b \<lparr>files = f, plan = Pass # p\<rparr> = allowed b \<lparr>files = f, plan = p\<rparr>"
  "allowed b \<lparr>files = f, plan = Fail # p\<rparr> \<longleftrightarrow> b"
  by (auto simp: allowed_def)

definition wp :: "bool \<Rightarrow> ('d, 'a) io \<Rightarrow> ('a \<Rightarrow> 'd fs \<Rightarrow> bool) \<Rightarrow> (error \<Rightarrow> 'd fs \<Rightarrow> bool) \<Rightarrow>
    ('d fs \<Rightarrow> bool) \<Rightarrow> 'd fs \<Rightarrow> bool" where
  "wp b m Q E C f \<longleftrightarrow> (\<forall>w. files w = f \<longrightarrow> allowed b w \<longrightarrow> outcome_sat b Q E C (deathless w) (m w))"

named_theorems wp_exec "equations that execute a program inside wp"

lemma wpI: "(\<And>w. files w = f \<Longrightarrow> allowed b w \<Longrightarrow> outcome_sat b Q E C (deathless w) (m w)) \<Longrightarrow> wp b m Q E C f"
  by (simp add: wp_def)

lemma wpE: "wp b m Q E C (files w) \<Longrightarrow> allowed b w \<Longrightarrow> outcome_sat b Q E C (deathless w) (m w)"
  by (simp add: wp_def)

lemma outcome_sat_mono:
  "outcome_sat b Q E C calm rw \<Longrightarrow> (\<And>x f. Q x f \<Longrightarrow> Q' x f) \<Longrightarrow> (\<And>e f. E e f \<Longrightarrow> E' e f) \<Longrightarrow>
   (\<And>f. C f \<Longrightarrow> C' f) \<Longrightarrow> outcome_sat b Q' E' C' calm rw"
  by (cases rw; cases "fst rw") auto

lemma wp_mono:
  "wp b m Q E C f \<Longrightarrow> (\<And>x f. Q x f \<Longrightarrow> Q' x f) \<Longrightarrow> (\<And>e f. E e f \<Longrightarrow> E' e f) \<Longrightarrow>
   (\<And>f. C f \<Longrightarrow> C' f) \<Longrightarrow> wp b m Q' E' C' f"
  unfolding wp_def by (intro allI impI, rule outcome_sat_mono [of b Q E C]) auto

lemma outcome_sat_bind:
  assumes "outcome_sat b (\<lambda>x. wp b (k x) Q E C) E C calm (m w)"
  shows "outcome_sat b Q E C calm (io_bind m k w)"
proof -
  obtain r w' where m: "m w = (r, w')" by fastforce
  show ?thesis
  proof (cases r)
    case (Ok x)
    then have "outcome_sat b Q E C (deathless w') (k x w')" "calm \<longrightarrow> deathless w'"
      using assms m wpE [of b "k x" Q E C w'] by auto
    then have "outcome_sat b Q E C calm (k x w')"
      by (cases "k x w'"; cases "fst (k x w')") (auto simp: outcome_sat_def)
    then show ?thesis using m Ok by (simp add: io_bind_def)
  qed (use assms m in \<open>auto simp: io_bind_def\<close>)
qed

lemma wp_bindI: "wp b m (\<lambda>x. wp b (k x) Q E C) E C f \<Longrightarrow> wp b (io_bind m k) Q E C f"
  by (auto intro!: wpI outcome_sat_bind wpE)

lemma wp_try: "wp b (io_try m) Q E C f \<longleftrightarrow> wp b m (\<lambda>x. Q (Inr x)) (\<lambda>e. Q (Inl e)) C f"
proof -
  have "outcome_sat b Q E C calm (io_try m w) = outcome_sat b (\<lambda>x. Q (Inr x)) (\<lambda>e. Q (Inl e)) C calm (m w)"
    for w calm
    by (cases "m w"; cases "fst (m w)") (auto simp: io_try_def)
  then show ?thesis by (simp add: wp_def)
qed

lemma wp_try_bindI:
  "wp b m (\<lambda>x. wp b (k (Inr x)) Q E C) (\<lambda>e. wp b (k (Inl e)) Q E C) C f \<Longrightarrow>
   wp b (io_bind (io_try m) k) Q E C f"
  by (rule wp_bindI) (simp add: wp_try)

subsection \<open>Program equations: sequences run from the left\<close>

lemma io_bind_assoc [wp_exec]: "io_bind (io_bind m k) l = io_bind m (\<lambda>x. io_bind (k x) l)"
  by (rule ext) (simp add: io_bind_def split: outcome.splits prod.splits)

lemma io_bind_ret [wp_exec, simp]: "io_bind (io_ret x) k = k x"
  by (rule ext) (simp add: io_bind_def io_ret_def)

lemma io_bind_fail [wp_exec, simp]: "io_bind (io_fail e) k = io_fail e"
  by (rule ext) (simp add: io_bind_def io_fail_def)

lemma io_bind_if [wp_exec]: "io_bind (if b then m else n) k = (if b then io_bind m k else io_bind n k)"
  by simp

lemma io_seq_bind [wp_exec]: "io_seq m n = io_bind m (\<lambda>_. n)"
  by (simp add: io_seq_def)

lemma io_when_if [wp_exec]: "io_when b m = (if b then m else io_ret ())"
  by (simp add: io_when_def)

lemma io_bind_lift [wp_exec]:
  "io_bind (io_lift r) k = (case r of Inl e \<Rightarrow> io_fail e | Inr x \<Rightarrow> k x)"
  by (simp add: io_lift_def split: sum.split)

lemma io_try_bind [wp_exec]:
  "io_bind (io_try (io_bind m k)) h =
   io_bind (io_try m) (\<lambda>r. case r of Inl e \<Rightarrow> h (Inl e) | Inr x \<Rightarrow> io_bind (io_try (k x)) h)"
  by (rule ext) (simp add: io_bind_def io_try_def split: outcome.splits prod.splits)

lemma io_try_ret [wp_exec]: "io_bind (io_try (io_ret x)) h = h (Inr x)"
  by (rule ext) (simp add: io_bind_def io_try_def io_ret_def)

lemma io_try_fail [wp_exec]: "io_bind (io_try (io_fail e)) h = h (Inl e)"
  by (rule ext) (simp add: io_bind_def io_try_def io_fail_def)

lemma io_try_try [wp_exec]: "io_bind (io_try (io_try m)) h = io_bind (io_try m) (\<lambda>r. h (Inr r))"
  by (rule ext) (simp add: io_bind_def io_try_def split: outcome.splits prod.splits)

lemma io_try_if [wp_exec]: "io_try (if b then m else n) = (if b then io_try m else io_try n)"
  by simp

lemma io_bind_unit: "io_bind m io_ret = m"
  by (rule ext) (auto simp: io_bind_def io_ret_def split: outcome.splits prod.splits)

lemma wp_const:
  assumes "\<And>w. m w = (r, w)" and "r \<noteq> Died"
  shows "wp b m Q E C f \<longleftrightarrow> (case r of Ok x \<Rightarrow> Q x f | Failed e \<Rightarrow> E e f | Died \<Rightarrow> C f)"
proof
  assume "wp b m Q E C f"
  then have "outcome_sat b Q E C True (m \<lparr>files = f, plan = []\<rparr>)"
    using wpE [of b m Q E C "\<lparr>files = f, plan = []\<rparr>"] by simp
  then show "case r of Ok x \<Rightarrow> Q x f | Failed e \<Rightarrow> E e f | Died \<Rightarrow> C f"
    using assms(2) by (cases r) (simp_all add: assms(1))
next
  assume "case r of Ok x \<Rightarrow> Q x f | Failed e \<Rightarrow> E e f | Died \<Rightarrow> C f"
  then show "wp b m Q E C f" using assms(2) by (cases r) (auto intro!: wpI simp: assms(1))
qed

lemma wp_ret [wp_exec]: "wp b (io_ret x) Q E C f \<longleftrightarrow> Q x f"
  by (subst wp_const [where r = "Ok x"]) (simp_all add: io_ret_def)

lemma wp_fail [wp_exec]: "wp b (io_fail e) Q E C f \<longleftrightarrow> E e f"
  by (subst wp_const [where r = "Failed e"]) (simp_all add: io_fail_def)

subsection \<open>System calls\<close>

text \<open>
  Executing a system call: the files may be left as they are (it failed, or the process died),
  or the call takes effect and the rest runs under any remaining plan.
\<close>

lemma sys_cons:
  "sys act \<lparr>files = f, plan = Pass # p\<rparr> = (case act f of (r, g) \<Rightarrow> (r, \<lparr>files = g, plan = p\<rparr>))"
  "sys act \<lparr>files = f, plan = Fail # p\<rparr> = (Failed ''I/O error'', \<lparr>files = f, plan = p\<rparr>)"
  "sys act \<lparr>files = f, plan = Die # p\<rparr> = (Died, \<lparr>files = f, plan = Die # p\<rparr>)"
  "sys act \<lparr>files = f, plan = []\<rparr> = (case act f of (r, g) \<Rightarrow> (r, \<lparr>files = g, plan = []\<rparr>))"
  by (simp_all add: sys_def)

lemma sys_sat:
  assumes "C f" and "b \<Longrightarrow> E ''I/O error'' f"
    and "case act f of (Ok x, g) \<Rightarrow> Q x g | (Failed e, g) \<Rightarrow> E e g | (Died, g) \<Rightarrow> False"
  shows "wp b (sys act) Q E C f"
proof (rule wpI)
  fix w :: "'a world"
  assume w: "files w = f" "allowed b w"
  obtain p where p: "w = \<lparr>files = f, plan = p\<rparr>" using w(1) by (cases w) simp
  obtain r g where act: "act f = (r, g)" by fastforce
  show "outcome_sat b Q E C (deathless w) (sys act w)"
  proof (cases p)
    case Nil
    then show ?thesis using assms(3) act by (cases r) (simp_all add: p sys_cons)
  next
    case (Cons x q)
    then show ?thesis
      using assms act w(2)
      by (cases x; cases r) (auto simp: p sys_cons allowed_def deathless_def)
  qed
qed

lemma wp_step:
  assumes "\<And>p. allowed b \<lparr>files = f, plan = x # p\<rparr> \<Longrightarrow>
      outcome_sat b Q E C (deathless \<lparr>files = f, plan = x # p\<rparr>) (m \<lparr>files = g, plan = p\<rparr>)"
    and "x = Pass \<or> x = Fail \<and> b"
  shows "wp b m Q E C g"
proof (rule wpI)
  fix w
  assume w: "files w = g" "allowed b w"
  obtain p where p: "w = \<lparr>files = g, plan = p\<rparr>" using w(1) by (cases w) simp
  have "allowed b \<lparr>files = f, plan = x # p\<rparr>"
    "deathless \<lparr>files = f, plan = x # p\<rparr> = deathless w"
    using w(2) assms(2) by (auto simp: p allowed_def deathless_def)
  then show "outcome_sat b Q E C (deathless w) (m w)" using assms(1) [of p] by (simp add: p)
qed

lemma sys_bind_sat:
  assumes "wp b (io_bind (sys act) k) Q E C f"
  shows "C f" and "b \<Longrightarrow> E ''I/O error'' f"
    and "case act f of (Ok x, g) \<Rightarrow> wp b (k x) Q E C g | (Failed e, g) \<Rightarrow> E e g | (Died, g) \<Rightarrow> False"
proof -
  have run: "outcome_sat b Q E C (deathless \<lparr>files = f, plan = p\<rparr>) (io_bind (sys act) k \<lparr>files = f, plan = p\<rparr>)"
    if "allowed b \<lparr>files = f, plan = p\<rparr>" for p
    using assms that by (simp add: wp_def)
  show "C f" using run [of "[Die]"] by (simp add: io_bind_def sys_cons)
  show "b \<Longrightarrow> E ''I/O error'' f" using run [of "[Fail]"] by (simp add: io_bind_def sys_cons)
  obtain r g where act: "act f = (r, g)" by fastforce
  have "wp b (k x) Q E C g" if "r = Ok x" for x
    by (rule wp_step [where f = f and x = Pass])
       (use run [of "Pass # _"] act that in \<open>auto simp: io_bind_def sys_cons\<close>)
  then show "case act f of (Ok x, g) \<Rightarrow> wp b (k x) Q E C g | (Failed e, g) \<Rightarrow> E e g | (Died, g) \<Rightarrow> False"
    using run [of "[]"] act by (cases r) (simp_all add: io_bind_def sys_cons)
qed

lemma wp_sys_bind:
  "wp b (io_bind (sys act) k) Q E C f \<longleftrightarrow>
     C f \<and> (b \<longrightarrow> E ''I/O error'' f) \<and>
     (case act f of (Ok x, g) \<Rightarrow> wp b (k x) Q E C g | (Failed e, g) \<Rightarrow> E e g | (Died, g) \<Rightarrow> False)"
  using sys_bind_sat [of b act k Q E C f]
  by (auto intro!: wp_bindI sys_sat split: outcome.splits)

lemma wp_sys:
  "wp b (sys act) Q E C f \<longleftrightarrow>
     C f \<and> (b \<longrightarrow> E ''I/O error'' f) \<and>
     (case act f of (Ok x, g) \<Rightarrow> Q x g | (Failed e, g) \<Rightarrow> E e g | (Died, g) \<Rightarrow> False)"
  using wp_sys_bind [of b act io_ret Q E C f, unfolded io_bind_unit wp_ret] .

lemma wp_try_sys_bind:
  "wp b (io_bind (io_try (sys act)) k) Q E C f \<longleftrightarrow>
     C f \<and> (b \<longrightarrow> wp b (k (Inl ''I/O error'')) Q E C f) \<and>
     (case act f of (Ok x, g) \<Rightarrow> wp b (k (Inr x)) Q E C g
      | (Failed e, g) \<Rightarrow> wp b (k (Inl e)) Q E C g | (Died, g) \<Rightarrow> False)"
  (is "?l \<longleftrightarrow> ?r")
proof
  assume l: ?l
  have run: "outcome_sat b Q E C (deathless \<lparr>files = f, plan = p\<rparr>)
      (io_bind (io_try (sys act)) k \<lparr>files = f, plan = p\<rparr>)"
    if "allowed b \<lparr>files = f, plan = p\<rparr>" for p
    using l that by (simp add: wp_def)
  obtain r g where act: "act f = (r, g)" by fastforce
  have c: "C f" using run [of "[Die]"] by (simp add: io_bind_def io_try_def sys_cons)
  have "wp b (k (Inl ''I/O error'')) Q E C f" if b
    by (rule wp_step [where f = f and x = Fail])
       (use run [of "Fail # _"] that in \<open>auto simp: io_bind_def io_try_def sys_cons\<close>)
  moreover have "wp b (k (Inr y)) Q E C g" if "r = Ok y" for y
    by (rule wp_step [where f = f and x = Pass])
       (use run [of "Pass # _"] act that in \<open>auto simp: io_bind_def io_try_def sys_cons\<close>)
  moreover have "wp b (k (Inl e)) Q E C g" if "r = Failed e" for e
    by (rule wp_step [where f = f and x = Pass])
       (use run [of "Pass # _"] act that in \<open>auto simp: io_bind_def io_try_def sys_cons\<close>)
  moreover have "r \<noteq> Died"
    using run [of "[]"] act by (auto simp: io_bind_def io_try_def sys_cons)
  ultimately show ?r using act c by (auto split: outcome.splits)
next
  assume ?r
  then show ?l by (intro wp_try_bindI) (simp add: wp_sys)
qed

lemmas prim_defs = lstat_def read_file_def create_excl_def write_file_def fsync_file_def
  close_file_def sync_fs_def remove_file_def rename_file_def make_dir_def

lemma wp_lstat [wp_exec]:
  "wp b (io_bind (lstat p) k) Q E C f \<longleftrightarrow> C f \<and> (b \<longrightarrow> E ''I/O error'' f) \<and> wp b (k (f p)) Q E C f"
  "wp b (lstat p) R E C f \<longleftrightarrow> C f \<and> (b \<longrightarrow> E ''I/O error'' f) \<and> R (f p) f"
  "wp b (io_bind (io_try (lstat p)) h) Q E C f \<longleftrightarrow>
     C f \<and> (b \<longrightarrow> wp b (h (Inl ''I/O error'')) Q E C f) \<and> wp b (h (Inr (f p))) Q E C f"
  by (simp_all add: prim_defs wp_sys_bind wp_sys wp_try_sys_bind)

lemma wp_read_file [wp_exec]:
  "wp b (io_bind (read_file p) k) Q E C f \<longleftrightarrow> C f \<and> (b \<longrightarrow> E ''I/O error'' f) \<and>
     (case f p of Some (Reg c) \<Rightarrow> wp b (k c) Q E C f | _ \<Rightarrow> E ''read error'' f)"
  "wp b (io_bind (io_try (read_file p)) h) Q E C f \<longleftrightarrow> C f \<and> (b \<longrightarrow> wp b (h (Inl ''I/O error'')) Q E C f) \<and>
     (case f p of Some (Reg c) \<Rightarrow> wp b (h (Inr c)) Q E C f | _ \<Rightarrow> wp b (h (Inl ''read error'')) Q E C f)"
  by (auto simp: prim_defs wp_sys_bind wp_try_sys_bind split: option.split node.split)

lemma wp_create_excl [wp_exec]:
  "wp b (io_bind (create_excl p) k) Q E C f \<longleftrightarrow> C f \<and> (b \<longrightarrow> E ''I/O error'' f) \<and>
     (if f p = None then wp b (k ()) Q E C (f(p \<mapsto> Reg (Junk 0))) else E ''file exists'' f)"
  by (auto simp: prim_defs wp_sys_bind split: option.split)

lemma wp_write_file [wp_exec]:
  "wp b (io_bind (write_file p c) k) Q E C f \<longleftrightarrow> C f \<and> (b \<longrightarrow> E ''I/O error'' f) \<and>
     wp b (k ()) Q E C (f(p \<mapsto> Reg c))"
  by (simp add: prim_defs wp_sys_bind)

lemma wp_fsync_file [wp_exec]:
  "wp b (io_bind (fsync_file p) k) Q E C f \<longleftrightarrow> C f \<and> (b \<longrightarrow> E ''I/O error'' f) \<and> wp b (k ()) Q E C f"
  by (simp add: prim_defs wp_sys_bind)

lemma wp_close_file [wp_exec]:
  "wp b (io_bind (close_file p) k) Q E C f \<longleftrightarrow> C f \<and> (b \<longrightarrow> E ''I/O error'' f) \<and> wp b (k ()) Q E C f"
  "wp b (close_file p) R E C f \<longleftrightarrow> C f \<and> (b \<longrightarrow> E ''I/O error'' f) \<and> R () f"
  by (simp_all add: prim_defs wp_sys_bind wp_sys)

lemma wp_sync_fs [wp_exec]:
  "wp b (io_bind (sync_fs p) k) Q E C f \<longleftrightarrow> C f \<and> (b \<longrightarrow> E ''I/O error'' f) \<and> wp b (k ()) Q E C f"
  "wp b (sync_fs p) R E C f \<longleftrightarrow> C f \<and> (b \<longrightarrow> E ''I/O error'' f) \<and> R () f"
  by (simp_all add: prim_defs wp_sys_bind wp_sys)

lemma wp_remove_file [wp_exec]:
  "wp b (io_bind (remove_file p) k) Q E C f \<longleftrightarrow> C f \<and> (b \<longrightarrow> E ''I/O error'' f) \<and>
     (case f p of None \<Rightarrow> E ''no such file'' f
      | Some n \<Rightarrow> if n = Dir then E ''is a directory'' f else wp b (k ()) Q E C (f(p := None)))"
  "wp b (remove_file p) R E C f \<longleftrightarrow> C f \<and> (b \<longrightarrow> E ''I/O error'' f) \<and>
     (case f p of None \<Rightarrow> E ''no such file'' f
      | Some n \<Rightarrow> if n = Dir then E ''is a directory'' f else R () (f(p := None)))"
  "wp b (io_bind (io_try (remove_file p)) h) Q E C f \<longleftrightarrow> C f \<and> (b \<longrightarrow> wp b (h (Inl ''I/O error'')) Q E C f) \<and>
     (case f p of None \<Rightarrow> wp b (h (Inl ''no such file'')) Q E C f
      | Some n \<Rightarrow> if n = Dir then wp b (h (Inl ''is a directory'')) Q E C f
                  else wp b (h (Inr ())) Q E C (f(p := None)))"
  by (auto simp: prim_defs wp_sys_bind wp_sys wp_try_sys_bind split: option.split)

lemma wp_rename_file [wp_exec]:
  "wp b (io_bind (rename_file p q) k) Q E C f \<longleftrightarrow> C f \<and> (b \<longrightarrow> E ''I/O error'' f) \<and>
     (case f p of None \<Rightarrow> E ''no such file'' f
      | Some n \<Rightarrow> if n = Dir \<or> f q = Some Dir then E ''is a directory'' f
                  else wp b (k ()) Q E C ((f(p := None))(q \<mapsto> n)))"
  "wp b (rename_file p q) R E C f \<longleftrightarrow> C f \<and> (b \<longrightarrow> E ''I/O error'' f) \<and>
     (case f p of None \<Rightarrow> E ''no such file'' f
      | Some n \<Rightarrow> if n = Dir \<or> f q = Some Dir then E ''is a directory'' f
                  else R () ((f(p := None))(q \<mapsto> n)))"
  by (auto simp: prim_defs wp_sys_bind wp_sys split: option.split)

lemma wp_make_dir [wp_exec]:
  "wp b (io_bind (make_dir p) k) Q E C f \<longleftrightarrow> C f \<and> (b \<longrightarrow> E ''I/O error'' f) \<and>
     (if f p = None then wp b (k ()) Q E C (f(p \<mapsto> Dir)) else E ''file exists'' f)"
  by (auto simp: prim_defs wp_sys_bind split: option.split)

text \<open>With no fault left in the plan a program runs to its end, whatever it does.\<close>

definition run_clean :: "('d, 'a) io \<Rightarrow> 'd fs \<Rightarrow> 'a outcome \<times> 'd fs" where
  "run_clean m f = (case m \<lparr>files = f, plan = []\<rparr> of (r, w) \<Rightarrow> (r, files w))"

named_theorems run_exec "equations that execute a program with no fault left"

lemma run_ret [run_exec]: "run_clean (io_ret x) f = (Ok x, f)"
  by (simp add: run_clean_def io_ret_def)

lemma run_fail [run_exec]: "run_clean (io_fail e) f = (Failed e, f)"
  by (simp add: run_clean_def io_fail_def)

lemma run_sys_bind:
  "run_clean (io_bind (sys act) k) f =
     (case act f of (Ok x, g) \<Rightarrow> run_clean (k x) g | (Failed e, g) \<Rightarrow> (Failed e, g) | (Died, g) \<Rightarrow> (Died, g))"
  by (auto simp: run_clean_def io_bind_def sys_def split: prod.splits outcome.splits)

lemma run_sys: "run_clean (sys act) f = act f"
  by (auto simp: run_clean_def sys_def split: prod.splits)

lemma run_try_sys_bind:
  "run_clean (io_bind (io_try (sys act)) k) f =
     (case act f of (Ok x, g) \<Rightarrow> run_clean (k (Inr x)) g | (Failed e, g) \<Rightarrow> run_clean (k (Inl e)) g
      | (Died, g) \<Rightarrow> (Died, g))"
  by (auto simp: run_clean_def io_bind_def io_try_def sys_def split: prod.splits outcome.splits)

lemma run_lstat [run_exec]:
  "run_clean (io_bind (lstat p) k) f = run_clean (k (f p)) f"
  "run_clean (io_bind (io_try (lstat p)) h) f = run_clean (h (Inr (f p))) f"
  by (simp_all add: prim_defs run_sys_bind run_try_sys_bind)

lemma run_prims [run_exec]:
  "run_clean (io_bind (write_file p c) k) f = run_clean (k ()) (f(p \<mapsto> Reg c))"
  "run_clean (io_bind (fsync_file p) k) f = run_clean (k ()) f"
  "run_clean (io_bind (close_file p) k) f = run_clean (k ()) f"
  "run_clean (close_file p) f = (Ok (), f)"
  "run_clean (io_bind (sync_fs p) k) f = run_clean (k ()) f"
  "run_clean (sync_fs p) f = (Ok (), f)"
  by (simp_all add: prim_defs run_sys_bind run_sys)

lemma run_read_file [run_exec]:
  "run_clean (io_bind (read_file p) k) f =
     (case f p of Some (Reg c) \<Rightarrow> run_clean (k c) f | _ \<Rightarrow> (Failed ''read error'', f))"
  "run_clean (io_bind (io_try (read_file p)) h) f =
     (case f p of Some (Reg c) \<Rightarrow> run_clean (h (Inr c)) f | _ \<Rightarrow> run_clean (h (Inl ''read error'')) f)"
  by (auto simp: prim_defs run_sys_bind run_try_sys_bind split: option.split node.split)

lemma run_create_excl [run_exec]:
  "run_clean (io_bind (create_excl p) k) f =
     (if f p = None then run_clean (k ()) (f(p \<mapsto> Reg (Junk 0))) else (Failed ''file exists'', f))"
  by (auto simp: prim_defs run_sys_bind split: option.split)

lemma run_make_dir [run_exec]:
  "run_clean (io_bind (make_dir p) k) f =
     (if f p = None then run_clean (k ()) (f(p \<mapsto> Dir)) else (Failed ''file exists'', f))"
  by (auto simp: prim_defs run_sys_bind split: option.split)

lemma run_remove_file [run_exec]:
  "run_clean (io_bind (remove_file p) k) f = (case f p of None \<Rightarrow> (Failed ''no such file'', f)
      | Some n \<Rightarrow> if n = Dir then (Failed ''is a directory'', f) else run_clean (k ()) (f(p := None)))"
  "run_clean (remove_file p) f = (case f p of None \<Rightarrow> (Failed ''no such file'', f)
      | Some n \<Rightarrow> if n = Dir then (Failed ''is a directory'', f) else (Ok (), f(p := None)))"
  "run_clean (io_bind (io_try (remove_file p)) h) f =
     (case f p of None \<Rightarrow> run_clean (h (Inl ''no such file'')) f
      | Some n \<Rightarrow> if n = Dir then run_clean (h (Inl ''is a directory'')) f
                  else run_clean (h (Inr ())) (f(p := None)))"
  by (auto simp: prim_defs run_sys_bind run_sys run_try_sys_bind split: option.split)

lemma run_rename_file [run_exec]:
  "run_clean (io_bind (rename_file a b) k) f = (case f a of None \<Rightarrow> (Failed ''no such file'', f)
      | Some n \<Rightarrow> if n = Dir \<or> f b = Some Dir then (Failed ''is a directory'', f)
                  else run_clean (k ()) ((f(a := None))(b \<mapsto> n)))"
  "run_clean (rename_file a b) f = (case f a of None \<Rightarrow> (Failed ''no such file'', f)
      | Some n \<Rightarrow> if n = Dir \<or> f b = Some Dir then (Failed ''is a directory'', f)
                  else (Ok (), (f(a := None))(b \<mapsto> n)))"
  by (auto simp: prim_defs run_sys_bind run_sys split: option.split)

lemmas io_program = io_try_try io_bind_assoc io_bind_ret io_bind_fail io_bind_if io_seq_bind io_when_if
  io_bind_lift io_try_bind io_try_ret io_try_fail io_try_if

end
