(* ===== verification/Crash_Store.thy ===== *)
theory Crash_Store
  imports Prelude
begin

text \<open>
  Documents that must survive a power loss.  The reader that every store of the program has (a
  real file below a size limit whose bytes decode to a valid document) and the contract of a
  store whose updates are atomic under power loss, with the theorems its clients rely on.  The
  card registry, the Syncthing configuration and the single-file stores of the controller are
  interpretations of the contract.
\<close>

section \<open>Reading a document\<close>

datatype 'd read_result = Absent | Found 'd | Unreadable error

definition read_checked :: "nat \<Rightarrow> ('d \<Rightarrow> bool) \<Rightarrow> string \<Rightarrow> ('d, 'd read_result) io" where
  "read_checked limit valid p =
     io_bind (io_try (lstat p)) (\<lambda>info. case info of
       Inl e \<Rightarrow> io_ret (Unreadable e)
     | Inr None \<Rightarrow> io_ret Absent
     | Inr (Some node) \<Rightarrow> (case node of
         Reg c \<Rightarrow>
           if content_size c > limit then io_ret (Unreadable ''unsafe file'')
           else io_bind (io_try (read_file p)) (\<lambda>contents. case contents of
             Inl e \<Rightarrow> io_ret (Unreadable e)
           | Inr (Junk n) \<Rightarrow> io_ret (Unreadable ''invalid document'')
           | Inr (Doc d n) \<Rightarrow>
               if valid d then io_ret (Found d) else io_ret (Unreadable ''invalid document''))
       | _ \<Rightarrow> io_ret (Unreadable ''unsafe file'')))"

definition classify :: "nat \<Rightarrow> ('d \<Rightarrow> bool) \<Rightarrow> 'd node option \<Rightarrow> 'd read_result" where
  "classify limit valid node = (case node of
     None \<Rightarrow> Absent
   | Some (Reg c) \<Rightarrow>
       if content_size c > limit then Unreadable ''unsafe file''
       else (case c of
               Doc d n \<Rightarrow> if valid d then Found d else Unreadable ''invalid document''
             | Junk n \<Rightarrow> Unreadable ''invalid document'')
   | Some _ \<Rightarrow> Unreadable ''unsafe file'')"

lemma classify_None [simp]: "classify l v None = Absent"
  by (simp add: classify_def)

lemma classify_Absent [simp]: "classify l v n = Absent \<longleftrightarrow> n = None"
  by (auto simp: classify_def split: option.splits node.splits content.splits)

lemma classify_Found:
  "classify l v n = Found d \<longleftrightarrow> (\<exists>k. n = Some (Reg (Doc d k)) \<and> k \<le> l \<and> v d)"
  by (auto simp: classify_def split: option.splits node.splits content.splits)

lemma wp_read_checked [wp_exec]:
  "wp b (io_bind (read_checked l v p) k) Q E C f \<longleftrightarrow>
     C f \<and> (b \<longrightarrow> wp b (k (Unreadable ''I/O error'')) Q E C f) \<and> wp b (k (classify l v (f p))) Q E C f"
  by (cases "f p"; cases "the (f p)")
     (auto simp: read_checked_def classify_def wp_exec split: content.splits)

lemma run_read_checked [run_exec]:
  "run_clean (io_bind (read_checked l v p) k) f = run_clean (k (classify l v (f p))) f"
  by (cases "f p"; cases "the (f p)")
     (auto simp: read_checked_def classify_def io_program run_exec split: content.splits)

section \<open>A store that survives power loss\<close>

text \<open>One boot of the process: it runs a program under a plan of faults and leaves files.\<close>

definition boot :: "('d, 'a) io \<Rightarrow> fault list \<Rightarrow> 'd fs \<Rightarrow> 'a outcome \<times> 'd fs" where
  "boot m p f = (case m \<lparr>files = f, plan = p\<rparr> of (r, w) \<Rightarrow> (r, files w))"

lemma boot_sat:
  assumes "wp b m Q E C f" and "b \<or> Fail \<notin> set p" and "boot m p f = (r, g)"
  shows "case r of Ok x \<Rightarrow> Q x g | Failed e \<Rightarrow> E e g | Died \<Rightarrow> C g \<and> Die \<in> set p"
proof -
  obtain w where m: "m \<lparr>files = f, plan = p\<rparr> = (r, w)" and g: "g = files w"
    using assms(3) by (auto simp: boot_def split: prod.splits)
  have "outcome_sat b Q E C (deathless \<lparr>files = f, plan = p\<rparr>) (m \<lparr>files = f, plan = p\<rparr>)"
    by (rule wpE) (use assms(1,2) in \<open>simp_all add: allowed_def\<close>)
  then show ?thesis
    using m g by (cases r) (auto simp: deathless_def)
qed

lemma run_clean_boot: "run_clean m f = boot m [] f"
  by (simp add: run_clean_def boot_def)

lemma run_clean_sat:
  assumes "wp False m Q E C f" and "run_clean m f = (r, g)"
  shows "case r of Ok x \<Rightarrow> Q x g | Failed e \<Rightarrow> E e g | Died \<Rightarrow> False"
  using boot_sat [OF assms(1), of "[]" r g] assms(2) by (cases r) (auto simp: run_clean_boot)

fun boots :: "('d, 'a) io \<Rightarrow> fault list list \<Rightarrow> 'd fs \<Rightarrow> 'd fs" where
  "boots m [] f = f"
| "boots m (p # ps) f = boots m ps (snd (boot m p f))"

locale crash_store =
  fixes stored :: "'d \<Rightarrow> 's"
    and acceptable :: "'d \<Rightarrow> bool"
    and holds :: "'s \<Rightarrow> 'f fs \<Rightarrow> bool"
    and between :: "'s \<Rightarrow> 's \<Rightarrow> 'f fs \<Rightarrow> bool"
    and update :: "'d \<Rightarrow> ('f, unit) io"
    and recover :: "('f, 's) io"
  assumes holds_between: "holds x f \<Longrightarrow> between x y f \<and> between y x f"
    and update_wp: "holds x f \<Longrightarrow> acceptable d \<Longrightarrow>
      wp False (update d) (\<lambda>_. holds (stored d)) (\<lambda>_ _. False) (between x (stored d)) f"
    and recover_wp: "between x y f \<Longrightarrow>
      wp False recover (\<lambda>r g. (r = x \<or> r = y) \<and> holds r g) (\<lambda>_ _. False) (between x y) f"
begin

lemma recover_boot:
  assumes "between x y f" and "Fail \<notin> set p"
  shows "between x y (snd (boot recover p f))"
proof -
  obtain r g where b: "boot recover p f = (r, g)" by fastforce
  have "case r of Ok z \<Rightarrow> (z = x \<or> z = y) \<and> holds z g | Failed e \<Rightarrow> False
      | Died \<Rightarrow> between x y g \<and> Die \<in> set p"
    using boot_sat [OF recover_wp [OF assms(1)] _ b] assms(2) by simp
  then show ?thesis using b holds_between by (cases r) auto
qed

lemma recover_boots:
  "between x y f \<Longrightarrow> \<forall>p \<in> set ps. Fail \<notin> set p \<Longrightarrow> between x y (boots recover ps f)"
  by (induction ps arbitrary: f) (simp_all add: recover_boot)

lemma recover_clean:
  assumes "between x y f"
  shows "\<exists>r g. run_clean recover f = (Ok r, g) \<and> (r = x \<or> r = y) \<and> holds r g"
proof -
  obtain r g where b: "boot recover [] f = (r, g)" by fastforce
  with boot_sat [OF recover_wp [OF assms] _ b] show ?thesis
    by (cases r) (auto simp: run_clean_boot)
qed

text \<open>
  An update that is cut off anywhere, followed by any number of recoveries that are cut off
  themselves, leaves the old or the new document; an update that returned leaves the new one.
\<close>

lemma update_atomic:
  assumes "holds x f" and "acceptable d" and "Fail \<notin> set p" and "\<forall>q \<in> set ps. Fail \<notin> set q"
    and "boot (update d) p f = (r, g)"
  shows "\<exists>z h. run_clean recover (boots recover ps g) = (Ok z, h) \<and> holds z h \<and>
     (r = Ok () \<and> z = stored d \<or> r = Died \<and> (z = x \<or> z = stored d))"
proof -
  have sat: "case r of Ok _ \<Rightarrow> holds (stored d) g | Failed e \<Rightarrow> False
      | Died \<Rightarrow> between x (stored d) g \<and> Die \<in> set p"
    using boot_sat [OF update_wp [OF assms(1,2)] _ assms(5)] assms(3) by simp
  show ?thesis
  proof (cases r)
    case (Ok u)
    then have "between (stored d) (stored d) g" using sat holds_between by auto
    from recover_clean [OF recover_boots [OF this assms(4)]] Ok show ?thesis by auto
  next
    case Died
    then have "between x (stored d) g" using sat by auto
    from recover_clean [OF recover_boots [OF this assms(4)]] Died show ?thesis by auto
  qed (use sat in auto)
qed

text \<open>Any number of updates, each cut off or not and followed by recoveries.\<close>

fun history :: "('d \<times> fault list \<times> fault list list) list \<Rightarrow> 'f fs \<Rightarrow> 's list \<times> 'f fs" where
  "history [] f = ([], f)"
| "history ((d, p, ps) # us) f =
     (case run_clean recover (boots recover ps (snd (boot (update d) p f))) of
        (Ok x, g) \<Rightarrow> (case history us g of (xs, h) \<Rightarrow> (x # xs, h))
      | (_, g) \<Rightarrow> ([], g))"

lemma history_complete:
  "holds x f \<Longrightarrow>
   \<forall>(d, p, ps) \<in> set us. acceptable d \<and> Fail \<notin> set p \<and> (\<forall>q \<in> set ps. Fail \<notin> set q) \<Longrightarrow>
   history us f = (xs, g) \<Longrightarrow>
   length xs = length us \<and> set xs \<subseteq> insert x (stored ` fst ` set us) \<and> holds (last (x # xs)) g"
proof (induction us arbitrary: x f xs)
  case (Cons u us)
  obtain d p ps where u: "u = (d, p, ps)" by (cases u)
  obtain r f1 where b: "boot (update d) p f = (r, f1)" by fastforce
  have ok: "acceptable d" "Fail \<notin> set p" "\<forall>q \<in> set ps. Fail \<notin> set q" using Cons.prems(2) u by auto
  from update_atomic [OF Cons.prems(1) ok b] obtain z h where
    run: "run_clean recover (boots recover ps f1) = (Ok z, h)" and hz: "holds z h"
    and z: "z = x \<or> z = stored d" by auto
  obtain ys g' where rest: "history us h = (ys, g')" by fastforce
  have "xs = z # ys" "g = g'" using Cons.prems(3) run rest by (simp_all add: u b)
  moreover have "\<forall>(d, p, ps) \<in> set us. acceptable d \<and> Fail \<notin> set p \<and> (\<forall>q \<in> set ps. Fail \<notin> set q)"
    using Cons.prems(2) by simp
  ultimately show ?case using Cons.IH [of z h ys] hz rest z u by (auto simp: image_iff)
qed simp

end

section \<open>Three files: the document, its temporary and its backup\<close>

definition tmp_of :: "string \<Rightarrow> string" where "tmp_of p = p @ ''.tmp''"
definition bak_of :: "string \<Rightarrow> string" where "bak_of p = p @ ''.bak''"

lemma triple_distinct [simp]:
  "tmp_of p \<noteq> p" "p \<noteq> tmp_of p" "bak_of p \<noteq> p" "p \<noteq> bak_of p"
  "tmp_of p \<noteq> bak_of p" "bak_of p \<noteq> tmp_of p"
  by (simp_all add: tmp_of_def bak_of_def)

definition plain :: "'d node option \<Rightarrow> bool" where
  "plain n \<longleftrightarrow> (case n of None \<Rightarrow> True | Some (Reg c) \<Rightarrow> True | _ \<Rightarrow> False)"

lemma plain_simps [simp]: "plain None" "plain (Some (Reg c))" "\<not> plain (Some Dir)"
  "\<not> plain (Some Link)" "\<not> plain (Some Special)"
  by (simp_all add: plain_def)

lemma plain_cases: "plain n \<Longrightarrow> n = None \<or> (\<exists>c. n = Some (Reg c))"
  by (auto simp: plain_def split: option.splits node.splits)

definition triple_plain :: "string \<Rightarrow> 'd fs \<Rightarrow> bool" where
  "triple_plain p f \<longleftrightarrow> plain (f p) \<and> plain (f (tmp_of p)) \<and> plain (f (bak_of p))"

text \<open>The document that recovery finds: the current one when it is valid, else the backup.\<close>

definition recoverable :: "nat \<Rightarrow> ('d \<Rightarrow> bool) \<Rightarrow> string \<Rightarrow> 'd fs \<Rightarrow> 'd option" where
  "recoverable l v p f = (case classify l v (f p) of
     Found d \<Rightarrow> Some d
   | _ \<Rightarrow> (case classify l v (f (bak_of p)) of Found d \<Rightarrow> Some d | _ \<Rightarrow> None))"

lemma triple_plainD:
  "triple_plain p f \<Longrightarrow> plain (f p)" "triple_plain p f \<Longrightarrow> plain (f (tmp_of p))"
  "triple_plain p f \<Longrightarrow> plain (f (bak_of p))"
  by (simp_all add: triple_plain_def)

lemma plain_not_dir:
  "f d = Some Dir \<Longrightarrow> triple_plain p f \<Longrightarrow>
   d \<noteq> p \<and> d \<noteq> tmp_of p \<and> d \<noteq> bak_of p \<and> p \<noteq> d \<and> tmp_of p \<noteq> d \<and> bak_of p \<noteq> d"
  by (auto simp: triple_plain_def)

lemma classify_plain_cases [consumes 1, case_names missing good bad]:
  assumes "plain n"
  obtains "n = None" | d k where "n = Some (Reg (Doc d k))" "k \<le> l" "v d"
    | c e where "n = Some (Reg c)" "classify l v (Some (Reg c)) = Unreadable e"
  using plain_cases [OF assms]
  by (cases "classify l v n") (auto simp: classify_Found)

lemma classify_Doc [simp]: "k \<le> l \<Longrightarrow> v d \<Longrightarrow> classify l v (Some (Reg (Doc d k))) = Found d"
  by (simp add: classify_def)

lemma classify_Junk [simp]: "\<exists>e. classify l v (Some (Reg (Junk k))) = Unreadable e"
  by (simp add: classify_def)

end
