(* ===== verification/Go_Path.thy ===== *)
theory Go_Path
  imports Prelude
begin

text \<open>
  Slash-separated paths as Go's \<open>path/filepath\<close> treats them on Unix (\<open>Clean\<close>, \<open>Join\<close>,
  \<open>Rel\<close>, \<open>Base\<close>, \<open>Dir\<close>, \<open>IsAbs\<close>), and the guards of \<open>internal/leaf/pathguard.go\<close> built on
  them.  A path is read as a rooted flag and a list of components; \<open>Clean\<close> resolves \<open>.\<close> and
  \<open>..\<close> on that list.  The result that the rest of the development uses is
  \<open>relative_within_iff\<close>: the guard accepts a target exactly when its components extend the
  root's and none of the extension climbs.
\<close>

section \<open>filepath.Clean\<close>

definition rooted :: "string \<Rightarrow> bool" where
  "rooted p = (case p of [] \<Rightarrow> False | c # _ \<Rightarrow> c = CHR ''/'')"

definition is_abs :: "string \<Rightarrow> bool" where
  "is_abs p = rooted p"

fun clean_step :: "bool \<Rightarrow> string list \<Rightarrow> string \<Rightarrow> string list" where
  "clean_step r st c =
     (if c = '''' \<or> c = ''.'' then st
      else if c = ''..'' then
        (case st of
           [] \<Rightarrow> (if r then [] else [''..''])
         | t # ts \<Rightarrow> (if t = ''..'' then ''..'' # t # ts else ts))
      else c # st)"

definition clean_comps :: "bool \<Rightarrow> string list \<Rightarrow> string list" where
  "clean_comps r cs = rev (foldl (clean_step r) [] cs)"

definition path_comps :: "string \<Rightarrow> string list" where
  "path_comps p = clean_comps (rooted p) (split_on CHR ''/'' p)"

definition render :: "bool \<Rightarrow> string list \<Rightarrow> string" where
  "render r cs = (if r then ''/'' @ join_with ''/'' cs
                  else if cs = [] then ''.'' else join_with ''/'' cs)"

definition clean :: "string \<Rightarrow> string" where
  "clean p = render (rooted p) (path_comps p)"

definition clean_path :: "string \<Rightarrow> string" where
  "clean_path p = (if p = '''' then '''' else clean p)"

definition join_path :: "string list \<Rightarrow> string" where
  "join_path ps = (case dropWhile (\<lambda>p. p = '''') ps of
     [] \<Rightarrow> ''''
   | qs \<Rightarrow> clean (join_with ''/'' qs))"

definition base_name :: "string \<Rightarrow> string" where
  "base_name p =
     (if p = '''' then ''.''
      else let q = rev (dropWhile (\<lambda>c. c = CHR ''/'') (rev p))
           in if q = '''' then ''/'' else last (split_on CHR ''/'' q))"

definition dir_name :: "string \<Rightarrow> string" where
  "dir_name p = clean (rev (dropWhile (\<lambda>c. c \<noteq> CHR ''/'') (rev p)))"

fun strip_common :: "string list \<Rightarrow> string list \<Rightarrow> string list \<times> string list" where
  "strip_common (x # xs) (y # ys) = (if x = y then strip_common xs ys else (x # xs, y # ys))"
| "strip_common xs ys = (xs, ys)"

definition rel_path :: "string \<Rightarrow> string \<Rightarrow> error + string" where
  "rel_path basepath targpath =
     (let base = clean basepath; targ = clean targpath
      in if targ = base then Inr ''.''
         else if rooted base \<noteq> rooted targ then Inl ''Rel: can't make target relative to base''
         else let b = path_comps base;
                  t = (if targ = ''.'' then [''.''] else path_comps targ)
              in case strip_common b t of (bs, ts) \<Rightarrow>
                   if bs \<noteq> [] \<and> ts \<noteq> [] \<and> hd bs = ''..''
                   then Inl ''Rel: can't make target relative to base''
                   else Inr (join_with ''/'' (replicate (length bs) ''..'' @ ts)))"

section \<open>internal/leaf/pathguard.go\<close>

definition relative_within :: "string \<Rightarrow> string \<Rightarrow> error + string" where
  "relative_within root target =
     sum_bind (rel_path (clean root) (clean target)) (\<lambda>rel.
       if rel = ''..'' \<or> has_prefix rel ''../'' \<or> is_abs rel
       then Inl ''path escapes root''
       else Inr rel)"

definition join_within :: "string \<Rightarrow> string list \<Rightarrow> error + string" where
  "join_within root parts =
     (if root = '''' then Inl ''content root is empty''
      else if \<exists>p \<in> set parts. is_abs p then Inl ''absolute path component''
      else let target = join_path (root # parts)
           in sum_bind (relative_within root target) (\<lambda>_. Inr target))"

section \<open>Cleaned components\<close>

lemma rooted_simps [simp]: "\<not> rooted ''''" "rooted (c # p) \<longleftrightarrow> c = CHR ''/''"
  by (simp_all add: rooted_def)

text \<open>A cleaned component list: no empty or dot component; \<open>..\<close> only in front, never when rooted.\<close>

definition name_comp :: "string \<Rightarrow> bool" where
  "name_comp c \<longleftrightarrow> c \<noteq> '''' \<and> c \<noteq> ''.'' \<and> c \<noteq> ''..'' \<and> CHR ''/'' \<notin> set c"

definition norm_comps :: "bool \<Rightarrow> string list \<Rightarrow> bool" where
  "norm_comps r cs \<longleftrightarrow>
     (\<exists>k ns. cs = replicate k ''..'' @ ns \<and> (\<forall>n \<in> set ns. name_comp n) \<and> (r \<longrightarrow> k = 0))"

lemma clean_step_norm:
  assumes "norm_comps r (rev st)" and "CHR ''/'' \<notin> set c"
  shows "norm_comps r (rev (clean_step r st c))"
proof -
  from assms(1) obtain k ns where st: "rev st = replicate k ''..'' @ ns"
    and ns: "\<forall>n \<in> set ns. name_comp n" and k: "r \<longrightarrow> k = 0"
    by (auto simp: norm_comps_def)
  consider "c = '''' \<or> c = ''.''" | "c = ''..''" | "name_comp c"
    using assms(2) by (auto simp: name_comp_def)
  then show ?thesis
  proof cases
    case 1
    then show ?thesis using assms(1) by auto
  next
    case 2
    show ?thesis
    proof (cases ns rule: rev_cases)
      case Nil
      then have "st = replicate k ''..''" using st by (metis append_Nil2 rev_replicate rev_rev_ident)
      then show ?thesis
        using 2 k by (cases k) (auto simp: norm_comps_def replicate_append_same
          intro: exI [where x = "Suc k"] exI [where x = 1] exI [where x = "Suc (Suc k)" for k])
    next
      case (snoc ms n)
      then have "st = n # rev (replicate k ''..'' @ ms)"
        using st by (metis append_assoc rev.simps(2) rev_rev_ident rev_append append_Cons append_Nil rev_eq_Cons_iff)
      moreover have "n \<noteq> ''..''" using snoc ns by (simp add: name_comp_def)
      ultimately show ?thesis using 2 snoc ns k by (auto simp: norm_comps_def)
    qed
  next
    case 3
    then have "clean_step r st c = c # st" by (auto simp: name_comp_def)
    then show ?thesis using st ns k 3
      by (auto simp: norm_comps_def intro!: exI [where x = k] exI [where x = "ns @ [c]"])
  qed
qed

lemma foldl_clean_norm:
  "norm_comps r (rev st) \<Longrightarrow> (\<forall>c \<in> set cs. CHR ''/'' \<notin> set c) \<Longrightarrow>
   norm_comps r (rev (foldl (clean_step r) st cs))"
  by (induction cs arbitrary: st) (auto simp del: clean_step.simps dest: clean_step_norm)

lemma path_comps_norm: "norm_comps (rooted p) (path_comps p)"
  unfolding path_comps_def clean_comps_def
  by (rule foldl_clean_norm) (auto simp: norm_comps_def dest: split_on_elem)

lemma foldl_clean_names:
  "(\<forall>n \<in> set ns. name_comp n) \<Longrightarrow> foldl (clean_step r) st ns = rev ns @ st"
  by (induction ns arbitrary: st) (auto simp: name_comp_def)

lemma foldl_clean_dotdots:
  "foldl (clean_step False) (replicate j ''..'') (replicate k ''..'') = replicate (j + k) ''..''"
proof (induction k arbitrary: j)
  case (Suc k)
  have "clean_step False (replicate j ''..'') ''..'' = replicate (Suc j) ''..''"
    by (cases j) auto
  with Suc [of "Suc j"] show ?case by (simp del: clean_step.simps)
qed simp

lemma clean_comps_norm_id: "norm_comps r cs \<Longrightarrow> clean_comps r cs = cs"
proof -
  assume "norm_comps r cs"
  then obtain k ns where cs: "cs = replicate k ''..'' @ ns"
    and ns: "\<forall>n \<in> set ns. name_comp n" and k: "r \<longrightarrow> k = 0"
    by (auto simp: norm_comps_def)
  have "foldl (clean_step r) [] (replicate k ''..'') = replicate k ''..''"
    using k foldl_clean_dotdots [of 0 k] by (cases r) auto
  then show ?thesis
    by (simp add: clean_comps_def cs foldl_clean_names [OF ns])
qed

lemma norm_comp_cases: "norm_comps r cs \<Longrightarrow> c \<in> set cs \<Longrightarrow> c = ''..'' \<or> name_comp c"
  unfolding norm_comps_def by (metis Un_iff in_set_replicate set_append)

lemma norm_no_slash:
  assumes "norm_comps r cs" and "c \<in> set cs"
  shows "CHR ''/'' \<notin> set c"
  using norm_comp_cases [OF assms] by (elim disjE) (simp_all add: name_comp_def)

lemma norm_not_empty_comp:
  assumes "norm_comps r cs" and "c \<in> set cs"
  shows "c \<noteq> '''' \<and> c \<noteq> ''.''"
  using norm_comp_cases [OF assms] by (elim disjE) (simp_all add: name_comp_def)

lemma hd_join_with: "c \<noteq> '''' \<Longrightarrow> \<exists>r. join_with sep (c # cs) = hd c # r"
  by (cases c; cases cs) auto

lemma rooted_join:
  assumes "norm_comps r cs"
  shows "\<not> rooted (join_with ''/'' cs)"
proof (cases cs)
  case (Cons c ds)
  with assms have c: "c \<noteq> ''''" "CHR ''/'' \<notin> set c"
    using norm_no_slash norm_not_empty_comp by fastforce+
  obtain t where "join_with ''/'' cs = hd c # t"
    using hd_join_with [OF c(1)] Cons by blast
  moreover have "hd c \<noteq> CHR ''/''" using c by (cases c) auto
  ultimately show ?thesis by simp
qed simp

lemma rooted_render [simp]: "norm_comps r cs \<Longrightarrow> rooted (render r cs) = r"
  using rooted_join [of r cs] by (simp add: render_def)

lemma split_render:
  assumes "norm_comps r cs" and "cs \<noteq> []"
  shows "split_on CHR ''/'' (render r cs) = (if r then '''' # cs else cs)"
  using assms split_on_join_with [of cs "CHR ''/''"] norm_no_slash [OF assms(1)]
  by (simp add: render_def)

lemma clean_comps_Nil_Cons: "clean_comps r ('''' # cs) = clean_comps r cs"
  by (simp add: clean_comps_def)

lemma path_comps_root [simp]: "path_comps ''/'' = []" "path_comps ''.'' = []" "path_comps '''' = []"
  by (simp_all add: path_comps_def clean_comps_def)

lemma path_comps_render [simp]:
  assumes "norm_comps r cs"
  shows "path_comps (render r cs) = cs"
proof (cases "cs = []")
  case True
  then show ?thesis by (simp add: render_def)
next
  case False
  then have "clean_comps r (split_on CHR ''/'' (render r cs)) = clean_comps r cs"
    by (simp add: split_render [OF assms] clean_comps_Nil_Cons)
  then show ?thesis
    using assms by (simp add: path_comps_def [of "render r cs"] clean_comps_norm_id)
qed

lemma rooted_clean [simp]: "rooted (clean p) = rooted p"
  by (simp add: clean_def path_comps_norm)

lemma path_comps_clean [simp]: "path_comps (clean p) = path_comps p"
  by (simp add: clean_def path_comps_norm)

lemma clean_idem [simp]: "clean (clean p) = clean p"
  by (simp add: clean_def path_comps_norm)

lemma clean_eq_iff: "clean p = clean q \<longleftrightarrow> rooted p = rooted q \<and> path_comps p = path_comps q"
proof
  assume eq: "clean p = clean q"
  have "rooted (clean p) = rooted (clean q)" "path_comps (clean p) = path_comps (clean q)"
    using eq by (simp_all only:)
  then show "rooted p = rooted q \<and> path_comps p = path_comps q" by simp
qed (simp add: clean_def)

lemma join_norm_not_empty: "norm_comps r cs \<Longrightarrow> cs \<noteq> [] \<Longrightarrow> join_with ''/'' cs \<noteq> ''''"
  using norm_not_empty_comp [of r cs] hd_join_with [of "hd cs" "''/''" "tl cs"] by (cases cs) auto

lemma clean_not_empty [simp]: "clean p \<noteq> ''''"
  using join_norm_not_empty [OF path_comps_norm, of p] by (auto simp: clean_def render_def)

section \<open>What the guard accepts\<close>

lemma strip_common_spec:
  "strip_common b t = (bs, ts) \<Longrightarrow>
   \<exists>p. b = p @ bs \<and> t = p @ ts \<and> (bs = [] \<or> ts = [] \<or> hd bs \<noteq> hd ts)"
proof (induction b t rule: strip_common.induct)
  case (1 x xs y ys)
  then show ?case by (cases "x = y") (auto intro: exI [where x = "_ # _"])
qed auto

lemma strip_common_append [simp]: "strip_common b (b @ c) = ([], c)"
  by (induction b) (cases c; simp)+

lemma climbs_iff:
  assumes "\<forall>c \<in> set cs. CHR ''/'' \<notin> set c" and "cs \<noteq> []"
  shows "join_with ''/'' cs = ''..'' \<or> has_prefix (join_with ''/'' cs) ''../'' \<longleftrightarrow> hd cs = ''..''"
proof -
  have cs: "split_on CHR ''/'' (join_with ''/'' cs) = cs"
    using assms by (simp add: split_on_join_with)
  have "hd cs = ''..''" if "join_with ''/'' cs = ''..''"
    using cs by (auto simp: that)
  moreover have "hd cs = ''..''" if pre: "has_prefix (join_with ''/'' cs) ''../''"
  proof -
    obtain r where "join_with ''/'' cs = ''..'' @ CHR ''/'' # r"
      using has_prefixE [OF pre] by auto
    then have "cs = ''..'' # split_on CHR ''/'' r"
      using cs split_on_append [of "CHR ''/''" "''..''" r] by simp
    then show ?thesis by (simp only: list.sel)
  qed
  moreover have "join_with ''/'' cs = ''..'' \<or> has_prefix (join_with ''/'' cs) ''../''" if hd: "hd cs = ''..''"
  proof -
    obtain ds where "cs = ''..'' # ds" using hd assms(2) by (cases cs) auto
    then show ?thesis by (cases ds) (simp_all add: has_prefix_def)
  qed
  ultimately show ?thesis by blast
qed

lemma norm_append_dotdot: "norm_comps r (b @ c) \<Longrightarrow> ''..'' \<in> set c \<Longrightarrow> hd c = ''..''"
proof -
  assume n: "norm_comps r (b @ c)" and c: "''..'' \<in> set c"
  obtain k ns where bc: "b @ c = replicate k ''..'' @ ns" and ns: "\<forall>n \<in> set ns. name_comp n"
    using n by (auto simp: norm_comps_def)
  show ?thesis
  proof (cases "length b < k")
    case True
    have "hd c = (b @ c) ! length b" using c by (cases c) auto
    then show ?thesis using True by (simp add: bc nth_append)
  next
    case False
    then have "c = drop (length b - k) ns"
      using arg_cong [OF bc, of "drop (length b)"] by simp
    then have "name_comp ''..''" using c ns by (auto dest: in_set_dropD)
    then show ?thesis by (simp add: name_comp_def)
  qed
qed

definition rel_string :: "string list \<Rightarrow> string" where
  "rel_string cs = (if cs = [] then ''.'' else join_with ''/'' cs)"

text \<open>The raw relative path of two cleaned paths, before the guard looks at it.\<close>

lemma rel_path_cases:
  assumes "rel_path root target = Inr rel"
  shows "(\<exists>cs. path_comps target = path_comps root @ cs \<and> rel = rel_string cs \<and> rooted root = rooted target) \<or>
         rel = ''..'' \<or> has_prefix rel ''../''"
proof (cases "clean target = clean root")
  case True
  then show ?thesis using assms
    by (auto simp: rel_path_def rel_string_def clean_eq_iff intro!: exI [where x = "[]"])
next
  case False
  define t where "t = (if clean target = ''.'' then [''.''] else path_comps target)"
  obtain bs ts where st: "strip_common (path_comps root) t = (bs, ts)" by fastforce
  have same: "rooted root = rooted target"
    and rel: "rel = join_with ''/'' (replicate (length bs) ''..'' @ ts)"
    using assms False st by (auto simp: rel_path_def Let_def t_def split: if_splits)
  obtain p where p: "path_comps root = p @ bs" "t = p @ ts"
    using strip_common_spec [OF st] by blast
  have slash: "\<forall>c \<in> set t. CHR ''/'' \<notin> set c"
    using norm_no_slash [OF path_comps_norm] by (auto simp: t_def)
  show ?thesis
  proof (cases bs)
    case Nil
    have "path_comps target \<noteq> path_comps root" using False same by (simp add: clean_eq_iff)
    moreover have "t = path_comps target"
    proof (rule ccontr)
      assume "t \<noteq> path_comps target"
      then have dot: "clean target = ''.''" "t = [''.'']" by (auto simp: t_def split: if_splits)
      have "path_comps target = []" using arg_cong [OF dot(1), of path_comps] by simp
      moreover have "''.'' \<notin> set (path_comps root)"
        using norm_not_empty_comp [OF path_comps_norm] by blast
      ultimately show False
        using dot(2) p Nil \<open>path_comps target \<noteq> path_comps root\<close> by (auto simp: append_eq_Cons_conv Cons_eq_append_conv)
    qed
    ultimately have "path_comps target = path_comps root @ ts" "ts \<noteq> []" using Nil p by auto
    moreover have "rel = join_with ''/'' ts" using rel Nil by simp
    ultimately show ?thesis using same by (metis rel_string_def)
  next
    case (Cons b bs')
    have "\<forall>c \<in> set (replicate (length bs) ''..'' @ ts). CHR ''/'' \<notin> set c"
      using slash p(2) by auto
    moreover have "replicate (length bs) ''..'' @ ts \<noteq> []" using Cons by simp
    moreover have "hd (replicate (length bs) ''..'' @ ts) = ''..''" using Cons by simp
    ultimately have "rel = ''..'' \<or> has_prefix rel ''../''"
      unfolding rel by (rule climbs_iff [THEN iffD2])
    then show ?thesis by blast
  qed
qed

lemma rel_string_climbs:
  assumes "norm_comps r (b @ cs)"
  shows "rel_string cs = ''..'' \<or> has_prefix (rel_string cs) ''../'' \<longleftrightarrow> ''..'' \<in> set cs"
proof (cases "cs = []")
  case True
  then show ?thesis by (simp add: rel_string_def has_prefix_def)
next
  case False
  have "\<forall>c \<in> set cs. CHR ''/'' \<notin> set c"
    using norm_no_slash [OF assms] by auto
  moreover have "hd cs = ''..'' \<longleftrightarrow> ''..'' \<in> set cs"
    using norm_append_dotdot [OF assms] list.set_sel(1) [OF False] by metis
  ultimately show ?thesis
    using False climbs_iff [of cs] by (simp add: rel_string_def)
qed

lemma rel_string_not_abs:
  assumes "norm_comps r (b @ cs)"
  shows "\<not> is_abs (rel_string cs)"
proof (cases cs)
  case (Cons c ds)
  have "c \<noteq> ''''" "CHR ''/'' \<notin> set c"
    using norm_no_slash [OF assms, of c] norm_not_empty_comp [OF assms, of c] Cons by auto
  moreover obtain t where "join_with ''/'' (c # ds) = hd c # t"
    using hd_join_with \<open>c \<noteq> ''''\<close> by blast
  moreover have "hd c \<noteq> CHR ''/''" using calculation(1,2) list.set_sel(1) [of c] by metis
  ultimately show ?thesis by (simp add: is_abs_def rel_string_def Cons)
qed (simp add: is_abs_def rel_string_def)

lemma rel_path_below:
  assumes "rooted root = rooted target" and "path_comps target = path_comps root @ cs"
  shows "rel_path root target = Inr (rel_string cs)"
proof (cases "cs = []")
  case True
  then show ?thesis using assms by (simp add: rel_path_def clean_eq_iff rel_string_def)
next
  case False
  then have "path_comps target \<noteq> []" "clean target \<noteq> clean root"
    using assms by (auto simp: clean_eq_iff)
  moreover have "clean target \<noteq> ''.''"
    using path_comps_clean [of target] path_comps_root(2) \<open>path_comps target \<noteq> []\<close> by metis
  ultimately show ?thesis using assms False by (simp add: rel_path_def rel_string_def)
qed

lemma rel_path_clean [simp]: "rel_path (clean a) (clean b) = rel_path a b"
  by (simp add: rel_path_def)

theorem relative_within_iff:
  "relative_within root target = Inr rel \<longleftrightarrow>
   rooted root = rooted target \<and>
   (\<exists>cs. path_comps target = path_comps root @ cs \<and> ''..'' \<notin> set cs \<and> rel = rel_string cs)"
  (is "?l \<longleftrightarrow> ?r")
proof
  assume ?l
  then have raw: "rel_path root target = Inr rel"
    and ok: "\<not> (rel = ''..'' \<or> has_prefix rel ''../'')"
    by (auto simp: relative_within_def sum_bind_Inr split: if_splits)
  obtain cs where cs: "path_comps target = path_comps root @ cs" "rel = rel_string cs"
    and "rooted root = rooted target"
    using rel_path_cases [OF raw] ok by blast
  have "norm_comps (rooted target) (path_comps root @ cs)"
    using path_comps_norm [of target] by (simp add: cs(1))
  from rel_string_climbs [OF this] ok cs \<open>rooted root = rooted target\<close> show ?r by blast
next
  assume ?r
  then obtain cs where same: "rooted root = rooted target"
    and cs: "path_comps target = path_comps root @ cs" "''..'' \<notin> set cs" "rel = rel_string cs"
    by blast
  have n: "norm_comps (rooted target) (path_comps root @ cs)"
    using path_comps_norm [of target] by (simp add: cs(1))
  have "\<not> (rel = ''..'' \<or> has_prefix rel ''../'' \<or> is_abs rel)"
    unfolding cs(3) using rel_string_climbs [OF n] rel_string_not_abs [OF n] cs(2) by metis
  then show ?l
    by (simp add: relative_within_def rel_path_below [OF same cs(1)] cs(3))
qed

section \<open>Confinement\<close>

definition descends :: "string list \<Rightarrow> bool" where
  "descends cs \<longleftrightarrow> ''..'' \<notin> set cs"

lemma descends_simps [simp]:
  "descends []" "descends (as @ bs) \<longleftrightarrow> descends as \<and> descends bs"
  by (simp_all add: descends_def)

lemma descends_names: "\<forall>n \<in> set ns. name_comp n \<Longrightarrow> descends ns"
  unfolding descends_def name_comp_def by blast

definition below :: "string \<Rightarrow> string \<Rightarrow> bool" where
  "below root target \<longleftrightarrow>
     rooted root = rooted target \<and>
     (\<exists>cs. path_comps target = path_comps root @ cs \<and> descends cs)"

lemma relative_within_below: "(\<exists>rel. relative_within root target = Inr rel) \<longleftrightarrow> below root target"
  unfolding relative_within_iff below_def descends_def by blast

lemma relative_within_InlE: "relative_within root target = Inl e \<Longrightarrow> \<not> below root target"
  by (metis relative_within_below sum.distinct(1))

lemma below_refl [simp]: "below p p"
  by (simp add: below_def)

lemma below_trans: "below a b \<Longrightarrow> below b c \<Longrightarrow> below a c"
  unfolding below_def by (metis append.assoc descends_simps(2))

lemma below_clean [simp]: "below (clean a) b = below a b" "below a (clean b) = below a b"
  unfolding below_def by (simp_all only: rooted_clean path_comps_clean)

lemma split_on_join_concat:
  "split_on c (join_with [c] (p # ps)) = concat (map (split_on c) (p # ps))"
  by (induction ps arbitrary: p) (simp_all add: split_on_append)

lemma rooted_append: "p \<noteq> '''' \<Longrightarrow> rooted (p @ q) = rooted p"
  by (cases p) simp_all

lemma rooted_join_Cons: "p \<noteq> '''' \<Longrightarrow> rooted (join_with sep (p # ps)) = rooted p"
  by (cases ps) (simp_all add: rooted_append)

lemma join_path_clean:
  "p \<noteq> '''' \<Longrightarrow> join_path (p # ps) = clean (join_with ''/'' (p # ps))"
  by (simp add: join_path_def)

lemma split_names: "\<forall>n \<in> set ns. name_comp n \<Longrightarrow> concat (map (split_on CHR ''/'') ns) = ns"
  by (induction ns) (auto simp: name_comp_def split_on_no_sep)

lemma path_comps_join_names:
  assumes "p \<noteq> ''''" and "\<forall>n \<in> set ns. name_comp n"
  shows "path_comps (join_path (p # ns)) = path_comps p @ ns"
    and "rooted (join_path (p # ns)) = rooted p"
proof -
  show "rooted (join_path (p # ns)) = rooted p"
    by (simp add: join_path_clean assms(1) rooted_join_Cons del: join_with.simps)
  have "split_on CHR ''/'' (join_with ''/'' (p # ns)) = split_on CHR ''/'' p @ ns"
    using split_on_join_concat [of "CHR ''/''" p ns] split_names [OF assms(2)] by simp
  then show "path_comps (join_path (p # ns)) = path_comps p @ ns"
    by (simp add: join_path_clean assms(1) path_comps_def [of "join_with _ _"] rooted_join_Cons
        clean_comps_def foldl_clean_names [OF assms(2)] path_comps_def [of p] del: join_with.simps)
qed

lemma join_within_below:
  assumes "join_within root parts = Inr p"
  shows "below root p \<and> clean p = p"
proof -
  have "root \<noteq> ''''" "p = join_path (root # parts)" "\<exists>rel. relative_within root p = Inr rel"
    using assms by (auto simp: join_within_def Let_def sum_bind_Inr split: if_splits)
  then show ?thesis by (simp add: relative_within_below join_path_clean)
qed

lemma name_comp_not_abs: "name_comp n \<Longrightarrow> \<not> is_abs n"
proof -
  assume "name_comp n"
  then have "n \<noteq> ''''" "CHR ''/'' \<notin> set n" unfolding name_comp_def by blast+
  then show ?thesis by (cases n) (auto simp: is_abs_def)
qed

lemma join_within_names:
  assumes "root \<noteq> ''''" and "\<forall>n \<in> set ns. name_comp n"
  shows "join_within root ns = Inr (join_path (root # ns))"
proof -
  have "\<not> is_abs n" if "n \<in> set ns" for n
    using name_comp_not_abs assms(2) that by blast
  moreover have "below root (join_path (root # ns))"
    using path_comps_join_names [OF assms] descends_names [OF assms(2)] by (simp add: below_def)
  then obtain rel where "relative_within root (join_path (root # ns)) = Inr rel"
    using relative_within_below by blast
  ultimately show ?thesis using assms(1) by (simp add: join_within_def Let_def)
qed

text \<open>Below a root, the relative path determines the target up to cleaning.\<close>

lemma rel_string_inj:
  assumes "norm_comps r (b @ cs)" and "norm_comps r (b @ ds)" and "rel_string cs = rel_string ds"
  shows "cs = ds"
proof -
  have split: "split_on CHR ''/'' (rel_string xs) = (if xs = [] then [''.''] else xs)"
    if "norm_comps r (b @ xs)" for xs
    using norm_no_slash [OF that] split_on_join_with [of xs "CHR ''/''"] by (simp add: rel_string_def)
  have "''.'' \<notin> set cs" "''.'' \<notin> set ds"
    using norm_not_empty_comp [OF assms(1)] norm_not_empty_comp [OF assms(2)] by fastforce+
  moreover have "(if cs = [] then [''.''] else cs) = (if ds = [] then [''.''] else ds)"
    using split [OF assms(1)] split [OF assms(2)] assms(3) by metis
  ultimately show ?thesis by (cases "cs = []"; cases "ds = []") fastforce+
qed

section \<open>Properties\<close>

text \<open>
  C28. The guard returns a relative path exactly when both paths are absolute or both relative
  and the cleaned components of the target extend those of the root without climbing; the path
  it returns is the extension.
\<close>

theorem relative_within_exact:
  "relative_within root target = Inr rel \<longleftrightarrow>
   rooted root = rooted target \<and>
   (\<exists>cs. path_comps target = path_comps root @ cs \<and> descends cs \<and> rel = rel_string cs)"
  unfolding descends_def by (rule relative_within_iff)

text \<open>
  A path joined below a path joined below a root is cleaned and still below that root, so a
  chain of guarded joins never leaves the card it started on.
\<close>

theorem join_within_confined:
  assumes "join_within root parts = Inr p" and "join_within p parts' = Inr q"
  shows "clean q = q \<and> (\<exists>rel. relative_within root q = Inr rel)"
  using join_within_below [OF assms(1)] join_within_below [OF assms(2)] below_trans
  by (metis relative_within_below)

theorem join_within_confined_witness:
  "clean ''/mnt/sd/Saves/GB/a'' = ''/mnt/sd/Saves/GB/a'' \<and>
   (\<exists>rel. relative_within ''/mnt//sd'' ''/mnt/sd/Saves/GB/a'' = Inr rel)"
proof (rule join_within_confined)
  show "join_within ''/mnt//sd'' [''Roms/..'', ''Saves''] = Inr ''/mnt/sd/Saves''" by code_simp
  show "join_within ''/mnt/sd/Saves'' [''./GB'', ''a''] = Inr ''/mnt/sd/Saves/GB/a''" by code_simp
qed

end
