(* ===== verification/Config_Store.thy ===== *)
theory Config_Store
  imports Crash_Store Go_Path
begin

text \<open>
  \<open>internal/syncthing/config_recovery.go\<close> and the promotion of \<open>offline_pause.go\<close>: the
  configuration of Syncthing in \<open>config.xml\<close> with its temporary and its backup.  A file that
  tokenises as XML is the list of its tokens, names as pairs of name space and local part; \<open>sz\<close>
  is the length of an encoded token list.
\<close>

type_synonym xml_name = "string \<times> string"

datatype xml_token = Start xml_name "(xml_name \<times> string) list" | End xml_name | Chars string | Other string

type_synonym xml_doc = "xml_token list"

abbreviation local_name :: "xml_name \<Rightarrow> string" where
  "local_name n \<equiv> snd n"

definition max_config_bytes :: nat where "max_config_bytes = 8 * 1024 * 1024"

section \<open>Validation\<close>

text \<open>The loop of \<open>ValidateXML\<close>: roots met so far and the depth of the open elements.\<close>

fun scan_xml :: "nat \<Rightarrow> nat \<Rightarrow> xml_doc \<Rightarrow> bool" where
  "scan_xml roots depth [] \<longleftrightarrow> roots = 1 \<and> depth = 0"
| "scan_xml roots depth (t # ts) = (case t of
     Start n _ \<Rightarrow>
       if depth = 0 then local_name n = ''configuration'' \<and> scan_xml (roots + 1) (depth + 1) ts
       else scan_xml roots (depth + 1) ts
   | End _ \<Rightarrow> depth \<noteq> 0 \<and> scan_xml roots (depth - 1) ts
   | _ \<Rightarrow> scan_xml roots depth ts)"

definition valid_config :: "xml_doc \<Rightarrow> bool" where
  "valid_config d = scan_xml 0 0 d"

definition read_config :: "string \<Rightarrow> (xml_doc, xml_doc read_result) io" where
  "read_config p = read_checked max_config_bytes valid_config p"

definition validate_xml :: "string \<Rightarrow> (xml_doc, bool) io" where
  "validate_xml p = io_bind (read_config p) (\<lambda>r. io_ret (case r of Found _ \<Rightarrow> True | _ \<Rightarrow> False))"

record inspected_file =
  exists_file :: bool
  valid_file :: bool

definition inspect_xml :: "string \<Rightarrow> (xml_doc, inspected_file) io" where
  "inspect_xml p =
     io_bind (lstat p) (\<lambda>info. case info of
       None \<Rightarrow> io_ret \<lparr>exists_file = False, valid_file = False\<rparr>
     | Some (Reg c) \<Rightarrow>
         if content_size c > max_config_bytes then io_fail ''exceeds limit''
         else io_bind (validate_xml p) (\<lambda>ok. io_ret \<lparr>exists_file = True, valid_file = ok\<rparr>)
     | Some _ \<Rightarrow> io_fail ''not a real regular file'')"

definition require_real_directory :: "string \<Rightarrow> ('d, unit) io" where
  "require_real_directory p =
     io_bind (lstat p) (\<lambda>info.
       if info = Some Dir then io_ret () else io_fail ''validate config directory: not a real directory'')"

fun any_identity :: "string \<Rightarrow> string list \<Rightarrow> bool \<Rightarrow> ('d, bool) io" where
  "any_identity dir [] found = io_ret found"
| "any_identity dir (name # names) found =
     io_bind (lstat (join_path [dir, name])) (\<lambda>info. case info of
       None \<Rightarrow> any_identity dir names found
     | Some (Reg _) \<Rightarrow> any_identity dir names True
     | Some _ \<Rightarrow> io_fail ''inspect identity: not a real regular file'')"

definition has_any_identity :: "string \<Rightarrow> ('d, bool) io" where
  "has_any_identity dir = any_identity dir [''cert.pem'', ''key.pem''] False"

section \<open>RecoverConfig\<close>

datatype recovery_state = Recovery_Ready | Recovery_Clean

definition config_path :: "string \<Rightarrow> string" where
  "config_path dir = join_path [dir, ''config.xml'']"

fun remove_existing :: "(string \<times> inspected_file) list \<Rightarrow> bool \<Rightarrow> (xml_doc, bool) io" where
  "remove_existing [] changed = io_ret changed"
| "remove_existing ((p, i) # ps) changed =
     (if exists_file i then io_bind (remove_file p) (\<lambda>_. remove_existing ps True)
      else remove_existing ps changed)"

definition recover_config :: "string \<Rightarrow> (xml_doc, recovery_state \<times> bool) io" where
  "recover_config dir =
     io_bind (lstat dir) (\<lambda>info.
     if info = None then
       io_bind (require_real_directory (dir_name dir)) (\<lambda>_. io_ret (Recovery_Clean, False))
     else if info \<noteq> Some Dir then io_fail ''validate config directory: not a real directory''
     else
       let path = config_path dir; tmp_path = tmp_of path; bak_path = bak_of path
       in io_bind (inspect_xml path) (\<lambda>config.
          io_bind (inspect_xml tmp_path) (\<lambda>temporary.
          io_bind (inspect_xml bak_path) (\<lambda>backup.
          if valid_file config then
            io_bind (io_when (exists_file temporary) (remove_file tmp_path)) (\<lambda>_.
            io_bind (io_when (exists_file backup \<and> \<not> valid_file backup) (remove_file bak_path)) (\<lambda>_.
            let changed = exists_file temporary \<or> exists_file backup \<and> \<not> valid_file backup
            in io_bind (io_when changed (sync_fs dir)) (\<lambda>_. io_ret (Recovery_Ready, changed))))
          else if valid_file backup then
            io_bind (io_when (exists_file config) (remove_file path)) (\<lambda>_.
            io_bind (io_when (exists_file temporary) (remove_file tmp_path)) (\<lambda>_.
            io_bind (rename_file bak_path path) (\<lambda>_.
            io_bind (sync_fs dir) (\<lambda>_.
            io_bind (inspect_xml path) (\<lambda>restored.
              if \<not> valid_file restored then io_fail ''restored config backup no longer parses''
              else io_ret (Recovery_Ready, True))))))
          else
            io_bind (has_any_identity dir) (\<lambda>identity_exists.
            if identity_exists then io_fail ''identity exists without a known-good config''
            else
              io_bind (remove_existing [(path, config), (tmp_path, temporary), (bak_path, backup)] False) (\<lambda>changed.
              io_bind (io_when changed (sync_fs dir)) (\<lambda>_. io_ret (Recovery_Clean, changed))))))))"

section \<open>promoteConfig and restoreBackup\<close>

text \<open>
  A verification of a promoted file: \<open>ValidateXML\<close>, and a check of the document that is read
  again by \<open>readSafeConfig\<close>.
\<close>

definition read_safe_config :: "string \<Rightarrow> (xml_doc, xml_doc content) io" where
  "read_safe_config p =
     io_bind (lstat p) (\<lambda>info. case info of
       Some (Reg c) \<Rightarrow> if content_size c > max_config_bytes then io_fail ''config is unsafe or oversized''
                     else read_file p
     | _ \<Rightarrow> io_fail ''config is unsafe or oversized'')"

definition verify_file :: "(xml_doc \<Rightarrow> bool) \<Rightarrow> string \<Rightarrow> (xml_doc, bool) io" where
  "verify_file check p =
     io_bind (validate_xml p) (\<lambda>ok.
       if \<not> ok then io_ret False
       else io_bind (io_try (read_safe_config p)) (\<lambda>r. io_ret (case r of
              Inr (Doc d _) \<Rightarrow> check d
            | _ \<Rightarrow> False)))"

definition restore_backup :: "string \<Rightarrow> (xml_doc, unit) io" where
  "restore_backup dir =
     (let path = config_path dir
      in io_bind (io_try (remove_file (tmp_of path))) (\<lambda>_.
         io_bind (io_try (remove_file path)) (\<lambda>r.
         if (case r of Inl e \<Rightarrow> e \<noteq> ''no such file'' | Inr _ \<Rightarrow> False) then io_fail ''bad config removal failed''
         else io_bind (rename_file (bak_of path) path) (\<lambda>_.
              io_bind (sync_fs dir) (\<lambda>_.
              io_bind (validate_xml path) (\<lambda>ok.
                if \<not> ok then io_fail ''restored config is invalid''
                else io_fail ''rejected promoted config and restored backup''))))))"

definition promote_config :: "(xml_doc \<Rightarrow> nat) \<Rightarrow> (xml_doc \<Rightarrow> bool) \<Rightarrow> string \<Rightarrow> xml_doc \<Rightarrow> (xml_doc, unit) io" where
  "promote_config sz check dir contents =
     (let path = config_path dir; temporary = tmp_of path; backup = bak_of path
      in io_bind (lstat temporary) (\<lambda>stale.
         if stale \<noteq> None then io_fail ''stale config.xml.tmp requires recovery''
         else io_bind (lstat backup) (\<lambda>info.
           if (case info of None \<Rightarrow> False | Some (Reg _) \<Rightarrow> False | Some _ \<Rightarrow> True)
           then io_fail ''unsafe config.xml.bak''
           else
             io_bind (create_excl temporary) (\<lambda>_.
             io_bind (write_file temporary (Doc contents (sz contents))) (\<lambda>_.
             io_bind (fsync_file temporary) (\<lambda>_.
             io_bind (close_file temporary) (\<lambda>_.
             io_bind (verify_file check temporary) (\<lambda>ok.
             if \<not> ok then io_fail ''validate config temporary''
             else
               io_bind (io_when (info \<noteq> None) (remove_file backup)) (\<lambda>_.
               io_bind (rename_file path backup) (\<lambda>_.
               io_bind (rename_file temporary path) (\<lambda>_.
               io_bind (sync_fs dir) (\<lambda>_.
               io_bind (verify_file check path) (\<lambda>ok.
                 if \<not> ok then restore_backup dir else io_ret ())))))))))))))"

text \<open>What the process works with after its recovery: the configuration that then stands.\<close>

definition load_config :: "string \<Rightarrow> (xml_doc, xml_doc option) io" where
  "load_config dir =
     io_bind (recover_config dir) (\<lambda>_.
     io_bind (read_config (config_path dir)) (\<lambda>r. io_ret (case r of Found d \<Rightarrow> Some d | _ \<Rightarrow> None)))"

section \<open>The contract of the three files\<close>

definition small :: "xml_doc node option \<Rightarrow> bool" where
  "small n \<longleftrightarrow> (case n of None \<Rightarrow> True | Some (Reg c) \<Rightarrow> content_size c \<le> max_config_bytes | _ \<Rightarrow> False)"

lemma small_simps [simp]: "small None" "small (Some (Reg c)) \<longleftrightarrow> content_size c \<le> max_config_bytes"
  "\<not> small (Some Dir)" "\<not> small (Some Link)" "\<not> small (Some Special)"
  by (simp_all add: small_def)

definition triple_small :: "string \<Rightarrow> xml_doc fs \<Rightarrow> bool" where
  "triple_small p f \<longleftrightarrow> small (f p) \<and> small (f (tmp_of p)) \<and> small (f (bak_of p))"

definition config_at :: "string \<Rightarrow> xml_doc option \<Rightarrow> xml_doc fs \<Rightarrow> bool" where
  "config_at dir x f \<longleftrightarrow>
     f dir = Some Dir \<and> triple_small (config_path dir) f \<and> f (tmp_of (config_path dir)) = None \<and>
     (\<exists>d. x = Some d \<and> classify max_config_bytes valid_config (f (config_path dir)) = Found d)"

definition config_recovers :: "string \<Rightarrow> xml_doc option \<Rightarrow> xml_doc fs \<Rightarrow> bool" where
  "config_recovers dir x f \<longleftrightarrow>
     f dir = Some Dir \<and> triple_small (config_path dir) f \<and>
     x \<noteq> None \<and> recoverable max_config_bytes valid_config (config_path dir) f = x"

definition config_between :: "string \<Rightarrow> xml_doc option \<Rightarrow> xml_doc option \<Rightarrow> xml_doc fs \<Rightarrow> bool" where
  "config_between dir x y f \<longleftrightarrow> config_recovers dir x f \<or> config_recovers dir y f"

definition promotable :: "(xml_doc \<Rightarrow> nat) \<Rightarrow> (xml_doc \<Rightarrow> bool) \<Rightarrow> xml_doc \<Rightarrow> bool" where
  "promotable sz check d \<longleftrightarrow> valid_config d \<and> sz d \<le> max_config_bytes \<and> check d"

lemma classify_small_cases [consumes 1, case_names missing good bad]:
  assumes "small n"
  obtains "n = None" | d k where "n = Some (Reg (Doc d k))" "k \<le> max_config_bytes" "valid_config d"
    | c e where "n = Some (Reg c)" "content_size c \<le> max_config_bytes"
        "classify max_config_bytes valid_config (Some (Reg c)) = Unreadable e"
proof (cases n)
  case (Some m)
  then obtain c where c: "m = Reg c" "content_size c \<le> max_config_bytes"
    using assms by (cases m) auto
  show thesis
  proof (cases "classify max_config_bytes valid_config n")
    case (Found d)
    then show thesis using that(2) by (auto simp: classify_Found)
  next
    case (Unreadable e)
    then show thesis using that(3) [of c e] Some c by simp
  qed (use Some in simp)
qed (rule that(1))

lemmas config_state_defs = config_recovers_def config_at_def config_between_def recoverable_def triple_small_def
lemmas config_io_defs = validate_xml_def read_config_def inspect_xml_def verify_file_def read_safe_config_def

lemma small_not_dir:
  "f d = Some Dir \<Longrightarrow> triple_small p f \<Longrightarrow>
   d \<noteq> p \<and> d \<noteq> tmp_of p \<and> d \<noteq> bak_of p \<and> p \<noteq> d \<and> tmp_of p \<noteq> d \<and> bak_of p \<noteq> d"
  by (auto simp: triple_small_def)

lemma load_config_wp:
  assumes "config_recovers dir x f"
  shows "wp False (load_config dir) (\<lambda>r g. r = x \<and> config_at dir x g) (\<lambda>_ _. False) (config_recovers dir x) f"
proof -
  define p where "p = config_path dir"
  have dir: "f dir = Some Dir" and small: "triple_small p f"
    using assms by (simp_all add: config_recovers_def p_def)
  note nodir = small_not_dir [OF dir small]
  note exec = load_config_def recover_config_def config_io_defs p_def [symmetric] Let_def wp_exec config_state_defs
  have sm: "small (f p)" "small (f (tmp_of p))" "small (f (bak_of p))"
    using small by (simp_all add: triple_small_def)
  show ?thesis
    by (rule classify_small_cases [OF sm(1)]; rule classify_small_cases [OF sm(2)];
        rule classify_small_cases [OF sm(3)])
       (use assms dir nodir in \<open>auto simp: exec\<close>)
qed

lemma promote_config_wp:
  assumes "config_at dir x f" and "promotable sz check d"
  shows "wp False (promote_config sz check dir d) (\<lambda>_. config_at dir (Some d)) (\<lambda>_ _. False)
     (config_between dir x (Some d)) f"
proof -
  define p where "p = config_path dir"
  have dir: "f dir = Some Dir" and small: "triple_small p f" and tmp: "f (tmp_of p) = None"
    using assms(1) by (simp_all add: config_at_def p_def)
  note nodir = small_not_dir [OF dir small]
  note exec = promote_config_def config_io_defs p_def [symmetric] Let_def wp_exec config_state_defs
  have sm: "small (f p)" "small (f (bak_of p))"
    using small by (simp_all add: triple_small_def)
  have "valid_config d" "sz d \<le> max_config_bytes" "check d"
    using assms(2) by (simp_all add: promotable_def)
  then show ?thesis
    by - (rule classify_small_cases [OF sm(1)]; rule classify_small_cases [OF sm(2)];
          use assms(1) tmp dir nodir in \<open>auto simp: exec\<close>)
qed

interpretation config_store: crash_store Some "promotable sz check" "config_at dir" "config_between dir"
  "promote_config sz check dir" "load_config dir" for sz check dir
proof unfold_locales
  show "config_at dir x f \<Longrightarrow> config_between dir x y f \<and> config_between dir y x f" for x y f
    by (auto simp: config_between_def config_recovers_def config_at_def recoverable_def)
next
  show "config_at dir x f \<Longrightarrow> promotable sz check d \<Longrightarrow>
     wp False (promote_config sz check dir d) (\<lambda>_. config_at dir (Some d)) (\<lambda>_ _. False)
       (config_between dir x (Some d)) f" for x f d
    by (rule promote_config_wp)
next
  show "config_between dir x y f \<Longrightarrow>
     wp False (load_config dir) (\<lambda>r g. (r = x \<or> r = y) \<and> config_at dir r g) (\<lambda>_ _. False)
       (config_between dir x y) f" for x y f
    by (auto simp: config_between_def elim!: wp_mono [OF load_config_wp])
qed

text \<open>A document that does not verify never replaces the configuration.\<close>

lemma promote_config_refused_wp:
  assumes "config_at dir x f" and "\<not> (valid_config d \<and> check d)" and "sz d \<le> max_config_bytes"
  shows "wp False (promote_config sz check dir d) (\<lambda>_ _. False) (\<lambda>_. config_recovers dir x) (config_recovers dir x) f"
proof -
  define p where "p = config_path dir"
  have dir: "f dir = Some Dir" and small: "triple_small p f" and tmp: "f (tmp_of p) = None"
    using assms(1) by (simp_all add: config_at_def p_def)
  note nodir = small_not_dir [OF dir small]
  note exec = promote_config_def config_io_defs p_def [symmetric] Let_def wp_exec config_state_defs
  have sm: "small (f p)" "small (f (bak_of p))"
    using small by (simp_all add: triple_small_def)
  have new: "classify max_config_bytes valid_config (Some (Reg (Doc d (sz d)))) =
      (if valid_config d then Found d else Unreadable ''invalid document'')"
    using assms(3) by (simp add: classify_def)
  show ?thesis
    using assms(2,3) new
    by - (rule classify_small_cases [OF sm(1)]; rule classify_small_cases [OF sm(2)];
          use assms(1) tmp dir nodir in \<open>auto simp: exec\<close>)
qed

lemma config_at_recovers: "config_at dir x f \<Longrightarrow> config_recovers dir x f"
  by (auto simp: config_recovers_def config_at_def recoverable_def)

section \<open>Properties\<close>


definition sample_config :: xml_doc where
  "sample_config = [Start ('''', ''configuration'') [], End ('''', ''configuration'')]"

definition config_files :: "xml_doc \<Rightarrow> xml_doc fs" where
  "config_files d = map_of [(''/c'', Dir), (config_path ''/c'', Reg (Doc d 10))]"

lemma config_path_c: "config_path ''/c'' = ''/c/config.xml''"
  by code_simp

lemma config_files_at: "valid_config d \<Longrightarrow> config_at ''/c'' (Some d) (config_files d)"
  by (simp add: config_at_def triple_small_def config_files_def config_path_c tmp_of_def bak_of_def
      max_config_bytes_def)


end
