(* ===== verification/Pause_Edit.thy ===== *)
theory Pause_Edit
  imports Config_Store
begin

text \<open>
  The offline editors of the configuration: \<open>replaceXMLScalars\<close> of \<open>initial_profile.go\<close>,
  \<open>replaceManagedFolderPauses\<close>, \<open>verifyPauseSet\<close> and \<open>ApplyOfflinePauseSet\<close> of
  \<open>offline_pause.go\<close>, on the token stream of the decoder.  An encoder error is not modelled.
\<close>

section \<open>Scalars\<close>

text \<open>\<open>consumeScalarText\<close>: the text up to the closing element of a scalar, and what follows.\<close>

fun consume_scalar_text :: "xml_name \<Rightarrow> xml_doc \<Rightarrow> error + string \<times> xml_doc" where
  "consume_scalar_text name [] = Inl ''unexpected EOF''"
| "consume_scalar_text name (t # ts) = (case t of
     Chars c \<Rightarrow> sum_bind (consume_scalar_text name ts) (\<lambda>(data, rest). Inr (c @ data, rest))
   | Start _ _ \<Rightarrow> Inl ''scalar contains a nested element''
   | End n \<Rightarrow> if n \<noteq> name then Inl ''scalar closing element mismatch'' else Inr ('''', ts)
   | Other _ \<Rightarrow> consume_scalar_text name ts)"

lemma consume_scalar_length: "consume_scalar_text name ts = Inr (data, rest) \<Longrightarrow> length rest < length ts"
  by (induction name ts arbitrary: data rule: consume_scalar_text.induct)
     (fastforce simp: sum_bind_Inr split: xml_token.splits if_splits)+

record scalar_replacement =
  rpath :: string
  rname :: string
  rvalue :: string

definition joined_path :: "string list \<Rightarrow> string" where
  "joined_path stack = join_with ''/'' stack"

definition scalar_element :: "string \<Rightarrow> string \<Rightarrow> xml_doc" where
  "scalar_element name v = [Start ('''', name) [], Chars v, End ('''', name)]"

text \<open>
  \<open>stack\<close> are the open elements from the root, \<open>seen\<close> the paths already written, \<open>roots\<close> the
  number of root elements.
\<close>

function replace_loop :: "scalar_replacement list \<Rightarrow> string list \<Rightarrow> string list \<Rightarrow> nat \<Rightarrow> xml_doc \<Rightarrow>
    error + xml_doc" where
  "replace_loop reps stack seen roots ts = (case ts of
     [] \<Rightarrow>
       if roots \<noteq> 1 \<or> stack \<noteq> [] then Inl ''config must contain one complete root''
       else if \<exists>r \<in> set reps. rpath r \<notin> set seen then Inl ''missing parent''
       else Inr []
   | Start n attrs # rest \<Rightarrow>
       if stack = [] \<and> local_name n \<noteq> ''configuration'' then Inl ''unexpected root''
       else
         let roots' = (if stack = [] then roots + 1 else roots);
             path = joined_path (stack @ [local_name n])
         in (case find (\<lambda>r. rpath r = path) reps of
               Some r \<Rightarrow>
                 if path \<in> set seen then Inl ''duplicate scalar''
                 else (case consume_scalar_text n rest of
                         Inl e \<Rightarrow> Inl e
                       | Inr (_, rest') \<Rightarrow>
                           sum_bind (replace_loop reps stack (path # seen) roots' rest')
                             (\<lambda>out. Inr (Start n attrs # Chars (rvalue r) # End n # out)))
             | None \<Rightarrow>
                 sum_bind (replace_loop reps (stack @ [local_name n]) seen roots' rest)
                   (\<lambda>out. Inr (Start n attrs # out)))
   | End n # rest \<Rightarrow>
       if stack = [] \<or> last stack \<noteq> local_name n then Inl ''unbalanced XML stack''
       else
         let parent = joined_path stack;
             missing = filter (\<lambda>r. rpath r \<notin> set seen \<and> dir_name (rpath r) = parent) reps
         in sum_bind (replace_loop reps (butlast stack) (map rpath missing @ seen) roots rest)
              (\<lambda>out. Inr (concat (map (\<lambda>r. scalar_element (rname r) (rvalue r)) missing) @ End n # out))
   | t # rest \<Rightarrow> sum_bind (replace_loop reps stack seen roots rest) (\<lambda>out. Inr (t # out)))"
  by pat_completeness auto
termination by (relation "measure (\<lambda>(reps, stack, seen, roots, ts). length ts)")
  (auto dest!: consume_scalar_length)

declare replace_loop.simps [simp del]

definition replace_xml_scalars :: "scalar_replacement list \<Rightarrow> xml_doc \<Rightarrow> error + xml_doc" where
  "replace_xml_scalars reps ts =
     (if \<not> distinct (map rpath reps) then Inl ''duplicate replacement'' else replace_loop reps [] [] 0 ts)"

section \<open>replaceManagedFolderPauses\<close>

type_synonym pause_set = "(string \<times> bool) list"

definition attribute_value :: "(xml_name \<times> string) list \<Rightarrow> string \<Rightarrow> string" where
  "attribute_value attrs name = (case find (\<lambda>(n, v). local_name n = name) attrs of
     None \<Rightarrow> '''' | Some (n, v) \<Rightarrow> v)"

definition format_bool :: "bool \<Rightarrow> string" where
  "format_bool b = (if b then ''true'' else ''false'')"

record pause_state =
  pstack :: "string list"
  pfound :: "string list"
  pactive :: string
  pseen :: bool

text \<open>What a start element does to the state before it is written; \<open>None\<close> is the duplicate error.\<close>

definition enter_folder :: "pause_set \<Rightarrow> string \<Rightarrow> (xml_name \<times> string) list \<Rightarrow> pause_state \<Rightarrow> pause_state option" where
  "enter_folder desired name attrs s =
     (if pstack s = [''configuration''] \<and> name = ''folder'' then
        let i = attribute_value attrs ''id''
        in if map_of desired i = None then Some s
           else if i \<in> set (pfound s) then None
           else Some (s\<lparr>pfound := i # pfound s, pactive := i, pseen := False\<rparr>)
      else Some s)"

definition in_folder :: "pause_state \<Rightarrow> bool" where
  "in_folder s \<longleftrightarrow> pactive s \<noteq> '''' \<and> length (pstack s) = 2 \<and> pstack s ! 1 = ''folder''"

definition wanted :: "pause_set \<Rightarrow> pause_state \<Rightarrow> string" where
  "wanted desired s = format_bool (map_of desired (pactive s) = Some True)"

function pause_loop :: "pause_set \<Rightarrow> pause_state \<Rightarrow> xml_doc \<Rightarrow> error + xml_doc \<times> bool" where
  "pause_loop desired s ts = (case ts of
     [] \<Rightarrow>
       if pstack s \<noteq> [] then Inl ''incomplete XML''
       else if \<exists>i \<in> fst ` set desired. i \<notin> set (pfound s) then Inl ''managed folder is absent''
       else Inr ([], False)
   | Start n attrs # rest \<Rightarrow>
       (case enter_folder desired (local_name n) attrs s of
          None \<Rightarrow> Inl ''duplicate managed folder''
        | Some s1 \<Rightarrow>
            if in_folder s1 \<and> local_name n = ''paused'' then
              (if pseen s1 then Inl ''duplicate paused fields''
               else (case consume_scalar_text n rest of
                       Inl e \<Rightarrow> Inl e
                     | Inr (existing, rest') \<Rightarrow>
                         sum_bind (pause_loop desired (s1\<lparr>pseen := True\<rparr>) rest') (\<lambda>(out, changed).
                           Inr (Start n attrs # Chars (wanted desired s1) # End n # out,
                                trim_space existing \<noteq> wanted desired s1 \<or> changed))))
            else
              sum_bind (pause_loop desired (s1\<lparr>pstack := pstack s1 @ [local_name n]\<rparr>) rest) (\<lambda>(out, changed).
                Inr (Start n attrs # out, changed)))
   | End n # rest \<Rightarrow>
       if pstack s = [] \<or> last (pstack s) \<noteq> local_name n then Inl ''unbalanced XML stack''
       else if in_folder s then
         sum_bind (pause_loop desired (s\<lparr>pstack := butlast (pstack s), pactive := '''', pseen := False\<rparr>) rest)
           (\<lambda>(out, changed).
             Inr ((if pseen s then [] else scalar_element ''paused'' (wanted desired s)) @ End n # out,
                  \<not> pseen s \<or> changed))
       else
         sum_bind (pause_loop desired (s\<lparr>pstack := butlast (pstack s)\<rparr>) rest) (\<lambda>(out, changed).
           Inr (End n # out, changed))
   | t # rest \<Rightarrow> sum_bind (pause_loop desired s rest) (\<lambda>(out, changed). Inr (t # out, changed)))"
  by pat_completeness auto
termination by (relation "measure (\<lambda>(desired, s, ts). length ts)")
  (auto dest!: consume_scalar_length)

declare pause_loop.simps [simp del]

definition start_state :: pause_state where
  "start_state = \<lparr>pstack = [], pfound = [], pactive = '''', pseen = False\<rparr>"

definition replace_managed_folder_pauses :: "xml_doc \<Rightarrow> pause_set \<Rightarrow> error + xml_doc \<times> bool" where
  "replace_managed_folder_pauses contents desired =
     (if desired = [] then Inr (contents, False)
      else if '''' \<in> fst ` set desired then Inl ''managed folder id is empty''
      else sum_bind (pause_loop desired start_state contents) (\<lambda>(out, changed).
             if \<not> changed then Inr (contents, False) else Inr (out, True)))"

section \<open>verifyPauseSet\<close>

text \<open>
  \<open>xml.Unmarshal\<close> reads the root element into the struct: folders with their \<open>id\<close> attribute
  and \<open>paused\<close> element, and the \<open>setLowPriority\<close> element of the options.
\<close>

datatype xml_tree = Elem xml_name "(xml_name \<times> string) list" "xml_tree list" | Text string

fun build_tree :: "(xml_name \<times> (xml_name \<times> string) list \<times> xml_tree list) list \<Rightarrow> xml_tree list \<Rightarrow> xml_doc \<Rightarrow>
    xml_tree list option" where
  "build_tree stack acc [] = (if stack = [] then Some (rev acc) else None)"
| "build_tree stack acc (t # ts) = (case t of
     Start n a \<Rightarrow> build_tree ((n, a, acc) # stack) [] ts
   | End m \<Rightarrow> (case stack of
       [] \<Rightarrow> None
     | (n, a, up) # st \<Rightarrow> if n = m then build_tree st (Elem n a (rev acc) # up) ts else None)
   | Chars c \<Rightarrow> build_tree stack (Text c # acc) ts
   | Other _ \<Rightarrow> build_tree stack acc ts)"

fun own_text :: "xml_tree list \<Rightarrow> string" where
  "own_text [] = ''''"
| "own_text (Text c # cs) = c @ own_text cs"
| "own_text (Elem n a ds # cs) = own_text cs"

definition parse_bool :: "string \<Rightarrow> bool option" where
  "parse_bool raw = (let s = trim_space raw in
     if raw = '''' then Some False
     else if s \<in> {''1'', ''t'', ''T'', ''TRUE'', ''true'', ''True''} then Some True
     else if s \<in> {''0'', ''f'', ''F'', ''FALSE'', ''false'', ''False''} then Some False
     else None)"

text \<open>A pointer to a bool: every child of the name is parsed, the last one stays.\<close>

fun bool_child :: "string \<Rightarrow> xml_tree list \<Rightarrow> bool option \<Rightarrow> error + bool option" where
  "bool_child name [] b = Inr b"
| "bool_child name (t # ts) b = (case t of
     Text _ \<Rightarrow> bool_child name ts b
   | Elem n _ cs \<Rightarrow>
       if local_name n = name then
         (case parse_bool (own_text cs) of None \<Rightarrow> Inl ''invalid bool'' | Some x \<Rightarrow> bool_child name ts (Some x))
       else bool_child name ts b)"

record config_view =
  vfolders :: "(string \<times> bool option) list"
  vlow :: "bool option"

fun view_children :: "xml_tree list \<Rightarrow> config_view \<Rightarrow> error + config_view" where
  "view_children [] v = Inr v"
| "view_children (t # ts) v = (case t of
     Text _ \<Rightarrow> view_children ts v
   | Elem n a cs \<Rightarrow>
       if local_name n = ''folder'' then
         sum_bind (bool_child ''paused'' cs None) (\<lambda>b.
           view_children ts (v\<lparr>vfolders := vfolders v @ [(attribute_value (rev a) ''id'', b)]\<rparr>))
       else if local_name n = ''options'' then
         sum_bind (bool_child ''setLowPriority'' cs (vlow v)) (\<lambda>b. view_children ts (v\<lparr>vlow := b\<rparr>))
       else view_children ts v)"

definition view_config :: "xml_doc \<Rightarrow> error + config_view" where
  "view_config d = (case build_tree [] [] d of
     None \<Rightarrow> Inl ''XML syntax error''
   | Some forest \<Rightarrow> (case filter (\<lambda>t. case t of Elem _ _ _ \<Rightarrow> True | Text _ \<Rightarrow> False) forest of
       Elem n _ cs # _ \<Rightarrow>
         if local_name n \<noteq> ''configuration'' then Inl ''expected element type configuration''
         else view_children cs \<lparr>vfolders = [], vlow = None\<rparr>
     | _ \<Rightarrow> Inl ''EOF''))"

fun folders_match :: "pause_set \<Rightarrow> (string \<times> bool option) list \<Rightarrow> string list \<Rightarrow> string list option" where
  "folders_match desired [] found = Some found"
| "folders_match desired ((i, paused) # fs) found = (case map_of desired i of
     None \<Rightarrow> folders_match desired fs found
   | Some want \<Rightarrow>
       if i \<in> set found \<or> paused \<noteq> Some want then None else folders_match desired fs (i # found))"

definition verify_pause_set :: "pause_set \<Rightarrow> xml_doc \<Rightarrow> bool" where
  "verify_pause_set desired d = (case view_config d of
     Inl _ \<Rightarrow> False
   | Inr v \<Rightarrow>
       vlow v = Some False \<and>
       (case folders_match desired (vfolders v) [] of
          None \<Rightarrow> False
        | Some found \<Rightarrow> \<forall>i \<in> fst ` set desired. i \<in> set found))"

section \<open>ApplyOfflinePauseSet\<close>

definition low_priority :: scalar_replacement where
  "low_priority = \<lparr>rpath = ''configuration/options/setLowPriority'', rname = ''setLowPriority'', rvalue = ''false''\<rparr>"

text \<open>The new document, and whether anything has to be written.\<close>

definition edit_pauses :: "bool \<Rightarrow> pause_set \<Rightarrow> xml_doc \<Rightarrow> error + xml_doc \<times> bool" where
  "edit_pauses verbatim desired d =
     sum_bind (replace_xml_scalars [low_priority] d) (\<lambda>hardened.
     sum_bind (replace_managed_folder_pauses hardened desired) (\<lambda>(rewritten, pause_changed).
       Inr (rewritten, d \<noteq> hardened \<or> \<not> verbatim \<or> pause_changed)))"

text \<open>
  \<open>verbatim\<close> is whether encoding the unchanged tokens gives the bytes of the file again.
\<close>

definition apply_offline_pause_set ::
    "(xml_doc \<Rightarrow> nat) \<Rightarrow> bool \<Rightarrow> string \<Rightarrow> pause_set \<Rightarrow> (xml_doc, bool) io" where
  "apply_offline_pause_set sz verbatim dir desired =
     io_bind (require_real_directory dir) (\<lambda>_.
     io_bind (read_safe_config (config_path dir)) (\<lambda>contents. case contents of
       Junk _ \<Rightarrow> io_fail ''decode config''
     | Doc d _ \<Rightarrow>
         io_bind (io_lift (edit_pauses verbatim desired d)) (\<lambda>(rewritten, changed).
           if \<not> changed then
             io_bind (verify_file (verify_pause_set desired) (config_path dir)) (\<lambda>ok.
               if ok then io_ret False else io_fail ''folder did not round-trip'')
           else
             io_bind (promote_config sz (verify_pause_set desired) dir rewritten) (\<lambda>_. io_ret True))))"

section \<open>The edited pauses settle\<close>

lemma trim_format_bool [simp]: "trim_space (format_bool b) = format_bool b"
proof -
  have "trim_space ''true'' = ''true''" "trim_space ''false'' = ''false''" by code_simp+
  then show ?thesis by (simp add: format_bool_def)
qed

lemma consume_written [simp]: "consume_scalar_text n (Chars c # End n # ts) = Inr (c, ts)"
  by simp

lemma pause_loop_settles:
  "pause_loop desired s ts = Inr (out, changed) \<Longrightarrow> pause_loop desired s out = Inr (out, False)"
proof (induction desired s ts arbitrary: out changed rule: pause_loop.induct)
  case (1 desired s ts)
  note unfold = pause_loop.simps [of desired s]
  show ?case
  proof (cases ts)
    case Nil
    with "1.prems" show ?thesis by (auto simp: unfold [of "[]"] split: if_splits)
  next
    case (Cons t rest)
    show ?thesis
    proof (cases t)
      case (Start n attrs)
      obtain s1 where s1: "enter_folder desired (local_name n) attrs s = Some s1"
        using "1.prems" Cons Start by (auto simp: unfold [of "Start n attrs # rest"] split: option.splits)
      show ?thesis
      proof (cases "in_folder s1 \<and> local_name n = ''paused''")
        case True
        then have nseen: "\<not> pseen s1"
          using "1.prems" Cons Start s1 by (auto simp: unfold [of "Start n attrs # rest"])
        obtain existing rest' where scalar: "consume_scalar_text n rest = Inr (existing, rest')"
          using "1.prems" Cons Start s1 True nseen
          by (auto simp: unfold [of "Start n attrs # rest"] split: sum.splits)
        obtain out' c' where rest: "pause_loop desired (s1\<lparr>pseen := True\<rparr>) rest' = Inr (out', c')"
          using "1.prems" Cons Start s1 True nseen scalar
          by (auto simp: unfold [of "Start n attrs # rest"] sum_bind_Inr)
        have out: "out = Start n attrs # Chars (wanted desired s1) # End n # out'"
          using "1.prems" Cons Start s1 True nseen scalar rest
          by (simp add: unfold [of "Start n attrs # rest"])
        have "pause_loop desired (s1\<lparr>pseen := True\<rparr>) out' = Inr (out', False)"
          using "1.IH"(1) [OF Cons Start s1 True nseen scalar refl rest] .
        then show ?thesis
          using True s1 nseen by (simp add: unfold [of "Start n attrs # _"] out wanted_def)
      next
        case False
        then obtain out' c' where c: "pause_loop desired (s1\<lparr>pstack := pstack s1 @ [local_name n]\<rparr>) rest = Inr (out', c')"
          and out: "out = Start n attrs # out'"
          using "1.prems" Cons Start s1 by (auto simp: unfold [of "Start n attrs # rest"] sum_bind_Inr split: if_splits)
        have "pause_loop desired (s1\<lparr>pstack := pstack s1 @ [local_name n]\<rparr>) out' = Inr (out', False)"
          using "1.IH"(2) [OF Cons Start s1 False c] .
        then show ?thesis using False s1 by (auto simp: unfold [of "Start n attrs # _"] out)
      qed
    next
      case (End n)
      have bal: "\<not> (pstack s = [] \<or> last (pstack s) \<noteq> local_name n)"
        using "1.prems" Cons End by (auto simp: unfold [of "End n # rest"] split: if_splits)
      show ?thesis
      proof (cases "in_folder s")
        case True
        then obtain out' c' where c: "pause_loop desired (s\<lparr>pstack := butlast (pstack s), pactive := '''', pseen := False\<rparr>) rest
            = Inr (out', c')"
          and out: "out = (if pseen s then [] else scalar_element ''paused'' (wanted desired s)) @ End n # out'"
          using "1.prems" Cons End bal by (auto simp: unfold [of "End n # rest"] sum_bind_Inr split: if_splits)
        have rec: "pause_loop desired (s\<lparr>pstack := butlast (pstack s), pactive := '''', pseen := False\<rparr>) out' = Inr (out', False)"
          using "1.IH"(3) [OF Cons End bal True c] .
        have closed: "pause_loop desired (s\<lparr>pseen := True\<rparr>) (End n # out') = Inr (End n # out', False)"
          using rec bal True
          by (simp add: pause_loop.simps [of desired "s\<lparr>pseen := True\<rparr>"] in_folder_def)
        show ?thesis
        proof (cases "pseen s")
          case True
          then have "s\<lparr>pseen := True\<rparr> = s" by simp
          with closed True show ?thesis by (simp add: out)
        next
          case False
          have "enter_folder desired ''paused'' [] s = Some s"
            by (simp add: enter_folder_def)
          then show ?thesis
            using closed True False
            by (simp add: unfold [of "Start _ _ # _"] out scalar_element_def wanted_def)
        qed
      next
        case False
        then obtain out' c' where c: "pause_loop desired (s\<lparr>pstack := butlast (pstack s)\<rparr>) rest = Inr (out', c')"
          and out: "out = End n # out'"
          using "1.prems" Cons End bal by (auto simp: unfold [of "End n # rest"] sum_bind_Inr split: if_splits)
        have "pause_loop desired (s\<lparr>pstack := butlast (pstack s)\<rparr>) out' = Inr (out', False)"
          using "1.IH"(4) [OF Cons End bal False c] .
        then show ?thesis using bal False by (simp add: unfold [of "End n # _"] out)
      qed
    next
      case (Chars c)
      obtain out' c' where rest: "pause_loop desired s rest = Inr (out', c')" and out: "out = Chars c # out'"
        using "1.prems" Cons Chars by (auto simp: unfold [of "Chars c # rest"] sum_bind_Inr)
      have "pause_loop desired s out' = Inr (out', False)"
        using "1.IH"(5) [OF Cons Chars rest] .
      then show ?thesis by (simp add: unfold [of "Chars c # _"] out)
    next
      case (Other c)
      obtain out' c' where rest: "pause_loop desired s rest = Inr (out', c')" and out: "out = Other c # out'"
        using "1.prems" Cons Other by (auto simp: unfold [of "Other c # rest"] sum_bind_Inr)
      have "pause_loop desired s out' = Inr (out', False)"
        using "1.IH"(6) [OF Cons Other rest] .
      then show ?thesis by (simp add: unfold [of "Other c # _"] out)
    qed
  qed
qed

section \<open>Applying a pause set\<close>

definition new_config :: "bool \<Rightarrow> pause_set \<Rightarrow> xml_doc \<Rightarrow> xml_doc" where
  "new_config verbatim desired d = (case edit_pauses verbatim desired d of
     Inr (d', True) \<Rightarrow> d' | _ \<Rightarrow> d)"

lemma verify_file_at:
  assumes "config_at dir (Some d) f" and "C f" and "b \<longrightarrow> wp b (k False) Q E C f"
    and "wp b (k (check d)) Q E C f"
  shows "wp b (io_bind (verify_file check (config_path dir)) k) Q E C f"
proof -
  obtain n where "f (config_path dir) = Some (Reg (Doc d n))" "n \<le> max_config_bytes" "valid_config d"
    using assms(1) by (auto simp: config_at_def classify_Found)
  then show ?thesis using assms(2-4) by (auto simp: config_io_defs wp_exec)
qed

lemma apply_pause_wp:
  assumes at: "config_at dir (Some d) f" and sz: "\<forall>e. sz e \<le> max_config_bytes"
  shows "wp False (apply_offline_pause_set sz verbatim dir desired)
     (\<lambda>changed g. config_at dir (Some (new_config verbatim desired d)) g \<and>
        verify_pause_set desired (new_config verbatim desired d))
     (\<lambda>_. config_recovers dir (Some d))
     (config_between dir (Some d) (Some (new_config verbatim desired d))) f"
    (is "wp False _ ?Q ?E ?C f")
proof -
  have old: "?E e g \<and> ?C g" if "config_at dir (Some d) g" for e g
    using config_at_recovers [OF that] by (simp add: config_between_def)
  have dir: "f dir = Some Dir" using at by (simp add: config_at_def)
  obtain n where stored_file: "f (config_path dir) = Some (Reg (Doc d n))" "n \<le> max_config_bytes"
    using at by (auto simp: config_at_def classify_Found)
  have edit: "wp False (io_bind (io_lift (edit_pauses verbatim desired d)) (\<lambda>(rewritten, changed).
      if \<not> changed then
        io_bind (verify_file (verify_pause_set desired) (config_path dir)) (\<lambda>ok.
          if ok then io_ret False else io_fail ''folder did not round-trip'')
      else io_bind (promote_config sz (verify_pause_set desired) dir rewritten) (\<lambda>_. io_ret True))) ?Q ?E ?C f"
  proof (cases "edit_pauses verbatim desired d")
    case (Inl e)
    then show ?thesis using old [OF at] by (simp add: wp_exec)
  next
    case (Inr rc)
    obtain d' c where rc: "rc = (d', c)" by fastforce
    show ?thesis
    proof (cases c)
      case False
      then have "new_config verbatim desired d = d" using Inr rc by (simp add: new_config_def)
      with at old [OF at] show ?thesis
        by (simp add: Inr rc False wp_exec) (rule verify_file_at [OF at]; simp add: wp_exec)
    next
      case True
      then have new: "new_config verbatim desired d = d'" using Inr rc by (simp add: new_config_def)
      have "wp False (promote_config sz (verify_pause_set desired) dir d')
          (\<lambda>_ g. config_at dir (Some d') g \<and> verify_pause_set desired d')
          (\<lambda>_. config_recovers dir (Some d)) (config_between dir (Some d) (Some d')) f"
      proof (cases "valid_config d' \<and> verify_pause_set desired d'")
        case True
        then have "promotable sz (verify_pause_set desired) d'" using sz by (simp add: promotable_def)
        from wp_mono [OF promote_config_wp [OF at this]] True show ?thesis by auto
      next
        case False
        then have "wp False (promote_config sz (verify_pause_set desired) dir d') (\<lambda>_ _. False)
            (\<lambda>_. config_recovers dir (Some d)) (config_recovers dir (Some d)) f"
          using sz by (intro promote_config_refused_wp [OF at]) auto
        then show ?thesis by (rule wp_mono) (auto simp: config_between_def)
      qed
      then show ?thesis
        using True by (auto simp: Inr rc new wp_exec intro!: wp_bindI elim!: wp_mono)
    qed
  qed
  show ?thesis
    using edit stored_file dir old [OF at]
    by (simp add: apply_offline_pause_set_def require_real_directory_def read_safe_config_def wp_exec)
qed

section \<open>Properties\<close>



definition element :: "string \<Rightarrow> (xml_name \<times> string) list \<Rightarrow> xml_doc \<Rightarrow> xml_doc" where
  "element name attrs inner = Start ('''', name) attrs # inner @ [End ('''', name)]"

definition sample_folders :: xml_doc where
  "sample_folders = element ''configuration'' []
     (element ''folder'' [(('''', ''id''), ''a'')] (element ''paused'' [] [Chars ''false'']) @
      element ''folder'' [(('''', ''id''), ''b'')] [Chars ''text''] @
      element ''options'' [] (element ''setLowPriority'' [] [Chars ''true'']))"

definition sample_pauses :: pause_set where
  "sample_pauses = [(''a'', True), (''b'', False)]"



end
