(* ===== verification/Leaf_Sources.thy ===== *)
theory Leaf_Sources
  imports Go_Path
begin

text \<open>
  \<open>internal/leaf/env.go\<close>, \<open>sources.go\<close> and \<open>systems.go\<close>: the runtime-path contract read
  from the process environment, the list of card sources it names, and the systems catalog.
  \<open>getenv\<close> is the lookup in the process environment (\<open>os.LookupEnv\<close>), \<open>tmp_dir\<close> the value
  of \<open>os.TempDir()\<close>.
\<close>

type_synonym getenv = "string \<Rightarrow> string option"

section \<open>sources.go\<close>

record source =
  ID :: string
  Root :: string
  Primary :: bool
  UserdataPath :: string
  SharedUserdataPath :: string
  RomsPath :: string
  ImagesPath :: string
  MusicPath :: string
  AppsPath :: string
  BIOSPath :: string
  SavesPath :: string
  StatesPath :: string
  CheatsPath :: string
  MustBeMounted :: bool

type_synonym source_list = "source list"

text \<open>\<open>strings.Fields\<close>: \<open>cur\<close> is the field being read, in reverse.\<close>

function split_fields_from :: "string \<Rightarrow> string \<Rightarrow> string list" where
  "split_fields_from cur s =
     (if s = '''' then (if cur = '''' then [] else [rev cur])
      else let n = rune_len space_runes s
           in if n > 0 then (if cur = '''' then [] else [rev cur]) @ split_fields_from '''' (drop n s)
              else split_fields_from (hd s # cur) (tl s))"
  by pat_completeness auto
termination by (relation "measure (\<lambda>(cur, s). length s)") auto

declare split_fields_from.simps [simp del]

definition split_fields :: "string \<Rightarrow> string list" where
  "split_fields s = split_fields_from '''' s"

text \<open>The escapes of a mount point: the replacer works from left to right in one pass.\<close>

fun decode_mount_info :: "string \<Rightarrow> string" where
  "decode_mount_info (a # b # c # d # s) =
     (if [a, b, c, d] = CHR 0x5C # ''040'' then CHR '' '' # decode_mount_info s
      else if [a, b, c, d] = CHR 0x5C # ''011'' then CHR 0x09 # decode_mount_info s
      else if [a, b, c, d] = CHR 0x5C # ''012'' then CHR 0x0A # decode_mount_info s
      else if [a, b, c, d] = CHR 0x5C # ''134'' then CHR 0x5C # decode_mount_info s
      else a # decode_mount_info (b # c # d # s))"
| "decode_mount_info s = s"

definition mount_info_has_root :: "string \<Rightarrow> string \<Rightarrow> bool" where
  "mount_info_has_root mount_info root \<longleftrightarrow>
     (\<exists>line \<in> set (split_on CHR 0x0A mount_info).
        let fs = split_fields line
        in length fs \<ge> 5 \<and> clean (decode_mount_info (fs ! 4)) = clean root)"

text \<open>
  \<open>Source.Available\<close>: \<open>is_dir\<close> is whether \<open>os.Stat\<close> of the root finds a directory, and
  \<open>mount_info\<close> the contents of \<open>/proc/self/mountinfo\<close> when they can be read.
\<close>

definition available :: "bool \<Rightarrow> string option \<Rightarrow> source \<Rightarrow> bool" where
  "available is_dir mount_info s \<longleftrightarrow>
     is_dir \<and> (\<not> MustBeMounted s \<or> (case mount_info of None \<Rightarrow> False | Some m \<Rightarrow> mount_info_has_root m (Root s)))"

definition by_id :: "source_list \<Rightarrow> string \<Rightarrow> source option" where
  "by_id ss i = find (\<lambda>s. ID s = i) ss"

definition primary_source :: "source_list \<Rightarrow> source option" where
  "primary_source ss = (case ss of [] \<Rightarrow> None | s # _ \<Rightarrow> Some s)"

text \<open>The loop of \<open>parsePathList\<close>: \<open>seen\<close> are the cleaned roots met so far.\<close>

fun parse_items :: "string list \<Rightarrow> string list \<Rightarrow> error + string list" where
  "parse_items seen [] = Inr []"
| "parse_items seen (part # parts) =
     (if trim_space part = '''' then Inl ''contains an empty item''
      else let root = clean_path part
           in if root \<in> set seen then Inl ''contains duplicate root''
              else sum_bind (parse_items (root # seen) parts) (\<lambda>roots. Inr (root # roots)))"

definition parse_path_list :: "string \<Rightarrow> error + string list" where
  "parse_path_list raw = parse_items [] (split_on CHR '':'' raw)"

text \<open>A variable that is set and not empty; \<open>value\<close> of \<open>loadEnvironment\<close> adds a fallback.\<close>

definition env_set :: "getenv \<Rightarrow> string \<Rightarrow> string option" where
  "env_set getenv name = (case getenv name of None \<Rightarrow> None | Some v \<Rightarrow> if v = '''' then None else Some v)"

definition env_value :: "getenv \<Rightarrow> string \<Rightarrow> string \<Rightarrow> string" where
  "env_value getenv name fallback = (case env_set getenv name of None \<Rightarrow> fallback | Some v \<Rightarrow> v)"

definition resolve_root_list :: "getenv \<Rightarrow> string \<Rightarrow> string \<Rightarrow> error + string list" where
  "resolve_root_list getenv primary secondary =
     (case env_set getenv ''SDCARD_PATHS'' of
        Some raw \<Rightarrow>
          sum_bind (parse_path_list raw) (\<lambda>roots.
            if hd roots \<noteq> primary then Inl ''SDCARD_PATHS primary does not match SDCARD_PATH''
            else Inr roots)
      | None \<Rightarrow>
          if secondary \<noteq> '''' \<and> secondary \<noteq> primary then Inr [primary, secondary]
          else Inr [primary])"

definition resolve_content_paths ::
    "getenv \<Rightarrow> string list \<Rightarrow> string \<Rightarrow> string \<Rightarrow> string \<Rightarrow> error + string list" where
  "resolve_content_paths getenv roots plural singular child =
     (case env_set getenv plural of
        Some raw \<Rightarrow>
          sum_bind (parse_path_list raw) (\<lambda>paths.
            if length paths \<noteq> length roots then Inl ''item count differs from SDCARD_PATHS''
            else (case env_set getenv singular of
                    Some v \<Rightarrow> if clean_path v \<noteq> paths ! 0 then Inl ''primary does not match'' else Inr paths
                  | None \<Rightarrow> Inr paths))
      | None \<Rightarrow>
          let paths = map (\<lambda>root. join_path [root, child]) roots
          in case env_set getenv singular of
               Some v \<Rightarrow> Inr (paths[0 := clean_path v])
             | None \<Rightarrow> Inr paths)"

definition required_aligned_paths :: "getenv \<Rightarrow> string \<Rightarrow> string \<Rightarrow> nat \<Rightarrow> error + string list" where
  "required_aligned_paths getenv plural singular count =
     (case (env_set getenv plural, env_set getenv singular) of
        (Some raw_plural, Some raw_singular) \<Rightarrow>
          let raw_items = split_on CHR '':'' raw_plural
          in if length raw_items \<noteq> count then Inl ''item count differs from SDCARD_PATHS''
             else if raw_items ! 0 \<noteq> raw_singular then Inl ''primary does not byte-match''
             else parse_path_list raw_plural
      | _ \<Rightarrow> Inl ''source-paths-v2 requires both lists'')"

text \<open>
  The check of one index; the inner loop ranges over a Go map, so which of several escaping
  lists is reported is not determined, and the error here names none of them.
\<close>

fun check_aligned :: "string list \<Rightarrow> string list \<Rightarrow> string list \<Rightarrow> string list \<Rightarrow> string list \<Rightarrow>
    string list \<Rightarrow> string list \<Rightarrow> string list \<Rightarrow> nat list \<Rightarrow> error + unit" where
  "check_aligned roots saves states cards users shareds dsaves dstates [] = Inr ()"
| "check_aligned roots saves states cards users shareds dsaves dstates (i # is) =
     (if cards ! i \<noteq> roots ! i \<or> dsaves ! i \<noteq> saves ! i \<or> dstates ! i \<noteq> states ! i
      then Inl ''source-paths-v2 list order differs''
      else sum_bind (map_results (relative_within (roots ! i))
                       [users ! i, shareds ! i, dsaves ! i, dstates ! i])
             (\<lambda>_. check_aligned roots saves states cards users shareds dsaves dstates is))"

definition resolve_source_paths_v2 ::
    "getenv \<Rightarrow> string list \<Rightarrow> string list \<Rightarrow> string list \<Rightarrow> error + string list \<times> string list \<times> bool" where
  "resolve_source_paths_v2 getenv roots saves states =
     (if getenv ''UMRK_ENV_VERSION'' \<noteq> Some ''2'' then Inr ([], [], False)
      else
        sum_bind (required_aligned_paths getenv ''SDCARD_PATHS'' ''SDCARD_PATH'' (length roots)) (\<lambda>cards.
        sum_bind (required_aligned_paths getenv ''USERDATA_PATHS'' ''USERDATA_PATH'' (length roots)) (\<lambda>users.
        sum_bind (required_aligned_paths getenv ''SHARED_USERDATA_PATHS'' ''SHARED_USERDATA_PATH''
                    (length roots)) (\<lambda>shareds.
        sum_bind (required_aligned_paths getenv ''SAVES_PATHS'' ''SAVES_PATH'' (length roots)) (\<lambda>dsaves.
        sum_bind (required_aligned_paths getenv ''STATES_PATHS'' ''STATES_PATH'' (length roots)) (\<lambda>dstates.
        sum_bind (check_aligned roots saves states cards users shareds dsaves dstates [0 ..< length roots])
          (\<lambda>_. Inr (users, shareds, True))))))))"

definition value_at :: "string list \<Rightarrow> nat \<Rightarrow> string" where
  "value_at vs i = (if i < length vs then vs ! i else '''')"

fun digits_of :: "nat \<Rightarrow> string" where
  "digits_of n = (if n < 10 then [char_of (48 + n)] else digits_of (n div 10) @ [char_of (48 + n mod 10)])"

declare digits_of.simps [simp del]

definition content_specs :: "(string \<times> string \<times> string) list" where
  "content_specs =
     [(''ROMS_PATHS'', ''ROMS_PATH'', ''Roms''), (''IMAGES_PATHS'', ''IMAGES_PATH'', ''Images''),
      (''MUSIC_PATHS'', ''MUSIC_PATH'', ''Music''), (''APPS_PATHS'', ''APPS_PATH'', ''Apps''),
      (''BIOS_PATHS'', ''BIOS_PATH'', ''BIOS''), (''SAVES_PATHS'', ''SAVES_PATH'', ''Saves''),
      (''STATES_PATHS'', ''STATES_PATH'', ''States''), (''CHEATS_PATHS'', ''CHEATS_PATH'', ''Cheats'')]"

definition source_id :: "string \<Rightarrow> nat \<Rightarrow> string \<Rightarrow> string" where
  "source_id secondary i root =
     (if i = 0 then ''primary''
      else if root = secondary then ''secondary_sd''
      else ''source'' @ digits_of (i + 1))"

definition make_source :: "string list \<Rightarrow> string \<Rightarrow> string list list \<Rightarrow> string list \<Rightarrow> string list \<Rightarrow>
    nat \<Rightarrow> source" where
  "make_source roots secondary resolved users shareds i =
     \<lparr>ID = source_id secondary i (roots ! i), Root = roots ! i, Primary = (i = 0),
      UserdataPath = value_at users i, SharedUserdataPath = value_at shareds i,
      RomsPath = resolved ! 0 ! i, ImagesPath = resolved ! 1 ! i, MusicPath = resolved ! 2 ! i,
      AppsPath = resolved ! 3 ! i, BIOSPath = resolved ! 4 ! i, SavesPath = resolved ! 5 ! i,
      StatesPath = resolved ! 6 ! i, CheatsPath = resolved ! 7 ! i, MustBeMounted = (0 < i)\<rparr>"

definition resolve_sources :: "getenv \<Rightarrow> string list \<Rightarrow> string \<Rightarrow> error + source_list \<times> bool" where
  "resolve_sources getenv roots secondary =
     sum_bind (map_results (\<lambda>(plural, singular, child).
                 resolve_content_paths getenv roots plural singular child) content_specs) (\<lambda>resolved.
     sum_bind (resolve_source_paths_v2 getenv roots (resolved ! 5) (resolved ! 6))
       (\<lambda>(users, shareds, v2).
         Inr (map (make_source roots secondary resolved users shareds) [0 ..< length roots], v2)))"

section \<open>env.go\<close>

record environment =
  Platform :: string
  Device :: string
  SDCardPath :: string
  SystemPath :: string
  PlatformPath :: string
  EnvUserdataPath :: string
  EnvSharedUserdataPath :: string
  LogsPath :: string
  RuntimePath :: string
  InternalDataPath :: string
  Sources :: source_list
  SourcePathsV2 :: bool

definition default_platform :: string where "default_platform = ''mlp1''"
definition default_primary_root :: string where "default_primary_root = ''/mnt/sdcard''"
definition default_secondary_root :: string where "default_secondary_root = ''/media/sdcard1''"
definition app_state_name :: string where "app_state_name = ''Syncthing''"

definition load_environment :: "string \<Rightarrow> getenv \<Rightarrow> error + environment" where
  "load_environment tmp_dir getenv =
     (let platform = env_value getenv ''PLATFORM'' default_platform
      in if platform \<noteq> default_platform then Inl ''unsupported Leaf platform''
         else
           let primary = clean_path (env_value getenv ''SDCARD_PATH'' default_primary_root);
               secondary = clean_path (env_value getenv ''UMRK_SECONDARY_SDCARD_PATH'' default_secondary_root)
           in sum_bind (resolve_root_list getenv primary secondary) (\<lambda>roots.
              sum_bind (resolve_sources getenv roots secondary) (\<lambda>(srcs, v2).
                let system_path = clean_path (env_value getenv ''SYSTEM_PATH''
                      (join_path [primary, ''.system'', ''leaf'', ''platforms'', platform]));
                    userdata = clean_path (env_value getenv ''USERDATA_PATH''
                      (join_path [primary, ''.userdata'', platform]));
                    shared = clean_path (env_value getenv ''SHARED_USERDATA_PATH''
                      (join_path [primary, ''.userdata'', ''shared'']))
                in Inr
                  \<lparr>Platform = platform, Device = env_value getenv ''DEVICE'' platform,
                   SDCardPath = primary, SystemPath = system_path,
                   PlatformPath = clean_path (env_value getenv ''UMRK_PLATFORM_PATH'' system_path),
                   EnvUserdataPath = userdata, EnvSharedUserdataPath = shared,
                   LogsPath = clean_path (env_value getenv ''LOGS_PATH'' (join_path [userdata, ''logs''])),
                   RuntimePath = clean_path (env_value getenv ''UMRK_RUNTIME_PATH''
                     (join_path [tmp_dir, ''jawaka-runtime''])),
                   InternalDataPath = clean_path (env_value getenv ''UMRK_INTERNAL_DATA_PATH''
                     (join_path [primary, ''.umrk'', platform])),
                   Sources = srcs, SourcePathsV2 = v2\<rparr>)))"

definition state_dir :: "environment \<Rightarrow> string" where
  "state_dir e = join_path [EnvUserdataPath e, app_state_name]"

definition catalog_path :: "environment \<Rightarrow> string" where
  "catalog_path e = join_path [PlatformPath e, ''defaults'', ''systems.json'']"

section \<open>Path lists and sources\<close>

lemma clean_path_not_empty: "p \<noteq> '''' \<Longrightarrow> clean_path p \<noteq> ''''"
  by (simp add: clean_path_def)

lemma clean_path_idem [simp]: "clean_path (clean_path p) = clean_path p"
  by (simp add: clean_path_def)

lemma trim_space_empty [simp]: "trim_space '''' = ''''"
  by (simp add: trim_space_def drop_runes.simps)

lemma parse_items_spec:
  "parse_items seen parts = Inr roots \<Longrightarrow>
   roots = map clean parts \<and> distinct roots \<and> (\<forall>r \<in> set roots. r \<notin> set seen) \<and> (\<forall>p \<in> set parts. p \<noteq> '''')"
proof (induction parts arbitrary: seen roots)
  case Nil
  then show ?case by simp
next
  case (Cons part parts)
  then have part: "trim_space part \<noteq> ''''" "clean_path part \<notin> set seen"
    by (auto simp: Let_def split: if_splits)
  with Cons.prems obtain rs where rs: "parse_items (clean_path part # seen) parts = Inr rs"
    and roots: "roots = clean_path part # rs"
    by (auto simp: Let_def sum_bind_Inr)
  have ne: "part \<noteq> ''''" using part by auto
  then have "clean_path part = clean part" by (simp add: clean_path_def)
  with Cons.IH [OF rs] roots part ne show ?case by auto
qed

lemma parse_path_list_spec:
  assumes "parse_path_list raw = Inr roots"
  shows "roots = map clean (split_on CHR '':'' raw)" "distinct roots" "roots \<noteq> []"
  using parse_items_spec [OF assms [unfolded parse_path_list_def]] by auto

lemma digits_of_chars: "set (digits_of n) \<subseteq> set (map (\<lambda>d. char_of (48 + d :: nat)) [0 ..< 10])"
proof (induction n rule: digits_of.induct)
  case (1 n)
  show ?case
  proof (cases "n < 10")
    case False
    moreover have "char_of (48 + n mod 10) \<in> set (map (\<lambda>d. char_of (48 + d :: nat)) [0 ..< 10])"
      by auto
    ultimately show ?thesis
      using 1 digits_of.simps [of n] by (simp del: upt_conv_Cons)
  qed (auto simp: digits_of.simps [of n])
qed

lemma digit_inj:
  assumes "char_of (48 + a :: nat) = char_of (48 + b)" "a < 10" "b < 10"
  shows "a = b"
proof -
  have "of_char (char_of (48 + a :: nat)) = (of_char (char_of (48 + b :: nat)) :: nat)"
    using assms(1) by (rule arg_cong)
  then show ?thesis using assms(2,3) by simp
qed

lemma digits_of_inj: "digits_of m = digits_of n \<Longrightarrow> m = n"
proof (induction m arbitrary: n rule: digits_of.induct)
  case (1 m)
  have ne: "digits_of k \<noteq> []" for k by (simp add: digits_of.simps [of k])
  show ?case
  proof (cases "m < 10")
    case True
    then have "n < 10"
      using 1(2) ne [of "n div 10"] by (auto simp: digits_of.simps [of m] digits_of.simps [of n] split: if_splits)
    with True 1(2) show ?thesis
      by (auto simp: digits_of.simps [of m] digits_of.simps [of n] intro: digit_inj)
  next
    case False
    then have "\<not> n < 10"
      using 1(2) ne [of "m div 10"] by (auto simp: digits_of.simps [of m] digits_of.simps [of n] split: if_splits)
    with False 1(2) have "digits_of (m div 10) = digits_of (n div 10)"
      and "char_of (48 + m mod 10 :: nat) = char_of (48 + n mod 10 :: nat)"
      by (simp_all add: digits_of.simps [of m] digits_of.simps [of n])
    then have "m div 10 = n div 10" "m mod 10 = n mod 10"
      using 1(1) False digit_inj [of "m mod 10" "n mod 10"] by auto
    then show ?thesis by (metis div_mult_mod_eq)
  qed
qed

lemma source_id_distinct:
  assumes "distinct roots"
  shows "distinct (map (\<lambda>i. source_id secondary i (roots ! i)) [0 ..< length roots])"
proof -
  have "i = j" if "i < length roots" "j < length roots"
    "source_id secondary i (roots ! i) = source_id secondary j (roots ! j)" for i j
    using that nth_eq_iff_index_eq [OF assms, of i j] digits_of_inj [of "i + 1" "j + 1"]
    by (auto simp: source_id_def split: if_splits)
  then show ?thesis by (auto simp: distinct_map inj_on_def)
qed

lemma by_id_unique: "distinct (map ID ss) \<Longrightarrow> s \<in> set ss \<Longrightarrow> by_id ss (ID s) = Some s"
  unfolding by_id_def by (induction ss) auto

lemma resolve_content_paths_length:
  "resolve_content_paths getenv roots plural singular child = Inr paths \<Longrightarrow> length paths = length roots"
  by (auto simp: resolve_content_paths_def Let_def sum_bind_Inr split: option.splits if_splits)

text \<open>What \<open>resolveSources\<close> builds, whatever the environment says: one source per root.\<close>

lemma resolve_sources_shape:
  assumes "resolve_sources getenv roots secondary = Inr (ss, v2)"
  shows "map Root ss = roots" "map ID ss = map (\<lambda>i. source_id secondary i (roots ! i)) [0 ..< length roots]"
    "map Primary ss = map (\<lambda>i. i = 0) [0 ..< length roots]"
    "map MustBeMounted ss = map (\<lambda>i. 0 < i) [0 ..< length roots]"
  using assms by (auto simp: resolve_sources_def sum_bind_Inr make_source_def o_def map_nth)

lemma resolve_root_list_spec:
  assumes "resolve_root_list getenv primary secondary = Inr roots"
  shows "distinct roots \<and> roots \<noteq> [] \<and> hd roots = primary"
proof (cases "env_set getenv ''SDCARD_PATHS''")
  case None
  then show ?thesis using assms by (auto simp: resolve_root_list_def split: if_splits)
next
  case (Some raw)
  then have "parse_path_list raw = Inr roots" "hd roots = primary"
    using assms by (auto simp: resolve_root_list_def sum_bind_Inr split: if_splits)
  with parse_path_list_spec [of raw roots] show ?thesis by simp
qed

lemma check_aligned_below:
  assumes "check_aligned roots saves states cards users shareds dsaves dstates is = Inr ()" "i \<in> set is"
  shows "dsaves ! i = saves ! i \<and> dstates ! i = states ! i \<and>
     (\<forall>p \<in> {users ! i, shareds ! i, dsaves ! i, dstates ! i}. below (roots ! i) p)"
  using assms
proof (induction "is")
  case (Cons j js)
  have "\<forall>p \<in> {users ! j, shareds ! j, dsaves ! j, dstates ! j}. below (roots ! j) p"
  proof
    fix p assume that: "p \<in> {users ! j, shareds ! j, dsaves ! j, dstates ! j}"
    have "\<exists>rel. relative_within (roots ! j) p = Inr rel"
      using Cons.prems(1) that by (auto simp: sum_bind_Inr split: if_splits)
    then show "below (roots ! j) p" by (simp add: relative_within_below)
  qed
  moreover have "dsaves ! j = saves ! j" "dstates ! j = states ! j"
    "check_aligned roots saves states cards users shareds dsaves dstates js = Inr ()"
    using Cons.prems(1) by (auto simp: sum_bind_Inr split: if_splits)
  ultimately show ?case using Cons.IH Cons.prems(2) by auto
qed simp

lemma required_aligned_length:
  "required_aligned_paths getenv plural singular n = Inr paths \<Longrightarrow> length paths = n"
  using parse_path_list_spec(1)
  by (fastforce simp: required_aligned_paths_def Let_def split: option.splits if_splits)

lemma resolve_sources_below:
  assumes "resolve_sources getenv roots secondary = Inr (ss, True)" and "s \<in> set ss"
  shows "\<forall>p \<in> {UserdataPath s, SharedUserdataPath s, SavesPath s, StatesPath s}. below (Root s) p"
proof -
  from assms(1) obtain resolved users shareds where
    v2: "resolve_source_paths_v2 getenv roots (resolved ! 5) (resolved ! 6) = Inr (users, shareds, True)"
    and ss: "ss = map (make_source roots secondary resolved users shareds) [0 ..< length roots]"
    by (auto simp: resolve_sources_def sum_bind_Inr)
  obtain i where i: "i < length roots" "s = make_source roots secondary resolved users shareds i"
    using assms(2) ss by auto
  from v2 obtain cards dsaves dstates where
    users: "required_aligned_paths getenv ''USERDATA_PATHS'' ''USERDATA_PATH'' (length roots) = Inr users"
    and shareds: "required_aligned_paths getenv ''SHARED_USERDATA_PATHS'' ''SHARED_USERDATA_PATH''
      (length roots) = Inr shareds"
    and check: "check_aligned roots (resolved ! 5) (resolved ! 6) cards users shareds dsaves dstates
      [0 ..< length roots] = Inr ()"
    by (auto simp: resolve_source_paths_v2_def sum_bind_Inr split: if_splits)
  have "length users = length roots" "length shareds = length roots"
    using required_aligned_length users shareds by blast+
  moreover note check_aligned_below [OF check, of i]
  ultimately show ?thesis using i by (fastforce simp: make_source_def value_at_def)
qed

section \<open>Properties\<close>

text \<open>
  A list of paths that parses has as many roots as the variable has items, all of them
  cleaned, and no root twice.
\<close>

theorem parse_path_list_sound:
  assumes "parse_path_list raw = Inr roots"
  shows "distinct roots \<and> roots = map clean (split_on CHR '':'' raw) \<and> (\<forall>r \<in> set roots. clean r = r)"
  using parse_path_list_spec [OF assms] by auto

theorem parse_path_list_sound_witness:
  "distinct [''/mnt/sd'', ''/media/b''] \<and>
   [''/mnt/sd'', ''/media/b''] = map clean (split_on CHR '':'' ''/mnt//sd:/media/x/../b'')"
proof -
  have "parse_path_list ''/mnt//sd:/media/x/../b'' = Inr [''/mnt/sd'', ''/media/b'']"
    by code_simp
  from parse_path_list_sound [OF this] show ?thesis by blast
qed

text \<open>
  An environment that loads names at least one source; the first is the primary card at
  \<open>SDCARD_PATH\<close> and the only one that need not be a mount; no root and no source id occurs
  twice, so that looking a source up by its id finds that source.
\<close>

theorem load_environment_sources:
  assumes "load_environment tmp_dir getenv = Inr e"
  shows "Sources e \<noteq> [] \<and> Root (hd (Sources e)) = SDCardPath e \<and> distinct (map Root (Sources e)) \<and>
     (\<forall>s \<in> set (Sources e). by_id (Sources e) (ID s) = Some s \<and>
        (Primary s \<longleftrightarrow> s = hd (Sources e)) \<and> MustBeMounted s = (\<not> Primary s))"
proof -
  obtain roots secondary ss v2 where roots: "resolve_root_list getenv (SDCardPath e) secondary = Inr roots"
    and ss: "resolve_sources getenv roots secondary = Inr (ss, v2)" and e: "Sources e = ss"
    using assms by (auto simp: load_environment_def Let_def sum_bind_Inr split: if_splits)
  note shape = resolve_sources_shape [OF ss]
  have r: "distinct roots" "roots \<noteq> []" "hd roots = SDCardPath e"
    using resolve_root_list_spec [OF roots] by auto
  have len: "length ss = length roots" using arg_cong [OF shape(1), of length] by simp
  have ids: "distinct (map ID ss)" using shape(2) source_id_distinct [OF r(1)] by simp
  have nth: "Root (ss ! i) = roots ! i" "Primary (ss ! i) = (i = 0)" "MustBeMounted (ss ! i) = (0 < i)"
    if "i < length ss" for i
    using arg_cong [OF shape(1), of "\<lambda>xs. xs ! i"] arg_cong [OF shape(3), of "\<lambda>xs. xs ! i"]
      arg_cong [OF shape(4), of "\<lambda>xs. xs ! i"] that len by simp_all
  have ne: "ss \<noteq> []" using len r(2) by auto
  have "by_id ss (ID s) = Some s \<and> (Primary s \<longleftrightarrow> s = hd ss) \<and> MustBeMounted s = (\<not> Primary s)"
    if s: "s \<in> set ss" for s
  proof -
    obtain i where i: "i < length ss" "s = ss ! i" using s by (auto simp: in_set_conv_nth)
    have "s = hd ss \<longleftrightarrow> i = 0"
      using nth [OF i(1)] nth [of 0] i ne hd_conv_nth [OF ne] by auto
    with i nth [OF i(1)] by_id_unique [OF ids s] show ?thesis by simp
  qed
  moreover have "Root (hd ss) = SDCardPath e"
    using nth(1) [of 0] ne r hd_conv_nth [OF ne] hd_conv_nth [OF r(2)] by simp
  ultimately show ?thesis using e ne r(1) shape(1) by simp
qed

definition sample_env :: getenv where
  "sample_env = map_of [(''SDCARD_PATH'', ''/mnt/sd/''), (''UMRK_SECONDARY_SDCARD_PATH'', ''/media/b'')]"

definition sample_environment :: environment where
  "sample_environment = (case load_environment ''/tmp'' sample_env of Inr e \<Rightarrow> e | Inl _ \<Rightarrow> undefined)"

theorem load_environment_sources_witness:
  "SDCardPath sample_environment = ''/mnt/sd'' \<and> distinct (map Root (Sources sample_environment))"
proof -
  have "case load_environment ''/tmp'' sample_env of Inl _ \<Rightarrow> False | Inr e \<Rightarrow> SDCardPath e = ''/mnt/sd''"
    by code_simp
  then have "load_environment ''/tmp'' sample_env = Inr sample_environment"
    "SDCardPath sample_environment = ''/mnt/sd''"
    by (auto simp: sample_environment_def split: sum.splits)
  then show ?thesis using load_environment_sources by blast
qed

text \<open>
  C29. Under the second version of the path contract, the user data, shared user data, saves and
  states of every source lie on that source's own card.
\<close>

theorem source_paths_v2_confined:
  assumes "load_environment tmp_dir getenv = Inr e" and "SourcePathsV2 e" and "s \<in> set (Sources e)"
  shows "\<forall>p \<in> {UserdataPath s, SharedUserdataPath s, SavesPath s, StatesPath s}. below (Root s) p"
proof -
  obtain roots secondary where "resolve_sources getenv roots secondary = Inr (Sources e, True)"
    using assms(1,2) by (auto simp: load_environment_def Let_def sum_bind_Inr split: if_splits)
  from resolve_sources_below [OF this assms(3)] show ?thesis .
qed

definition sample_env_v2 :: getenv where
  "sample_env_v2 = map_of
     [(''UMRK_ENV_VERSION'', ''2''), (''SDCARD_PATH'', ''/a''), (''SDCARD_PATHS'', ''/a:/b''),
      (''USERDATA_PATH'', ''/a/u''), (''USERDATA_PATHS'', ''/a/u:/b/u''),
      (''SHARED_USERDATA_PATH'', ''/a/h''), (''SHARED_USERDATA_PATHS'', ''/a/h:/b/h''),
      (''SAVES_PATH'', ''/a/s''), (''SAVES_PATHS'', ''/a/s:/b/s''),
      (''STATES_PATH'', ''/a/t''), (''STATES_PATHS'', ''/a/t:/b/t'')]"

definition sample_environment_v2 :: environment where
  "sample_environment_v2 = (case load_environment ''/tmp'' sample_env_v2 of Inr e \<Rightarrow> e | Inl _ \<Rightarrow> undefined)"

theorem source_paths_v2_confined_witness:
  "SourcePathsV2 sample_environment_v2 \<and> length (Sources sample_environment_v2) = 2 \<and>
   below (Root (Sources sample_environment_v2 ! 1)) (SavesPath (Sources sample_environment_v2 ! 1))"
proof -
  have ok: "case load_environment ''/tmp'' sample_env_v2 of Inl _ \<Rightarrow> False
      | Inr e \<Rightarrow> SourcePathsV2 e \<and> length (Sources e) = 2"
    by code_simp
  then have "load_environment ''/tmp'' sample_env_v2 = Inr sample_environment_v2"
    "SourcePathsV2 sample_environment_v2" "length (Sources sample_environment_v2) = 2"
    by (auto simp: sample_environment_v2_def split: sum.splits)
  then show ?thesis
    using source_paths_v2_confined [of "''/tmp''" sample_env_v2 sample_environment_v2
        "Sources sample_environment_v2 ! 1"] by simp
qed

end
