(* ===== verification/Card_Identity.thy ===== *)
theory Card_Identity
  imports Leaf_Sources Crash_Store
begin

text \<open>
  \<open>internal/cards/cards.go\<close>: a physical card is recognised by the random identity in its
  \<open>card-id\<close> file.  The files of this theory hold identities.  Parameters: the SHA-256 digest in
  hexadecimal (\<open>sha256\<close>), the random bytes a reader delivers, and what walking a directory
  meets (\<open>walk\<close>).
\<close>

section \<open>Identities\<close>

record identity =
  IVersion :: int
  IID :: string

definition no_identity :: identity where
  "no_identity = \<lparr>IVersion = 0, IID = ''''\<rparr>"

definition identity_version :: int where "identity_version = 1"
definition max_identity_bytes :: nat where "max_identity_bytes = 1024"
definition identity_file_name :: string where "identity_file_name = ''card-id''"
definition temporary_name :: string where "temporary_name = ''card-id.tmp''"

definition hex_digits :: string where "hex_digits = ''0123456789abcdef''"

definition is_hex :: "char \<Rightarrow> bool" where
  "is_hex c \<longleftrightarrow> c \<in> set hex_digits \<or> c \<in> set ''ABCDEF''"

definition valid_identity_id :: "string \<Rightarrow> bool" where
  "valid_identity_id i \<longleftrightarrow> length i = 32 \<and> (\<forall>c \<in> set i. is_hex c) \<and> i = lower_ascii i"

definition hex_encode :: "string \<Rightarrow> string" where
  "hex_encode bs = concat (map (\<lambda>c. [hex_digits ! (of_char c div 16), hex_digits ! (of_char c mod 16)]) bs)"

definition binding_names :: "(string \<Rightarrow> string) \<Rightarrow> string \<Rightarrow> string \<Rightarrow> error + string \<times> string" where
  "binding_names sha256 card_id kind =
     (if \<not> valid_identity_id card_id then Inl ''card-id is invalid''
      else if kind \<noteq> ''saves'' \<and> kind \<noteq> ''states'' then Inl ''unsupported managed folder kind''
      else let digest = sha256 (card_id @ kind)
           in Inr (''leaf-'' @ kind @ ''-'' @ take 16 digest, ''.leaf-'' @ kind @ ''-'' @ take 12 digest))"

text \<open>
  \<open>ValidateManagedMarker\<close>.  \<open>lstat\<close> answers \<open>None\<close> for a path that does not exist.
\<close>

definition validate_managed_marker :: "string \<Rightarrow> string \<Rightarrow> ('d, unit) io" where
  "validate_managed_marker root marker =
     (if marker = '''' \<or> marker = ''.stfolder'' \<or> base_name marker \<noteq> marker
      then io_fail ''managed folder marker collides with a non-directory entry''
      else io_bind (io_try (lstat root)) (\<lambda>r.
        if r \<noteq> Inr (Some Dir) then io_fail ''managed folder root is absent, symlinked, or not a directory''
        else io_bind (lstat (join_path [root, ''.stfolder''])) (\<lambda>foreign.
          if foreign \<noteq> None then io_fail ''default .stfolder indicates a foreign Syncthing manager''
          else io_bind (lstat (join_path [root, marker])) (\<lambda>info. case info of
            None \<Rightarrow> io_fail ''managed folder marker is missing''
          | Some n \<Rightarrow> if n \<noteq> Dir then io_fail ''managed folder marker collides with a non-directory entry''
                      else io_ret ()))))"

definition good_identity :: "identity \<Rightarrow> bool" where
  "good_identity i \<longleftrightarrow> IVersion i = identity_version \<and> length (IID i) = 32 \<and> valid_identity_id (IID i)"

definition read_identity :: "string \<Rightarrow> (identity, identity read_result) io" where
  "read_identity p = read_checked max_identity_bytes good_identity p"

text \<open>The encoded identity with its newline.\<close>

definition identity_size :: "identity \<Rightarrow> nat" where
  "identity_size i = 22 + length (IID i)"

section \<open>Cards\<close>

datatype card_state = Absent_Card | Unenrolled | Enrolled | Invalid | Duplicate

record leaf_card =
  Source :: source
  Identity :: identity
  State :: card_state
  Present :: bool
  Writable :: bool
  DuplicateID :: bool
  RetainedBytes :: int
  Issues :: "string list"

text \<open>Mount points by cleaned path, with whether the mount is writable; later lines win.\<close>

type_synonym mounts = "string \<Rightarrow> bool option"

fun add_mounts :: "string list \<Rightarrow> mounts \<Rightarrow> mounts" where
  "add_mounts [] m = m"
| "add_mounts (line # ls) m =
     (let fs = split_fields line
      in if length fs < 6 then add_mounts ls m
         else add_mounts ls (m(clean (decode_mount_info (fs ! 4)) \<mapsto>
                (''rw'' \<in> set (split_on CHR '','' (fs ! 5))))))"

definition parse_mount_info :: "string \<Rightarrow> mounts" where
  "parse_mount_info contents = add_mounts (split_on CHR 0x0A contents) (\<lambda>_. None)"

definition validate_source :: "source \<Rightarrow> (identity, unit) io" where
  "validate_source s =
     (if ID s = '''' \<or> Root s = '''' \<or> UserdataPath s = ''''
      then io_fail ''source id, root, and PATH-2 userdata are required''
      else io_bind (lstat (Root s)) (\<lambda>root. case root of
        None \<Rightarrow> io_fail ''inspect card root''
      | Some n \<Rightarrow>
          if n \<noteq> Dir then io_fail ''card root is not a real directory''
          else io_bind (io_lift (relative_within (Root s) (UserdataPath s))) (\<lambda>_. io_ret ())))"

definition discard_temporary :: "string \<Rightarrow> string \<Rightarrow> (identity, unit) io" where
  "discard_temporary p root =
     io_bind (lstat p) (\<lambda>info. case info of
       None \<Rightarrow> io_ret ()
     | Some (Reg c) \<Rightarrow> io_seq (remove_file p) (sync_fs root)
     | Some _ \<Rightarrow> io_fail ''card-id temporary is not a real file'')"

text \<open>What \<open>filepath.WalkDir\<close> meets under the state root, and the sum of the file sizes.\<close>

datatype walk_entry = Walk_Error | Walk_Link | Walk_File int | Walk_Other

fun retained_sum :: "int \<Rightarrow> walk_entry list \<Rightarrow> error + int" where
  "retained_sum acc [] = Inr acc"
| "retained_sum acc (e # es) = (case e of
     Walk_Error \<Rightarrow> Inl ''walk error''
   | Walk_Link \<Rightarrow> Inl ''retained state contains symlink''
   | Walk_Other \<Rightarrow> retained_sum acc es
   | Walk_File n \<Rightarrow>
       if n > 2 ^ 63 - 1 - acc then Inl ''retained state size overflows''
       else retained_sum (acc + n) es)"

definition state_root :: "source \<Rightarrow> string" where
  "state_root s = join_path [UserdataPath s, app_state_name]"

definition identity_path :: "source \<Rightarrow> string" where
  "identity_path s = join_path [state_root s, identity_file_name]"

definition temporary_path :: "source \<Rightarrow> string" where
  "temporary_path s = join_path [state_root s, temporary_name]"

definition with_issue :: "string \<Rightarrow> leaf_card \<Rightarrow> leaf_card" where
  "with_issue code c = c\<lparr>Issues := Issues c @ [code]\<rparr>"

definition inspect_source ::
    "(string \<Rightarrow> walk_entry list) \<Rightarrow> mounts \<Rightarrow> source \<Rightarrow> (identity, leaf_card) io" where
  "inspect_source walk mounts s =
     (let card0 = \<lparr>Source = s, Identity = no_identity, State = Absent_Card, Present = False,
                   Writable = False, DuplicateID = False, RetainedBytes = 0, Issues = []\<rparr>
      in case mounts (clean (Root s)) of
           None \<Rightarrow> io_ret (with_issue ''card-absent'' card0)
         | Some writable \<Rightarrow>
             let card1 = card0\<lparr>Present := True, Writable := writable\<rparr>
             in io_bind (io_try (validate_source s)) (\<lambda>v. case v of
                  Inl _ \<Rightarrow> io_ret (with_issue ''unsafe-card-path'' (card1\<lparr>State := Invalid\<rparr>))
                | Inr _ \<Rightarrow> io_bind (io_try (lstat (state_root s))) (\<lambda>info. case info of
                    Inr None \<Rightarrow> io_ret (card1\<lparr>State := Unenrolled\<rparr>)
                  | Inr (Some Dir) \<Rightarrow>
                      io_bind (discard_temporary (temporary_path s) (Root s)) (\<lambda>_.
                      io_bind (read_identity (identity_path s)) (\<lambda>r.
                      io_bind (case r of
                          Unreadable _ \<Rightarrow> io_ret (with_issue ''invalid-card-id'' (card1\<lparr>State := Invalid\<rparr>))
                        | Absent \<Rightarrow> io_ret (card1\<lparr>State := Unenrolled\<rparr>)
                        | Found i \<Rightarrow> io_seq (sync_fs (Root s))
                                      (io_ret (card1\<lparr>State := Enrolled, Identity := i\<rparr>))) (\<lambda>card2.
                      io_ret (case retained_sum 0 (walk (state_root s)) of
                          Inl _ \<Rightarrow> with_issue ''unsafe-retained-state'' (card2\<lparr>State := Invalid\<rparr>)
                        | Inr n \<Rightarrow> card2\<lparr>RetainedBytes := n\<rparr>))))
                  | _ \<Rightarrow> io_ret (with_issue ''unsafe-card-state'' (card1\<lparr>State := Invalid\<rparr>)))))"

fun io_map :: "('a \<Rightarrow> ('d, 'b) io) \<Rightarrow> 'a list \<Rightarrow> ('d, 'b list) io" where
  "io_map m [] = io_ret []"
| "io_map m (x # xs) = io_bind (m x) (\<lambda>y. io_bind (io_map m xs) (\<lambda>ys. io_ret (y # ys)))"

definition count_identity :: "leaf_card list \<Rightarrow> string \<Rightarrow> nat" where
  "count_identity cs i = length (filter (\<lambda>c. IID (Identity c) = i) cs)"

definition mark_duplicates :: "leaf_card list \<Rightarrow> leaf_card list" where
  "mark_duplicates cs = map (\<lambda>c.
     if IID (Identity c) \<noteq> '''' \<and> count_identity cs (IID (Identity c)) > 1
     then with_issue ''duplicate-card-id'' (c\<lparr>State := Duplicate, DuplicateID := True\<rparr>)
     else c) cs"

definition inspect_sources ::
    "(string \<Rightarrow> walk_entry list) \<Rightarrow> mounts \<Rightarrow> source list \<Rightarrow> (identity, leaf_card list) io" where
  "inspect_sources walk mounts ss =
     io_bind (io_map (inspect_source walk mounts) ss) (\<lambda>cs. io_ret (mark_duplicates cs))"

section \<open>Enrolment\<close>

fun ensure_components :: "string \<Rightarrow> string list \<Rightarrow> (identity, unit) io" where
  "ensure_components current [] = io_ret ()"
| "ensure_components current (c # cs) =
     (if c = ''.'' \<or> c = '''' then ensure_components current cs
      else let next = join_path [current, c]
           in io_bind (io_try (lstat next)) (\<lambda>info. case info of
                Inr None \<Rightarrow>
                  io_bind (make_dir next) (\<lambda>_.
                  io_bind (io_try (lstat next)) (\<lambda>again.
                    if again = Inr (Some Dir) then ensure_components next cs
                    else io_fail ''path component is not a real directory''))
              | Inr (Some Dir) \<Rightarrow> ensure_components next cs
              | _ \<Rightarrow> io_fail ''path component is not a real directory''))"

definition ensure_directory_within :: "string \<Rightarrow> string \<Rightarrow> (identity, unit) io" where
  "ensure_directory_within root target =
     io_bind (io_lift (relative_within root target)) (\<lambda>rel.
       ensure_components (clean root) (split_on CHR ''/'' rel))"

definition fresh_identity :: "string \<Rightarrow> identity" where
  "fresh_identity bs = \<lparr>IVersion = identity_version, IID = hex_encode bs\<rparr>"

definition create_identity :: "source \<Rightarrow> identity \<Rightarrow> (identity, identity \<times> bool) io" where
  "create_identity s i =
     io_bind (create_excl (temporary_path s)) (\<lambda>_.
     io_bind (write_file (temporary_path s) (Doc i (identity_size i))) (\<lambda>_.
     io_bind (fsync_file (temporary_path s)) (\<lambda>_.
     io_bind (close_file (temporary_path s)) (\<lambda>_.
     io_bind (read_identity (identity_path s)) (\<lambda>again. case again of
       Unreadable e \<Rightarrow> io_fail e
     | Found _ \<Rightarrow> io_fail ''card-id appeared before promotion''
     | Absent \<Rightarrow>
         io_bind (rename_file (temporary_path s) (identity_path s)) (\<lambda>_.
         io_bind (sync_fs (Root s)) (\<lambda>_. io_ret (i, True))))))))"

definition find_or_create :: "string option \<Rightarrow> source \<Rightarrow> (identity, identity \<times> bool) io" where
  "find_or_create random s =
     io_bind (read_identity (identity_path s)) (\<lambda>existing. case existing of
       Unreadable e \<Rightarrow> io_fail e
     | Found i \<Rightarrow>
         io_bind (discard_temporary (temporary_path s) (Root s)) (\<lambda>_.
         io_bind (sync_fs (Root s)) (\<lambda>_. io_ret (i, False)))
     | Absent \<Rightarrow>
         io_bind (discard_temporary (temporary_path s) (Root s)) (\<lambda>_. case random of
           None \<Rightarrow> io_fail ''generate card identity''
         | Some bs \<Rightarrow> create_identity s (fresh_identity bs)))"

definition enroll :: "mounts \<Rightarrow> string option \<Rightarrow> source \<Rightarrow> (identity, identity \<times> bool) io" where
  "enroll mounts random s =
     (case mounts (clean (Root s)) of
        None \<Rightarrow> io_fail ''card is not mounted''
      | Some writable \<Rightarrow>
          if \<not> writable then io_fail ''card is mounted read-only''
          else
            io_bind (validate_source s) (\<lambda>_.
            io_bind (ensure_directory_within (Root s) (state_root s)) (\<lambda>_.
            find_or_create random s)))"

section \<open>Paths of the identity files\<close>

lemma name_comps_const: "name_comp app_state_name" "name_comp identity_file_name" "name_comp temporary_name"
  by (simp_all add: name_comp_def app_state_name_def identity_file_name_def temporary_name_def)

lemma join_path_not_empty: "p \<noteq> '''' \<Longrightarrow> join_path (p # ps) \<noteq> ''''"
  by (simp add: join_path_clean)

lemma state_root_comps:
  "UserdataPath s \<noteq> '''' \<Longrightarrow> path_comps (state_root s) = path_comps (UserdataPath s) @ [app_state_name]"
  using name_comps_const by (simp add: state_root_def path_comps_join_names)

lemma identity_paths:
  assumes "UserdataPath s \<noteq> ''''"
  shows "path_comps (identity_path s) = path_comps (state_root s) @ [identity_file_name]"
    "path_comps (temporary_path s) = path_comps (state_root s) @ [temporary_name]"
  using assms name_comps_const join_path_not_empty [of "UserdataPath s"]
  by (simp_all add: identity_path_def temporary_path_def state_root_def path_comps_join_names)

lemma identity_path_distinct:
  assumes "UserdataPath s \<noteq> ''''"
  shows "temporary_path s \<noteq> identity_path s"
proof
  assume "temporary_path s = identity_path s"
  then have "temporary_name = identity_file_name"
    using identity_paths [OF assms] by simp
  then show False by (simp add: temporary_name_def identity_file_name_def)
qed

text \<open>The directories that \<open>ensureDirectoryWithin\<close> may create.\<close>

fun created_paths :: "string \<Rightarrow> string list \<Rightarrow> string list" where
  "created_paths current [] = []"
| "created_paths current (c # cs) =
     (if c = ''.'' \<or> c = '''' then created_paths current cs
      else join_path [current, c] # created_paths (join_path [current, c]) cs)"

lemma created_paths_comps:
  "current \<noteq> '''' \<Longrightarrow> \<forall>c \<in> set cs. c = ''.'' \<or> c = '''' \<or> name_comp c \<Longrightarrow> p \<in> set (created_paths current cs) \<Longrightarrow>
   length (path_comps p) \<le> length (path_comps current) + length cs"
proof (induction cs arbitrary: current)
  case (Cons c cs)
  show ?case
  proof (cases "c = ''.'' \<or> c = ''''")
    case True
    then have "p \<in> set (created_paths current cs)" using Cons.prems(3) by simp
    from Cons.IH [OF Cons.prems(1) _ this] Cons.prems(2) show ?thesis by simp
  next
    case False
    then have c: "name_comp c" using Cons.prems(2) by auto
    then have comps: "path_comps (join_path [current, c]) = path_comps current @ [c]"
      using Cons.prems(1) by (intro path_comps_join_names) auto
    have ne: "join_path [current, c] \<noteq> ''''" using Cons.prems(1) by (rule join_path_not_empty)
    have "p = join_path [current, c] \<or> p \<in> set (created_paths (join_path [current, c]) cs)"
      using Cons.prems(3) False by simp
    then show ?thesis
    proof
      assume "p \<in> set (created_paths (join_path [current, c]) cs)"
      from Cons.IH [OF ne _ this] Cons.prems(2) comps show ?thesis by simp
    qed (simp add: comps)
  qed
qed simp

lemma wp_ensure_components:
  assumes "\<forall>p \<in> set (created_paths current cs). p \<noteq> q"
    and "f q = n"
    and "\<And>g. g q = n \<Longrightarrow> C g" and "\<And>e g. g q = n \<Longrightarrow> E e g"
    and "\<And>g. g q = n \<Longrightarrow> wp b (k ()) Q E C g"
  shows "wp b (io_bind (ensure_components current cs) k) Q E C f"
  using assms(1,2)
proof (induction cs arbitrary: current f)
  case Nil
  then show ?case using assms(5) by simp
next
  case (Cons c cs)
  show ?case
  proof (cases "c = ''.'' \<or> c = ''''")
    case True
    then have "\<forall>p \<in> set (created_paths current cs). p \<noteq> q" using Cons.prems(1) by simp
    from Cons.IH [of current f, OF this Cons.prems(2)] True show ?thesis by simp
  next
    case False
    define next_dir where "next_dir = join_path [current, c]"
    have "created_paths current (c # cs) = next_dir # created_paths next_dir cs"
      using False by (simp add: next_dir_def)
    then have paths: "next_dir \<noteq> q" "\<forall>p \<in> set (created_paths next_dir cs). p \<noteq> q"
      using Cons.prems(1) by simp_all
    have prog: "ensure_components current (c # cs) =
       io_bind (io_try (lstat next_dir)) (\<lambda>info. case info of
         Inr None \<Rightarrow>
           io_bind (make_dir next_dir) (\<lambda>_.
           io_bind (io_try (lstat next_dir)) (\<lambda>again.
             if again = Inr (Some Dir) then ensure_components next_dir cs
             else io_fail ''path component is not a real directory''))
       | Inr (Some Dir) \<Rightarrow> ensure_components next_dir cs
       | _ \<Rightarrow> io_fail ''path component is not a real directory'')"
      unfolding next_dir_def using False by (simp only: ensure_components.simps Let_def if_False)
    have rec: "wp b (io_bind (ensure_components next_dir cs) k) Q E C g" if "g q = n" for g
      using Cons.IH [of next_dir g, OF paths(2) that] .
    show ?thesis
      unfolding prog using rec assms(3,4) Cons.prems(2) paths(1)
      by (auto simp: wp_exec split: option.split node.split)
  qed
qed

lemma wp_ensure_directory:
  assumes "root \<noteq> ''''" and "length (path_comps target) < length (path_comps q)"
    and "f q = n"
    and "\<And>g. g q = n \<Longrightarrow> C g" and "\<And>e g. g q = n \<Longrightarrow> E e g"
    and "\<And>g. g q = n \<Longrightarrow> wp b (k ()) Q E C g"
  shows "wp b (io_bind (ensure_directory_within root target) k) Q E C f"
proof (cases "relative_within root target")
  case (Inl e)
  then show ?thesis using assms(3,5) by (simp add: ensure_directory_within_def wp_exec)
next
  case (Inr rel)
  then obtain cs where cs: "path_comps target = path_comps root @ cs" "descends cs" "rel = rel_string cs"
    by (auto simp: relative_within_iff descends_def)
  have norm: "norm_comps (rooted target) (path_comps root @ cs)"
    using path_comps_norm [of target] cs(1) by simp
  have names: "\<forall>c \<in> set cs. name_comp c"
    using norm_comp_cases [OF norm] cs(2) unfolding descends_def by (metis UnCI set_append)
  have "split_on CHR ''/'' rel = (if cs = [] then [''.''] else cs)"
    using norm_no_slash [OF norm] split_on_join_with [of cs "CHR ''/''"] by (simp add: cs(3) rel_string_def)
  moreover have "length (path_comps p) \<le> length (path_comps (clean root)) + length cs"
    if "p \<in> set (created_paths (clean root) (if cs = [] then [''.''] else cs))" for p
    using created_paths_comps [OF clean_not_empty, of cs p root] names that by (cases "cs = []") auto
  ultimately have paths: "\<forall>p \<in> set (created_paths (clean root) (split_on CHR ''/'' rel)). p \<noteq> q"
    using assms(2) cs(1) by fastforce
  show ?thesis
    unfolding ensure_directory_within_def
    by (simp add: wp_exec Inr) (rule wp_ensure_components [where n = n, OF paths]; fact assms)
qed

text \<open>The identity file is as it was, or was missing and holds the complete new identity.\<close>

definition fresh_node :: "string \<Rightarrow> identity node option" where
  "fresh_node bs = Some (Reg (Doc (fresh_identity bs) (identity_size (fresh_identity bs))))"

definition kept_or_fresh :: "string option \<Rightarrow> string \<Rightarrow> identity node option \<Rightarrow> identity fs \<Rightarrow> bool" where
  "kept_or_fresh random q n g \<longleftrightarrow>
     g q = n \<or> n = None \<and> (\<exists>bs. random = Some bs \<and> g q = fresh_node bs)"

definition enrolled_as :: "string option \<Rightarrow> string \<Rightarrow> identity node option \<Rightarrow> identity \<times> bool \<Rightarrow>
    identity fs \<Rightarrow> bool" where
  "enrolled_as random q n r g \<longleftrightarrow>
     (if snd r then n = None \<and> (\<exists>bs. random = Some bs \<and> fst r = fresh_identity bs \<and> g q = fresh_node bs)
      else g q = n \<and> classify max_identity_bytes good_identity n = Found (fst r))"

abbreviation enroll_wp :: "(identity, identity \<times> bool) io \<Rightarrow> string option \<Rightarrow> string \<Rightarrow>
    identity node option \<Rightarrow> identity fs \<Rightarrow> bool" where
  "enroll_wp m random q n \<equiv> wp True m (enrolled_as random q n) (\<lambda>_. kept_or_fresh random q n) (kept_or_fresh random q n)"

lemma kept [simp, intro]: "kept_or_fresh random q (g q) g"
  by (simp add: kept_or_fresh_def)

lemma wp_discard_temporary:
  assumes "p \<noteq> q" and "f q = n" and "\<And>h. h q = n \<Longrightarrow> enroll_wp (k ()) random q n h"
  shows "enroll_wp (io_bind (discard_temporary p root) k) random q n f"
  using assms by (auto simp: discard_temporary_def wp_exec kept_or_fresh_def split: option.split node.split)

lemma wp_create_identity:
  assumes "temporary_path s \<noteq> identity_path s" and "f (identity_path s) = None"
  shows "enroll_wp (create_identity s (fresh_identity bs)) (Some bs) (identity_path s) None f"
  using assms by (auto simp: create_identity_def read_identity_def wp_exec kept_or_fresh_def enrolled_as_def
      fresh_node_def)

lemma wp_find_or_create:
  assumes "temporary_path s \<noteq> identity_path s" and "f (identity_path s) = n"
  shows "enroll_wp (find_or_create random s) random (identity_path s) n f"
proof (cases "classify max_identity_bytes good_identity n")
  case Absent
  then have n: "n = None" by simp
  have "enroll_wp (io_bind (discard_temporary (temporary_path s) (Root s)) (\<lambda>_. case random of
      None \<Rightarrow> io_fail ''generate card identity''
    | Some bs \<Rightarrow> create_identity s (fresh_identity bs))) random (identity_path s) n f"
    using assms n by (intro wp_discard_temporary)
      (auto simp: wp_exec kept_or_fresh_def intro: wp_create_identity split: option.split)
  then show ?thesis
    using assms n by (simp add: find_or_create_def read_identity_def wp_exec kept_or_fresh_def)
next
  case (Found i)
  have "enroll_wp (io_bind (discard_temporary (temporary_path s) (Root s)) (\<lambda>_.
      io_bind (sync_fs (Root s)) (\<lambda>_. io_ret (i, False)))) random (identity_path s) n f"
    using assms Found by (intro wp_discard_temporary) (auto simp: wp_exec kept_or_fresh_def enrolled_as_def)
  then show ?thesis
    using assms Found by (simp add: find_or_create_def read_identity_def wp_exec kept_or_fresh_def)
next
  case (Unreadable e)
  then show ?thesis
    using assms by (simp add: find_or_create_def read_identity_def wp_exec kept_or_fresh_def)
qed

lemma wp_enroll:
  assumes "f (identity_path s) = n"
  shows "enroll_wp (enroll mounts random s) random (identity_path s) n f"
proof (cases "mounts (clean (Root s)) = Some True \<and> ID s \<noteq> '''' \<and> Root s \<noteq> '''' \<and> UserdataPath s \<noteq> ''''")
  case False
  then show ?thesis using assms
    by (auto simp: enroll_def validate_source_def wp_exec kept_or_fresh_def split: option.split)
next
  case True
  then have ud: "UserdataPath s \<noteq> ''''" and root: "Root s \<noteq> ''''" by auto
  have len: "length (path_comps (state_root s)) < length (path_comps (identity_path s))"
    using identity_paths [OF ud] by simp
  have "enroll_wp (io_bind (ensure_directory_within (Root s) (state_root s)) (\<lambda>_. find_or_create random s))
      random (identity_path s) n f"
    by (rule wp_ensure_directory [where n = n, OF root len])
       (simp_all add: kept_or_fresh_def assms wp_find_or_create [OF identity_path_distinct [OF ud]])
  then show ?thesis
    using True assms
    by (auto simp: enroll_def validate_source_def wp_exec kept_or_fresh_def
        split: option.split node.split sum.split)
qed

section \<open>Properties\<close>

text \<open>
  C22. Enrolment under any faults and at any point where the process dies: a card that had an
  identity file keeps it as it was, and a card that had none has none or holds the complete new
  identity, never a part of one; when \<open>Enroll\<close> reports a new identity the file holds it, and
  when it reports an existing one the file was valid and is unchanged.
\<close>

theorem enroll_all_or_nothing:
  assumes "boot (enroll mounts random s) p f = (r, g)"
  shows "case r of
      Ok x \<Rightarrow> enrolled_as random (identity_path s) (f (identity_path s)) x g
    | Failed e \<Rightarrow> kept_or_fresh random (identity_path s) (f (identity_path s)) g
    | Died \<Rightarrow> kept_or_fresh random (identity_path s) (f (identity_path s)) g"
  using boot_sat [OF wp_enroll [OF refl] _ assms] by (auto split: outcome.splits)

definition sample_source :: source where
  "sample_source =
     \<lparr>ID = ''primary'', Root = ''/m'', Primary = True, UserdataPath = ''/m/u'', SharedUserdataPath = '''',
      RomsPath = '''', ImagesPath = '''', MusicPath = '''', AppsPath = '''', BIOSPath = '''', SavesPath = '''',
      StatesPath = '''', CheatsPath = '''', MustBeMounted = False\<rparr>"

definition sample_card_files :: "identity fs" where
  "sample_card_files = map_of [(''/m'', Dir)]"

definition sample_random :: string where
  "sample_random = replicate 16 CHR ''Z''"

theorem enroll_all_or_nothing_witness:
  "\<exists>g. boot (enroll (\<lambda>_. Some True) (Some sample_random) sample_source) [Pass, Pass] sample_card_files =
         (Ok (fresh_identity sample_random, True), g) \<and>
       g ''/m/u/Syncthing/card-id'' = fresh_node sample_random"
proof -
  have ok: "case fst (boot (enroll (\<lambda>_. Some True) (Some sample_random) sample_source) [Pass, Pass] sample_card_files) of
      Ok (i, created) \<Rightarrow> IID i = IID (fresh_identity sample_random) \<and> IVersion i = 1 \<and> created | _ \<Rightarrow> False"
    by code_simp
  obtain r g where b: "boot (enroll (\<lambda>_. Some True) (Some sample_random) sample_source) [Pass, Pass]
      sample_card_files = (r, g)" by fastforce
  with ok have r: "r = Ok (fresh_identity sample_random, True)"
    by (auto simp: fresh_identity_def identity_version_def split: outcome.splits)
  have "identity_path sample_source = ''/m/u/Syncthing/card-id''" by code_simp
  with enroll_all_or_nothing [OF b] r b show ?thesis by (simp add: enrolled_as_def)
qed

text \<open>Cards whose state survived the inspection.\<close>

definition sound_card :: "leaf_card \<Rightarrow> bool" where
  "sound_card c \<longleftrightarrow> (State c = Enrolled \<longrightarrow> Present c \<and> good_identity (Identity c)) \<and>
     (State c = Absent_Card \<longleftrightarrow> \<not> Present c) \<and> State c \<noteq> Duplicate \<and>
     (Identity c = no_identity \<or> good_identity (Identity c))"

lemma with_issue_simps [simp]:
  "State (with_issue code c) = State c" "Identity (with_issue code c) = Identity c"
  "Present (with_issue code c) = Present c" "Source (with_issue code c) = Source c"
  by (simp_all add: with_issue_def)

lemma wp_inspect_source:
  "wp True (inspect_source walk mounts s) (\<lambda>c _. sound_card c \<and> Source c = s) (\<lambda>_ _. True) (\<lambda>_. True) f"
  by (auto simp: inspect_source_def validate_source_def discard_temporary_def read_identity_def Let_def
      sound_card_def wp_exec classify_Found split: option.split node.split sum.split read_result.split)

lemma wp_io_map:
  assumes "\<And>z g. wp b (m z) (\<lambda>y _. P z y) (\<lambda>_ _. True) (\<lambda>_. True) g"
  shows "wp b (io_map m zs) (\<lambda>ys _. list_all2 P zs ys) (\<lambda>_ _. True) (\<lambda>_. True) f"
proof (induction zs arbitrary: f)
  case (Cons z zs)
  have "wp b (io_bind (io_map m zs) (\<lambda>ys. io_ret (y # ys))) (\<lambda>ys _. list_all2 P (z # zs) ys)
      (\<lambda>_ _. True) (\<lambda>_. True) g" if "P z y" for y g
    by (rule wp_bindI, rule wp_mono [OF Cons.IH]) (simp_all add: wp_exec that)
  then show ?case
    unfolding io_map.simps by (intro wp_bindI, intro wp_mono [OF assms]) simp_all
qed (simp add: wp_exec)

lemma count_identity_two:
  assumes "i < length cs" "j < length cs" "i \<noteq> j" "IID (Identity (cs ! i)) = v" "IID (Identity (cs ! j)) = v"
  shows "count_identity cs v > 1"
proof -
  have "card {i, j} \<le> card {k. k < length cs \<and> IID (Identity (cs ! k)) = v}"
    using assms by (intro card_mono) auto
  then show ?thesis using assms(3) by (simp add: count_identity_def length_filter_conv_card)
qed

lemma distinct_filter_index:
  assumes "\<And>i j. i < length xs \<Longrightarrow> j < length xs \<Longrightarrow> P (xs ! i) \<Longrightarrow> P (xs ! j) \<Longrightarrow>
      h (xs ! i) = h (xs ! j) \<Longrightarrow> i = j"
  shows "distinct (map h (filter P xs))"
  using assms
proof (induction xs)
  case (Cons x xs)
  have "h y \<noteq> h x" if y: "y \<in> set xs" "P y" "P x" for y
  proof
    assume "h y = h x"
    moreover obtain i where "i < length xs" "y = xs ! i" using y(1) by (auto simp: in_set_conv_nth)
    ultimately show False using Cons.prems [of "Suc i" 0] y by simp
  qed
  moreover have "distinct (map h (filter P xs))"
    using Cons.prems [of "Suc _" "Suc _"] by (intro Cons.IH) auto
  ultimately show ?case by (fastforce dest: sym)
qed simp

lemma good_identity_id: "good_identity i \<Longrightarrow> IID i \<noteq> ''''"
  by (auto simp: good_identity_def)

lemma mark_duplicates_nth:
  "i < length cs \<Longrightarrow> State (mark_duplicates cs ! i) = Enrolled \<Longrightarrow>
   mark_duplicates cs ! i = cs ! i \<and> \<not> (IID (Identity (cs ! i)) \<noteq> '''' \<and> count_identity cs (IID (Identity (cs ! i))) > 1)"
  by (auto simp: mark_duplicates_def split: if_splits)

text \<open>
  An inspection that succeeds, under any faults, reports one card per configured source;
  a card it calls enrolled is mounted and has a valid identity, and no two of them share one.
\<close>

theorem inspect_sources_unique:
  assumes "boot (inspect_sources walk mounts ss) p f = (Ok cs, g)"
  shows "map Source cs = ss \<and>
     (\<forall>c \<in> set cs. State c = Enrolled \<longrightarrow> Present c \<and> good_identity (Identity c)) \<and>
     distinct (map (\<lambda>c. IID (Identity c)) (filter (\<lambda>c. State c = Enrolled) cs))"
proof -
  have "wp True (inspect_sources walk mounts ss)
      (\<lambda>cs _. \<exists>ds. cs = mark_duplicates ds \<and> list_all2 (\<lambda>s c. sound_card c \<and> Source c = s) ss ds)
      (\<lambda>_ _. True) (\<lambda>_. True) f"
    unfolding inspect_sources_def
    by (rule wp_bindI, rule wp_mono [OF wp_io_map [where P = "\<lambda>s c. sound_card c \<and> Source c = s"]])
       (auto simp: wp_exec wp_inspect_source)
  from boot_sat [OF this _ assms] obtain ds where cs: "cs = mark_duplicates ds"
    and ds: "list_all2 (\<lambda>s c. sound_card c \<and> Source c = s) ss ds" by auto
  have "map Source ds = ss" using ds by (induction rule: list_all2_induct) auto
  then have sources: "map Source cs = ss"
    unfolding cs mark_duplicates_def by (auto simp: comp_def intro: map_cong)
  have sound: "sound_card c" if "c \<in> set ds" for c
    using ds that by (auto simp: list_all2_conv_all_nth in_set_conv_nth)
  have len: "length cs = length ds" by (simp add: cs mark_duplicates_def)
  have good: "Present c \<and> good_identity (Identity c)" if c: "c \<in> set cs" "State c = Enrolled" for c
  proof -
    obtain i where i: "i < length ds" "c = mark_duplicates ds ! i"
      using c(1) len by (auto simp: in_set_conv_nth cs)
    from mark_duplicates_nth [OF this(1)] c(2) i have "c = ds ! i" by simp
    then show ?thesis using sound [of c] c(2) i(1) by (simp add: sound_card_def)
  qed
  have "distinct (map (\<lambda>c. IID (Identity c)) (filter (\<lambda>c. State c = Enrolled) cs))"
  proof -
    have inj: "i = j" if "i < length cs" "j < length cs" "State (cs ! i) = Enrolled" "State (cs ! j) = Enrolled"
      "IID (Identity (cs ! i)) = IID (Identity (cs ! j))" for i j
    proof (rule ccontr)
      assume "i \<noteq> j"
      have eq: "cs ! i = ds ! i" "cs ! j = ds ! j"
        "\<not> (IID (Identity (ds ! i)) \<noteq> '''' \<and> count_identity ds (IID (Identity (ds ! i))) > 1)"
        using mark_duplicates_nth [of i ds] mark_duplicates_nth [of j ds] that len by (auto simp: cs)
      have "IID (Identity (ds ! i)) \<noteq> ''''"
        using good [OF nth_mem [OF that(1)] that(3)] eq(1) good_identity_id by metis
      with count_identity_two [of i ds j] that eq len \<open>i \<noteq> j\<close> show False by auto
    qed
    show ?thesis using inj by (rule distinct_filter_index)
  qed
  with sources good show ?thesis by blast
qed

theorem inspect_sources_unique_witness:
  "\<exists>cs. fst (boot (inspect_sources (\<lambda>_. []) (\<lambda>_. Some True) [sample_source]) [] sample_card_files) = Ok cs \<and>
     map Source cs = [sample_source]"
proof -
  have ok: "case fst (boot (inspect_sources (\<lambda>_. []) (\<lambda>_. Some True) [sample_source]) [] sample_card_files) of
      Ok _ \<Rightarrow> True | _ \<Rightarrow> False"
    by code_simp
  obtain r g where b: "boot (inspect_sources (\<lambda>_. []) (\<lambda>_. Some True) [sample_source]) [] sample_card_files = (r, g)"
    by fastforce
  with ok obtain cs where "r = Ok cs" by (auto split: outcome.splits)
  with b inspect_sources_unique [of _ _ _ _ _ cs g] show ?thesis by fastforce
qed

end
