(* ===== verification/Card_Registry.thy ===== *)
theory Card_Registry
  imports Card_Identity
begin

text \<open>
  \<open>internal/cards/registry.go\<close>: the registry of the cards that were ever enrolled, in
  \<open>cards-v1.json\<close> with its temporary and its backup, and the inventory that joins it with the
  cards that are mounted.  The files of this theory hold registries; \<open>sz\<close> is the length of an
  encoded registry.
\<close>

section \<open>The registry file\<close>

record registry_record =
  RID :: string
  LastSourceID :: string
  RRetainedBytes :: int

text \<open>\<open>Cards\<close> is \<open>None\<close> for the nil slice that a missing or null field decodes to.\<close>

record registry_file =
  RVersion :: int
  RCards :: "registry_record list option"

definition registry_version :: int where "registry_version = 1"
definition registry_file_name :: string where "registry_file_name = ''cards-v1.json''"
definition max_registry_bytes :: nat where "max_registry_bytes = 1024 * 1024"
definition max_registry_cards :: nat where "max_registry_cards = 16"

definition cards_of :: "registry_file \<Rightarrow> registry_record list" where
  "cards_of r = (case RCards r of None \<Rightarrow> [] | Some cs \<Rightarrow> cs)"

definition empty_registry :: registry_file where
  "empty_registry = \<lparr>RVersion = registry_version, RCards = Some []\<rparr>"

fun valid_records :: "string list \<Rightarrow> registry_record list \<Rightarrow> bool" where
  "valid_records seen [] = True"
| "valid_records seen (r # rs) =
     (if \<not> valid_identity_id (RID r) \<or> LastSourceID r = '''' \<or> RRetainedBytes r < 0 \<or> RID r \<in> set seen
      then False else valid_records (RID r # seen) rs)"

definition valid_registry :: "registry_file \<Rightarrow> bool" where
  "valid_registry r \<longleftrightarrow> (case RCards r of
     None \<Rightarrow> False
   | Some cs \<Rightarrow> RVersion r = registry_version \<and> length cs \<le> max_registry_cards \<and> valid_records [] cs)"

definition read_registry :: "string \<Rightarrow> (registry_file, registry_file read_result) io" where
  "read_registry p = read_checked max_registry_bytes valid_registry p"

definition registry_path :: "string \<Rightarrow> string" where
  "registry_path dir = join_path [dir, registry_file_name]"

definition remove_regular :: "string \<Rightarrow> (registry_file, unit) io" where
  "remove_regular p =
     io_bind (lstat p) (\<lambda>info. case info of
       None \<Rightarrow> io_fail ''no such file''
     | Some (Reg c) \<Rightarrow> remove_file p
     | Some _ \<Rightarrow> io_fail ''refuse to remove unsafe card registry file'')"

definition remove_regular_if_exists :: "string \<Rightarrow> (registry_file, unit) io" where
  "remove_regular_if_exists p =
     io_bind (io_try (lstat p)) (\<lambda>info. if info = Inr None then io_ret () else remove_regular p)"

section \<open>Recovery\<close>

definition recover_registry :: "string \<Rightarrow> (registry_file, registry_file) io" where
  "recover_registry dir =
     io_bind (lstat dir) (\<lambda>info.
     if info = None then io_fail ''inspect card registry directory''
     else if info \<noteq> Some Dir then io_fail ''card registry directory is not a real directory''
     else
       let path = registry_path dir; temporary = tmp_of path; backup = bak_of path
       in io_bind (read_registry path) (\<lambda>current.
          io_bind (read_registry temporary) (\<lambda>temp.
          io_bind (read_registry backup) (\<lambda>backed_up.
          case current of
            Found registry \<Rightarrow>
              io_bind (io_when (temp \<noteq> Absent) (remove_regular temporary)) (\<lambda>_.
              io_bind (case backed_up of
                         Unreadable _ \<Rightarrow> remove_regular backup
                       | _ \<Rightarrow> io_ret ()) (\<lambda>_.
              io_bind (sync_fs dir) (\<lambda>_. io_ret registry)))
          | _ \<Rightarrow>
              (case backed_up of
                 Found registry \<Rightarrow>
                   io_bind (io_when (current \<noteq> Absent) (remove_regular path)) (\<lambda>_.
                   io_bind (io_when (temp \<noteq> Absent) (remove_regular temporary)) (\<lambda>_.
                   io_bind (rename_file backup path) (\<lambda>_.
                   io_bind (sync_fs dir) (\<lambda>_. io_ret registry))))
               | _ \<Rightarrow>
                   if current = Absent \<and> backed_up = Absent \<and> temp \<noteq> Absent then
                     io_bind (remove_regular temporary) (\<lambda>_.
                     io_bind (sync_fs dir) (\<lambda>_. io_ret empty_registry))
                   else if current \<noteq> Absent \<or> temp \<noteq> Absent \<or> backed_up \<noteq> Absent then
                     io_fail ''card registry has no known-good copy''
                   else io_ret empty_registry)))))"

definition write_registry :: "(registry_file \<Rightarrow> nat) \<Rightarrow> string \<Rightarrow> registry_file \<Rightarrow> (registry_file, unit) io" where
  "write_registry sz dir registry =
     (let path = registry_path dir; temporary = tmp_of path; backup = bak_of path
      in io_bind (create_excl temporary) (\<lambda>_.
         io_bind (write_file temporary (Doc registry (sz registry))) (\<lambda>_.
         io_bind (fsync_file temporary) (\<lambda>_.
         io_bind (close_file temporary) (\<lambda>_.
         io_bind (remove_regular_if_exists backup) (\<lambda>_.
         io_bind (read_registry path) (\<lambda>current.
         io_bind (case current of
                    Unreadable e \<Rightarrow> io_fail e
                  | Found _ \<Rightarrow> rename_file path backup
                  | Absent \<Rightarrow> io_ret ()) (\<lambda>_.
         io_bind (rename_file temporary path) (\<lambda>_.
         io_bind (sync_fs dir) (\<lambda>_.
         io_bind (read_registry path) (\<lambda>promoted. case promoted of
           Unreadable e \<Rightarrow> io_fail e
         | Absent \<Rightarrow> io_fail ''validate promoted card registry: file is absent''
         | Found _ \<Rightarrow> io_ret ())))))))))))"

section \<open>The contract of the three files\<close>

definition registry_at :: "string \<Rightarrow> registry_file \<Rightarrow> registry_file fs \<Rightarrow> bool" where
  "registry_at dir r f \<longleftrightarrow>
     f dir = Some Dir \<and> triple_plain (registry_path dir) f \<and> f (tmp_of (registry_path dir)) = None \<and>
     (classify max_registry_bytes valid_registry (f (registry_path dir)) = Found r \<or>
      r = empty_registry \<and> f (registry_path dir) = None \<and> f (bak_of (registry_path dir)) = None)"

definition registry_recovers :: "string \<Rightarrow> registry_file \<Rightarrow> registry_file fs \<Rightarrow> bool" where
  "registry_recovers dir r f \<longleftrightarrow>
     f dir = Some Dir \<and> triple_plain (registry_path dir) f \<and>
     (recoverable max_registry_bytes valid_registry (registry_path dir) f = Some r \<or>
      r = empty_registry \<and> f (registry_path dir) = None \<and> f (bak_of (registry_path dir)) = None)"

definition registry_between :: "string \<Rightarrow> registry_file \<Rightarrow> registry_file \<Rightarrow> registry_file fs \<Rightarrow> bool" where
  "registry_between dir x y f \<longleftrightarrow> registry_recovers dir x f \<or> registry_recovers dir y f"

definition writable_registry :: "(registry_file \<Rightarrow> nat) \<Rightarrow> registry_file \<Rightarrow> bool" where
  "writable_registry sz r \<longleftrightarrow> valid_registry r \<and> sz r \<le> max_registry_bytes"

lemma registry_at_recovers: "registry_at dir r f \<Longrightarrow> registry_recovers dir r f"
  by (auto simp: registry_at_def registry_recovers_def recoverable_def)

lemma wp_remove_regular_bind:
  assumes "plain (f p)" and "f p \<noteq> None" and "C f" and "b \<longrightarrow> E ''I/O error'' f"
    and "wp b (k ()) Q E C (f(p := None))"
  shows "wp b (io_bind (remove_regular p) k) Q E C f"
  using assms plain_cases [OF assms(1)] by (auto simp: remove_regular_def wp_exec)

lemmas registry_state_defs = registry_recovers_def registry_at_def registry_between_def
  recoverable_def triple_plain_def

lemma recover_registry_wp:
  assumes "registry_recovers dir r f"
  shows "wp False (recover_registry dir) (\<lambda>x g. x = r \<and> registry_at dir r g) (\<lambda>_ _. False)
     (registry_recovers dir r) f"
proof -
  define p where "p = registry_path dir"
  have dir: "f dir = Some Dir" and plain: "triple_plain p f"
    using assms by (simp_all add: registry_recovers_def p_def)
  note nodir = plain_not_dir [OF dir plain]
  note split = classify_plain_cases [where l = max_registry_bytes and v = valid_registry]
  note exec = recover_registry_def read_registry_def remove_regular_def p_def [symmetric] Let_def wp_exec
    registry_state_defs
  have pl: "plain (f p)" "plain (f (tmp_of p))" "plain (f (bak_of p))"
    using plain by (simp_all add: triple_plain_def)
  show ?thesis
    by (rule split [OF pl(1)]; rule split [OF pl(2)]; rule split [OF pl(3)])
       (use assms dir nodir in \<open>auto simp: exec\<close>)
qed

lemma write_registry_wp:
  assumes "registry_at dir x f" and "writable_registry sz r"
  shows "wp False (write_registry sz dir r) (\<lambda>_. registry_at dir r) (\<lambda>_ _. False) (registry_between dir x r) f"
proof -
  define p where "p = registry_path dir"
  have dir: "f dir = Some Dir" and plain: "triple_plain p f" and tmp: "f (tmp_of p) = None"
    using assms(1) by (simp_all add: registry_at_def p_def)
  note nodir = plain_not_dir [OF dir plain]
  note split = classify_plain_cases [where l = max_registry_bytes and v = valid_registry]
  note exec = write_registry_def read_registry_def remove_regular_def remove_regular_if_exists_def
    p_def [symmetric] Let_def wp_exec registry_state_defs
  have pl: "plain (f p)" "plain (f (bak_of p))"
    using plain by (simp_all add: triple_plain_def)
  have "sz r \<le> max_registry_bytes" "valid_registry r"
    using assms(2) by (simp_all add: writable_registry_def)
  then show ?thesis
    by - (rule split [OF pl(1)]; rule split [OF pl(2)]; use assms(1) tmp dir nodir in \<open>auto simp: exec\<close>)
qed

lemma refused_unreadable:
  assumes "\<not> writable_registry sz r"
  shows "\<exists>e. classify max_registry_bytes valid_registry (Some (Reg (Doc r (sz r)))) = Unreadable e"
  using assms by (cases "max_registry_bytes < sz r") (simp_all add: writable_registry_def classify_def)

lemma write_registry_refused_wp:
  assumes "registry_at dir x f" and "\<not> writable_registry sz r" and "f (registry_path dir) \<noteq> None"
  shows "wp False (write_registry sz dir r) (\<lambda>_ _. False) (\<lambda>_. registry_recovers dir x) (registry_recovers dir x) f"
proof -
  define p where "p = registry_path dir"
  have dir: "f dir = Some Dir" and plain: "triple_plain p f" and tmp: "f (tmp_of p) = None"
    using assms(1) by (simp_all add: registry_at_def p_def)
  note nodir = plain_not_dir [OF dir plain]
  note split = classify_plain_cases [where l = max_registry_bytes and v = valid_registry]
  note exec = write_registry_def read_registry_def remove_regular_def remove_regular_if_exists_def
    p_def [symmetric] Let_def wp_exec registry_state_defs
  have pl: "plain (f p)" "plain (f (bak_of p))"
    using plain by (simp_all add: triple_plain_def)
  obtain e where bad: "classify max_registry_bytes valid_registry (Some (Reg (Doc r (sz r)))) = Unreadable e"
    using refused_unreadable [OF assms(2)] by blast
  show ?thesis
    using assms(3) bad
    by - (rule split [OF pl(1)]; rule split [OF pl(2)]; use assms(1) tmp dir nodir in \<open>auto simp: exec\<close>)
qed

lemma write_registry_keeps_absent_wp:
  assumes "registry_at dir x f" and "\<not> writable_registry sz r"
  shows "wp False (write_registry sz dir r) (\<lambda>_ _. False) (\<lambda>_ _. True) (\<lambda>_. True) f"
proof (cases "f (registry_path dir) = None")
  case False
  from wp_mono [OF write_registry_refused_wp [OF assms False]] show ?thesis by auto
next
  case True
  define p where "p = registry_path dir"
  have plain: "triple_plain p f" and tmp: "f (tmp_of p) = None" and none: "f p = None"
    using assms(1) True by (simp_all add: registry_at_def p_def)
  obtain e where bad: "classify max_registry_bytes valid_registry (Some (Reg (Doc r (sz r)))) = Unreadable e"
    using refused_unreadable [OF assms(2)] by blast
  have "plain (f (bak_of p))" using plain by (simp add: triple_plain_def)
  from plain_cases [OF this] tmp none bad show ?thesis
    by (auto simp: write_registry_def read_registry_def remove_regular_def remove_regular_if_exists_def
        p_def [symmetric] Let_def wp_exec)
qed

interpretation registry_store: crash_store "\<lambda>r. r" "writable_registry sz" "registry_at dir"
  "registry_between dir" "write_registry sz dir" "recover_registry dir" for sz dir
proof unfold_locales
  show "registry_at dir x f \<Longrightarrow> registry_between dir x y f \<and> registry_between dir y x f" for x y f
    using registry_at_recovers by (auto simp: registry_between_def)
next
  show "registry_at dir x f \<Longrightarrow> writable_registry sz d \<Longrightarrow>
     wp False (write_registry sz dir d) (\<lambda>_. registry_at dir d) (\<lambda>_ _. False) (registry_between dir x d) f"
    for x f d by (rule write_registry_wp)
next
  show "registry_between dir x y f \<Longrightarrow>
     wp False (recover_registry dir) (\<lambda>r g. (r = x \<or> r = y) \<and> registry_at dir r g) (\<lambda>_ _. False)
       (registry_between dir x y) f" for x y f
    by (auto simp: registry_between_def elim!: wp_mono [OF recover_registry_wp])
qed

section \<open>The inventory\<close>

definition put_record :: "registry_record \<Rightarrow> registry_record list \<Rightarrow> registry_record list" where
  "put_record r rs = insort_key RID r (filter (\<lambda>x. RID x \<noteq> RID r) rs)"

definition live_count :: "leaf_card list \<Rightarrow> string \<Rightarrow> nat" where
  "live_count live i = length (filter (\<lambda>c. IID (Identity c) \<noteq> '''' \<and>
     (State c = Enrolled \<or> State c = Duplicate) \<and> IID (Identity c) = i) live)"

definition observed :: "leaf_card list \<Rightarrow> leaf_card \<Rightarrow> bool" where
  "observed live c \<longleftrightarrow> IID (Identity c) \<noteq> '''' \<and> live_count live (IID (Identity c)) = 1 \<and> State c = Enrolled"

definition record_of :: "leaf_card \<Rightarrow> registry_record" where
  "record_of c = \<lparr>RID = IID (Identity c), LastSourceID = ID (Source c), RRetainedBytes = RetainedBytes c\<rparr>"

definition updated_records :: "registry_file \<Rightarrow> leaf_card list \<Rightarrow> registry_record list" where
  "updated_records reg live =
     fold (\<lambda>c rs. if observed live c then put_record (record_of c) rs else rs) live
       (fold put_record (cards_of reg) [])"

definition source_by_id :: "source list \<Rightarrow> string \<Rightarrow> source" where
  "source_by_id ss i = (case find (\<lambda>s. ID s = i) ss of
     Some s \<Rightarrow> s
   | None \<Rightarrow> \<lparr>ID = i, Root = '''', Primary = False, UserdataPath = '''', SharedUserdataPath = '''',
       RomsPath = '''', ImagesPath = '''', MusicPath = '''', AppsPath = '''', BIOSPath = '''', SavesPath = '''',
       StatesPath = '''', CheatsPath = '''', MustBeMounted = False\<rparr>)"

definition remembered_card :: "source list \<Rightarrow> registry_record \<Rightarrow> leaf_card" where
  "remembered_card ss r =
     \<lparr>Source = source_by_id ss (LastSourceID r),
      Identity = \<lparr>IVersion = identity_version, IID = RID r\<rparr>, State = Absent_Card, Present = False,
      Writable = False, DuplicateID = False, RetainedBytes = RRetainedBytes r, Issues = [''card-absent'']\<rparr>"

text \<open>The card takes the first empty slot of its last source, or comes last.\<close>

fun place_card :: "leaf_card \<Rightarrow> string \<Rightarrow> leaf_card list \<Rightarrow> leaf_card list" where
  "place_card c slot [] = [c]"
| "place_card c slot (x # xs) =
     (if ID (Source x) = slot \<and> State x = Absent_Card \<and> IID (Identity x) = '''' then c # xs
      else x # place_card c slot xs)"

fun add_remembered :: "source list \<Rightarrow> leaf_card list \<Rightarrow> registry_record list \<Rightarrow> leaf_card list \<Rightarrow> leaf_card list" where
  "add_remembered ss live [] inventory = inventory"
| "add_remembered ss live (r # rs) inventory =
     add_remembered ss live rs
       (if live_count live (RID r) > 0 then inventory
        else place_card (remembered_card ss r) (LastSourceID r) inventory)"

definition reconcile_registry :: "(registry_file \<Rightarrow> nat) \<Rightarrow> string \<Rightarrow> source list \<Rightarrow> leaf_card list \<Rightarrow>
    (registry_file, leaf_card list) io" where
  "reconcile_registry sz dir ss live =
     io_bind (recover_registry dir) (\<lambda>reg.
       let updated = reg\<lparr>RCards := Some (updated_records reg live)\<rparr>
       in io_bind (io_when (updated \<noteq> reg) (write_registry sz dir updated)) (\<lambda>_.
          io_ret (add_remembered ss live (cards_of updated) live)))"

lemma insort_key_set: "set (insort_key k r rs) = insert r (set rs)"
  by (rule set_insort_key)

lemma put_record_set: "x \<in> set (put_record r rs) \<longleftrightarrow> x = r \<or> x \<in> set rs \<and> RID x \<noteq> RID r"
  by (auto simp: put_record_def set_insort_key)

lemma put_record_ids: "RID ` set (put_record r rs) = insert (RID r) (RID ` set rs)"
  by (auto simp: put_record_def set_insort_key)

lemma distinct_insort_ids: "distinct (map RID (insort_key RID r rs)) = (RID r \<notin> RID ` set rs \<and> distinct (map RID rs))"
  by (induction rs) (auto simp: set_insort_key)

lemma put_record_distinct: "distinct (map RID rs) \<Longrightarrow> distinct (map RID (put_record r rs))"
  by (auto simp: put_record_def distinct_insort_ids distinct_map_filter)

lemma fold_put_ids: "RID ` set (fold put_record cs rs) = RID ` set cs \<union> RID ` set rs"
  by (induction cs arbitrary: rs) (auto simp: put_record_ids)

lemma fold_put_distinct: "distinct (map RID rs) \<Longrightarrow> distinct (map RID (fold put_record cs rs))"
  by (induction cs arbitrary: rs) (simp_all add: put_record_distinct)

definition observe :: "leaf_card list \<Rightarrow> leaf_card \<Rightarrow> registry_record list \<Rightarrow> registry_record list" where
  "observe live c rs = (if observed live c then put_record (record_of c) rs else rs)"

lemma updated_records_observe:
  "updated_records reg live = fold (observe live) live (fold put_record (cards_of reg) [])"
  by (simp add: updated_records_def observe_def [abs_def])

lemma fold_observe_ids:
  "RID ` set (fold (observe live) cs rs) =
   RID ` set rs \<union> (\<lambda>c. IID (Identity c)) ` {c \<in> set cs. observed live c}"
  by (induction cs arbitrary: rs) (auto simp: observe_def put_record_ids record_of_def)

lemma fold_observe_distinct: "distinct (map RID rs) \<Longrightarrow> distinct (map RID (fold (observe live) cs rs))"
  by (induction cs arbitrary: rs) (auto simp: observe_def put_record_distinct)

lemma updated_records_ids:
  "RID ` set (updated_records reg live) =
   RID ` set (cards_of reg) \<union> (\<lambda>c. IID (Identity c)) ` {c \<in> set live. observed live c}"
  by (simp add: updated_records_observe fold_observe_ids fold_put_ids)

lemma updated_records_distinct: "distinct (map RID (updated_records reg live))"
  by (simp add: updated_records_observe fold_observe_distinct fold_put_distinct)

lemma filter_singleton:
  assumes "length (filter P xs) = 1" and "a \<in> set xs" "P a" "b \<in> set xs" "P b"
  shows "a = b"
proof -
  obtain y where y: "filter P xs = [y]" using assms(1) by (auto simp: length_Suc_conv)
  have "a \<in> set (filter P xs)" "b \<in> set (filter P xs)" using assms(2-) by auto
  then show ?thesis by (simp add: y)
qed

lemma observed_unique:
  assumes "observed live a" "observed live b" "a \<in> set live" "b \<in> set live"
    and "IID (Identity a) = IID (Identity b)"
  shows "a = b"
proof (rule filter_singleton [of "\<lambda>c. IID (Identity c) \<noteq> '''' \<and> (State c = Enrolled \<or> State c = Duplicate) \<and>
      IID (Identity c) = IID (Identity a)" live])
qed (use assms in \<open>auto simp: observed_def live_count_def\<close>)

lemma fold_observe_mem:
  "observed live c \<Longrightarrow> c \<in> set live \<Longrightarrow> set cs \<subseteq> set live \<Longrightarrow>
   c \<in> set cs \<or> record_of c \<in> set rs \<Longrightarrow> record_of c \<in> set (fold (observe live) cs rs)"
proof (induction cs arbitrary: rs)
  case (Cons d cs)
  have "record_of c \<in> set (observe live d rs)" if "c = d \<or> record_of c \<in> set rs"
  proof (cases "observed live d \<and> IID (Identity d) = IID (Identity c)")
    case True
    then have "d = c" using observed_unique [of live d c] Cons.prems by auto
    then show ?thesis using Cons.prems(1) by (simp add: observe_def put_record_set)
  next
    case False
    then show ?thesis using that Cons.prems(1) by (auto simp: observe_def put_record_set record_of_def)
  qed
  with Cons.prems have "c \<in> set cs \<or> record_of c \<in> set (observe live d rs)" by auto
  with Cons.IH [of "observe live d rs"] Cons.prems show ?case by simp
qed simp

lemma updated_records_mem: "observed live c \<Longrightarrow> c \<in> set live \<Longrightarrow> record_of c \<in> set (updated_records reg live)"
  by (simp add: updated_records_observe fold_observe_mem)

lemma place_card_mem: "c \<in> set (place_card c slot cs)"
  by (induction cs) auto

lemma place_card_keeps:
  "x \<in> set cs \<Longrightarrow> IID (Identity x) \<noteq> '''' \<or> State x \<noteq> Absent_Card \<Longrightarrow> x \<in> set (place_card c slot cs)"
  by (induction cs) auto

lemma add_remembered_keeps:
  "x \<in> set cs \<Longrightarrow> IID (Identity x) \<noteq> '''' \<or> State x \<noteq> Absent_Card \<Longrightarrow> x \<in> set (add_remembered ss live rs cs)"
  by (induction rs arbitrary: cs) (auto simp: place_card_keeps)

lemma add_remembered_mem:
  "r \<in> set rs \<Longrightarrow> live_count live (RID r) = 0 \<Longrightarrow> RID r \<noteq> '''' \<Longrightarrow>
   remembered_card ss r \<in> set (add_remembered ss live rs cs)"
proof (induction rs arbitrary: cs)
  case (Cons q rs)
  show ?case
  proof (cases "q = r")
    case True
    with Cons.prems show ?thesis
      by (simp add: add_remembered_keeps place_card_mem remembered_card_def)
  qed (use Cons in auto)
qed simp

lemma valid_records_distinct:
  "valid_records seen rs \<Longrightarrow> distinct (map RID rs) \<and> set (map RID rs) \<inter> set seen = {}"
  by (induction seen rs rule: valid_records.induct) (auto split: if_splits)

section \<open>Reconciliation under power loss\<close>

definition with_records :: "registry_file \<Rightarrow> leaf_card list \<Rightarrow> registry_file" where
  "with_records reg live = reg\<lparr>RCards := Some (updated_records reg live)\<rparr>"

lemma cards_of_with_records [simp]: "cards_of (with_records reg live) = updated_records reg live"
  by (simp add: with_records_def cards_of_def)

lemma reconcile_wp:
  assumes "registry_recovers dir x f"
  shows "wp False (reconcile_registry sz dir ss live)
     (\<lambda>inventory g. registry_at dir (with_records x live) g \<and>
        inventory = add_remembered ss live (updated_records x live) live)
     (\<lambda>_ _. True) (\<lambda>_. True) f"
proof -
  have writes: "wp False (write_registry sz dir (with_records x live))
      (\<lambda>_. registry_at dir (with_records x live)) (\<lambda>_ _. True) (\<lambda>_. True) g" if "registry_at dir x g" for g
  proof (cases "writable_registry sz (with_records x live)")
    case True
    from wp_mono [OF write_registry_wp [OF that True]] show ?thesis by auto
  next
    case False
    from wp_mono [OF write_registry_keeps_absent_wp [OF that False]] show ?thesis by auto
  qed
  have "wp False (io_bind (io_when (with_records x live \<noteq> x) (write_registry sz dir (with_records x live)))
      (\<lambda>_. io_ret (add_remembered ss live (updated_records x live) live)))
      (\<lambda>inventory g. registry_at dir (with_records x live) g \<and>
        inventory = add_remembered ss live (updated_records x live) live)
      (\<lambda>_ _. True) (\<lambda>_. True) g" if "registry_at dir x g" for g
    using that writes [OF that]
    by (cases "with_records x live = x") (auto simp: io_when_def wp_exec intro!: wp_bindI elim!: wp_mono)
  then show ?thesis
    unfolding reconcile_registry_def
    by (intro wp_bindI) (rule wp_mono [OF recover_registry_wp [OF assms]];
        simp add: with_records_def [symmetric] Let_def)
qed

lemma reconcile_returns_wp:
  assumes "registry_recovers dir x f" and "writable_registry sz (with_records x live)"
  shows "wp False (reconcile_registry sz dir ss live) (\<lambda>_ _. True) (\<lambda>_ _. False) (\<lambda>_. True) f"
proof -
  have "wp False (io_bind (io_when (with_records x live \<noteq> x) (write_registry sz dir (with_records x live)))
      (\<lambda>_. io_ret (add_remembered ss live (updated_records x live) live)))
      (\<lambda>_ _. True) (\<lambda>_ _. False) (\<lambda>_. True) g" if "registry_at dir x g" for g
    using wp_mono [OF write_registry_wp [OF that assms(2)]]
    by (cases "with_records x live = x") (auto simp: io_when_def wp_exec intro!: wp_bindI)
  then show ?thesis
    unfolding reconcile_registry_def
    by (intro wp_bindI) (rule wp_mono [OF recover_registry_wp [OF assms(1)]];
        simp add: with_records_def [symmetric] Let_def)
qed

lemma reconcile_refused_wp:
  assumes "registry_recovers dir x f" and "cards_of x \<noteq> []" and "\<not> writable_registry sz (with_records x live)"
    and "with_records x live \<noteq> x"
  shows "wp False (reconcile_registry sz dir ss live) (\<lambda>_ _. False) (\<lambda>_. registry_recovers dir x)
     (registry_recovers dir x) f"
proof -
  have "wp False (io_bind (io_when (with_records x live \<noteq> x) (write_registry sz dir (with_records x live)))
      (\<lambda>_. io_ret (add_remembered ss live (updated_records x live) live)))
      (\<lambda>_ _. False) (\<lambda>_. registry_recovers dir x) (registry_recovers dir x) g" if g: "registry_at dir x g" for g
  proof -
    have "g (registry_path dir) \<noteq> None"
      using g assms(2) by (auto simp: registry_at_def empty_registry_def cards_of_def classify_Found)
    from write_registry_refused_wp [OF g assms(3) this] assms(4) show ?thesis
      by (auto simp: io_when_def intro!: wp_bindI elim!: wp_mono)
  qed
  then show ?thesis
    unfolding reconcile_registry_def
    by (intro wp_bindI) (rule wp_mono [OF recover_registry_wp [OF assms(1)]];
        simp add: with_records_def [symmetric] Let_def registry_at_recovers)
qed

section \<open>Properties\<close>

text \<open>
  C23. The card registry survives power loss: after any number of updates with valid registries,
  each cut off at any point and followed by any number of recoveries that are cut off too, every
  recovery that runs to its end succeeds and reads the initial registry or one that was written,
  and the files again hold the registry it read.
\<close>

theorem registry_survives_power_loss:
  assumes "registry_at dir x f"
    and "\<forall>(r, p, ps) \<in> set us. writable_registry sz r \<and> Fail \<notin> set p \<and> (\<forall>q \<in> set ps. Fail \<notin> set q)"
    and "registry_store.history sz dir us f = (xs, g)"
  shows "length xs = length us \<and> set xs \<subseteq> insert x (fst ` set us) \<and> registry_at dir (last (x # xs)) g"
  using registry_store.history_complete [OF assms] by (simp add: image_image)

text \<open>
  An update of the registry that returned is what the next recovery reads; one that died
  leaves the registry before or after it, whatever happens to the recoveries in between.
\<close>

theorem registry_update_atomic:
  assumes "registry_at dir x f" and "writable_registry sz r" and "Fail \<notin> set p"
    and "\<forall>q \<in> set ps. Fail \<notin> set q" and "boot (write_registry sz dir r) p f = (result, g)"
  shows "\<exists>z h. run_clean (recover_registry dir) (boots (recover_registry dir) ps g) = (Ok z, h) \<and>
     (result = Ok () \<and> z = r \<or> result = Died \<and> (z = x \<or> z = r))"
  using registry_store.update_atomic [OF assms(1,2,3,4,5)] by blast

text \<open>
  C33. Reconciliation that succeeds, under power loss: the registry forgets no card it knew,
  records every enrolled card that is present once with its slot and size, and the inventory
  keeps every live card that is not an empty slot and shows each remembered card that is not
  live as absent.
\<close>

theorem reconcile_remembers:
  assumes "registry_recovers dir x f" and "Fail \<notin> set p" and "\<forall>r \<in> set (cards_of x). RID r \<noteq> ''''"
    and "boot (reconcile_registry sz dir ss live) p f = (Ok inventory, g)"
  shows "\<exists>r. registry_at dir r g \<and> RID ` set (cards_of x) \<subseteq> RID ` set (cards_of r) \<and>
     (\<forall>c \<in> set live. observed live c \<longrightarrow> record_of c \<in> set (cards_of r)) \<and>
     (\<forall>c \<in> set live. IID (Identity c) \<noteq> '''' \<or> State c \<noteq> Absent_Card \<longrightarrow> c \<in> set inventory) \<and>
     (\<forall>q \<in> set (cards_of r). live_count live (RID q) = 0 \<longrightarrow> remembered_card ss q \<in> set inventory)"
proof -
  have at: "registry_at dir (with_records x live) g"
    and inventory: "inventory = add_remembered ss live (updated_records x live) live"
    using boot_sat [OF reconcile_wp [OF assms(1)] _ assms(4)] assms(2) by auto
  have ids: "RID q \<noteq> ''''" if "q \<in> set (updated_records x live)" for q
  proof -
    have "RID q \<in> RID ` set (updated_records x live)" using that by simp
    then show ?thesis using assms(3) by (auto simp: updated_records_ids observed_def)
  qed
  show ?thesis
    using at updated_records_mem [of live _ x] add_remembered_keeps [of _ live] add_remembered_mem ids
    by (intro exI [where x = "with_records x live"])
       (auto simp: inventory updated_records_ids)
qed

text \<open>
  A seventeenth card makes reconciliation fail for ever: with sixteen cards on record, a
  newly enrolled card is added to a registry that validation then refuses, the next start
  recovers the sixteen from the backup and fails in the same way, however often it is tried.
\<close>

theorem seventeenth_card_fails:
  assumes "registry_recovers dir x f" and "valid_registry x" and "length (cards_of x) = max_registry_cards"
    and "c \<in> set live" and "observed live c" and "IID (Identity c) \<notin> RID ` set (cards_of x)"
  shows "\<exists>e g. run_clean (reconcile_registry sz dir ss live)
       (boots (reconcile_registry sz dir ss live) (replicate n []) f) = (Failed e, g) \<and>
     registry_recovers dir x g"
proof -
  have "distinct (map RID (cards_of x))"
    using assms(2) valid_records_distinct [of "[]"]
    by (auto simp: valid_registry_def cards_of_def split: option.splits)
  then have old: "card (RID ` set (cards_of x)) = max_registry_cards"
    using distinct_card [of "map RID (cards_of x)"] assms(3) by simp
  have sub: "insert (IID (Identity c)) (RID ` set (cards_of x)) \<subseteq> RID ` set (updated_records x live)"
    using assms(4,5) by (auto simp: updated_records_ids)
  have "Suc max_registry_cards = card (insert (IID (Identity c)) (RID ` set (cards_of x)))"
    using assms(6) old by simp
  also have "\<dots> \<le> card (RID ` set (updated_records x live))"
    by (rule card_mono [OF _ sub]) simp
  also have "\<dots> \<le> length (updated_records x live)"
    using card_length [of "map RID (updated_records x live)"] by simp
  finally have long: "max_registry_cards < length (updated_records x live)" by simp
  have refused: "\<not> writable_registry sz (with_records x live)"
    using long by (simp add: writable_registry_def valid_registry_def with_records_def)
  have changed: "with_records x live \<noteq> x"
    using long assms(3) cards_of_with_records [of x live] by (metis less_irrefl)
  have some: "cards_of x \<noteq> []" using assms(3) by (auto simp: max_registry_cards_def)
  note wp = reconcile_refused_wp [OF _ some refused changed]
  have step: "registry_recovers dir x (snd (boot (reconcile_registry sz dir ss live) [] h))"
    if "registry_recovers dir x h" for h
  proof -
    obtain r k where b: "boot (reconcile_registry sz dir ss live) [] h = (r, k)" by fastforce
    from boot_sat [OF wp [OF that] _ b] show ?thesis by (cases r) (simp_all add: b)
  qed
  have "registry_recovers dir x (boots (reconcile_registry sz dir ss live) (replicate n []) f)"
    using assms(1) by (induction n arbitrary: f) (simp_all add: step)
  note here = this
  obtain r k where b: "boot (reconcile_registry sz dir ss live) []
      (boots (reconcile_registry sz dir ss live) (replicate n []) f) = (r, k)" by fastforce
  from boot_sat [OF wp [OF here] _ b] show ?thesis by (cases r) (auto simp: run_clean_boot b)
qed

subsection \<open>Witnesses\<close>

definition sample_id :: "char \<Rightarrow> string" where
  "sample_id c = replicate 32 c"

definition sample_records :: "registry_record list" where
  "sample_records = map (\<lambda>c. \<lparr>RID = sample_id c, LastSourceID = ''primary'', RRetainedBytes = 0\<rparr>)
     ''0123456789abcdef''"

definition full_registry :: registry_file where
  "full_registry = \<lparr>RVersion = 1, RCards = Some sample_records\<rparr>"

definition small_registry :: registry_file where
  "small_registry = \<lparr>RVersion = 1, RCards = Some (take 2 sample_records)\<rparr>"

definition seventeenth_card :: leaf_card where
  "seventeenth_card = \<lparr>Source = sample_source, Identity = \<lparr>IVersion = 1, IID = sample_id CHR ''0'' @ ''''\<rparr>,
     State = Enrolled, Present = True, Writable = True, DuplicateID = False, RetainedBytes = 0, Issues = []\<rparr>
     \<lparr>Identity := \<lparr>IVersion = 1, IID = replicate 31 CHR ''0'' @ ''1''\<rparr>\<rparr>"

definition registry_files :: "registry_file \<Rightarrow> registry_file fs" where
  "registry_files r = map_of [(''/d'', Dir), (registry_path ''/d'', Reg (Doc r 100))]"

lemma registry_path_d: "registry_path ''/d'' = ''/d/cards-v1.json''"
  by code_simp

lemma sample_id_valid: "c \<in> set hex_digits \<Longrightarrow> valid_identity_id (sample_id c)"
  by (auto simp: valid_identity_id_def sample_id_def is_hex_def hex_digits_def lower_ascii_def)

lemma sample_id_inj: "sample_id c = sample_id d \<longleftrightarrow> c = d"
  by (auto simp: sample_id_def replicate_eq_replicate)

lemma valid_sample_records:
  "distinct cs \<Longrightarrow> set cs \<subseteq> set hex_digits \<Longrightarrow> (\<forall>c \<in> set cs. sample_id c \<notin> set seen) \<Longrightarrow>
   valid_records seen (map (\<lambda>c. \<lparr>RID = sample_id c, LastSourceID = ''primary'', RRetainedBytes = 0\<rparr>) cs)"
proof (induction cs arbitrary: seen)
  case (Cons c cs)
  then have "valid_records (sample_id c # seen)
      (map (\<lambda>c. \<lparr>RID = sample_id c, LastSourceID = ''primary'', RRetainedBytes = 0\<rparr>) cs)"
    by (intro Cons.IH) (auto simp: sample_id_inj)
  with Cons.prems show ?case by (simp add: sample_id_valid)
qed simp

lemma sample_valid: "valid_registry full_registry" "valid_registry small_registry"
  using valid_sample_records [of hex_digits "[]"] valid_sample_records [of "take 2 hex_digits" "[]"]
  by (simp_all add: valid_registry_def full_registry_def small_registry_def sample_records_def hex_digits_def
      registry_version_def max_registry_cards_def)

lemma registry_files_at: "valid_registry r \<Longrightarrow> registry_at ''/d'' r (registry_files r)"
  by (simp add: registry_at_def triple_plain_def registry_files_def registry_path_d tmp_of_def bak_of_def
      max_registry_bytes_def)

theorem registry_survives_power_loss_witness:
  "\<exists>xs g. registry_store.history (\<lambda>_. 100) ''/d'' [(small_registry, [Pass, Pass, Die], [[Die], [Pass, Die]])]
       (registry_files full_registry) = (xs, g) \<and>
     length xs = 1 \<and> set xs \<subseteq> {full_registry, small_registry}"
proof -
  obtain xs g where h: "registry_store.history (\<lambda>_. 100) ''/d''
      [(small_registry, [Pass, Pass, Die], [[Die], [Pass, Die]])] (registry_files full_registry) = (xs, g)"
    by fastforce
  from registry_survives_power_loss [OF registry_files_at [OF sample_valid(1)] _ h] h sample_valid
  show ?thesis by (auto simp: writable_registry_def max_registry_bytes_def)
qed

theorem registry_update_atomic_witness:
  "\<exists>z h. run_clean (recover_registry ''/d'') (boots (recover_registry ''/d'') [[Pass, Die]]
       (snd (boot (write_registry (\<lambda>_. 100) ''/d'' small_registry) [Pass, Die] (registry_files full_registry)))) = (Ok z, h) \<and>
     (z = full_registry \<or> z = small_registry)"
proof -
  obtain r g where b: "boot (write_registry (\<lambda>_. 100) ''/d'' small_registry) [Pass, Die]
      (registry_files full_registry) = (r, g)" by fastforce
  from registry_update_atomic [OF registry_files_at [OF sample_valid(1)] _ _ _ b, of "[[Pass, Die]]"] sample_valid b
  show ?thesis by (auto simp: writable_registry_def max_registry_bytes_def)
qed

theorem reconcile_remembers_witness:
  "\<exists>inventory g r. boot (reconcile_registry (\<lambda>_. 100) ''/d'' [] []) [] (registry_files small_registry) = (Ok inventory, g) \<and>
     registry_at ''/d'' r g \<and> RID ` set (cards_of small_registry) \<subseteq> RID ` set (cards_of r)"
proof -
  have rec: "registry_recovers ''/d'' small_registry (registry_files small_registry)"
    by (rule registry_at_recovers [OF registry_files_at [OF sample_valid(2)]])
  have "with_records small_registry [] = small_registry" by code_simp
  then have "writable_registry (\<lambda>_. 100) (with_records small_registry [])"
    using sample_valid by (simp add: writable_registry_def max_registry_bytes_def)
  note returns = reconcile_returns_wp [OF rec this]
  obtain q g where "boot (reconcile_registry (\<lambda>_. 100) ''/d'' [] []) [] (registry_files small_registry) = (q, g)"
    by fastforce
  with boot_sat [OF returns _ this] obtain inventory
    where b: "boot (reconcile_registry (\<lambda>_. 100) ''/d'' [] []) [] (registry_files small_registry) = (Ok inventory, g)"
    by (cases q) auto
  have "\<forall>r \<in> set (cards_of small_registry). RID r \<noteq> ''''" by code_simp
  from reconcile_remembers [OF rec _ this b] b show ?thesis by auto
qed

theorem seventeenth_card_fails_witness:
  "\<exists>e g. run_clean (reconcile_registry (\<lambda>_. 100) ''/d'' [sample_source] [seventeenth_card])
       (boots (reconcile_registry (\<lambda>_. 100) ''/d'' [sample_source] [seventeenth_card]) [[], []]
         (registry_files full_registry)) = (Failed e, g) \<and>
     registry_recovers ''/d'' full_registry g"
proof -
  have "length (cards_of full_registry) = max_registry_cards" by code_simp
  moreover have "observed [seventeenth_card] seventeenth_card"
    "IID (Identity seventeenth_card) \<notin> RID ` set (cards_of full_registry)" by code_simp+
  ultimately show ?thesis
    using seventeenth_card_fails [OF registry_at_recovers [OF registry_files_at [OF sample_valid(1)]] sample_valid(1),
        of seventeenth_card "[seventeenth_card]" "\<lambda>_. 100" "[sample_source]" 2]
    by (simp add: numeral_2_eq_2)
qed

end
