(* ===== verification/Frame_Wire.thy ===== *)
theory Frame_Wire
  imports Prelude
begin

text \<open>
  The framed transport of \<open>internal/life1/wire.go\<close> and the copy of it that
  \<open>internal/controller/ctl1.go\<close> carries: a payload behind a four-byte big-endian length.
  A connection is read as the chunks that arrive (bytes, or a read deadline that passes) and
  written through a list of what each \<open>Write\<close> call accepts.  \<open>valid\<close> is \<open>json.Valid\<close>.
\<close>

datatype wire_error = End_Of_Stream | Deadline_Passed | Frame_Too_Short | Transport_Limit
  | Semantic_Limit | Length_Mismatch | Invalid_JSON | Short_Write | Write_Failed
  | Out_Of_Bounds | Closed_Subscription | Cancelled | Unavailable | Protocol string

definition semantic_max_payload :: nat where "semantic_max_payload = 64 * 1024"
definition transport_max_payload :: nat where "transport_max_payload = 16 * 1024 * 1024"
definition frame_prefix_bytes :: nat where "frame_prefix_bytes = 4"
definition ctl1_max_payload :: nat where "ctl1_max_payload = 1024 * 1024"

section \<open>Big-endian length prefix\<close>

definition put_uint32 :: "nat \<Rightarrow> string" where
  "put_uint32 n = map (\<lambda>k. char_of (n div 256 ^ k mod 256)) [3, 2, 1, 0]"

definition get_uint32 :: "string \<Rightarrow> nat" where
  "get_uint32 s = foldl (\<lambda>acc c. acc * 256 + of_char c) 0 s"

lemma length_put_uint32 [simp]: "length (put_uint32 n) = 4"
  by (simp add: put_uint32_def)

lemma get_put_uint32: "n < 2 ^ 32 \<Longrightarrow> get_uint32 (put_uint32 n) = n"
proof -
  assume n: "n < 2 ^ 32"
  have "n div 256 div 256 div 256 div 256 = 0" using n by (simp add: div_mult2_eq [symmetric])
  then have top: "n div 256 div 256 div 256 mod 256 = n div 256 div 256 div 256"
    by (metis div_eq_0_iff mod_less zero_neq_numeral)
  have split: "m div 256 * 256 + m mod 256 = m" for m :: nat by simp
  have "get_uint32 (put_uint32 n) =
      ((n div 256 div 256 div 256 mod 256 * 256 + n div 256 div 256 mod 256) * 256 +
       n div 256 mod 256) * 256 + n mod 256"
    by (simp add: get_uint32_def put_uint32_def div_mult2_eq [symmetric])
  then show ?thesis by (simp only: top split)
qed

section \<open>Encode and Decode\<close>

definition encode_frame :: "(string \<Rightarrow> bool) \<Rightarrow> string \<Rightarrow> wire_error + string" where
  "encode_frame valid message =
     (if length message > semantic_max_payload then Inl Semantic_Limit
      else if \<not> valid message then Inl Invalid_JSON
      else Inr (put_uint32 (length message) @ message))"

definition decode_frame :: "(string \<Rightarrow> bool) \<Rightarrow> string \<Rightarrow> wire_error + string" where
  "decode_frame valid frame =
     (if length frame < frame_prefix_bytes then Inl Frame_Too_Short
      else let declared = get_uint32 (take frame_prefix_bytes frame);
               payload = drop frame_prefix_bytes frame
           in if declared > transport_max_payload then Inl Transport_Limit
              else if declared > semantic_max_payload then Inl Semantic_Limit
              else if declared \<noteq> length frame - frame_prefix_bytes then Inl Length_Mismatch
              else if \<not> valid payload then Inl Invalid_JSON
              else Inr payload)"

section \<open>Reading from a connection\<close>

text \<open>
  \<open>io.ReadFull\<close>: bytes that were taken from the connection before an error are gone.  A
  connection without further chunks has been closed by the peer.
\<close>

datatype chunk = Bytes string | Quiet

fun read_full :: "nat \<Rightarrow> chunk list \<Rightarrow> (wire_error + string) \<times> chunk list" where
  "read_full n [] = (if n = 0 then Inr '''' else Inl End_Of_Stream, [])"
| "read_full n (Quiet # cs) = (if n = 0 then (Inr '''', Quiet # cs) else (Inl Deadline_Passed, cs))"
| "read_full n (Bytes b # cs) =
     (if n \<le> length b then (Inr (take n b), Bytes (drop n b) # cs)
      else case read_full (n - length b) cs of
             (Inl e, cs') \<Rightarrow> (Inl e, cs')
           | (Inr r, cs') \<Rightarrow> (Inr (b @ r), cs'))"

definition read_frame :: "(string \<Rightarrow> bool) \<Rightarrow> chunk list \<Rightarrow> (wire_error + string) \<times> chunk list" where
  "read_frame valid cs = (case read_full frame_prefix_bytes cs of
     (Inl e, cs') \<Rightarrow> (Inl e, cs')
   | (Inr prefix, cs') \<Rightarrow>
       let declared = get_uint32 prefix
       in if declared > transport_max_payload then (Inl Transport_Limit, cs')
          else if declared > semantic_max_payload then (Inl Semantic_Limit, cs')
          else (case read_full declared cs' of
                  (Inl e, cs'') \<Rightarrow> (Inl e, cs'')
                | (Inr payload, cs'') \<Rightarrow>
                    if \<not> valid payload then (Inl Invalid_JSON, cs'') else (Inr payload, cs'')))"

definition read_control_frame :: "chunk list \<Rightarrow> (wire_error + string) \<times> chunk list" where
  "read_control_frame cs = (case read_full 4 cs of
     (Inl e, cs') \<Rightarrow> (Inl e, cs')
   | (Inr header, cs') \<Rightarrow>
       let size = get_uint32 header
       in if size = 0 \<or> size > ctl1_max_payload then (Inl Out_Of_Bounds, cs')
          else read_full size cs')"

section \<open>Writing to a connection\<close>

text \<open>
  Each \<open>Write\<close> call answers with the number of bytes it accepted, or fails; a connection whose
  list of answers is used up accepts everything.  \<open>sent\<close> is what the peer receives.
\<close>

type_synonym answers = "nat option list"

fun write_loop :: "answers \<Rightarrow> string \<Rightarrow> string \<Rightarrow> (wire_error + unit) \<times> string \<times> answers" where
  "write_loop [] frame sent = (Inr (), sent @ frame, [])"
| "write_loop (r # rs) frame sent =
     (if frame = '''' then (Inr (), sent, r # rs)
      else case r of
             None \<Rightarrow> (Inl Write_Failed, sent, rs)
           | Some n \<Rightarrow>
               if n = 0 \<or> n > length frame then (Inl Short_Write, sent, rs)
               else write_loop rs (drop n frame) (sent @ take n frame))"

definition write_frame ::
    "(string \<Rightarrow> bool) \<Rightarrow> answers \<Rightarrow> string \<Rightarrow> string \<Rightarrow> (wire_error + unit) \<times> string \<times> answers" where
  "write_frame valid rs message sent = (case encode_frame valid message of
     Inl e \<Rightarrow> (Inl e, sent, rs)
   | Inr frame \<Rightarrow> write_loop rs frame sent)"

text \<open>
  \<open>writeControlFrame\<close> issues two calls without a loop: \<open>net.Conn.Write\<close> itself fails when it
  cannot write everything, so a call that accepts less is an error here.
\<close>

definition write_once :: "answers \<Rightarrow> string \<Rightarrow> string \<Rightarrow> (wire_error + unit) \<times> string \<times> answers" where
  "write_once rs data sent = (case rs of
     [] \<Rightarrow> (Inr (), sent @ data, [])
   | None # rs' \<Rightarrow> (Inl Write_Failed, sent, rs')
   | Some n # rs' \<Rightarrow>
       (if n < length data then (Inl Write_Failed, sent @ take n data, rs') else (Inr (), sent @ data, rs')))"

definition write_control_frame ::
    "answers \<Rightarrow> string \<Rightarrow> string \<Rightarrow> (wire_error + unit) \<times> string \<times> answers" where
  "write_control_frame rs payload sent =
     (if payload = '''' \<or> length payload > ctl1_max_payload then (Inl Out_Of_Bounds, sent, rs)
      else case write_once rs (put_uint32 (length payload)) sent of
             (Inl e, sent', rs') \<Rightarrow> (Inl e, sent', rs')
           | (Inr _, sent', rs') \<Rightarrow> write_once rs' payload sent')"

section \<open>What the stream carries\<close>

fun stream_bytes :: "chunk list \<Rightarrow> string" where
  "stream_bytes [] = ''''"
| "stream_bytes (Bytes b # cs) = b @ stream_bytes cs"
| "stream_bytes (Quiet # cs) = stream_bytes cs"

definition quiet_free :: "chunk list \<Rightarrow> bool" where
  "quiet_free cs \<longleftrightarrow> Quiet \<notin> set cs"

lemma quiet_free_simps [simp]:
  "quiet_free []" "quiet_free (Bytes b # cs) = quiet_free cs" "\<not> quiet_free (Quiet # cs)"
  by (auto simp: quiet_free_def)

lemma read_full_quiet_free:
  "quiet_free cs \<Longrightarrow> n \<le> length (stream_bytes cs) \<Longrightarrow>
   \<exists>cs'. read_full n cs = (Inr (take n (stream_bytes cs)), cs') \<and>
         stream_bytes cs' = drop n (stream_bytes cs) \<and> quiet_free cs'"
proof (induction cs arbitrary: n)
  case (Cons c cs)
  then obtain b where c: "c = Bytes b" "quiet_free cs" by (cases c) auto
  show ?case
  proof (cases "n \<le> length b")
    case True
    then show ?thesis using c by auto
  next
    case False
    then have "n - length b \<le> length (stream_bytes cs)" using Cons.prems c by simp
    from Cons.IH [OF c(2) this] obtain cs' where
      "read_full (n - length b) cs = (Inr (take (n - length b) (stream_bytes cs)), cs')"
      "stream_bytes cs' = drop (n - length b) (stream_bytes cs)" "quiet_free cs'" by blast
    then show ?thesis using False c by auto
  qed
qed simp

lemma read_full_Inr:
  "read_full n cs = (Inr r, cs') \<Longrightarrow> length r = n \<and> stream_bytes cs = r @ stream_bytes cs'"
proof (induction cs arbitrary: n r cs')
  case (Cons c cs)
  then show ?case
    by (cases c) (fastforce split: if_splits prod.splits sum.splits)+
qed (auto split: if_splits)

definition quiets :: "chunk list \<Rightarrow> nat" where
  "quiets cs = length (filter (\<lambda>c. c = Quiet) cs)"

lemma quiets_simps [simp]:
  "quiets [] = 0" "quiets (Quiet # cs) = Suc (quiets cs)" "quiets (Bytes b # cs) = quiets cs"
  by (simp_all add: quiets_def)

lemma read_full_quiets:
  "read_full n cs = (r, cs') \<Longrightarrow> quiets cs' \<le> quiets cs \<and> (r = Inl Deadline_Passed \<longrightarrow> quiets cs' < quiets cs)"
proof (induction cs arbitrary: n r cs')
  case (Cons c cs)
  show ?case
  proof (cases c)
    case (Bytes b)
    obtain r1 c1 where rec: "read_full (n - length b) cs = (r1, c1)" by fastforce
    with Cons.IH [OF rec] Cons.prems Bytes show ?thesis
      by (auto split: if_splits sum.splits)
  qed (use Cons.prems in \<open>auto split: if_splits\<close>)
qed (auto split: if_splits)

lemma read_frame_quiets:
  "read_frame valid cs = (Inl Deadline_Passed, cs') \<Longrightarrow> quiets cs' < quiets cs"
  unfolding read_frame_def Let_def
  by (auto split: prod.splits sum.splits if_splits dest!: read_full_quiets)

lemma write_loop_sent:
  "write_loop rs frame sent = (Inr (), sent', rs') \<Longrightarrow> sent' = sent @ frame"
proof (induction rs arbitrary: frame sent)
  case (Cons r rs)
  show ?case
  proof (cases r)
    case (Some n)
    then show ?thesis
      using Cons.prems Cons.IH [of "drop n frame" "sent @ take n frame"] by (auto split: if_splits)
  qed (use Cons.prems in \<open>auto split: if_splits\<close>)
qed simp

lemma write_loop_prefix:
  "write_loop rs frame sent = (r, sent', rs') \<Longrightarrow> \<exists>a b. frame = a @ b \<and> sent' = sent @ a"
proof (induction rs arbitrary: frame sent)
  case Nil
  then show ?case by auto
next
  case (Cons q rs)
  show ?case
  proof (cases "frame = '''' \<or> q = None \<or> (\<exists>n. q = Some n \<and> (n = 0 \<or> length frame < n))")
    case True
    then have "sent' = sent" using Cons.prems by (auto split: if_splits)
    then show ?thesis by auto
  next
    case False
    then obtain n where "q = Some n" "\<not> (n = 0 \<or> length frame < n)" "frame \<noteq> ''''" by auto
    then have "write_loop rs (drop n frame) (sent @ take n frame) = (r, sent', rs')"
      using Cons.prems by simp
    from Cons.IH [OF this] obtain a b where "drop n frame = a @ b" "sent' = (sent @ take n frame) @ a"
      by blast
    then show ?thesis by (metis append.assoc append_take_drop_id)
  qed
qed

section \<open>Round trips\<close>

lemma get_uint32_Cons4:
  "get_uint32 [a, b, c, d] =
     ((of_char a * 256 + of_char b) * 256 + of_char c) * 256 + (of_char d :: nat)"
  by (simp add: get_uint32_def)

lemma put_get_uint32: "length s = 4 \<Longrightarrow> put_uint32 (get_uint32 s) = s"
proof -
  assume "length s = 4"
  then obtain a b c d where s: "s = [a, b, c, d]"
    by (auto simp: numeral_eq_Suc length_Suc_conv)
  have lt: "of_char x < (256 :: nat)" for x :: char by simp
  have step: "(m * 256 + of_char x) div 256 = m" "(m * 256 + of_char x) mod 256 = of_char x"
    for m :: nat and x :: char using lt [of x] by simp_all
  have low: "char_of (of_char x :: nat) = x" "(of_char x :: nat) mod 256 = of_char x" for x :: char
    using lt [of x] by simp_all
  define n where "n = get_uint32 s"
  have "get_uint32 s div 256 ^ 3 = of_char a" "get_uint32 s div 256 ^ 2 = of_char a * 256 + of_char b"
    "get_uint32 s div 256 = (of_char a * 256 + of_char b) * 256 + of_char c"
    unfolding s get_uint32_Cons4 power3_eq_cube power2_eq_square div_mult2_eq step by simp_all
  then have digits: "n div 256 ^ 3 mod 256 = of_char a" "n div 256 ^ 2 mod 256 = of_char b"
    "n div 256 ^ 1 mod 256 = of_char c" "n div 256 ^ 0 mod 256 = of_char d"
    by (simp_all only: n_def [symmetric] step low power_one_right)
      (simp only: n_def s get_uint32_Cons4 power_0 div_by_1 step)
  show ?thesis
    unfolding n_def [symmetric] put_uint32_def by (simp only: list.map digits low) (simp only: s)
qed

text \<open>
  A frame is the encoding of a message exactly when decoding the frame gives that message:
  whatever \<open>Encode\<close> writes is accepted, and \<open>Decode\<close> accepts nothing else.
\<close>

theorem frame_round_trip:
  "decode_frame valid frame = Inr m \<longleftrightarrow> encode_frame valid m = Inr frame"
proof
  assume dec: "decode_frame valid frame = Inr m"
  then have len: "4 \<le> length frame" and m: "m = drop 4 frame"
    and eq: "get_uint32 (take 4 frame) = length frame - 4"
    and rest: "length m \<le> semantic_max_payload" "valid m"
    by (auto simp: decode_frame_def Let_def frame_prefix_bytes_def split: if_splits)
  have "put_uint32 (length m) = take 4 frame"
    using put_get_uint32 [of "take 4 frame"] len eq m by simp
  then show "encode_frame valid m = Inr frame"
    using rest m by (simp add: encode_frame_def)
next
  assume enc: "encode_frame valid m = Inr frame"
  then have "length m \<le> semantic_max_payload" "valid m" "frame = put_uint32 (length m) @ m"
    by (auto simp: encode_frame_def split: if_splits)
  moreover have "get_uint32 (put_uint32 (length m)) = length m"
    using calculation(1) by (intro get_put_uint32) (simp add: semantic_max_payload_def)
  ultimately show "decode_frame valid frame = Inr m"
    by (simp add: decode_frame_def frame_prefix_bytes_def transport_max_payload_def semantic_max_payload_def)
qed

lemma read_prefixed:
  assumes "quiet_free cs" and "stream_bytes cs = put_uint32 (length m) @ m @ rest"
    and "length m < 2 ^ 32"
  shows "\<exists>c1 c2. read_full 4 cs = (Inr (put_uint32 (length m)), c1) \<and>
     get_uint32 (put_uint32 (length m)) = length m \<and>
     read_full (length m) c1 = (Inr m, c2) \<and> stream_bytes c2 = rest \<and> quiet_free c2"
  using read_full_quiet_free [OF assms(1), of 4] read_full_quiet_free [of _ "length m"] assms(2)
    get_put_uint32 [OF assms(3)] by fastforce

text \<open>
  C31. A message whose write returned without error, through any series of partial writes, is
  read back at the other end, through any fragmentation without a passed deadline, and the
  reader stops at the first byte after it.
\<close>

theorem written_frame_is_read:
  assumes "write_frame valid rs m sent = (Inr (), sent @ wire, rs')"
    and "quiet_free cs" and "stream_bytes cs = wire @ rest"
  shows "\<exists>cs'. read_frame valid cs = (Inr m, cs') \<and> stream_bytes cs' = rest \<and> quiet_free cs'"
proof -
  obtain frame where enc: "encode_frame valid m = Inr frame"
    and loop: "write_loop rs frame sent = (Inr (), sent @ wire, rs')"
    using assms(1) by (auto simp: write_frame_def split: sum.splits)
  have wire: "wire = put_uint32 (length m) @ m" and m: "length m \<le> semantic_max_payload" "valid m"
    using write_loop_sent [OF loop] enc by (auto simp: encode_frame_def split: if_splits)
  have "length m < 2 ^ 32" using m(1) by (simp add: semantic_max_payload_def)
  from read_prefixed [OF assms(2) _ this, of rest] assms(3) wire
  obtain c1 c2 where "read_full 4 cs = (Inr (put_uint32 (length m)), c1)"
    "get_uint32 (put_uint32 (length m)) = length m"
    "read_full (length m) c1 = (Inr m, c2)" "stream_bytes c2 = rest" "quiet_free c2" by auto
  with m show ?thesis
    by (simp add: read_frame_def frame_prefix_bytes_def transport_max_payload_def semantic_max_payload_def)
qed

theorem written_frame_is_read_witness:
  "\<exists>cs'. read_frame (\<lambda>p. p \<noteq> '''') [Bytes (put_uint32 3 @ ''{''), Bytes ''}A'', Bytes ''B''] = (Inr ''{}A'', cs') \<and>
     stream_bytes cs' = ''B'' \<and> quiet_free cs'"
proof (rule written_frame_is_read)
  show "write_frame (\<lambda>p. p \<noteq> '''') [Some 2, Some 3, Some 2] ''{}A'' '''' =
      (Inr (), '''' @ put_uint32 3 @ ''{}A'', [])"
    by (simp add: write_frame_def encode_frame_def semantic_max_payload_def put_uint32_def)
qed simp_all

lemma write_once_sent: "write_once rs data sent = (Inr u, sent', rs') \<Longrightarrow> sent' = sent @ data"
  by (auto simp: write_once_def split: list.splits option.splits if_splits)

lemma write_control_frame_sent:
  assumes "write_control_frame rs m sent = (Inr u, sent', rs')"
  shows "m \<noteq> '''' \<and> length m \<le> ctl1_max_payload \<and> sent' = sent @ put_uint32 (length m) @ m"
proof -
  have "\<not> (m = '''' \<or> length m > ctl1_max_payload)"
  proof
    assume "m = '''' \<or> length m > ctl1_max_payload"
    with assms show False by (simp only: write_control_frame_def if_True prod.inject sum.distinct simp_thms)
  qed
  then have m: "m \<noteq> ''''" "length m \<le> ctl1_max_payload" by simp_all
  obtain r s1 rs1 where one: "write_once rs (put_uint32 (length m)) sent = (r, s1, rs1)"
    by (metis surj_pair)
  then obtain v where r: "r = Inr v" and two: "write_once rs1 m s1 = (Inr u, sent', rs')"
    using assms m by (cases r) (simp_all add: write_control_frame_def)
  then show ?thesis using m write_once_sent [OF two] write_once_sent [of rs _ sent v s1 rs1] one by simp
qed

lemma written_control_frame_is_read:
  assumes "write_control_frame rs m sent = (Inr (), sent @ wire, rs')"
    and "quiet_free cs" and "stream_bytes cs = wire @ rest"
  shows "\<exists>cs'. read_control_frame cs = (Inr m, cs') \<and> stream_bytes cs' = rest"
proof -
  have m: "length m \<le> ctl1_max_payload" "m \<noteq> ''''" and wire: "wire = put_uint32 (length m) @ m"
    using write_control_frame_sent [OF assms(1)] by simp_all
  have "length m < 2 ^ 32" using m(1) by (simp add: ctl1_max_payload_def)
  from read_prefixed [OF assms(2) _ this, of rest] assms(3) wire
  obtain c1 c2 where "read_full 4 cs = (Inr (put_uint32 (length m)), c1)"
    "get_uint32 (put_uint32 (length m)) = length m"
    "read_full (length m) c1 = (Inr m, c2)" "stream_bytes c2 = rest" "quiet_free c2" by auto
  with m show ?thesis by (simp add: read_control_frame_def)
qed

end
