(* ===== verification/Json.thy ===== *)
theory Json
  imports Prelude
begin

text \<open>
  JSON values as Go's \<open>encoding/json\<close> reads them into structs.  The step from bytes to a value
  is the parameter \<open>parse\<close> of the theories that decode; what happens from there on is here: a
  key selects the field of that name, or else a field whose name agrees up to case folding,
  in the order of the document, so that later keys overwrite earlier ones; \<open>null\<close> leaves a
  field as it is and clears a pointer; a strict decoder refuses unknown keys.
\<close>

datatype json = JNull | JBool bool | JInt int | JFrac string | JStr string
  | JArr "json list" | JObj "(string \<times> json) list"

section \<open>Field names\<close>

text \<open>
  \<open>foldName\<close> of the decoder: ASCII letters lose their case, and the two other runes that fold
  onto ASCII letters (U+017F and U+212A, in UTF-8) do so too.
\<close>

fun fold_name :: "string \<Rightarrow> string" where
  "fold_name (a # b # c # s) =
     (if [a, b] = [CHR 0xC5, CHR 0xBF] then CHR ''s'' # fold_name (c # s)
      else if [a, b, c] = [CHR 0xE2, CHR 0x84, CHR 0xAA] then CHR ''k'' # fold_name s
      else lower_ascii [a] @ fold_name (b # c # s))"
| "fold_name [a, b] = (if [a, b] = [CHR 0xC5, CHR 0xBF] then ''s'' else lower_ascii [a, b])"
| "fold_name s = lower_ascii s"

type_synonym ('s) setter = "'s \<Rightarrow> json \<Rightarrow> error + 's"

definition find_field :: "(string \<times> 's setter) list \<Rightarrow> string \<Rightarrow> 's setter option" where
  "find_field spec key = (case map_of spec key of
     Some f \<Rightarrow> Some f
   | None \<Rightarrow> map_option snd (find (\<lambda>(n, f). fold_name n = fold_name key) spec))"

fun decode_fields :: "bool \<Rightarrow> (string \<times> 's setter) list \<Rightarrow> (string \<times> json) list \<Rightarrow> 's \<Rightarrow> error + 's" where
  "decode_fields strict spec [] s = Inr s"
| "decode_fields strict spec ((key, v) # kvs) s = (case find_field spec key of
     None \<Rightarrow> if strict then Inl ''unknown field'' else decode_fields strict spec kvs s
   | Some f \<Rightarrow> sum_bind (f s v) (decode_fields strict spec kvs))"

definition decode_struct :: "bool \<Rightarrow> (string \<times> 's setter) list \<Rightarrow> 's \<Rightarrow> json \<Rightarrow> error + 's" where
  "decode_struct strict spec zero v = (case v of
     JNull \<Rightarrow> Inr zero
   | JObj kvs \<Rightarrow> decode_fields strict spec kvs zero
   | _ \<Rightarrow> Inl ''cannot unmarshal into struct'')"

section \<open>Setters\<close>

definition int_max :: int where "int_max = 2 ^ 63 - 1"
definition int_min :: int where "int_min = - (2 ^ 63)"

definition set_string :: "(string \<Rightarrow> 's \<Rightarrow> 's) \<Rightarrow> 's setter" where
  "set_string upd s v = (case v of
     JNull \<Rightarrow> Inr s | JStr x \<Rightarrow> Inr (upd x s) | _ \<Rightarrow> Inl ''cannot unmarshal into string'')"

definition set_bool :: "(bool \<Rightarrow> 's \<Rightarrow> 's) \<Rightarrow> 's setter" where
  "set_bool upd s v = (case v of
     JNull \<Rightarrow> Inr s | JBool x \<Rightarrow> Inr (upd x s) | _ \<Rightarrow> Inl ''cannot unmarshal into bool'')"

definition set_int :: "(int \<Rightarrow> 's \<Rightarrow> 's) \<Rightarrow> 's setter" where
  "set_int upd s v = (case v of
     JNull \<Rightarrow> Inr s
   | JInt i \<Rightarrow> if int_min \<le> i \<and> i \<le> int_max then Inr (upd i s) else Inl ''number out of range''
   | _ \<Rightarrow> Inl ''cannot unmarshal into int'')"

definition set_int_ptr :: "(int option \<Rightarrow> 's \<Rightarrow> 's) \<Rightarrow> 's setter" where
  "set_int_ptr upd s v = (case v of
     JNull \<Rightarrow> Inr (upd None s)
   | JInt i \<Rightarrow> if int_min \<le> i \<and> i \<le> int_max then Inr (upd (Some i) s) else Inl ''number out of range''
   | _ \<Rightarrow> Inl ''cannot unmarshal into int'')"

definition set_bool_ptr :: "(bool option \<Rightarrow> 's \<Rightarrow> 's) \<Rightarrow> 's setter" where
  "set_bool_ptr upd s v = (case v of
     JNull \<Rightarrow> Inr (upd None s) | JBool x \<Rightarrow> Inr (upd (Some x) s) | _ \<Rightarrow> Inl ''cannot unmarshal into bool'')"

text \<open>A pointer to a struct: the struct that a previous key left is decoded into again.\<close>

definition set_struct_ptr :: "bool \<Rightarrow> (string \<times> 't setter) list \<Rightarrow> 't \<Rightarrow> ('s \<Rightarrow> 't option) \<Rightarrow>
    ('t option \<Rightarrow> 's \<Rightarrow> 's) \<Rightarrow> 's setter" where
  "set_struct_ptr strict spec zero get upd s v = (case v of
     JNull \<Rightarrow> Inr (upd None s)
   | _ \<Rightarrow> sum_bind (decode_struct strict spec (case get s of None \<Rightarrow> zero | Some t \<Rightarrow> t) v)
            (\<lambda>t. Inr (upd (Some t) s)))"

text \<open>A struct held by value.\<close>

definition set_struct :: "bool \<Rightarrow> (string \<times> 't setter) list \<Rightarrow> ('s \<Rightarrow> 't) \<Rightarrow>
    ('t \<Rightarrow> 's \<Rightarrow> 's) \<Rightarrow> 's setter" where
  "set_struct strict spec get upd s v =
     sum_bind (decode_struct strict spec (get s) v) (\<lambda>t. Inr (upd t s))"

text \<open>A field that keeps the undecoded value (\<open>json.RawMessage\<close>); it also keeps a \<open>null\<close>.\<close>

definition set_raw :: "(json option \<Rightarrow> 's \<Rightarrow> 's) \<Rightarrow> 's setter" where
  "set_raw upd s v = Inr (upd (Some v) s)"

text \<open>A slice of strings: each element is decoded as a string, \<open>null\<close> gives the nil slice.\<close>

definition json_string :: "json \<Rightarrow> error + string" where
  "json_string v = (case v of JNull \<Rightarrow> Inr '''' | JStr x \<Rightarrow> Inr x | _ \<Rightarrow> Inl ''cannot unmarshal into string'')"

definition set_strings :: "(string list \<Rightarrow> 's \<Rightarrow> 's) \<Rightarrow> 's setter" where
  "set_strings upd s v = (case v of
     JNull \<Rightarrow> Inr (upd [] s)
   | JArr vs \<Rightarrow> sum_bind (map_results json_string vs) (\<lambda>xs. Inr (upd xs s))
   | _ \<Rightarrow> Inl ''cannot unmarshal into slice'')"

lemmas setter_defs = set_string_def set_bool_def set_int_def set_int_ptr_def set_bool_ptr_def
  set_raw_def set_strings_def

end
