(* ===== verification/Life_Client.thy ===== *)
theory Life_Client
  imports Frame_Wire Go_Path Json
begin

text \<open>
  \<open>internal/life1/client.go\<close>: the subscription to game lifecycle events.  \<open>parse\<close> reads the
  bytes of one JSON value (\<open>None\<close> when they are not valid JSON), \<open>marshal\<close> writes one; a
  subscription holds the connection (what is still to arrive, how writes are answered, what has
  been sent), the events that arrived during the handshake, and whether it is closed.
\<close>

definition protocol_version :: int where "protocol_version = 1"

section \<open>Messages\<close>

record protocol_error =
  Code :: string
  Message :: string

record game_state =
  Active :: bool
  StateLaunchID :: string
  StateSourceID :: string
  StateSavesPath :: string
  StateStatesPath :: string

record event =
  Version :: int
  Name :: string
  LaunchID :: string
  SourceID :: string
  SavesPath :: string
  StatesPath :: string
  WaitBudgetMS :: "int option"

definition zero_event :: event where
  "zero_event = \<lparr>Version = 0, Name = '''', LaunchID = '''', SourceID = '''', SavesPath = '''',
     StatesPath = '''', WaitBudgetMS = None\<rparr>"

definition event_spec :: "(string \<times> event setter) list" where
  "event_spec =
     [(''v'', set_int (\<lambda>x. Version_update (\<lambda>_. x))), (''event'', set_string (\<lambda>x. Name_update (\<lambda>_. x))),
      (''launch_id'', set_string (\<lambda>x. LaunchID_update (\<lambda>_. x))),
      (''source_id'', set_string (\<lambda>x. SourceID_update (\<lambda>_. x))),
      (''saves_path'', set_string (\<lambda>x. SavesPath_update (\<lambda>_. x))),
      (''states_path'', set_string (\<lambda>x. StatesPath_update (\<lambda>_. x))),
      (''wait_budget_ms'', set_int_ptr (\<lambda>x. WaitBudgetMS_update (\<lambda>_. x)))]"

record envelope =
  EVersion :: int
  EID :: string
  EEvent :: string
  EError :: "json option"

definition envelope_spec :: "(string \<times> envelope setter) list" where
  "envelope_spec =
     [(''v'', set_int (\<lambda>x. EVersion_update (\<lambda>_. x))), (''id'', set_string (\<lambda>x. EID_update (\<lambda>_. x))),
      (''event'', set_string (\<lambda>x. EEvent_update (\<lambda>_. x))), (''error'', set_raw (\<lambda>x. EError_update (\<lambda>_. x)))]"

definition zero_envelope :: envelope where
  "zero_envelope = \<lparr>EVersion = 0, EID = '''', EEvent = '''', EError = None\<rparr>"

definition error_spec :: "(string \<times> protocol_error setter) list" where
  "error_spec = [(''code'', set_string (\<lambda>x. Code_update (\<lambda>_. x))),
                 (''message'', set_string (\<lambda>x. Message_update (\<lambda>_. x)))]"

definition zero_error :: protocol_error where
  "zero_error = \<lparr>Code = '''', Message = ''''\<rparr>"

record subscribe_response =
  SVersion :: int
  SID :: string
  SOK :: bool
  SError :: "protocol_error option"

definition subscribe_spec :: "(string \<times> subscribe_response setter) list" where
  "subscribe_spec =
     [(''v'', set_int (\<lambda>x. SVersion_update (\<lambda>_. x))), (''id'', set_string (\<lambda>x. SID_update (\<lambda>_. x))),
      (''ok'', set_bool (\<lambda>x. SOK_update (\<lambda>_. x))),
      (''error'', set_struct_ptr True error_spec zero_error SError (\<lambda>x. SError_update (\<lambda>_. x)))]"

definition zero_subscribe :: subscribe_response where
  "zero_subscribe = \<lparr>SVersion = 0, SID = '''', SOK = False, SError = None\<rparr>"

record game_state_response =
  GVersion :: int
  GID :: string
  GState :: game_state
  GError :: "protocol_error option"

definition zero_game_state :: game_state where
  "zero_game_state = \<lparr>Active = False, StateLaunchID = '''', StateSourceID = '''',
     StateSavesPath = '''', StateStatesPath = ''''\<rparr>"

definition zero_game_state_response :: game_state_response where
  "zero_game_state_response = \<lparr>GVersion = 0, GID = '''', GState = zero_game_state, GError = None\<rparr>"

definition game_state_spec :: "(string \<times> game_state_response setter) list" where
  "game_state_spec =
     [(''v'', set_int (\<lambda>x. GVersion_update (\<lambda>_. x))), (''id'', set_string (\<lambda>x. GID_update (\<lambda>_. x))),
      (''active'', set_bool (\<lambda>x. GState_update (Active_update (\<lambda>_. x)))),
      (''launch_id'', set_string (\<lambda>x. GState_update (StateLaunchID_update (\<lambda>_. x)))),
      (''source_id'', set_string (\<lambda>x. GState_update (StateSourceID_update (\<lambda>_. x)))),
      (''saves_path'', set_string (\<lambda>x. GState_update (StateSavesPath_update (\<lambda>_. x)))),
      (''states_path'', set_string (\<lambda>x. GState_update (StateStatesPath_update (\<lambda>_. x)))),
      (''error'', set_struct_ptr True error_spec zero_error GError (\<lambda>x. GError_update (\<lambda>_. x)))]"

section \<open>Validation\<close>

text \<open>\<open>decodeStrict\<close> on the payload of a frame; \<open>requireJSONFields\<close> compares names exactly.\<close>

definition decode_strict :: "(string \<Rightarrow> json option) \<Rightarrow> (string \<times> 's setter) list \<Rightarrow> 's \<Rightarrow> string \<Rightarrow> error + 's" where
  "decode_strict parse spec zero payload = (case parse payload of
     None \<Rightarrow> Inl ''invalid JSON''
   | Some v \<Rightarrow> decode_struct True spec zero v)"

definition require_json_fields :: "(string \<Rightarrow> json option) \<Rightarrow> string \<Rightarrow> string list \<Rightarrow> bool" where
  "require_json_fields parse payload names = (case parse payload of
     Some (JObj kvs) \<Rightarrow> (\<forall>n \<in> set names. n \<in> fst ` set kvs)
   | Some JNull \<Rightarrow> names = []
   | _ \<Rightarrow> False)"

definition validate_state :: "game_state \<Rightarrow> bool" where
  "validate_state s \<longleftrightarrow>
     (if \<not> Active s
      then StateLaunchID s = '''' \<and> StateSourceID s = '''' \<and> StateSavesPath s = '''' \<and> StateStatesPath s = ''''
      else StateLaunchID s \<noteq> '''' \<and> StateSourceID s \<in> {''primary'', ''secondary_sd''})"

definition decode_event :: "(string \<Rightarrow> json option) \<Rightarrow> string \<Rightarrow> wire_error + event" where
  "decode_event parse payload = (case decode_strict parse event_spec zero_event payload of
     Inl _ \<Rightarrow> Inl (Protocol ''event'')
   | Inr ev \<Rightarrow>
       if Version ev \<noteq> protocol_version \<or> LaunchID ev = '''' then Inl (Protocol ''invalid version or launch id'')
       else if Name ev \<in> {''game.start'', ''game.check''} then
         (if \<not> require_json_fields parse payload [''v'', ''event'', ''launch_id'', ''source_id'',
               ''saves_path'', ''states_path'', ''wait_budget_ms'']
          then Inl (Protocol ''missing field'')
          else if SourceID ev \<notin> {''primary'', ''secondary_sd''} then Inl (Protocol ''invalid source'')
          else (case WaitBudgetMS ev of
                  None \<Rightarrow> Inl (Protocol ''invalid wait budget'')
                | Some b \<Rightarrow> if b < 0 \<or> b > 15000 then Inl (Protocol ''invalid wait budget'') else Inr ev))
       else if Name ev \<in> {''game.cancel'', ''game.abort'', ''game.finish''} then
         (if \<not> require_json_fields parse payload [''v'', ''event'', ''launch_id'']
          then Inl (Protocol ''missing field'')
          else if SourceID ev \<noteq> '''' \<or> SavesPath ev \<noteq> '''' \<or> StatesPath ev \<noteq> '''' \<or> WaitBudgetMS ev \<noteq> None
          then Inl (Protocol ''unexpected fields'')
          else Inr ev)
       else Inl (Protocol ''unknown event''))"

section \<open>The subscription\<close>

record subscription =
  inbox :: "chunk list"
  replies :: answers
  sent :: string
  pending :: "event list"
  closed :: bool

definition is_valid :: "(string \<Rightarrow> json option) \<Rightarrow> string \<Rightarrow> bool" where
  "is_valid parse p \<longleftrightarrow> parse p \<noteq> None"

definition write_json :: "(string \<Rightarrow> json option) \<Rightarrow> (json \<Rightarrow> string) \<Rightarrow> json \<Rightarrow> subscription \<Rightarrow>
    (wire_error + unit) \<times> subscription" where
  "write_json parse marshal message s =
     (if closed s then (Inl Closed_Subscription, s)
      else case write_frame (is_valid parse) (replies s) (marshal message) (sent s) of
             (r, sent', replies') \<Rightarrow> (r, s\<lparr>sent := sent', replies := replies'\<rparr>))"

definition close_subscription :: "subscription \<Rightarrow> subscription" where
  "close_subscription s = s\<lparr>closed := True\<rparr>"

text \<open>
  \<open>Next\<close>: \<open>turns\<close> is the number of rounds of the loop before the context ends, when it does.
  A round whose read deadline passes is repeated; the rest of the chunks is read on.
\<close>

function next_loop :: "(string \<Rightarrow> json option) \<Rightarrow> nat option \<Rightarrow> chunk list \<Rightarrow>
    (wire_error + event) \<times> chunk list" where
  "next_loop parse turns cs =
     (if turns = Some 0 then (Inl Cancelled, cs)
      else case read_frame (is_valid parse) cs of
             (Inl e, cs') \<Rightarrow>
               if e = Deadline_Passed then next_loop parse (map_option (\<lambda>n. n - 1) turns) cs'
               else (Inl e, cs')
           | (Inr payload, cs') \<Rightarrow> (decode_event parse payload, cs'))"
  by pat_completeness auto
termination
  by (relation "measure (\<lambda>(parse, turns, cs). quiets cs)") (auto dest: read_frame_quiets [OF sym])

declare next_loop.simps [simp del]

definition next_event :: "(string \<Rightarrow> json option) \<Rightarrow> nat option \<Rightarrow> subscription \<Rightarrow>
    (wire_error + event) \<times> subscription" where
  "next_event parse turns s = (case pending s of
     ev # evs \<Rightarrow> (Inr ev, s\<lparr>pending := evs\<rparr>)
   | [] \<Rightarrow> (case next_loop parse turns (inbox s) of (r, cs) \<Rightarrow> (r, s\<lparr>inbox := cs\<rparr>)))"

definition send_ready :: "(string \<Rightarrow> json option) \<Rightarrow> (json \<Rightarrow> string) \<Rightarrow> string \<Rightarrow> subscription \<Rightarrow>
    (wire_error + unit) \<times> subscription" where
  "send_ready parse marshal launch s =
     (if launch = '''' then (Inl (Protocol ''ready launch id is empty''), s)
      else write_json parse marshal
             (JObj [(''v'', JInt protocol_version), (''status'', JStr ''ready''), (''launch_id'', JStr launch)]) s)"

definition send_stop :: "(string \<Rightarrow> json option) \<Rightarrow> (json \<Rightarrow> string) \<Rightarrow> string \<Rightarrow> subscription \<Rightarrow>
    (wire_error + unit) \<times> subscription" where
  "send_stop parse marshal launch s =
     (if launch = '''' then (Inl (Protocol ''stop launch id is empty''), s)
      else write_json parse marshal
             (JObj [(''v'', JInt protocol_version), (''status'', JStr ''stop''), (''launch_id'', JStr launch)]) s)"

definition send_waiting :: "(string \<Rightarrow> json option) \<Rightarrow> (json \<Rightarrow> string) \<Rightarrow> string \<Rightarrow> int \<Rightarrow> int \<Rightarrow> subscription \<Rightarrow>
    (wire_error + unit) \<times> subscription" where
  "send_waiting parse marshal launch items bytes s =
     (if launch = '''' \<or> items < 0 \<or> bytes < 0 then (Inl (Protocol ''waiting status''), s)
      else write_json parse marshal
             (JObj [(''v'', JInt protocol_version), (''status'', JStr ''waiting''), (''launch_id'', JStr launch),
                    (''pending_items'', JInt items), (''pending_bytes'', JInt bytes)]) s)"

definition send_error :: "(string \<Rightarrow> json option) \<Rightarrow> (json \<Rightarrow> string) \<Rightarrow> string \<Rightarrow> string \<Rightarrow> subscription \<Rightarrow>
    (wire_error + unit) \<times> subscription" where
  "send_error parse marshal launch reason s =
     (if launch = '''' \<or> reason = '''' then (Inl (Protocol ''error status''), s)
      else write_json parse marshal
             (JObj [(''v'', JInt protocol_version), (''status'', JStr ''error''), (''launch_id'', JStr launch),
                    (''reason'', JStr reason)]) s)"

section \<open>The handshake\<close>

datatype mode = Notify | Stop_Mode | Other_Mode string

record config =
  SocketPath :: string
  ServiceID :: string
  Mode :: mode
  AckMS :: int
  WaitMS :: int
  CheckBeforeStop :: bool
  Timeout :: int

definition validate_config :: "config \<Rightarrow> bool" where
  "validate_config c \<longleftrightarrow>
     SocketPath c \<noteq> '''' \<and> ServiceID c \<noteq> '''' \<and>
     (Mode c = Notify \<or> Mode c = Stop_Mode) \<and>
     \<not> (CheckBeforeStop c \<and> Mode c \<noteq> Stop_Mode) \<and>
     \<not> (AckMS c < 0 \<or> WaitMS c < 0) \<and> \<not> Timeout c < 0"

definition mode_name :: "mode \<Rightarrow> string" where
  "mode_name m = (case m of Notify \<Rightarrow> ''notify'' | Stop_Mode \<Rightarrow> ''stop'' | Other_Mode x \<Rightarrow> x)"

definition subscribe_request :: "config \<Rightarrow> string \<Rightarrow> json" where
  "subscribe_request c i = JObj
     ([(''v'', JInt protocol_version), (''op'', JStr ''subscribe''), (''id'', JStr i),
       (''events'', JArr [JStr ''game'']), (''service_id'', JStr (ServiceID c)),
       (''mode'', JStr (mode_name (Mode c))), (''ack_ms'', JInt (AckMS c)), (''wait_ms'', JInt (WaitMS c))] @
      (if CheckBeforeStop c then [(''check_before_stop'', JBool True)] else []))"

definition game_state_request :: "string \<Rightarrow> json" where
  "game_state_request i = JObj [(''v'', JInt protocol_version), (''op'', JStr ''game.state''), (''id'', JStr i)]"

text \<open>
  \<open>readResponse\<close>: frames that carry an event are queued until the response of that id comes.
  A read error, a passed deadline among them, ends it.  Every round reads a frame, so the
  number of bytes and deadlines still to come bounds the rounds.
\<close>

definition chunk_measure :: "chunk list \<Rightarrow> nat" where
  "chunk_measure cs = length (stream_bytes cs)"

lemma read_frame_shrinks:
  "read_frame valid cs = (Inr p, cs') \<Longrightarrow> chunk_measure cs' < chunk_measure cs"
  unfolding read_frame_def Let_def chunk_measure_def frame_prefix_bytes_def
  by (auto split: prod.splits sum.splits if_splits dest!: read_full_Inr)

function read_response :: "(string \<Rightarrow> json option) \<Rightarrow> string \<Rightarrow> event list \<Rightarrow> chunk list \<Rightarrow>
    (wire_error + string) \<times> event list \<times> chunk list" where
  "read_response parse i evs cs = (case read_frame (is_valid parse) cs of
     (Inl e, cs') \<Rightarrow> (Inl Unavailable, evs, cs')
   | (Inr payload, cs') \<Rightarrow>
       (case decode_struct False envelope_spec zero_envelope (the (parse payload)) of
          Inl _ \<Rightarrow> (Inl (Protocol ''response envelope''), evs, cs')
        | Inr header \<Rightarrow>
            if EVersion header \<noteq> protocol_version then (Inl (Protocol ''unsupported version''), evs, cs')
            else if EEvent header \<noteq> '''' then
              (case decode_event parse payload of
                 Inl e \<Rightarrow> (Inl e, evs, cs')
               | Inr ev \<Rightarrow> read_response parse i (evs @ [ev]) cs')
            else if EID header \<noteq> i then (Inl (Protocol ''unexpected id''), evs, cs')
            else (Inr payload, evs, cs')))"
  by pat_completeness auto
termination
  by (relation "measure (\<lambda>(parse, i, evs, cs). chunk_measure cs)")
     (auto dest: read_frame_shrinks [OF sym])

declare read_response.simps [simp del]

definition receive :: "(string \<Rightarrow> json option) \<Rightarrow> string \<Rightarrow> subscription \<Rightarrow> (wire_error + string) \<times> subscription" where
  "receive parse i s = (case read_response parse i (pending s) (inbox s) of
     (r, evs, cs) \<Rightarrow> (r, s\<lparr>pending := evs, inbox := cs\<rparr>))"

definition check_subscribed :: "(string \<Rightarrow> json option) \<Rightarrow> string \<Rightarrow> string \<Rightarrow> wire_error + unit" where
  "check_subscribed parse i payload =
     (case decode_strict parse subscribe_spec zero_subscribe payload of
        Inl _ \<Rightarrow> Inl (Protocol ''subscribe response'')
      | Inr r \<Rightarrow>
          if SVersion r \<noteq> protocol_version \<or> SID r \<noteq> i then Inl (Protocol ''version or id mismatch'')
          else if SError r \<noteq> None then
            (if SOK r then Inl (Protocol ''contains both ok and error'') else Inl (Protocol ''subscribe rejected''))
          else if \<not> SOK r then Inl (Protocol ''missing ok=true'') else Inr ())"

definition check_game_state :: "(string \<Rightarrow> json option) \<Rightarrow> string \<Rightarrow> string \<Rightarrow> wire_error + game_state" where
  "check_game_state parse i payload =
     (case decode_strict parse game_state_spec zero_game_state_response payload of
        Inl _ \<Rightarrow> Inl (Protocol ''game.state response'')
      | Inr r \<Rightarrow>
          if GVersion r \<noteq> protocol_version \<or> GID r \<noteq> i then Inl (Protocol ''version or id mismatch'')
          else if GError r \<noteq> None then Inl (Protocol ''game.state rejected'')
          else if \<not> require_json_fields parse payload [''v'', ''id'', ''active''] then Inl (Protocol ''missing field'')
          else if \<not> validate_state (GState r) then Inl (Protocol ''game.state response'')
          else Inr (GState r))"

text \<open>
  \<open>Connect\<close>: \<open>dialed\<close> is the connection that \<open>DialContext\<close> and the close-on-exec setting
  give, if they do, and \<open>id1\<close>, \<open>id2\<close> the ids that \<open>requestID\<close> draws.
\<close>

definition connect :: "(string \<Rightarrow> json option) \<Rightarrow> (json \<Rightarrow> string) \<Rightarrow> config \<Rightarrow> string \<Rightarrow> string \<Rightarrow>
    (chunk list \<times> answers) option \<Rightarrow> wire_error + subscription \<times> game_state" where
  "connect parse marshal c id1 id2 dialed =
     (if \<not> validate_config c then Inl (Protocol ''invalid configuration'')
      else case dialed of
        None \<Rightarrow> Inl Unavailable
      | Some (cs, rs) \<Rightarrow>
          let s0 = \<lparr>inbox = cs, replies = rs, sent = '''', pending = [], closed = False\<rparr>
          in case write_json parse marshal (subscribe_request c id1) s0 of
               (Inl _, _) \<Rightarrow> Inl Unavailable
             | (Inr _, s1) \<Rightarrow> (case receive parse id1 s1 of
               (Inl e, _) \<Rightarrow> Inl e
             | (Inr p1, s2) \<Rightarrow> sum_bind (check_subscribed parse id1 p1) (\<lambda>_.
                 case write_json parse marshal (game_state_request id2) s2 of
                   (Inl _, _) \<Rightarrow> Inl Unavailable
                 | (Inr _, s3) \<Rightarrow> (case receive parse id2 s3 of
                   (Inl e, _) \<Rightarrow> Inl e
                 | (Inr p2, s4) \<Rightarrow> sum_bind (check_game_state parse id2 p2) (\<lambda>g. Inr (s4, g))))))"

section \<open>What reaches the controller\<close>

definition good_event :: "event \<Rightarrow> bool" where
  "good_event ev \<longleftrightarrow> Version ev = protocol_version \<and> LaunchID ev \<noteq> '''' \<and>
     (if Name ev \<in> {''game.start'', ''game.check''}
      then SourceID ev \<in> {''primary'', ''secondary_sd''} \<and>
           (\<exists>b. WaitBudgetMS ev = Some b \<and> 0 \<le> b \<and> b \<le> 15000)
      else Name ev \<in> {''game.cancel'', ''game.abort'', ''game.finish''} \<and>
           SourceID ev = '''' \<and> SavesPath ev = '''' \<and> StatesPath ev = '''' \<and> WaitBudgetMS ev = None)"

lemma decode_event_good: "decode_event parse payload = Inr ev \<Longrightarrow> good_event ev"
  unfolding decode_event_def good_event_def
  by (simp only: split: sum.splits if_splits option.splits) auto

definition framed :: "string \<Rightarrow> string" where
  "framed p = put_uint32 (length p) @ p"

lemma read_frame_framed:
  assumes "read_frame valid cs = (Inr p, cs')"
  shows "stream_bytes cs = framed p @ stream_bytes cs' \<and> valid p"
proof -
  obtain r c1 where r: "read_full 4 cs = (Inr r, c1)" and p: "read_full (get_uint32 r) c1 = (Inr p, cs')"
    and "valid p"
    using assms by (auto simp: read_frame_def Let_def frame_prefix_bytes_def split: sum.splits prod.splits if_splits)
  have "length r = 4" "length p = get_uint32 r" "stream_bytes cs = r @ p @ stream_bytes cs'"
    using read_full_Inr [OF r] read_full_Inr [OF p] by auto
  with \<open>valid p\<close> show ?thesis using put_get_uint32 [of r] by (simp add: framed_def)
qed

lemma read_response_Inr:
  "read_response parse i evs cs = (Inr p, evs', cs') \<Longrightarrow>
   \<exists>ps new. map_results (decode_event parse) ps = Inr new \<and> evs' = evs @ new \<and>
     stream_bytes cs = concat (map framed ps) @ framed p @ stream_bytes cs'"
proof (induction parse i evs cs rule: read_response.induct)
  case (1 parse i evs cs)
  obtain payload c1 where read: "read_frame (is_valid parse) cs = (Inr payload, c1)"
    using 1(2) by (auto simp: read_response.simps [of parse i evs] split: sum.splits prod.splits)
  obtain header where header: "decode_struct False envelope_spec zero_envelope (the (parse payload)) = Inr header"
    using 1(2) read by (auto simp: read_response.simps [of parse i evs] split: sum.splits)
  have version: "EVersion header = protocol_version"
    using 1(2) read header by (auto simp: read_response.simps [of parse i evs] split: if_splits)
  note here = read_frame_framed [OF read]
  show ?case
  proof (cases "EEvent header = ''''")
    case True
    then have "payload = p" "evs' = evs" "cs' = c1"
      using 1(2) read header version by (auto simp: read_response.simps [of parse i evs] split: if_splits)
    then show ?thesis using here by (intro exI [where x = "[]"]) simp
  next
    case False
    obtain ev where ev: "decode_event parse payload = Inr ev"
      using 1(2) read header version False by (auto simp: read_response.simps [of parse i evs] split: sum.splits)
    have rec: "read_response parse i (evs @ [ev]) c1 = (Inr p, evs', cs')"
      using 1(2) read header version False ev by (simp add: read_response.simps [of parse i evs])
    from 1(1) [OF read [symmetric] refl header _ False ev rec] version
    obtain ps new where "map_results (decode_event parse) ps = Inr new" "evs' = (evs @ [ev]) @ new"
      "stream_bytes c1 = concat (map framed ps) @ framed p @ stream_bytes cs'" by auto
    then show ?thesis
      using here ev by (intro exI [where x = "payload # ps"] exI [where x = "ev # new"]) simp
  qed
qed

lemma connect_steps:
  assumes "connect parse marshal c id1 id2 dialed = Inr (s, g)"
  obtains s1 p1 s2 s3 p2 where "receive parse id1 s1 = (Inr p1, s2)" "pending s1 = []"
    "write_json parse marshal (game_state_request id2) s2 = (Inr (), s3)"
    "receive parse id2 s3 = (Inr p2, s)" "check_game_state parse id2 p2 = Inr g"
proof -
  obtain cs rs where d: "dialed = Some (cs, rs)" and "validate_config c"
    using assms by (auto simp: connect_def split: if_splits option.splits)
  obtain r1 s1 where w1: "write_json parse marshal (subscribe_request c id1)
      \<lparr>inbox = cs, replies = rs, sent = '''', pending = [], closed = False\<rparr> = (r1, s1)" by fastforce
  obtain r2 s2 where x1: "receive parse id1 s1 = (r2, s2)" by fastforce
  obtain r3 s3 where w2: "write_json parse marshal (game_state_request id2) s2 = (r3, s3)" by fastforce
  obtain r4 s4 where x2: "receive parse id2 s3 = (r4, s4)" by fastforce
  have "pending s1 = []"
    using w1 by (auto simp: write_json_def split: prod.splits)
  moreover obtain p1 p2 where "r2 = Inr p1" "r3 = Inr ()" "r4 = Inr p2" "s4 = s"
    "check_game_state parse id2 p2 = Inr g"
    using assms d \<open>validate_config c\<close> w1 x1 w2 x2 by (auto simp: connect_def sum_bind_Inr split: sum.splits)
  ultimately show thesis
    using that [of s1 p1 s2 s3 p2] x1 w2 x2 by simp
qed

lemma write_json_pending: "write_json parse marshal m s = (r, s') \<Longrightarrow> pending s' = pending s \<and> inbox s' = inbox s"
  by (auto simp: write_json_def split: if_splits prod.splits)

lemma map_results_good: "map_results (decode_event parse) ps = Inr evs \<Longrightarrow> ev \<in> set evs \<Longrightarrow> good_event ev"
  using decode_event_good by (fastforce dest: map_results_set)

lemma receive_good:
  assumes "receive parse i s = (Inr p, s')" and "\<forall>ev \<in> set (pending s). good_event ev"
  shows "\<forall>ev \<in> set (pending s'). good_event ev"
  using assms read_response_Inr [of parse i "pending s" "inbox s" p] map_results_good
  by (fastforce simp: receive_def split: prod.splits)

lemma connect_good:
  assumes "connect parse marshal c id1 id2 dialed = Inr (s, g)"
  shows "(\<forall>ev \<in> set (pending s). good_event ev) \<and> validate_state g"
proof -
  obtain s1 p1 s2 s3 p2 where steps: "receive parse id1 s1 = (Inr p1, s2)" "pending s1 = []"
    "write_json parse marshal (game_state_request id2) s2 = (Inr (), s3)"
    "receive parse id2 s3 = (Inr p2, s)" "check_game_state parse id2 p2 = Inr g"
    using connect_steps [OF assms] by metis
  have "validate_state g"
    using steps(5) by (auto simp: check_game_state_def split: sum.splits if_splits)
  then show ?thesis
    using receive_good steps(1,2,4) write_json_pending [OF steps(3)] by (metis empty_iff list.set(1))
qed

lemma next_loop_good: "next_loop parse turns cs = (Inr ev, cs') \<Longrightarrow> good_event ev"
proof (induction parse turns cs rule: next_loop.induct)
  case (1 parse turns cs)
  then show ?case
    by (auto simp: next_loop.simps [of parse turns cs] dest: decode_event_good
        split: if_splits prod.splits sum.splits)
qed

section \<open>Properties\<close>

text \<open>What successive calls of \<open>Next\<close> hand to the controller.\<close>

fun deliveries :: "(string \<Rightarrow> json option) \<Rightarrow> nat option list \<Rightarrow> subscription \<Rightarrow> event list" where
  "deliveries parse [] s = []"
| "deliveries parse (t # ts) s = (case next_event parse t s of
     (Inl e, s') \<Rightarrow> deliveries parse ts s'
   | (Inr ev, s') \<Rightarrow> ev # deliveries parse ts s')"

lemma deliveries_good:
  "\<forall>ev \<in> set (pending s). good_event ev \<Longrightarrow> ev \<in> set (deliveries parse ts s) \<Longrightarrow> good_event ev"
proof (induction ts arbitrary: s)
  case (Cons t ts)
  obtain r s' where n: "next_event parse t s = (r, s')" by fastforce
  have pend: "\<forall>e \<in> set (pending s'). good_event e"
    using n Cons.prems(1) by (auto simp: next_event_def split: list.splits prod.splits)
  have res: "good_event e" if "r = Inr e" for e
    using n Cons.prems(1) that by (auto simp: next_event_def dest: next_loop_good split: list.splits prod.splits)
  show ?case using Cons.IH [OF pend] Cons.prems(2) n res by (auto split: sum.splits)
qed simp


definition sample_parse :: "string \<Rightarrow> json option" where
  "sample_parse = map_of
     [(''M'', JNull),
      (''S'', JObj [(''v'', JInt 1), (''id'', JStr ''a''), (''ok'', JBool True)]),
      (''E'', JObj [(''v'', JInt 1), (''event'', JStr ''game.finish''), (''launch_id'', JStr ''L'')]),
      (''G'', JObj [(''v'', JInt 1), (''id'', JStr ''b''), (''active'', JBool False)])]"

definition sample_config :: config where
  "sample_config = \<lparr>SocketPath = ''/run/j'', ServiceID = ''s'', Mode = Notify, AckMS = 250, WaitMS = 0,
     CheckBeforeStop = False, Timeout = 0\<rparr>"

definition sample_event :: event where
  "sample_event = zero_event\<lparr>Version := 1, Name := ''game.finish'', LaunchID := ''L''\<rparr>"

lemma sample_handshake:
  "connect sample_parse (\<lambda>j. ''M'') sample_config ''a'' ''b''
     (Some ([Bytes (framed ''E''), Bytes (framed ''S''), Bytes (framed ''G'')], [])) =
   Inr (\<lparr>inbox = [Bytes ''''], replies = [], sent = framed ''M'' @ framed ''M'', pending = [sample_event],
         closed = False\<rparr>, zero_game_state)"
  by (simp add: connect_def sample_config_def validate_config_def write_json_def write_frame_def
      encode_frame_def is_valid_def sample_parse_def receive_def read_response.simps read_frame_def
      framed_def get_put_uint32 frame_prefix_bytes_def transport_max_payload_def semantic_max_payload_def
      lower_ascii_def decode_struct_def envelope_spec_def zero_envelope_def find_field_def setter_defs int_min_def int_max_def
      protocol_version_def decode_event_def decode_strict_def event_spec_def zero_event_def sample_event_def
      require_json_fields_def check_subscribed_def subscribe_spec_def zero_subscribe_def
      check_game_state_def game_state_spec_def zero_game_state_response_def zero_game_state_def validate_state_def)


text \<open>
  A response is found behind any number of events, and nothing is lost on the way: the
  bytes consumed are exactly the frames of the queued events, in their order, followed by the
  frame of the response.
\<close>

theorem read_response_lossless:
  assumes "read_response parse i evs cs = (Inr p, evs', cs')"
  shows "\<exists>ps new. map_results (decode_event parse) ps = Inr new \<and> evs' = evs @ new \<and>
     stream_bytes cs = concat (map framed ps) @ framed p @ stream_bytes cs'"
  using assms by (rule read_response_Inr)

theorem read_response_lossless_witness:
  "\<exists>ps new. map_results (decode_event sample_parse) ps = Inr new \<and> [sample_event] = [] @ new \<and>
     stream_bytes [Bytes (framed ''E''), Bytes (framed ''S'')] = concat (map framed ps) @ framed ''S'' @ ''''"
proof -
  have "read_response sample_parse ''a'' [] [Bytes (framed ''E''), Bytes (framed ''S'')] =
      (Inr ''S'', [sample_event], [Bytes ''''])"
    by (simp add: read_response.simps is_valid_def sample_parse_def read_frame_def framed_def get_put_uint32
        frame_prefix_bytes_def transport_max_payload_def semantic_max_payload_def
        lower_ascii_def decode_struct_def envelope_spec_def zero_envelope_def find_field_def setter_defs int_min_def int_max_def
        protocol_version_def decode_event_def decode_strict_def event_spec_def zero_event_def sample_event_def
        require_json_fields_def)
  from read_response_lossless [OF this] show ?thesis by simp
qed

text \<open>
  C32. A read deadline that passes between the two halves of a frame loses the first half:
  \<open>Next\<close> reads again from the middle of the frame, takes the opening brace of the payload for a
  length and ends the subscription with the transport limit, although the bytes of the
  connection are exactly one frame.
\<close>

theorem next_event_split_frame:
  assumes "pending s = []" and "inbox s = [Bytes (put_uint32 (length p)), Quiet, Bytes p]"
    and "p = CHR ''{'' # a # b # c # q" and "length p \<le> semantic_max_payload"
  shows "stream_bytes (inbox s) = framed p \<and> fst (next_event parse None s) = Inl Transport_Limit"
proof -
  have "get_uint32 (put_uint32 (length p)) = length p"
    using assms(4) by (intro get_put_uint32) (simp add: semantic_max_payload_def)
  then have first: "read_frame (is_valid parse) (inbox s) = (Inl Deadline_Passed, [Bytes p])"
    using assms(3,4) by (simp add: assms(2) read_frame_def frame_prefix_bytes_def
        transport_max_payload_def semantic_max_payload_def)
  have "get_uint32 [CHR ''{'', a, b, c] > transport_max_payload"
    by (simp add: get_uint32_Cons4 transport_max_payload_def)
  then have "fst (read_frame (is_valid parse) [Bytes p]) = Inl Transport_Limit"
    by (simp add: assms(3) read_frame_def frame_prefix_bytes_def)
  then have "fst (next_loop parse None [Bytes p]) = Inl Transport_Limit"
    by (auto simp: next_loop.simps [of parse None "[Bytes p]"] split: prod.splits)
  then have "fst (next_loop parse None (inbox s)) = Inl Transport_Limit"
    by (simp add: next_loop.simps [of parse None "inbox s"] first)
  then show ?thesis
    using assms(1,2) by (auto simp: next_event_def framed_def split: prod.splits)
qed

definition split_subscription :: subscription where
  "split_subscription =
     \<lparr>inbox = [Bytes (put_uint32 (length ''{ game.start }'')), Quiet, Bytes ''{ game.start }''],
      replies = [], sent = '''', pending = [], closed = False\<rparr>"

theorem next_event_split_frame_witness:
  "stream_bytes (inbox split_subscription) = framed ''{ game.start }'' \<and>
   fst (next_event sample_parse None split_subscription) = Inl Transport_Limit"
  by (rule next_event_split_frame) (simp_all add: split_subscription_def semantic_max_payload_def)

end
