(* ===== verification/Device_Ids.thy ===== *)
theory Device_Ids
  imports Go_Path
begin

text \<open>
  The names that cross the boundary to Syncthing: device ids (\<open>NormalizeDeviceID\<close> of
  \<open>syncthing/ui.go\<close>), folder ids (\<open>syncthing/folders.go\<close>), display names, the configured folder
  and the device list of a folder (\<open>controller/membership.go\<close>).
\<close>

section \<open>Device ids\<close>

definition device_char :: "char \<Rightarrow> bool" where
  "device_char c \<longleftrightarrow> (CHR ''A'' \<le> c \<and> c \<le> CHR ''Z'') \<or> (CHR ''2'' \<le> c \<and> c \<le> CHR ''7'')"

definition strip_scheme :: "string \<Rightarrow> string" where
  "strip_scheme v =
     (if has_prefix (to_lower v) ''syncthing://device/'' then drop (length ''syncthing://device/'') v
      else if has_prefix (to_lower v) ''syncthing://'' then drop (length ''syncthing://'') v
      else v)"

definition normalize_device_id :: "string \<Rightarrow> error + string" where
  "normalize_device_id raw =
     (let v = strip_scheme (trim_space raw);
          v = takeWhile (\<lambda>c. c \<noteq> CHR ''?'' \<and> c \<noteq> CHR ''#'') v;
          v = to_upper (trim_space v);
          parts = split_on CHR ''-'' v
      in if length parts \<noteq> 8 then Inl ''device id must contain eight groups''
         else if \<exists>p \<in> set parts. length p \<noteq> 7 \<or> (\<exists>c \<in> set p. \<not> device_char c)
         then Inl ''device id contains an invalid group''
         else Inr v)"

text \<open>The ids that come out of it.\<close>

definition canonical_device :: "string \<Rightarrow> bool" where
  "canonical_device d \<longleftrightarrow> length (split_on CHR ''-'' d) = 8 \<and>
     (\<forall>p \<in> set (split_on CHR ''-'' d). length p = 7 \<and> (\<forall>c \<in> set p. device_char c))"

lemma normalize_canonical: "normalize_device_id raw = Inr d \<Longrightarrow> canonical_device d"
  by (auto simp: normalize_device_id_def canonical_device_def Let_def split: if_splits)

lemma join_split_on: "join_with [c] (split_on c s) = s"
proof (induction s)
  case (Cons x s)
  obtain y ys where "split_on c s = y # ys" by (cases "split_on c s") auto
  with Cons show ?case by (cases ys) auto
qed simp

lemma set_split_on: "set s \<subseteq> insert c (\<Union> (set ` set (split_on c s)))"
proof (induction s)
  case (Cons x s)
  obtain y ys where "split_on c s = y # ys" by (cases "split_on c s") auto
  with Cons show ?case by auto
qed simp

definition plain_char :: "char \<Rightarrow> bool" where
  "plain_char c \<longleftrightarrow> c = CHR ''-'' \<or> device_char c"

lemma plain_char_cases:
  "plain_char c \<Longrightarrow> c \<in> set ''-ABCDEFGHIJKLMNOPQRSTUVWXYZ234567''"
proof -
  assume "plain_char c"
  then have "of_char c = (45::nat) \<or> of_char c \<in> {65..90::nat} \<or> of_char c \<in> {50..55::nat}"
    by (auto simp: plain_char_def device_char_def less_eq_char_def)
  then have "c \<in> char_of ` ({45} \<union> {65..90} \<union> {50..55::nat})"
    by (metis Un_iff char_of_char imageI insertCI)
  also have "({45} \<union> {65..90} \<union> {50..55::nat}) = set ([45] @ [65..<91] @ [50..<56])"
    by (simp only: set_append set_upt list.set) auto
  also have "char_of ` \<dots> = set ''-ABCDEFGHIJKLMNOPQRSTUVWXYZ234567''"
    by (simp only: list.set_map [symmetric]) code_simp
  finally show ?thesis .
qed

lemma plain_char_facts:
  assumes "plain_char c"
  shows "upper_ascii [c] = [c]" "CHR '':'' \<notin> set (lower_ascii [c])"
    "c \<notin> {CHR 0xC4, CHR 0xC5, CHR 0xE2, CHR ''?'', CHR ''#''}"
proof -
  have "list_all (\<lambda>c. upper_ascii [c] = [c] \<and> CHR '':'' \<notin> set (lower_ascii [c]) \<and>
      c \<noteq> CHR 0xC4 \<and> c \<noteq> CHR 0xC5 \<and> c \<noteq> CHR 0xE2 \<and> c \<noteq> CHR ''?'' \<and> c \<noteq> CHR ''#'')
      ''-ABCDEFGHIJKLMNOPQRSTUVWXYZ234567''"
    by code_simp
  then have "upper_ascii [c] = [c] \<and> CHR '':'' \<notin> set (lower_ascii [c]) \<and>
      c \<noteq> CHR 0xC4 \<and> c \<noteq> CHR 0xC5 \<and> c \<noteq> CHR 0xE2 \<and> c \<noteq> CHR ''?'' \<and> c \<noteq> CHR ''#''"
    using plain_char_cases [OF assms] unfolding list_all_iff by blast
  then show "upper_ascii [c] = [c]" "CHR '':'' \<notin> set (lower_ascii [c])"
    "c \<notin> {CHR 0xC4, CHR 0xC5, CHR 0xE2, CHR ''?'', CHR ''#''}"
    by simp_all
qed

lemma canonical_plain: "canonical_device d \<Longrightarrow> c \<in> set d \<Longrightarrow> plain_char c"
  using set_split_on [of d "CHR ''-''"] by (auto simp: canonical_device_def plain_char_def)

lemma upper_plain: "\<forall>c \<in> set s. plain_char c \<Longrightarrow> to_upper s = s"
proof (induction s rule: to_upper.induct)
  case (1 a b s)
  then show ?case using plain_char_facts [of a] by simp
qed (simp_all add: plain_char_facts, simp add: upper_ascii_def)

lemma rune_len_plain:
  assumes "plain_char c" and "\<forall>r \<in> set rs. \<exists>x xs. r = x # xs \<and> \<not> plain_char x"
  shows "rune_len rs (c # s) = 0"
proof -
  have "filter (has_prefix (c # s)) rs = []"
    using assms by (fastforce simp: filter_empty_conv has_prefix_def)
  then show ?thesis by (simp add: rune_len_def)
qed

lemma drop_runes_plain:
  assumes "\<forall>c \<in> set s. plain_char c" and "\<forall>r \<in> set rs. \<exists>x xs. r = x # xs \<and> \<not> plain_char x"
  shows "drop_runes rs s = s"
  using assms by (cases s) (simp_all add: drop_runes.simps rune_len_plain)

lemma trim_plain: "\<forall>c \<in> set s. plain_char c \<Longrightarrow> trim_space s = s"
proof -
  assume s: "\<forall>c \<in> set s. plain_char c"
  have "list_all (\<lambda>r. r \<noteq> [] \<and> \<not> plain_char (hd r)) space_runes"
    "list_all (\<lambda>r. r \<noteq> [] \<and> \<not> plain_char (hd r)) (map rev space_runes)"
    by code_simp+
  then have "\<forall>r \<in> set space_runes. \<exists>x xs. r = x # xs \<and> \<not> plain_char x"
    "\<forall>r \<in> set (map rev space_runes). \<exists>x xs. r = x # xs \<and> \<not> plain_char x"
    unfolding list_all_iff by (metis hd_Cons_tl)+
  with s show ?thesis by (simp add: trim_space_def drop_runes_plain)
qed

lemma lower_plain: "\<forall>c \<in> set s. plain_char c \<Longrightarrow> CHR '':'' \<notin> set (to_lower s)"
proof (induction s rule: to_lower.induct)
  case (1 a b c s)
  then show ?case using plain_char_facts [of a] by auto
next
  case (2 a b)
  have "lower_ascii [a, b] = lower_ascii [a] @ lower_ascii [b]" by (simp add: lower_ascii_def)
  then show ?case using plain_char_facts [of a] plain_char_facts [of b] 2 by simp
qed (simp_all add: plain_char_facts, simp add: lower_ascii_def)

lemma no_prefix: "CHR '':'' \<notin> set s \<Longrightarrow> CHR '':'' \<in> set p \<Longrightarrow> \<not> has_prefix s p"
  by (auto dest!: has_prefixE)

lemma strip_plain: "\<forall>c \<in> set s. plain_char c \<Longrightarrow> strip_scheme s = s"
  using lower_plain [of s] by (simp add: strip_scheme_def no_prefix)

lemma normalize_canonical_id: "canonical_device d \<Longrightarrow> normalize_device_id d = Inr d"
proof -
  assume d: "canonical_device d"
  then have p: "\<forall>c \<in> set d. plain_char c" using canonical_plain by blast
  then have "takeWhile (\<lambda>c. c \<noteq> CHR ''?'' \<and> c \<noteq> CHR ''#'') d = d"
    using plain_char_facts(3) by (auto simp: takeWhile_eq_all_conv)
  moreover have "\<not> (\<exists>q \<in> set (split_on CHR ''-'' d). length q \<noteq> 7 \<or> (\<exists>c \<in> set q. \<not> device_char c))"
    "length (split_on CHR ''-'' d) = 8"
    using d by (auto simp: canonical_device_def)
  ultimately show ?thesis
    using trim_plain [OF p] strip_plain [OF p] upper_plain [OF p]
    by (simp only: normalize_device_id_def Let_def if_False simp_thms)
qed


section \<open>Folder ids and display names\<close>

definition valid_folder_id :: "string \<Rightarrow> bool" where
  "valid_folder_id v \<longleftrightarrow> v \<noteq> '''' \<and> length v \<le> 64 \<and>
     (\<forall>c \<in> set v. (CHR ''a'' \<le> c \<and> c \<le> CHR ''z'') \<or> (CHR ''A'' \<le> c \<and> c \<le> CHR ''Z'') \<or>
        (CHR ''0'' \<le> c \<and> c \<le> CHR ''9'') \<or> c \<in> set ''._:-'')"

definition lower_hex :: "char \<Rightarrow> bool" where
  "lower_hex c \<longleftrightarrow> (CHR ''0'' \<le> c \<and> c \<le> CHR ''9'') \<or> (CHR ''a'' \<le> c \<and> c \<le> CHR ''f'')"

text \<open>The kind that the pattern \<open>^leaf-(saves|states)-[0-9a-f]{16}$\<close> captures.\<close>

definition legacy_managed_kind :: "string \<Rightarrow> string option" where
  "legacy_managed_kind v =
     (case find (\<lambda>k. has_prefix v (''leaf-'' @ k @ ''-'')) [''saves'', ''states''] of
        None \<Rightarrow> None
      | Some k \<Rightarrow> let rest = drop (length (''leaf-'' @ k @ ''-'')) v
                  in if length rest = 16 \<and> (\<forall>c \<in> set rest. lower_hex c) then Some k else None)"

definition strings_managed_folder_id :: "string \<Rightarrow> bool" where
  "strings_managed_folder_id v =
     (if length v = length ''leaf-saves-'' + 16 \<and> take (length ''leaf-saves-'') v = ''leaf-saves-''
      then \<forall>c \<in> set (drop (length ''leaf-saves-'') v). lower_hex c
      else if length v = length ''leaf-states-'' + 16 \<and> take (length ''leaf-states-'') v = ''leaf-states-''
      then \<forall>c \<in> set (drop (length ''leaf-states-'') v). lower_hex c
      else False)"

definition max_folder_name :: nat where "max_folder_name = 96"

text \<open>A rune below U+0020 or equal to U+007F is one byte of UTF-8, so bytes are enough.\<close>

definition valid_display_name :: "string \<Rightarrow> nat \<Rightarrow> bool" where
  "valid_display_name v maximum \<longleftrightarrow> v \<noteq> '''' \<and> length v \<le> maximum \<and>
     (\<forall>c \<in> set v. \<not> (c < CHR 0x20 \<or> c = CHR 0x7F))"

section \<open>Configured folders and their devices\<close>

record configured_folder =
  FID :: string
  FLabel :: string
  FKind :: string
  FPath :: string
  FType :: string
  FMarkerName :: string
  FPaused :: bool
  FVersioningType :: string
  FVersioningFSPath :: string
  FVersioningFSType :: string
  FDevices :: "string list"

text \<open>The loop that both users of a device list run: normalise each id and refuse duplicates.\<close>

fun collect_devices :: "error \<Rightarrow> string list \<Rightarrow> string list \<Rightarrow> error + string list" where
  "collect_devices bad seen [] = Inr (rev seen)"
| "collect_devices bad seen (raw # raws) = (case normalize_device_id raw of
     Inl _ \<Rightarrow> Inl bad
   | Inr d \<Rightarrow> if d \<in> set seen then Inl bad else collect_devices bad (d # seen) raws)"

definition folder_with_membership ::
    "configured_folder \<Rightarrow> string \<Rightarrow> string \<Rightarrow> bool \<Rightarrow> error + configured_folder \<times> bool" where
  "folder_with_membership folder self_raw peer_raw present =
     (case normalize_device_id self_raw of
        Inl _ \<Rightarrow> Inl ''the local Syncthing device identity is invalid''
      | Inr self \<Rightarrow> (case normalize_device_id peer_raw of
        Inl _ \<Rightarrow> Inl ''the selected peer identity is invalid''
      | Inr peer \<Rightarrow>
          if peer = self then Inl ''the selected peer identity is invalid''
          else sum_bind (collect_devices ''the managed folder device list is invalid'' [] (FDevices folder)) (\<lambda>members.
            if self \<notin> set members then Inl ''the managed folder does not contain this device''
            else
              let changed = ((peer \<in> set members) \<noteq> present);
                  kept = filter (\<lambda>d. d \<noteq> peer) members @ (if present then [peer] else []);
                  peers = sort (filter (\<lambda>d. d \<noteq> self) kept)
              in Inr (folder\<lparr>FDevices := self # peers, FPaused := True\<rparr>, changed))))"

lemma collect_devices_sound:
  "collect_devices bad seen raws = Inr ds \<Longrightarrow>
   \<exists>new. ds = rev seen @ new \<and> map_results normalize_device_id raws = Inr new \<and>
     (distinct seen \<longrightarrow> distinct ds) \<and> (\<forall>d \<in> set new. canonical_device d)"
proof (induction bad seen raws arbitrary: ds rule: collect_devices.induct)
  case (2 bad seen raw raws)
  then obtain d where d: "normalize_device_id raw = Inr d" "d \<notin> set seen"
    "collect_devices bad (d # seen) raws = Inr ds"
    by (auto split: sum.splits if_splits)
  from "2.IH" [OF this] obtain new where "ds = rev (d # seen) @ new"
    "map_results normalize_device_id raws = Inr new"
    "distinct (d # seen) \<longrightarrow> distinct ds" "\<forall>d \<in> set new. canonical_device d" by blast
  then show ?case using d normalize_canonical [OF d(1)]
    by (intro exI [of _ "d # new"]) auto
qed simp

lemma collect_canonical:
  "(\<forall>d \<in> set ds. canonical_device d) \<Longrightarrow> distinct ds \<Longrightarrow> set ds \<inter> set seen = {} \<Longrightarrow>
   collect_devices bad seen ds = Inr (rev seen @ ds)"
proof (induction ds arbitrary: seen)
  case (Cons d ds)
  then show ?case by (auto simp: normalize_canonical_id)
qed simp



section \<open>Properties\<close>

text \<open>
  C35. Normalising a device id is a retraction onto the canonical ids: whatever it accepts (with
  or without a scheme, query, fragment, white space or lower-case letters) comes out as eight
  groups of seven base-32 characters, and a canonical id is left alone, so ids that were
  normalised once can be compared as strings.
\<close>

theorem normalize_device_id_canonical:
  "(case normalize_device_id raw of
      Inr d \<Rightarrow> canonical_device d \<and> normalize_device_id d = Inr d
    | Inl _ \<Rightarrow> \<not> canonical_device raw)"
  using normalize_canonical [of raw] normalize_canonical_id
  by (auto split: sum.split)

text \<open>
  Changing the membership of a folder: the new device list starts with the local device and
  lists the other members in order without repetition; they are exactly the old members (as
  normalised) with the peer added or removed, the folder comes back paused and otherwise
  unchanged, and the flag tells whether the set of members changed.
\<close>

theorem membership_exact:
  assumes "folder_with_membership folder self peer present = Inr (updated, changed)"
  shows "\<exists>s p ms. normalize_device_id self = Inr s \<and> normalize_device_id peer = Inr p \<and> p \<noteq> s \<and>
    map_results normalize_device_id (FDevices folder) = Inr ms \<and> s \<in> set ms \<and>
    hd (FDevices updated) = s \<and> sorted (tl (FDevices updated)) \<and> distinct (FDevices updated) \<and>
    set (FDevices updated) = (if present then set ms \<union> {p} else set ms - {p}) \<and>
    updated = folder\<lparr>FDevices := FDevices updated, FPaused := True\<rparr> \<and>
    (changed \<longleftrightarrow> set (FDevices updated) \<noteq> set ms)"
proof -
  obtain s p ms where s: "normalize_device_id self = Inr s" and p: "normalize_device_id peer = Inr p" "p \<noteq> s"
    and ms: "collect_devices ''the managed folder device list is invalid'' [] (FDevices folder) = Inr ms" "s \<in> set ms"
    and u: "updated = folder\<lparr>FDevices := s # sort (filter (\<lambda>d. d \<noteq> s)
        (filter (\<lambda>d. d \<noteq> p) ms @ (if present then [p] else []))), FPaused := True\<rparr>"
    and c: "changed \<longleftrightarrow> (p \<in> set ms) \<noteq> present"
    using assms by (auto simp: folder_with_membership_def sum_bind_Inr Let_def split: sum.splits if_splits)
  have "map_results normalize_device_id (FDevices folder) = Inr ms" "distinct ms"
    using collect_devices_sound [OF ms(1)] by auto
  with s p ms(2) u c show ?thesis
    by (intro exI [of _ s] exI [of _ p] exI [of _ ms]) auto
qed

text \<open>Device ids for examples: eight groups of one repeated character.\<close>

definition sample_device_of :: "char \<Rightarrow> string" where
  "sample_device_of c = join_with ''-'' (replicate 8 (replicate 7 c))"

lemma sample_device_canonical:
  assumes "device_char c"
  shows "canonical_device (sample_device_of c)"
proof -
  have "CHR ''-'' \<notin> set (replicate 7 c)" using assms by (auto simp: device_char_def less_eq_char_def)
  then have "split_on CHR ''-'' (sample_device_of c) = replicate 8 (replicate 7 c)"
    unfolding sample_device_of_def by (intro split_on_join_with) auto
  with assms show ?thesis by (simp add: canonical_device_def)
qed

lemma sample_device_normal: "device_char c \<Longrightarrow> normalize_device_id (sample_device_of c) = Inr (sample_device_of c)"
  by (rule normalize_canonical_id, rule sample_device_canonical)

lemma sample_device_eq [simp]: "sample_device_of c = sample_device_of d \<longleftrightarrow> c = d"
proof
  have "take 1 (sample_device_of x) = [x]" for x
    by (simp add: sample_device_of_def numeral_eq_Suc)
  then show "c = d" if "sample_device_of c = sample_device_of d" using that by (metis list.inject)
qed simp

lemma device_chars: "device_char CHR ''A''" "device_char CHR ''B''"
  by code_simp+

definition sample_membership :: configured_folder where
  "sample_membership = \<lparr>FID = ''f'', FLabel = '''', FKind = ''saves'', FPath = ''/s'', FType = ''sendreceive'',
     FMarkerName = ''.m'', FPaused = False, FVersioningType = '''', FVersioningFSPath = '''', FVersioningFSType = '''',
     FDevices = [sample_device_of CHR ''B'']\<rparr>"

theorem membership_exact_witness:
  "\<exists>updated. folder_with_membership sample_membership (sample_device_of CHR ''B'') (sample_device_of CHR ''A'') True =
      Inr (updated, True) \<and>
    set (FDevices updated) = {sample_device_of CHR ''A'', sample_device_of CHR ''B''} \<and> FPaused updated"
proof -
  note ids = sample_device_normal [OF device_chars(1)] sample_device_normal [OF device_chars(2)]
  obtain u where run: "folder_with_membership sample_membership (sample_device_of CHR ''B'')
      (sample_device_of CHR ''A'') True = Inr (u, True)"
    using ids by (simp add: folder_with_membership_def sample_membership_def Let_def)
  from membership_exact [OF run] ids
  have "set (FDevices u) = {sample_device_of CHR ''A'', sample_device_of CHR ''B''}"
    and u: "u = sample_membership\<lparr>FDevices := FDevices u, FPaused := True\<rparr>"
    by (auto simp: sample_membership_def)
  moreover have "FPaused u" by (subst u) simp
  ultimately show ?thesis using run by blast
qed

end
