(* ===== verification/Upstream.thy ===== *)
theory Upstream
  imports Device_Ids Json
begin

text \<open>
  The REST client of Syncthing: \<open>syncthing/api.go\<close>, \<open>managed_folders.go\<close>, the device and folder
  calls of \<open>ui.go\<close>, and the network profile of \<open>network.go\<close>.  The server is a parameter: a
  function from a call and its own state to a reply (or a transport error) and the next state.
  \<open>parse\<close> is the JSON parser: it maps a text that is exactly one JSON value to that value.
\<close>

section \<open>Calls\<close>

datatype api_method = GET | POST | PATCH | DELETE

record api_call =
  AMethod :: api_method
  APath :: string
  ABody :: "json option"

record api_reply =
  AStatus :: int
  APayload :: string

type_synonym 'u server = "api_call \<Rightarrow> 'u \<Rightarrow> (error + api_reply) \<times> 'u"

text \<open>The state of a program that talks to the server: the calls it made, and the server.\<close>

record 'u upstream =
  calls :: "api_call list"
  peer_state :: 'u

type_synonym ('u, 'a) up = "'u upstream \<Rightarrow> (error + 'a) \<times> 'u upstream"

definition up_ret :: "'a \<Rightarrow> ('u, 'a) up" where
  "up_ret x = (\<lambda>u. (Inr x, u))"

definition up_fail :: "error \<Rightarrow> ('u, 'a) up" where
  "up_fail e = (\<lambda>u. (Inl e, u))"

definition up_bind :: "('u, 'a) up \<Rightarrow> ('a \<Rightarrow> ('u, 'b) up) \<Rightarrow> ('u, 'b) up" where
  "up_bind m k = (\<lambda>u. case m u of (Inl e, u') \<Rightarrow> (Inl e, u') | (Inr x, u') \<Rightarrow> k x u')"

text \<open>\<open>up_try\<close> hands the error to the code as a value.\<close>

definition up_try :: "('u, 'a) up \<Rightarrow> ('u, error + 'a) up" where
  "up_try m = (\<lambda>u. case m u of (r, u') \<Rightarrow> (Inr r, u'))"

definition up_lift :: "error + 'a \<Rightarrow> ('u, 'a) up" where
  "up_lift r = (\<lambda>u. (r, u))"

fun up_each :: "('a \<Rightarrow> ('u, unit) up) \<Rightarrow> 'a list \<Rightarrow> ('u, unit) up" where
  "up_each m [] = up_ret ()"
| "up_each m (x # xs) = up_bind (m x) (\<lambda>_. up_each m xs)"

lemma up_bind_Inr:
  "up_bind m k u = (Inr y, v) \<longleftrightarrow> (\<exists>x w. m u = (Inr x, w) \<and> k x w = (Inr y, v))"
  by (auto simp: up_bind_def split: prod.splits sum.splits)

lemma up_simps [simp]:
  "up_ret x u = (r, v) \<longleftrightarrow> r = Inr x \<and> v = u"
  "up_fail e u = (r, v) \<longleftrightarrow> r = Inl e \<and> v = u"
  "up_lift q u = (r, v) \<longleftrightarrow> r = q \<and> v = u"
  by (auto simp: up_ret_def up_fail_def up_lift_def)

definition max_api_response_bytes :: int where "max_api_response_bytes = 4 * 1024 * 1024"

text \<open>
  \<open>apiJSON\<close>: the value of the reply, or \<open>None\<close> where the code decodes nothing (it has no
  output, or the body is empty).  A \<open>Process\<close> without client or key is not modelled.
\<close>

definition api_json :: "(string \<Rightarrow> json option) \<Rightarrow> 'u server \<Rightarrow> bool \<Rightarrow> api_call \<Rightarrow> ('u, json option) up" where
  "api_json parse server output call u =
     (case server call (peer_state u) of
        (r, s) \<Rightarrow>
          let u' = \<lparr>calls = calls u @ [call], peer_state = s\<rparr>
          in case r of
               Inl e \<Rightarrow> (Inl ''call upstream API'', u')
             | Inr reply \<Rightarrow>
                 if int (length (APayload reply)) > max_api_response_bytes then (Inl ''upstream response exceeds limit'', u')
                 else if AStatus reply < 200 \<or> AStatus reply \<ge> 300 then (Inl ''upstream API returned an HTTP error'', u')
                 else if \<not> output \<or> trim_space (APayload reply) = '''' then (Inr None, u')
                 else (case parse (APayload reply) of
                         None \<Rightarrow> (Inl ''decode upstream response'', u')
                       | Some v \<Rightarrow> (Inr (Some v), u')))"

definition api_call_of :: "api_method \<Rightarrow> string \<Rightarrow> json option \<Rightarrow> api_call" where
  "api_call_of m p b = \<lparr>AMethod = m, APath = p, ABody = b\<rparr>"

text \<open>A call whose reply is decoded by \<open>decode\<close>; an empty body leaves the zero value.\<close>

definition api_read :: "(string \<Rightarrow> json option) \<Rightarrow> 'u server \<Rightarrow> string \<Rightarrow> 'a \<Rightarrow> (json \<Rightarrow> error + 'a) \<Rightarrow> ('u, 'a) up" where
  "api_read parse server path zero decode =
     up_bind (api_json parse server True (api_call_of GET path None)) (\<lambda>v. case v of
       None \<Rightarrow> up_ret zero | Some j \<Rightarrow> up_lift (decode j))"

definition api_send :: "(string \<Rightarrow> json option) \<Rightarrow> 'u server \<Rightarrow> api_method \<Rightarrow> string \<Rightarrow> json option \<Rightarrow> ('u, unit) up" where
  "api_send parse server m path body =
     up_bind (api_json parse server False (api_call_of m path body)) (\<lambda>_. up_ret ())"

definition decode_slice :: "(json \<Rightarrow> error + 'a) \<Rightarrow> json \<Rightarrow> error + 'a list" where
  "decode_slice decode v = (case v of
     JNull \<Rightarrow> Inr [] | JArr vs \<Rightarrow> map_results decode vs | _ \<Rightarrow> Inl ''cannot unmarshal into slice'')"

text \<open>\<open>url.PathEscape\<close>: the bytes that stay as they are in a path segment.\<close>

definition path_safe :: "char \<Rightarrow> bool" where
  "path_safe c \<longleftrightarrow> (CHR ''a'' \<le> c \<and> c \<le> CHR ''z'') \<or> (CHR ''A'' \<le> c \<and> c \<le> CHR ''Z'') \<or>
     (CHR ''0'' \<le> c \<and> c \<le> CHR ''9'') \<or> c \<in> set ''-_.~$&+=:@''"

definition path_escape :: "string \<Rightarrow> string" where
  "path_escape s = concat (map (\<lambda>c. if path_safe c then [c]
     else [CHR ''%'', ''0123456789ABCDEF'' ! (of_char c div 16), ''0123456789ABCDEF'' ! (of_char c mod 16)]) s)"

lemma path_escape_id: "\<forall>c \<in> set s. path_safe c \<Longrightarrow> path_escape s = s"
  by (induction s) (simp_all add: path_escape_def)

lemma path_escape_folder: "valid_folder_id s \<Longrightarrow> path_escape s = s"
proof (rule path_escape_id)
  have "set ''._:-'' \<subseteq> set ''-_.~$&+=:@''" by simp
  then show "valid_folder_id s \<Longrightarrow> \<forall>c \<in> set s. path_safe c"
    unfolding valid_folder_id_def path_safe_def by blast
qed

definition folder_path :: "string \<Rightarrow> string" where
  "folder_path i = ''/rest/config/folders/'' @ path_escape i"

definition device_config_path :: "string \<Rightarrow> string" where
  "device_config_path d = ''/rest/config/devices/'' @ path_escape d"

section \<open>Managed folders\<close>

definition max_folder_devices :: nat where "max_folder_devices = 33"

record folder_versioning =
  VType :: string
  VFSPath :: string
  VFSType :: string

record folder_request =
  QID :: string
  QLabel :: string
  QPath :: string
  QType :: string
  QDevices :: "string list"
  QMarkerName :: string
  QVersioning :: "folder_versioning option"

text \<open>
  \<open>managedFolderAPIRequest\<close>; the constant fields of the request (basic file system, ignored
  permissions, paused, five kept versions) are added by the encoders below.
\<close>

definition managed_folder_api_request :: "configured_folder \<Rightarrow> error + folder_request" where
  "managed_folder_api_request f =
     (if \<not> valid_folder_id (FID f) \<or> \<not> is_abs (FPath f) \<or> FMarkerName f = '''' \<or> FMarkerName f = ''.stfolder'' \<or>
         base_name (FMarkerName f) \<noteq> FMarkerName f \<or> \<not> valid_display_name (trim_space (FLabel f)) max_folder_name \<or>
         FType f \<notin> {''sendonly'', ''sendreceive'', ''receiveonly''}
      then Inl ''managed folder request is invalid''
      else if length (FDevices f) < 1 \<or> length (FDevices f) > max_folder_devices
      then Inl ''managed folder requires the local device''
      else sum_bind (collect_devices ''managed folder device list is invalid or duplicated'' [] (FDevices f)) (\<lambda>devices.
        let request = \<lparr>QID = FID f, QLabel = trim_space (FLabel f), QPath = clean (FPath f), QType = FType f,
              QDevices = devices, QMarkerName = FMarkerName f, QVersioning = None\<rparr>
        in if FType f = ''sendonly'' then Inr request
           else if FVersioningType f \<noteq> ''simple'' \<or> FVersioningFSType f \<noteq> ''basic'' \<or> \<not> is_abs (FVersioningFSPath f)
           then Inl ''receive-capable managed folder versioning is invalid''
           else Inr (request\<lparr>QVersioning :=
                  Some \<lparr>VType = ''simple'', VFSPath = clean (FVersioningFSPath f), VFSType = ''basic''\<rparr>\<rparr>)))"

definition json_versioning :: "folder_versioning \<Rightarrow> json" where
  "json_versioning v = JObj [(''type'', JStr (VType v)),
     (''params'', JObj [(''cleanoutDays'', JStr ''0''), (''keep'', JStr ''5'')]),
     (''cleanupIntervalS'', JInt 3600), (''fsPath'', JStr (VFSPath v)), (''fsType'', JStr (VFSType v))]"

definition json_device :: "string \<Rightarrow> json" where
  "json_device d = JObj [(''deviceID'', JStr d)]"

definition versioning_field :: "folder_request \<Rightarrow> (string \<times> json) list" where
  "versioning_field q = (case QVersioning q of None \<Rightarrow> [] | Some v \<Rightarrow> [(''versioning'', json_versioning v)])"

definition json_request :: "folder_request \<Rightarrow> json" where
  "json_request q = JObj ([(''id'', JStr (QID q)), (''label'', JStr (QLabel q)), (''filesystemType'', JStr ''basic''),
     (''path'', JStr (QPath q)), (''type'', JStr (QType q)), (''devices'', JArr (map json_device (QDevices q))),
     (''ignorePerms'', JBool True), (''paused'', JBool True), (''markerName'', JStr (QMarkerName q))] @ versioning_field q)"

definition device_spec :: "(string \<times> string setter) list" where
  "device_spec = [(''deviceID'', set_string (\<lambda>x _. x))]"

definition decode_device_id :: "json \<Rightarrow> error + string" where
  "decode_device_id = decode_struct False device_spec ''''"

definition decode_folder_id :: "json \<Rightarrow> error + string" where
  "decode_folder_id = decode_struct False [(''id'', set_string (\<lambda>x _. x))] ''''"

text \<open>
  \<open>ConfiguredFolderDevices\<close>.  The comparator of the sort puts the local device first and the
  others in order.
\<close>

definition order_devices :: "string \<Rightarrow> string list \<Rightarrow> string list" where
  "order_devices self ds = filter (\<lambda>d. d = self) ds @ sort (filter (\<lambda>d. d \<noteq> self) ds)"

definition configured_folder_devices :: "(string \<Rightarrow> json option) \<Rightarrow> 'u server \<Rightarrow> string \<Rightarrow> ('u, string list) up" where
  "configured_folder_devices parse server self_raw =
     (case normalize_device_id self_raw of
        Inl _ \<Rightarrow> up_fail ''local Syncthing device id is invalid''
      | Inr self \<Rightarrow>
          up_bind (api_read parse server ''/rest/config/devices'' [] (decode_slice decode_device_id)) (\<lambda>raws.
          if length raws > max_folder_devices then up_fail ''configured device count exceeds the managed-folder limit''
          else up_bind (up_lift (collect_devices ''configured device list is invalid or duplicated'' [] raws)) (\<lambda>ds.
          if self \<notin> set ds then up_fail ''configured device list does not contain the local device''
          else if length ds < 2 then up_fail ''add at least one Syncthing peer before creating a folder''
          else up_ret (order_devices self ds))))"

definition add_managed_folder :: "(string \<Rightarrow> json option) \<Rightarrow> 'u server \<Rightarrow> configured_folder \<Rightarrow> ('u, unit) up" where
  "add_managed_folder parse server f =
     (if length (FDevices f) < 2 then up_fail ''managed folder requires the local device and at least one peer''
      else up_bind (up_lift (managed_folder_api_request f)) (\<lambda>q.
        api_send parse server POST ''/rest/config/folders'' (Some (json_request q))))"

definition set_managed_folder_type :: "(string \<Rightarrow> json option) \<Rightarrow> 'u server \<Rightarrow> configured_folder \<Rightarrow> ('u, unit) up" where
  "set_managed_folder_type parse server f =
     up_bind (up_lift (managed_folder_api_request f)) (\<lambda>q.
       api_send parse server PATCH (folder_path (FID f))
         (Some (JObj ([(''paused'', JBool True), (''type'', JStr (QType q))] @ versioning_field q))))"

text \<open>What the code reads back of a folder.\<close>

record folder_view =
  WPath :: string
  WPaused :: bool
  WVersioning :: "folder_versioning option"
  WDevices :: "string list"

definition zero_versioning :: folder_versioning where
  "zero_versioning = \<lparr>VType = '''', VFSPath = '''', VFSType = ''''\<rparr>"

definition zero_view :: folder_view where
  "zero_view = \<lparr>WPath = '''', WPaused = False, WVersioning = None, WDevices = []\<rparr>"

text \<open>\<open>params\<close> must be an object of strings; it is not used.\<close>

definition set_params :: "'s setter" where
  "set_params s v = (case v of
     JNull \<Rightarrow> Inr s
   | JObj kvs \<Rightarrow> sum_bind (map_results (json_string \<circ> snd) kvs) (\<lambda>_. Inr s)
   | _ \<Rightarrow> Inl ''cannot unmarshal into map'')"

definition versioning_spec :: "(string \<times> folder_versioning setter) list" where
  "versioning_spec = [(''type'', set_string (\<lambda>x s. s\<lparr>VType := x\<rparr>)), (''params'', set_params),
     (''cleanupIntervalS'', set_int (\<lambda>_ s. s)),
     (''fsPath'', set_string (\<lambda>x s. s\<lparr>VFSPath := x\<rparr>)), (''fsType'', set_string (\<lambda>x s. s\<lparr>VFSType := x\<rparr>))]"

definition set_devices :: "folder_view setter" where
  "set_devices s v = sum_bind (decode_slice decode_device_id v) (\<lambda>ds. Inr (s\<lparr>WDevices := ds\<rparr>))"

definition location_spec :: "(string \<times> folder_view setter) list" where
  "location_spec = [(''path'', set_string (\<lambda>x s. s\<lparr>WPath := x\<rparr>)), (''paused'', set_bool (\<lambda>x s. s\<lparr>WPaused := x\<rparr>)),
     (''versioning'', set_struct_ptr False versioning_spec zero_versioning WVersioning (\<lambda>x s. s\<lparr>WVersioning := x\<rparr>))]"

definition membership_spec :: "(string \<times> folder_view setter) list" where
  "membership_spec = [(''paused'', set_bool (\<lambda>x s. s\<lparr>WPaused := x\<rparr>)), (''devices'', set_devices)]"

definition relocate_managed_folder :: "(string \<Rightarrow> json option) \<Rightarrow> 'u server \<Rightarrow> configured_folder \<Rightarrow> ('u, unit) up" where
  "relocate_managed_folder parse server f =
     up_bind (up_lift (managed_folder_api_request f)) (\<lambda>q.
     up_bind (api_send parse server PATCH (folder_path (FID f))
        (Some (JObj ([(''path'', JStr (QPath q)), (''paused'', JBool True)] @ versioning_field q)))) (\<lambda>_.
     up_bind (api_read parse server (folder_path (FID f)) zero_view (decode_struct False location_spec zero_view)) (\<lambda>current.
       let located = WPaused current \<and> clean (WPath current) = QPath q;
           versioned = (case QVersioning q of
             None \<Rightarrow> True
           | Some v \<Rightarrow> (case WVersioning current of
               None \<Rightarrow> False
             | Some w \<Rightarrow> VType w = VType v \<and> VFSType w = VFSType v \<and> clean (VFSPath w) = VFSPath v))
       in if \<not> (located \<and> versioned) then up_fail ''upstream managed folder location did not match the enrolled card''
          else up_ret ())))"

fun devices_match :: "string list \<Rightarrow> string list \<Rightarrow> string list \<Rightarrow> bool" where
  "devices_match want seen [] = True"
| "devices_match want seen (d # ds) = (if d \<notin> set want \<or> d \<in> set seen then False else devices_match want (d # seen) ds)"

definition same_managed_folder_devices :: "string list \<Rightarrow> string list \<Rightarrow> bool" where
  "same_managed_folder_devices left right \<longleftrightarrow> length left = length right \<and> devices_match right [] left"

definition set_managed_folder_devices :: "(string \<Rightarrow> json option) \<Rightarrow> 'u server \<Rightarrow> configured_folder \<Rightarrow> ('u, unit) up" where
  "set_managed_folder_devices parse server f =
     up_bind (up_lift (managed_folder_api_request f)) (\<lambda>q.
     up_bind (api_send parse server PATCH (folder_path (FID f))
        (Some (JObj [(''devices'', JArr (map json_device (QDevices q))), (''paused'', JBool True)]))) (\<lambda>_.
     up_bind (api_read parse server (folder_path (FID f)) zero_view (decode_struct False membership_spec zero_view)) (\<lambda>current.
       if \<not> WPaused current \<or> \<not> same_managed_folder_devices (WDevices current) (QDevices q)
       then up_fail ''upstream managed folder devices did not match the requested membership''
       else up_ret ())))"

text \<open>The loop of \<open>configuredFolderPresent\<close>: the ids of the list, none empty and none twice.\<close>

definition configured_folder_present :: "(string \<Rightarrow> json option) \<Rightarrow> 'u server \<Rightarrow> string \<Rightarrow> ('u, bool) up" where
  "configured_folder_present parse server i =
     up_bind (api_read parse server ''/rest/config/folders'' [] (decode_slice decode_folder_id)) (\<lambda>ids.
       if '''' \<in> set ids \<or> \<not> distinct ids then up_fail ''configured folder list is invalid or duplicated''
       else up_ret (i \<in> set ids))"

definition remove_managed_folder :: "(string \<Rightarrow> json option) \<Rightarrow> 'u server \<Rightarrow> string \<Rightarrow> ('u, unit) up" where
  "remove_managed_folder parse server i =
     (if \<not> valid_folder_id i then up_fail ''managed folder id is invalid''
      else up_bind (configured_folder_present parse server i) (\<lambda>present.
        if \<not> present then up_ret ()
        else up_bind (api_send parse server DELETE (folder_path i) None) (\<lambda>_.
          up_bind (configured_folder_present parse server i) (\<lambda>still.
            if still then up_fail ''upstream managed folder remained configured after removal'' else up_ret ()))))"

definition set_folder_paused :: "(string \<Rightarrow> json option) \<Rightarrow> 'u server \<Rightarrow> string \<Rightarrow> bool \<Rightarrow> ('u, unit) up" where
  "set_folder_paused parse server i paused =
     (if \<not> valid_folder_id i then up_fail ''invalid managed folder id''
      else api_send parse server PATCH (folder_path i) (Some (JObj [(''paused'', JBool paused)])))"

end
