(* ===== verification/Single_Store.thy ===== *)
theory Single_Store
  imports Go_Path Crash_Store
begin

text \<open>
  The single-file stores of the controller (folder control, network profile, logging, gateway
  trust): each writes a temporary file beside the document, flushes it, renames it over the
  document and flushes the file system.  The contract that such a store gives its clients is
  stated for faults of every kind, not only for power loss.
\<close>

section \<open>Directories\<close>

text \<open>
  \<open>os.MkdirAll\<close> on the chain of a directory and its parents, nearest first.  A parent that is a
  symbolic link to a directory is not followed here: it fails.
\<close>

fun mkdir_chain :: "string list \<Rightarrow> ('d, unit) io" where
  "mkdir_chain [] = io_ret ()"
| "mkdir_chain (p # ps) =
     io_bind (lstat p) (\<lambda>info. case info of
       Some n \<Rightarrow> if n = Dir then io_ret () else io_fail ''not a directory''
     | None \<Rightarrow>
         io_bind (mkdir_chain ps) (\<lambda>_.
         io_bind (io_try (make_dir p)) (\<lambda>made. case made of
           Inr _ \<Rightarrow> io_ret ()
         | Inl e \<Rightarrow> io_bind (lstat p) (\<lambda>again. if again = Some Dir then io_ret () else io_fail e))))"

fun parents :: "nat \<Rightarrow> string \<Rightarrow> string list" where
  "parents 0 p = [p]"
| "parents (Suc n) p = p # (if dir_name p = p then [] else parents n (dir_name p))"

definition mkdir_all :: "string \<Rightarrow> ('d, unit) io" where
  "mkdir_all p = mkdir_chain (parents (length p) p)"

lemma wp_mkdir_present:
  assumes "f p = Some Dir"
  shows "wp b (io_bind (mkdir_all p) k) Q E C f \<longleftrightarrow> C f \<and> (b \<longrightarrow> E ''I/O error'' f) \<and> wp b (k ()) Q E C f"
  using assms by (cases "length p") (simp_all add: mkdir_all_def wp_exec)

lemma run_mkdir_present:
  "f p = Some Dir \<Longrightarrow> run_clean (io_bind (mkdir_all p) k) f = run_clean (k ()) f"
  by (cases "length p") (simp_all add: mkdir_all_def io_program run_exec)

section \<open>Reading and replacing\<close>

definition read_single :: "nat \<Rightarrow> ('d \<Rightarrow> bool) \<Rightarrow> string \<Rightarrow> ('d, 'd option) io" where
  "read_single limit valid p =
     io_bind (lstat p) (\<lambda>info. case info of
       None \<Rightarrow> io_ret None
     | Some (Reg c) \<Rightarrow>
         if content_size c = 0 \<or> content_size c > limit then io_fail ''state is unsafe''
         else io_bind (read_file p) (\<lambda>contents. case contents of
           Junk n \<Rightarrow> io_fail ''decode state''
         | Doc d n \<Rightarrow> if valid d then io_ret (Some d) else io_fail ''state is unsupported'')
     | Some _ \<Rightarrow> io_fail ''state is unsafe'')"

definition remove_safe_regular :: "string \<Rightarrow> ('d, unit) io" where
  "remove_safe_regular p =
     io_bind (lstat p) (\<lambda>info. case info of
       None \<Rightarrow> io_ret ()
     | Some (Reg c) \<Rightarrow> remove_file p
     | Some _ \<Rightarrow> io_fail ''temporary is unsafe'')"

definition replace_file :: "string \<Rightarrow> 'd content \<Rightarrow> ('d, unit) io" where
  "replace_file p c =
     io_bind (remove_safe_regular (tmp_of p)) (\<lambda>_.
     io_bind (create_excl (tmp_of p)) (\<lambda>_.
     io_bind (write_file (tmp_of p) c) (\<lambda>_.
     io_bind (fsync_file (tmp_of p)) (\<lambda>_.
     io_bind (close_file (tmp_of p)) (\<lambda>_.
     io_bind (rename_file (tmp_of p) p) (\<lambda>_.
     sync_fs (dir_name p)))))))"

definition single_doc :: "nat \<Rightarrow> ('d \<Rightarrow> bool) \<Rightarrow> 'd node option \<Rightarrow> 'd option option" where
  "single_doc limit valid n = (case n of
     None \<Rightarrow> Some None
   | Some (Reg (Doc d k)) \<Rightarrow> if k = 0 \<or> k > limit \<or> \<not> valid d then None else Some (Some d)
   | _ \<Rightarrow> None)"

lemma single_doc_simps [simp]:
  "single_doc l v None = Some None"
  "single_doc l v (Some (Reg (Doc d k))) = (if k = 0 \<or> k > l \<or> \<not> v d then None else Some (Some d))"
  by (simp_all add: single_doc_def)

lemma wp_read_single:
  assumes "single_doc l v (f p) = Some x"
  shows "wp b (io_bind (read_single l v p) k) Q E C f \<longleftrightarrow> C f \<and> (b \<longrightarrow> E ''I/O error'' f) \<and> wp b (k x) Q E C f"
    and "wp b (read_single l v p) R E C f \<longleftrightarrow> C f \<and> (b \<longrightarrow> E ''I/O error'' f) \<and> R x f"
  using assms by (auto simp: read_single_def single_doc_def wp_exec split: option.splits node.splits content.splits if_splits)

text \<open>The document \<open>x\<close> is stored; a left-over temporary may lie beside it.\<close>

definition single_at :: "nat \<Rightarrow> ('d \<Rightarrow> bool) \<Rightarrow> string \<Rightarrow> 'd option \<Rightarrow> 'd fs \<Rightarrow> bool" where
  "single_at limit valid p x f \<longleftrightarrow>
     f (dir_name p) = Some Dir \<and> plain (f (tmp_of p)) \<and> single_doc limit valid (f p) = Some x"

definition storable :: "nat \<Rightarrow> ('d \<Rightarrow> bool) \<Rightarrow> ('d \<Rightarrow> nat) \<Rightarrow> 'd \<Rightarrow> bool" where
  "storable limit valid sz d \<longleftrightarrow> valid d \<and> 0 < sz d \<and> sz d \<le> limit"

lemma single_doc_not_dir: "single_doc l v n = Some x \<Longrightarrow> n \<noteq> Some Dir"
  by (auto simp: single_doc_def split: option.splits node.splits content.splits if_splits)

lemma single_distinct:
  assumes "single_at l v p x f"
  shows "dir_name p \<noteq> p" "dir_name p \<noteq> tmp_of p"
proof -
  have "f p \<noteq> Some Dir" "f (dir_name p) = Some Dir" "plain (f (tmp_of p))"
    using assms single_doc_not_dir [of l v "f p" x] by (auto simp: single_at_def)
  then show "dir_name p \<noteq> p" "dir_name p \<noteq> tmp_of p" by (metis, metis plain_simps(3))
qed

lemma replace_file_wp:
  assumes "single_at l v p x f" and "storable l v sz d"
  shows "wp b (replace_file p (Doc d (sz d))) (\<lambda>_. single_at l v p (Some d))
     (\<lambda>_ g. b \<and> (single_at l v p x g \<or> single_at l v p (Some d) g))
     (\<lambda>g. single_at l v p x g \<or> single_at l v p (Some d) g) f"
proof -
  note dist = single_distinct [OF assms(1)]
  have f: "f (dir_name p) = Some Dir" "single_doc l v (f p) = Some x" "plain (f (tmp_of p))"
    using assms(1) by (simp_all add: single_at_def)
  have nd: "f p \<noteq> Some Dir" using single_doc_not_dir [OF f(2)] .
  show ?thesis
    using plain_cases [OF f(3)]
    by (elim disjE exE)
       (use f nd dist assms(2) in \<open>auto simp: replace_file_def remove_safe_regular_def wp_exec single_at_def storable_def\<close>)
qed

interpretation single_store: crash_store Some "storable limit valid sz" "single_at limit valid p"
  "\<lambda>x y f. single_at limit valid p x f \<or> single_at limit valid p y f"
  "\<lambda>d. replace_file p (Doc d (sz d))" "read_single limit valid p" for limit valid sz p
proof unfold_locales
  show "single_at limit valid p x f \<Longrightarrow> storable limit valid sz d \<Longrightarrow>
     wp False (replace_file p (Doc d (sz d))) (\<lambda>_. single_at limit valid p (Some d)) (\<lambda>_ _. False)
       (\<lambda>f. single_at limit valid p x f \<or> single_at limit valid p (Some d) f) f" for x f d
    by (rule wp_mono [OF replace_file_wp [where b = False]]) auto
next
  show "single_at limit valid p x f \<or> single_at limit valid p y f \<Longrightarrow>
     wp False (read_single limit valid p) (\<lambda>r g. (r = x \<or> r = y) \<and> single_at limit valid p r g)
       (\<lambda>_ _. False) (\<lambda>f. single_at limit valid p x f \<or> single_at limit valid p y f) f" for x y f
    by (auto simp: single_at_def wp_read_single)
qed auto

end
