(* ===== verification/Folder_Control.thy ===== *)
theory Folder_Control
  imports Card_Identity Device_Ids Single_Store
begin

text \<open>
  \<open>controller/folder_state.go\<close>: the durable record of every managed folder (its card, its pause
  flags, the operation that is under way), the folder offers that were dismissed and the device
  whose removal is under way.  The maps of the store are the ordered association lists of the
  prelude; the mutex is not modelled, so an operation is one step.  Parameters: the SHA-256
  digest in hexadecimal (\<open>sha\<close>) and the size of a marshalled document (\<open>sz\<close>).
\<close>

section \<open>Documents and the store\<close>

record control_record =
  CardID :: string
  Kind :: string
  MarkerName :: string
  Manual :: bool
  FirstSync :: bool
  FirstSyncEpoch :: "64 word"
  PendingRescan :: bool
  PendingAdd :: bool
  PendingMembership :: string
  PendingDeviceID :: string
  PendingStop :: bool

record ignored_offer =
  OfferFolder :: string
  OfferDevice :: string

record control_document =
  Schema :: int
  Folders :: "(string \<times> control_record) list option"
  IgnoredOffers :: "ignored_offer list"
  DocDeviceRemoval :: string

record folder_control =
  Records :: "(string \<times> control_record) list"
  Offers :: "(string \<times> ignored_offer) list"
  PendingDeviceRemoval :: string

definition folder_offer_key :: "string \<Rightarrow> string \<Rightarrow> string" where
  "folder_offer_key folder device = folder @ [CHR 0x0A] @ device"

definition control_state_bytes :: nat where "control_state_bytes = 64 * 1024"
definition max_control_folders :: nat where "max_control_folders = 16"
definition max_ignored_offers :: nat where "max_ignored_offers = 32"

definition blank_record :: control_record where
  "blank_record = \<lparr>CardID = '''', Kind = '''', MarkerName = '''', Manual = False, FirstSync = False,
     FirstSyncEpoch = 0, PendingRescan = False, PendingAdd = False, PendingMembership = '''',
     PendingDeviceID = '''', PendingStop = False\<rparr>"

definition complete_folder_binding :: "control_record \<Rightarrow> bool" where
  "complete_folder_binding r \<longleftrightarrow> CardID r \<noteq> '''' \<and> Kind r \<noteq> '''' \<and> MarkerName r \<noteq> ''''"

section \<open>Reading the state\<close>

fun load_offers :: "(string \<times> ignored_offer) list \<Rightarrow> ignored_offer list \<Rightarrow> error + (string \<times> ignored_offer) list" where
  "load_offers m [] = Inr m"
| "load_offers m (offer # offers) = (case normalize_device_id (OfferDevice offer) of
     Inl _ \<Rightarrow> Inl ''folder control state contains an invalid ignored offer''
   | Inr device \<Rightarrow>
       if \<not> valid_folder_id (OfferFolder offer) then Inl ''folder control state contains an invalid ignored offer''
       else
         let key = folder_offer_key (OfferFolder offer) device
         in if (case map_of m key of None \<Rightarrow> False | Some o' \<Rightarrow> OfferFolder o' \<noteq> '''')
            then Inl ''folder control state contains a duplicate ignored offer''
            else load_offers (map_put key (offer\<lparr>OfferDevice := device\<rparr>) m) offers)"

definition load_document :: "control_document \<Rightarrow> error + folder_control \<times> int" where
  "load_document d = (case Folders d of
     None \<Rightarrow> Inl ''folder control state is unsupported''
   | Some fs \<Rightarrow>
       if (Schema d \<noteq> 1 \<and> Schema d \<noteq> 2) \<or> length fs > max_control_folders \<or>
          length (IgnoredOffers d) > max_ignored_offers
       then Inl ''folder control state is unsupported''
       else if \<exists>i \<in> fst ` set fs. (Schema d = 1 \<and> \<not> strings_managed_folder_id i) \<or> (Schema d = 2 \<and> \<not> valid_folder_id i)
       then Inl ''folder control state contains an invalid folder id''
       else sum_bind (load_offers [] (IgnoredOffers d)) (\<lambda>offers.
         if DocDeviceRemoval d = ''''
         then Inr (\<lparr>Records = fs, Offers = offers, PendingDeviceRemoval = ''''\<rparr>, Schema d)
         else (case normalize_device_id (DocDeviceRemoval d) of
                 Inl _ \<Rightarrow> Inl ''folder control state contains an invalid pending device removal''
               | Inr device \<Rightarrow>
                   Inr (\<lparr>Records = fs, Offers = offers, PendingDeviceRemoval = device\<rparr>, Schema d))))"

definition readable_document :: "control_document \<Rightarrow> bool" where
  "readable_document d \<longleftrightarrow> (case load_document d of Inl _ \<Rightarrow> False | Inr _ \<Rightarrow> True)"

definition empty_control :: folder_control where
  "empty_control = \<lparr>Records = [], Offers = [], PendingDeviceRemoval = ''''\<rparr>"

text \<open>The store, the schema and whether the file was there.\<close>

definition read_folder_control_state :: "string \<Rightarrow> (control_document, folder_control \<times> int \<times> bool) io" where
  "read_folder_control_state path =
     io_bind (read_single control_state_bytes readable_document path) (\<lambda>found. case found of
       None \<Rightarrow> io_ret (empty_control, 0, False)
     | Some d \<Rightarrow> io_bind (io_lift (load_document d)) (\<lambda>(st, schema). io_ret (st, schema, True)))"

section \<open>Writing the state\<close>

definition control_document_of :: "folder_control \<Rightarrow> control_document" where
  "control_document_of st =
     \<lparr>Schema = 2, Folders = Some (Records st), IgnoredOffers = map snd (Offers st),
      DocDeviceRemoval = PendingDeviceRemoval st\<rparr>"

definition persist_locked :: "(control_document \<Rightarrow> nat) \<Rightarrow> string \<Rightarrow> folder_control \<Rightarrow> (control_document, unit) io" where
  "persist_locked sz path st =
     io_bind (mkdir_all (dir_name path)) (\<lambda>_.
       replace_file path (Doc (control_document_of st) (sz (control_document_of st))))"

section \<open>Opening the store\<close>

definition new_folder_control_record ::
    "(string \<Rightarrow> string) \<Rightarrow> configured_folder \<Rightarrow> leaf_card \<Rightarrow> error + control_record" where
  "new_folder_control_record sha folder c =
     (if \<not> valid_folder_id (FID folder) then Inl ''folder control state contains an invalid folder id''
      else case binding_names sha (IID (Identity c)) (FKind folder) of
        Inl _ \<Rightarrow> Inl ''folder control state binding does not match its physical card''
      | Inr (_, marker) \<Rightarrow>
          if marker \<noteq> FMarkerName folder then Inl ''folder control state binding does not match its physical card''
          else Inr (blank_record\<lparr>CardID := IID (Identity c), Kind := FKind folder, MarkerName := marker,
                      FirstSync := True, FirstSyncEpoch := 1\<rparr>))"

definition legacy_match :: "(string \<Rightarrow> string) \<Rightarrow> configured_folder \<Rightarrow> leaf_card \<Rightarrow> bool" where
  "legacy_match sha folder c \<longleftrightarrow>
     binding_names sha (IID (Identity c)) (FKind folder) = Inr (FID folder, FMarkerName folder)"

definition legacy_folder_binding ::
    "(string \<Rightarrow> string) \<Rightarrow> configured_folder \<Rightarrow> leaf_card list \<Rightarrow> error + control_record" where
  "legacy_folder_binding sha folder inventory = (case filter (legacy_match sha folder) inventory of
     [c] \<Rightarrow> Inr (blank_record\<lparr>CardID := IID (Identity c), Kind := FKind folder, MarkerName := FMarkerName folder\<rparr>)
   | _ \<Rightarrow> Inl ''folder control state cannot uniquely migrate its physical card binding'')"

definition valid_pending :: "control_record \<Rightarrow> bool" where
  "valid_pending r \<longleftrightarrow>
     \<not> ((PendingAdd r \<and> (PendingMembership r \<noteq> '''' \<or> PendingStop r)) \<or>
        (PendingStop r \<and> PendingMembership r \<noteq> '''') \<or>
        (PendingMembership r = '''') \<noteq> (PendingDeviceID r = '''') \<or>
        (PendingMembership r \<noteq> '''' \<and> PendingMembership r \<noteq> ''share'' \<and> PendingMembership r \<noteq> ''unshare''))"

definition binding_matches :: "(string \<Rightarrow> string) \<Rightarrow> string \<Rightarrow> string \<Rightarrow> string \<Rightarrow> bool" where
  "binding_matches sha c kind marker \<longleftrightarrow>
     (case binding_names sha c kind of Inl _ \<Rightarrow> False | Inr (_, m) \<Rightarrow> m = marker)"

definition valid_record :: "(string \<Rightarrow> string) \<Rightarrow> string \<times> control_record \<Rightarrow> bool" where
  "valid_record sha e = (case e of (i, r) \<Rightarrow>
     valid_folder_id i \<and> complete_folder_binding r \<and>
     binding_matches sha (CardID r) (Kind r) (MarkerName r) \<and>
     valid_pending r \<and>
     (PendingDeviceID r = '''' \<or> (case normalize_device_id (PendingDeviceID r) of Inl _ \<Rightarrow> False | Inr _ \<Rightarrow> True)))"

definition local_key :: "control_record \<Rightarrow> string" where
  "local_key r = CardID r @ '':'' @ Kind r"

definition validate_folder_control_records :: "(string \<Rightarrow> string) \<Rightarrow> (string \<times> control_record) list \<Rightarrow> bool" where
  "validate_folder_control_records sha rs \<longleftrightarrow>
     (\<forall>e \<in> set rs. valid_record sha e) \<and> distinct (map (local_key \<circ> snd) rs)"

text \<open>The loop over the configured folders: the records, and whether something changed.\<close>

fun bind_folders :: "(string \<Rightarrow> string) \<Rightarrow> leaf_card list \<Rightarrow> configured_folder list \<Rightarrow>
    (string \<times> control_record) list \<times> bool \<Rightarrow> error + (string \<times> control_record) list \<times> bool" where
  "bind_folders sha inventory [] (rs, changed) = Inr (rs, changed)"
| "bind_folders sha inventory (folder # folders) (rs, changed) =
     (let (r, changed) = (case map_of rs (FID folder) of
            None \<Rightarrow> (blank_record\<lparr>FirstSync := True, FirstSyncEpoch := 1\<rparr>, True)
          | Some r \<Rightarrow> if FirstSyncEpoch r = 0 then (r\<lparr>FirstSyncEpoch := 1\<rparr>, True) else (r, changed))
      in if complete_folder_binding r then bind_folders sha inventory folders (map_put (FID folder) r rs, changed)
         else sum_bind (legacy_folder_binding sha folder inventory) (\<lambda>b.
           bind_folders sha inventory folders
             (map_put (FID folder) (r\<lparr>CardID := CardID b, Kind := Kind b, MarkerName := MarkerName b\<rparr>) rs, True)))"

definition new_folder_control_store :: "(string \<Rightarrow> string) \<Rightarrow> (control_document \<Rightarrow> nat) \<Rightarrow> string \<Rightarrow>
    configured_folder list \<Rightarrow> leaf_card list \<Rightarrow> (control_document, folder_control) io" where
  "new_folder_control_store sha sz path folders inventory =
     (if \<not> is_abs path then io_fail ''folder control state requires an absolute path''
      else io_bind (read_folder_control_state path) (\<lambda>(st, schema, present).
        io_bind (io_lift (bind_folders sha inventory folders (Records st, \<not> present \<or> schema = 1))) (\<lambda>(rs, changed).
          let configured = map FID folders;
              kept = (if schema = 1 then filter (\<lambda>e. fst e \<in> set configured) rs else rs);
              changed = (changed \<or> kept \<noteq> rs);
              store = st\<lparr>Records := kept\<rparr>
          in if \<not> validate_folder_control_records sha kept
             then io_fail ''folder control state contains an incomplete binding''
             else io_bind (io_when changed (persist_locked sz path store)) (\<lambda>_. io_ret store))))"

section \<open>Operations\<close>

text \<open>
  An operation checks its arguments, changes the maps in memory and persists them.  Its model
  gives an error, or nothing to do (\<open>None\<close>), or the store to persist together with the store
  that the code keeps in memory when persisting fails.
\<close>

type_synonym control_change = "error + (folder_control \<times> folder_control) option"

definition with_record :: "string \<Rightarrow> folder_control \<Rightarrow> (control_record \<Rightarrow> control_change) \<Rightarrow> control_change" where
  "with_record i st k = (case map_of (Records st) i of
     None \<Rightarrow> Inl ''folder control state does not contain this folder''
   | Some r \<Rightarrow> k r)"

definition put_control :: "string \<Rightarrow> control_record \<Rightarrow> folder_control \<Rightarrow> folder_control" where
  "put_control i r st = st\<lparr>Records := map_put i r (Records st)\<rparr>"

text \<open>The change stays in memory when it cannot be persisted, or is taken back.\<close>

definition sticky :: "folder_control \<Rightarrow> control_change" where
  "sticky new = Inr (Some (new, new))"

definition rolled_back :: "folder_control \<Rightarrow> folder_control \<Rightarrow> control_change" where
  "rolled_back st new = Inr (Some (new, st))"

definition set_offer_ignored :: "string \<Rightarrow> string \<Rightarrow> bool \<Rightarrow> folder_control \<Rightarrow> control_change" where
  "set_offer_ignored folder device_raw ignored st = (case normalize_device_id device_raw of
     Inl _ \<Rightarrow> Inl ''folder offer identity is invalid''
   | Inr device \<Rightarrow>
       if \<not> valid_folder_id folder then Inl ''folder offer identity is invalid''
       else
         let key = folder_offer_key folder device; present = (key \<in> fst ` set (Offers st))
         in if present = ignored then Inr None
            else if ignored then
              (if length (Offers st) \<ge> max_ignored_offers then Inl ''ignored folder offer limit reached''
               else rolled_back st (st\<lparr>Offers := map_put key \<lparr>OfferFolder = folder, OfferDevice = device\<rparr> (Offers st)\<rparr>))
            else Inr (Some (st\<lparr>Offers := map_del key (Offers st)\<rparr>,
                    st\<lparr>Offers := map_put key \<lparr>OfferFolder = folder, OfferDevice = device\<rparr> (map_del key (Offers st))\<rparr>)))"

definition begin_device_removal :: "string \<Rightarrow> folder_control \<Rightarrow> control_change" where
  "begin_device_removal device_raw st = (case normalize_device_id device_raw of
     Inl _ \<Rightarrow> Inl ''device removal identity is invalid''
   | Inr device \<Rightarrow>
       if PendingDeviceRemoval st \<noteq> '''' then
         (if PendingDeviceRemoval st = device then Inr None else Inl ''another device removal is pending'')
       else rolled_back st (st\<lparr>PendingDeviceRemoval := device\<rparr>))"

definition complete_device_removal :: "string \<Rightarrow> folder_control \<Rightarrow> control_change" where
  "complete_device_removal device_raw st = (case normalize_device_id device_raw of
     Inl _ \<Rightarrow> Inl ''device removal identity is invalid''
   | Inr device \<Rightarrow>
       if PendingDeviceRemoval st \<noteq> device then Inl ''device removal intent does not match''
       else rolled_back st (st\<lparr>Offers := filter (\<lambda>e. OfferDevice (snd e) \<noteq> device) (Offers st),
              PendingDeviceRemoval := ''''\<rparr>))"

definition set_manual :: "string \<Rightarrow> bool \<Rightarrow> folder_control \<Rightarrow> control_change" where
  "set_manual i manual st = with_record i st (\<lambda>r. sticky (put_control i (r\<lparr>Manual := manual\<rparr>) st))"

definition set_pending_rescan :: "string \<Rightarrow> bool \<Rightarrow> folder_control \<Rightarrow> control_change" where
  "set_pending_rescan i pending st = with_record i st (\<lambda>r. sticky (put_control i (r\<lparr>PendingRescan := pending\<rparr>) st))"

definition set_first_sync :: "string \<Rightarrow> bool \<Rightarrow> folder_control \<Rightarrow> control_change" where
  "set_first_sync i pending st = with_record i st (\<lambda>r.
     if FirstSync r = pending then Inr None else sticky (put_control i (r\<lparr>FirstSync := pending\<rparr>) st))"

definition require_first_sync :: "string \<Rightarrow> folder_control \<Rightarrow> control_change" where
  "require_first_sync i st = with_record i st (\<lambda>r.
     if FirstSyncEpoch r = - 1 then Inl ''folder first-sync epoch is exhausted''
     else sticky (put_control i (r\<lparr>FirstSync := True, FirstSyncEpoch := FirstSyncEpoch r + 1\<rparr>) st))"

definition add_record :: "(string \<Rightarrow> string) \<Rightarrow> configured_folder \<Rightarrow> leaf_card \<Rightarrow> bool \<Rightarrow> folder_control \<Rightarrow> control_change" where
  "add_record sha folder c pending st = sum_bind (new_folder_control_record sha folder c) (\<lambda>r.
     if FID folder \<in> fst ` set (Records st) then Inl ''folder control state already contains this folder''
     else if length (Records st) \<ge> max_control_folders then Inl ''folder control state exceeds the managed-folder limit''
     else if \<exists>x \<in> snd ` set (Records st). CardID x = CardID r \<and> Kind x = Kind r
     then Inl ''folder control state already binds this card and content kind''
     else rolled_back st (put_control (FID folder) (r\<lparr>PendingAdd := pending\<rparr>) st))"

definition activate :: "string \<Rightarrow> folder_control \<Rightarrow> control_change" where
  "activate i st = with_record i st (\<lambda>r.
     if \<not> PendingAdd r then Inr None else rolled_back st (put_control i (r\<lparr>PendingAdd := False\<rparr>) st))"

definition remove_record :: "string \<Rightarrow> folder_control \<Rightarrow> control_change" where
  "remove_record i st =
     (if i \<notin> fst ` set (Records st) then Inr None
      else rolled_back st (st\<lparr>Records := map_del i (Records st)\<rparr>))"

definition begin_membership :: "string \<Rightarrow> string \<Rightarrow> string \<Rightarrow> folder_control \<Rightarrow> control_change" where
  "begin_membership i device_raw operation st = (case normalize_device_id device_raw of
     Inl _ \<Rightarrow> Inl ''folder membership intent is invalid''
   | Inr device \<Rightarrow>
       if operation \<noteq> ''share'' \<and> operation \<noteq> ''unshare'' then Inl ''folder membership intent is invalid''
       else case map_of (Records st) i of
         None \<Rightarrow> Inl ''folder control state cannot change membership for this folder''
       | Some r \<Rightarrow>
           if PendingAdd r then Inl ''folder control state cannot change membership for this folder''
           else if PendingMembership r \<noteq> '''' then
             (if PendingMembership r = operation \<and> PendingDeviceID r = device then Inr None
              else Inl ''another folder membership change is pending'')
           else
             let new = r\<lparr>PendingMembership := operation, PendingDeviceID := device\<rparr>
             in Inr (Some (put_control i new st, put_control i (new\<lparr>PendingMembership := '''', PendingDeviceID := ''''\<rparr>) st)))"

definition complete_membership :: "string \<Rightarrow> folder_control \<Rightarrow> control_change" where
  "complete_membership i st = (case map_of (Records st) i of
     None \<Rightarrow> Inl ''folder membership intent is absent''
   | Some r \<Rightarrow>
       if PendingMembership r = '''' then Inl ''folder membership intent is absent''
       else rolled_back st (put_control i (r\<lparr>PendingMembership := '''', PendingDeviceID := ''''\<rparr>) st))"

definition begin_stop :: "string \<Rightarrow> folder_control \<Rightarrow> control_change" where
  "begin_stop i st = (case map_of (Records st) i of
     None \<Rightarrow> Inl ''folder control state cannot stop this folder''
   | Some r \<Rightarrow>
       if PendingAdd r \<or> PendingMembership r \<noteq> '''' then Inl ''folder control state cannot stop this folder''
       else if PendingStop r then Inr None
       else rolled_back st (put_control i (r\<lparr>PendingStop := True\<rparr>) st))"

datatype control_op =
    Set_Offer_Ignored string string bool
  | Begin_Device_Removal string
  | Complete_Device_Removal string
  | Set_Manual string bool
  | Set_Pending_Rescan string bool
  | Set_First_Sync string bool
  | Require_First_Sync string
  | Add_Record configured_folder leaf_card bool
  | Activate string
  | Remove_Record string
  | Begin_Membership string string string
  | Complete_Membership string
  | Begin_Stop string

fun control_step :: "(string \<Rightarrow> string) \<Rightarrow> control_op \<Rightarrow> folder_control \<Rightarrow> control_change" where
  "control_step sha (Set_Offer_Ignored i d b) st = set_offer_ignored i d b st"
| "control_step sha (Begin_Device_Removal d) st = begin_device_removal d st"
| "control_step sha (Complete_Device_Removal d) st = complete_device_removal d st"
| "control_step sha (Set_Manual i b) st = set_manual i b st"
| "control_step sha (Set_Pending_Rescan i b) st = set_pending_rescan i b st"
| "control_step sha (Set_First_Sync i b) st = set_first_sync i b st"
| "control_step sha (Require_First_Sync i) st = require_first_sync i st"
| "control_step sha (Add_Record f c b) st = add_record sha f c b st"
| "control_step sha (Activate i) st = activate i st"
| "control_step sha (Remove_Record i) st = remove_record i st"
| "control_step sha (Begin_Membership i d o') st = begin_membership i d o' st"
| "control_step sha (Complete_Membership i) st = complete_membership i st"
| "control_step sha (Begin_Stop i) st = begin_stop i st"

text \<open>Running an operation: its error, if any, and the store in memory afterwards.\<close>

definition run_control :: "(string \<Rightarrow> string) \<Rightarrow> (control_document \<Rightarrow> nat) \<Rightarrow> string \<Rightarrow> control_op \<Rightarrow> folder_control \<Rightarrow>
    (control_document, error option \<times> folder_control) io" where
  "run_control sha sz path op st = (case control_step sha op st of
     Inl e \<Rightarrow> io_ret (Some e, st)
   | Inr None \<Rightarrow> io_ret (None, st)
   | Inr (Some (new, kept)) \<Rightarrow>
       io_bind (io_try (persist_locked sz path new)) (\<lambda>r. case r of
         Inl e \<Rightarrow> io_ret (Some e, kept) | Inr _ \<Rightarrow> io_ret (None, new)))"

section \<open>What the store always satisfies\<close>

definition good_offer :: "string \<times> ignored_offer \<Rightarrow> bool" where
  "good_offer e \<longleftrightarrow> valid_folder_id (OfferFolder (snd e)) \<and> canonical_device (OfferDevice (snd e)) \<and>
     fst e = folder_offer_key (OfferFolder (snd e)) (OfferDevice (snd e))"

definition control_ok :: "(string \<Rightarrow> string) \<Rightarrow> folder_control \<Rightarrow> bool" where
  "control_ok sha st \<longleftrightarrow>
     go_map (Records st) \<and> length (Records st) \<le> max_control_folders \<and>
     validate_folder_control_records sha (Records st) \<and>
     go_map (Offers st) \<and> length (Offers st) \<le> max_ignored_offers \<and> (\<forall>e \<in> set (Offers st). good_offer e) \<and>
     (PendingDeviceRemoval st = '''' \<or> canonical_device (PendingDeviceRemoval st))"

lemma map_put_end: "go_map (m @ [(k, v)]) \<Longrightarrow> map_put k v m = m @ [(k, v)]"
proof -
  assume g: "go_map (m @ [(k, v)])"
  then have "map_del k m = m"
    by (auto simp: go_map_def map_del_def filter_id_conv)
  moreover have "insort_key fst (k, v) m = m @ [(k, v)]"
    using g by (induction m) (auto simp: go_map_def sorted_append)
  ultimately show ?thesis by (simp add: map_put_def)
qed

lemma go_map_append: "go_map (m @ n) \<Longrightarrow> go_map m"
  by (simp add: go_map_def sorted_append)

lemma load_offers_good:
  "go_map (m @ os) \<Longrightarrow> \<forall>e \<in> set os. good_offer e \<Longrightarrow> load_offers m (map snd os) = Inr (m @ os)"
proof (induction os arbitrary: m)
  case (Cons e os)
  obtain k o' where e: "e = (k, o')" by fastforce
  have good: "valid_folder_id (OfferFolder o')" "canonical_device (OfferDevice o')"
    "k = folder_offer_key (OfferFolder o') (OfferDevice o')"
    using Cons.prems(2) by (simp_all add: e good_offer_def)
  have m: "go_map ((m @ [(k, o')]) @ os)" using Cons.prems(1) by (simp add: e)
  from go_map_append [OF m] have put: "map_put k o' m = m @ [(k, o')]" by (rule map_put_end)
  have "map_of m k = None"
    using go_map_append [OF m] by (auto simp: go_map_def map_of_eq_None_iff)
  then show ?case
    using good put Cons.IH [OF m] Cons.prems(2) by (simp add: e normalize_canonical_id Let_def)
qed simp

lemma canonical_nonempty: "canonical_device d \<Longrightarrow> d \<noteq> ''''"
  by (auto simp: canonical_device_def)

text \<open>What a document needs to be read; the bindings are checked later.\<close>

definition loadable :: "folder_control \<Rightarrow> bool" where
  "loadable st \<longleftrightarrow> length (Records st) \<le> max_control_folders \<and> (\<forall>i \<in> fst ` set (Records st). valid_folder_id i) \<and>
     go_map (Offers st) \<and> length (Offers st) \<le> max_ignored_offers \<and> (\<forall>e \<in> set (Offers st). good_offer e) \<and>
     (PendingDeviceRemoval st = '''' \<or> canonical_device (PendingDeviceRemoval st))"

lemma control_ok_loadable: "control_ok sha st \<Longrightarrow> loadable st"
  by (auto simp: control_ok_def loadable_def validate_folder_control_records_def valid_record_def)

lemma load_document_of:
  assumes "loadable st"
  shows "load_document (control_document_of st) = Inr (st, 2)"
proof -
  have "load_offers [] (map snd (Offers st)) = Inr (Offers st)"
    using load_offers_good [of "[]" "Offers st"] assms by (simp add: loadable_def)
  then show ?thesis
    using assms canonical_nonempty normalize_canonical_id [of "PendingDeviceRemoval st"]
    by (auto simp: load_document_def control_document_of_def loadable_def)
qed

lemma readable_document_of: "loadable st \<Longrightarrow> readable_document (control_document_of st)"
  by (simp add: readable_document_def load_document_of)

subsection \<open>Records under change\<close>

lemma valid_binding: "valid_record sha (i, r) \<Longrightarrow> valid_identity_id (CardID r)"
  by (auto simp: valid_record_def binding_matches_def binding_names_def split: if_splits sum.splits)

lemma local_key_inj:
  "length (CardID r) = length (CardID q) \<Longrightarrow> local_key r = local_key q \<longleftrightarrow> CardID r = CardID q \<and> Kind r = Kind q"
  by (auto simp: local_key_def)

lemma validate_iff:
  assumes "go_map rs"
  shows "validate_folder_control_records sha rs \<longleftrightarrow> (\<forall>e \<in> set rs. valid_record sha e) \<and>
    (\<forall>a \<in> set rs. \<forall>b \<in> set rs. CardID (snd a) = CardID (snd b) \<and> Kind (snd a) = Kind (snd b) \<longrightarrow> a = b)"
proof -
  have d: "distinct rs" using assms by (simp add: go_map_def distinct_map)
  have key: "local_key (snd a) = local_key (snd b) \<longleftrightarrow> CardID (snd a) = CardID (snd b) \<and> Kind (snd a) = Kind (snd b)"
    if "\<forall>e \<in> set rs. valid_record sha e" "a \<in> set rs" "b \<in> set rs" for a b
    using that valid_binding [of sha "fst a" "snd a"] valid_binding [of sha "fst b" "snd b"]
    by (intro local_key_inj) (auto simp: valid_identity_id_def)
  show ?thesis
  proof (cases "\<forall>e \<in> set rs. valid_record sha e")
    case True
    have "inj_on (local_key \<circ> snd) (set rs) \<longleftrightarrow> (\<forall>a \<in> set rs. \<forall>b \<in> set rs.
        CardID (snd a) = CardID (snd b) \<and> Kind (snd a) = Kind (snd b) \<longrightarrow> a = b)"
      unfolding inj_on_def comp_def by (intro ball_cong refl) (simp add: key [OF True])
    with d show ?thesis by (simp add: validate_folder_control_records_def distinct_map)
  qed (auto simp: validate_folder_control_records_def)
qed

lemma validate_put:
  assumes "go_map rs" and "validate_folder_control_records sha rs" and "valid_record sha (i, r)"
    and "\<forall>e \<in> set rs. fst e \<noteq> i \<longrightarrow> \<not> (CardID (snd e) = CardID r \<and> Kind (snd e) = Kind r)"
  shows "validate_folder_control_records sha (map_put i r rs)"
proof -
  have old: "a = b" if "a \<in> set rs" "b \<in> set rs" "CardID (snd a) = CardID (snd b)" "Kind (snd a) = Kind (snd b)" for a b
    using assms(2) that by (simp add: validate_iff [OF assms(1)])
  have new: "fst a = i" if "a \<in> set rs" "CardID (snd a) = CardID r" "Kind (snd a) = Kind r" for a
    using assms(4) that by blast
  show ?thesis
    unfolding validate_iff [OF go_map_put [OF assms(1)]]
  proof (intro conjI ballI impI)
    show "valid_record sha e" if "e \<in> set (map_put i r rs)" for e
      using that assms(2,3) by (auto simp: map_put_set validate_folder_control_records_def)
    show "a = b" if "a \<in> set (map_put i r rs)" "b \<in> set (map_put i r rs)"
      "CardID (snd a) = CardID (snd b) \<and> Kind (snd a) = Kind (snd b)" for a b
    proof -
      have "a = (i, r) \<or> a \<in> set rs \<and> fst a \<noteq> i" "b = (i, r) \<or> b \<in> set rs \<and> fst b \<noteq> i"
        using that(1,2) by (simp_all add: map_put_set)
      then show ?thesis using that(3) old new by (metis snd_conv)
    qed
  qed
qed

lemma validate_update:
  assumes "go_map rs" and "validate_folder_control_records sha rs" and "map_of rs i = Some r"
    and "valid_record sha (i, r) \<Longrightarrow> valid_record sha (i, r')"
    and "CardID r' = CardID r" and "Kind r' = Kind r"
  shows "validate_folder_control_records sha (map_put i r' rs)"
proof (rule validate_put [OF assms(1,2)])
  have r: "(i, r) \<in> set rs" using assms(1,3) by (simp add: go_map_of)
  then have "valid_record sha (i, r)" using assms(2) by (simp add: validate_folder_control_records_def)
  then show "valid_record sha (i, r')" by (rule assms(4))
  show "\<forall>e \<in> set rs. fst e \<noteq> i \<longrightarrow> \<not> (CardID (snd e) = CardID r' \<and> Kind (snd e) = Kind r')"
    using assms(2,5,6) r validate_iff [OF assms(1), of sha] by fastforce
qed

lemma ok_put:
  assumes "control_ok sha st" and "map_of (Records st) i = Some r"
    and "valid_record sha (i, r) \<Longrightarrow> valid_record sha (i, r')"
    and "CardID r' = CardID r" and "Kind r' = Kind r"
  shows "control_ok sha (put_control i r' st)"
proof -
  have "go_map (Records st)" using assms(1) by (simp add: control_ok_def)
  moreover have "i \<in> fst ` set (Records st)" using map_of_SomeD [OF assms(2)] by force
  ultimately show ?thesis
    using assms validate_update [of "Records st" sha i r r']
    by (simp add: control_ok_def put_control_def go_map_put length_map_put)
qed

lemma validate_subset:
  "validate_folder_control_records sha rs \<Longrightarrow> validate_folder_control_records sha (filter P rs)"
  by (auto simp: validate_folder_control_records_def distinct_map_filter)

lemma go_map_filter: "go_map m \<Longrightarrow> go_map (filter P m)"
  by (simp add: go_map_def distinct_map_filter sorted_filter)

lemma ok_offer_put:
  assumes "control_ok sha st" and "valid_folder_id i" and "canonical_device d"
    and "length (map_put (folder_offer_key i d) x (Offers st)) \<le> max_ignored_offers"
    and "x = \<lparr>OfferFolder = i, OfferDevice = d\<rparr>"
  shows "control_ok sha (st\<lparr>Offers := map_put (folder_offer_key i d) x (Offers st)\<rparr>)"
  using assms by (auto simp: control_ok_def go_map_put map_put_set good_offer_def)

lemma add_record_cases:
  assumes "add_record sha folder c pending st = Inr (Some (new, kept))" and "go_map (Records st)"
  shows "\<exists>r. kept = st \<and> new = put_control (FID folder) r st \<and> valid_record sha (FID folder, r) \<and>
    FID folder \<notin> fst ` set (Records st) \<and> length (Records st) < max_control_folders \<and>
    (\<forall>x \<in> snd ` set (Records st). \<not> (CardID x = CardID r \<and> Kind x = Kind r))"
proof -
  obtain i marker where b: "binding_names sha (IID (Identity c)) (FKind folder) = Inr (i, marker)" "marker = FMarkerName folder"
    and v: "valid_folder_id (FID folder)" and g: "FID folder \<notin> fst ` set (Records st)" "length (Records st) < max_control_folders"
      "\<forall>x \<in> snd ` set (Records st). \<not> (CardID x = IID (Identity c) \<and> Kind x = FKind folder)"
    and new: "kept = st" "new = put_control (FID folder) (blank_record\<lparr>CardID := IID (Identity c), Kind := FKind folder,
        MarkerName := marker, FirstSync := True, FirstSyncEpoch := 1, PendingAdd := pending\<rparr>) st"
    using assms(1)
    by (auto simp: add_record_def new_folder_control_record_def sum_bind_Inr rolled_back_def not_le
        split: sum.splits if_splits)
  have "IID (Identity c) \<noteq> ''''" "FKind folder \<noteq> ''''" "marker \<noteq> ''''"
    using b(1) by (auto simp: binding_names_def valid_identity_id_def Let_def split: if_splits)
  with b v g new show ?thesis
    by (intro exI [of _ "blank_record\<lparr>CardID := IID (Identity c), Kind := FKind folder,
        MarkerName := marker, FirstSync := True, FirstSyncEpoch := 1, PendingAdd := pending\<rparr>"])
       (simp add: valid_record_def binding_matches_def valid_pending_def complete_folder_binding_def blank_record_def)
qed

text \<open>A folder that is being stopped.\<close>

definition stopping :: "folder_control \<Rightarrow> string \<Rightarrow> bool" where
  "stopping st i \<longleftrightarrow> (case map_of (Records st) i of None \<Rightarrow> False | Some r \<Rightarrow> PendingStop r)"

definition starts_membership_of_stopping :: "control_op \<Rightarrow> folder_control \<Rightarrow> bool" where
  "starts_membership_of_stopping op st \<longleftrightarrow>
     (case op of Begin_Membership i _ _ \<Rightarrow> stopping st i | _ \<Rightarrow> False)"

lemmas control_op_defs = set_offer_ignored_def begin_device_removal_def complete_device_removal_def
  set_manual_def set_pending_rescan_def set_first_sync_def require_first_sync_def activate_def
  remove_record_def begin_membership_def complete_membership_def begin_stop_def with_record_def
  sticky_def rolled_back_def

lemma record_op_ok:
  assumes "control_ok sha st" and "control_step sha op st = Inr (Some change)"
    and "op \<in> {Set_Manual i b, Set_Pending_Rescan i b, Set_First_Sync i b, Require_First_Sync i, Activate i,
      Complete_Membership i, Begin_Stop i}"
  shows "control_ok sha (fst change) \<and> control_ok sha (snd change)"
proof -
  obtain r where r: "map_of (Records st) i = Some r"
    using assms(2,3) by (auto simp: control_op_defs Let_def split: option.splits sum.splits if_splits)
  note put = ok_put [OF assms(1) r]
  show ?thesis
    using assms(2,3) assms(1) r
    by (auto simp: control_op_defs split: if_splits
        intro!: put simp: valid_record_def valid_pending_def complete_folder_binding_def)
qed

lemma membership_op_ok:
  assumes "control_ok sha st" and "begin_membership i d operation st = Inr (Some change)" and "\<not> stopping st i"
  shows "control_ok sha (fst change) \<and> control_ok sha (snd change)"
proof -
  obtain r e where r: "map_of (Records st) i = Some r" and e: "normalize_device_id d = Inr e"
    and c: "change = (put_control i (r\<lparr>PendingMembership := operation, PendingDeviceID := e\<rparr>) st,
        put_control i (r\<lparr>PendingMembership := [], PendingDeviceID := []\<rparr>) st)"
    and g: "operation = ''share'' \<or> operation = ''unshare''" "\<not> PendingAdd r" "\<not> PendingStop r"
    using assms(2,3) by (auto simp: begin_membership_def Let_def stopping_def split: option.splits sum.splits if_splits)
  have e': "normalize_device_id e = Inr e" "e \<noteq> ''''"
    using normalize_canonical [OF e] normalize_canonical_id canonical_nonempty by auto
  show ?thesis
    unfolding c fst_conv snd_conv
    by (intro conjI ok_put [OF assms(1) r])
       (use g e' in \<open>auto simp: valid_record_def valid_pending_def complete_folder_binding_def\<close>)
qed

lemma store_op_ok:
  assumes "control_ok sha st" and "control_step sha op st = Inr (Some (new, kept))"
    and "op \<in> {Set_Offer_Ignored i d b, Begin_Device_Removal d, Complete_Device_Removal d, Remove_Record i, Add_Record f c b}"
  shows "control_ok sha new \<and> control_ok sha kept"
proof -
  have g: "go_map (Records st)" "go_map (Offers st)" "length (Offers st) \<le> max_ignored_offers"
    using assms(1) by (simp_all add: control_ok_def)
  have dev: "normalize_device_id d = Inr e \<Longrightarrow> canonical_device e" for e
    by (rule normalize_canonical)
  consider "op = Set_Offer_Ignored i d b" | "op = Begin_Device_Removal d" | "op = Complete_Device_Removal d"
    | "op = Remove_Record i" | "op = Add_Record f c b"
    using assms(3) by auto
  then show ?thesis
  proof cases
    case 1
    then obtain e where e: "normalize_device_id d = Inr e" "valid_folder_id i"
      and s: "b \<and> length (Offers st) < max_ignored_offers \<and> kept = st \<and> folder_offer_key i e \<notin> fst ` set (Offers st) \<and>
           new = st\<lparr>Offers := map_put (folder_offer_key i e) \<lparr>OfferFolder = i, OfferDevice = e\<rparr> (Offers st)\<rparr> \<or>
         folder_offer_key i e \<in> fst ` set (Offers st) \<and> new = st\<lparr>Offers := map_del (folder_offer_key i e) (Offers st)\<rparr> \<and>
           kept = st\<lparr>Offers := map_put (folder_offer_key i e) \<lparr>OfferFolder = i, OfferDevice = e\<rparr>
             (map_del (folder_offer_key i e) (Offers st))\<rparr>"
      using assms(2) by (auto simp: control_op_defs Let_def not_le split: sum.splits if_splits)
    have "control_ok sha (st\<lparr>Offers := map_del k (Offers st)\<rparr>)" for k
      using assms(1) length_map_del [of k "Offers st"] by (auto simp: control_ok_def go_map_del) (auto simp: map_del_def)
    moreover have "map_put k x (map_del k (Offers st)) = map_put k x (Offers st)" for k x
      by (simp add: map_put_def map_del_def)
    moreover have "length (map_put (folder_offer_key i e) x (Offers st)) \<le> max_ignored_offers"
      if "folder_offer_key i e \<in> fst ` set (Offers st) \<or> length (Offers st) < max_ignored_offers" for x
      using that g by (auto simp: length_map_put)
    ultimately show ?thesis
      using s assms(1) ok_offer_put [OF assms(1) e(2) dev [OF e(1)] _ refl] by (elim disjE) simp_all

  next
    case 2
    with assms dev show ?thesis
      by (auto simp: control_op_defs control_ok_def split: sum.splits if_splits)
  next
    case 3
    with assms dev g show ?thesis
      by (auto simp: control_op_defs control_ok_def go_map_filter split: sum.splits if_splits
          intro: order_trans [OF length_filter_le])
  next
    case 4
    with assms g show ?thesis
      using length_map_del [of i "Records st"]
      by (auto simp: control_op_defs control_ok_def go_map_del split: if_splits)
         (auto simp: map_del_def validate_subset)
  next
    case 5
    with add_record_cases [of sha f c b st new kept] assms(2) g(1) obtain r where
      "kept = st" "new = put_control (FID f) r st" "valid_record sha (FID f, r)"
      "FID f \<notin> fst ` set (Records st)" "length (Records st) < max_control_folders"
      "\<forall>x \<in> snd ` set (Records st). \<not> (CardID x = CardID r \<and> Kind x = Kind r)" by auto
    with assms(1) g(1) validate_put [of "Records st" sha "FID f" r] show ?thesis
      by (auto simp: control_ok_def put_control_def go_map_put length_map_put)
  qed
qed

lemma control_step_ok:
  assumes "control_ok sha st" and "control_step sha op st = Inr (Some (new, kept))"
    and "\<not> starts_membership_of_stopping op st"
  shows "control_ok sha new \<and> control_ok sha kept"
proof (cases op)
  case (Begin_Membership i d operation)
  with assms membership_op_ok [of sha st i d operation "(new, kept)"] show ?thesis
    by (simp add: starts_membership_of_stopping_def)
qed (use record_op_ok [OF assms(1,2)] store_op_ok [OF assms(1,2)] in \<open>simp; blast\<close>)+

section \<open>The store on disk\<close>

definition storable_control :: "(string \<Rightarrow> string) \<Rightarrow> (control_document \<Rightarrow> nat) \<Rightarrow> folder_control \<Rightarrow> bool" where
  "storable_control sha sz st \<longleftrightarrow> control_ok sha st \<and>
     0 < sz (control_document_of st) \<and> sz (control_document_of st) \<le> control_state_bytes"

definition control_at :: "(string \<Rightarrow> string) \<Rightarrow> string \<Rightarrow> folder_control \<Rightarrow> control_document fs \<Rightarrow> bool" where
  "control_at sha path st f \<longleftrightarrow> is_abs path \<and> control_ok sha st \<and>
     single_at control_state_bytes readable_document path (Some (control_document_of st)) f"

definition control_between :: "(string \<Rightarrow> string) \<Rightarrow> string \<Rightarrow> folder_control \<Rightarrow> folder_control \<Rightarrow>
    control_document fs \<Rightarrow> bool" where
  "control_between sha path x y f \<longleftrightarrow> control_at sha path x f \<or> control_at sha path y f"

lemma persist_locked_wp:
  assumes "control_at sha path x f" and "storable_control sha sz st"
  shows "wp b (persist_locked sz path st) (\<lambda>_. control_at sha path st)
     (\<lambda>_ g. b \<and> control_between sha path x st g) (control_between sha path x st) f"
proof -
  have at: "single_at control_state_bytes readable_document path (Some (control_document_of x)) f"
    and "f (dir_name path) = Some Dir" "is_abs path" "control_ok sha x"
    using assms(1) by (simp_all add: control_at_def single_at_def)
  moreover have "storable control_state_bytes readable_document sz (control_document_of st)" "control_ok sha st"
    using assms(2) readable_document_of control_ok_loadable
    by (auto simp: storable_control_def storable_def)
  ultimately show ?thesis
    using assms(1)
    by (auto simp: persist_locked_def wp_mkdir_present control_at_def control_between_def
        intro!: wp_mono [OF replace_file_wp [OF at]])
qed

lemma read_control_wp:
  assumes "control_at sha path st f"
  shows "wp b (io_bind (read_folder_control_state path) k) Q E C f \<longleftrightarrow>
    C f \<and> (b \<longrightarrow> E ''I/O error'' f) \<and> wp b (k (st, 2, True)) Q E C f"
proof -
  have "single_doc control_state_bytes readable_document (f path) = Some (Some (control_document_of st))"
    "control_ok sha st"
    using assms by (simp_all add: control_at_def single_at_def)
  then show ?thesis
    by (simp add: read_folder_control_state_def io_bind_assoc wp_read_single io_bind_lift
        load_document_of control_ok_loadable)
qed

lemma new_store_wp:
  assumes "control_at sha path st f"
  shows "wp b (new_folder_control_store sha sz path [] []) (\<lambda>r g. r = st \<and> g = f)
     (\<lambda>_ g. b \<and> g = f) (\<lambda>g. g = f) f"
proof -
  have "is_abs path" "validate_folder_control_records sha (Records st)"
    using assms by (simp_all add: control_at_def control_ok_def)
  then show ?thesis
    by (simp add: new_folder_control_store_def read_control_wp [OF assms] io_bind_lift io_when_def wp_ret)
qed

interpretation control_store: crash_store "\<lambda>st. st" "storable_control sha sz" "control_at sha path"
  "control_between sha path" "persist_locked sz path" "new_folder_control_store sha sz path [] []"
  for sha sz path
proof unfold_locales
  show "control_at sha path x f \<Longrightarrow> storable_control sha sz d \<Longrightarrow>
     wp False (persist_locked sz path d) (\<lambda>_. control_at sha path d) (\<lambda>_ _. False) (control_between sha path x d) f"
    for x f d by (rule wp_mono [OF persist_locked_wp [where b = False]]) auto
next
  show "control_between sha path x y f \<Longrightarrow>
     wp False (new_folder_control_store sha sz path [] []) (\<lambda>r g. (r = x \<or> r = y) \<and> control_at sha path r g)
       (\<lambda>_ _. False) (control_between sha path x y) f" for x y f
    unfolding control_between_def
    by (elim disjE; rule wp_mono [OF new_store_wp [where b = False]]) auto
qed (auto simp: control_between_def)

lemma bind_folders_keeps:
  "bind_folders sha inventory folders (rs, c) = Inr (rs', c') \<Longrightarrow> go_map rs \<Longrightarrow>
   map_of rs i = Some r \<Longrightarrow> \<exists>r'. map_of rs' i = Some r' \<and> PendingStop r' = PendingStop r \<and>
     PendingMembership r' = PendingMembership r \<and> go_map rs'"
proof (induction sha inventory folders "(rs, c)" arbitrary: rs c r rule: bind_folders.induct)
  case (2 sha inventory folder folders rs c)
  obtain q d where q: "(case map_of rs (FID folder) of
            None \<Rightarrow> (blank_record\<lparr>FirstSync := True, FirstSyncEpoch := 1\<rparr>, True)
          | Some r \<Rightarrow> if FirstSyncEpoch r = 0 then (r\<lparr>FirstSyncEpoch := 1\<rparr>, True) else (r, c)) = (q, d)"
    by fastforce
  have same: "PendingStop q = PendingStop r \<and> PendingMembership q = PendingMembership r" if "FID folder = i"
    using q "2.prems"(3) that by (auto split: if_splits)
  show ?case
  proof (cases "complete_folder_binding q")
    case True
    have "\<exists>x. map_of (map_put (FID folder) q rs) i = Some x \<and> PendingStop x = PendingStop r \<and> PendingMembership x = PendingMembership r"
      using "2.prems"(2,3) same by auto
    then obtain x where x: "map_of (map_put (FID folder) q rs) i = Some x"
      "PendingStop x = PendingStop r" "PendingMembership x = PendingMembership r" by blast
    have "bind_folders sha inventory folders (map_put (FID folder) q rs, d) = Inr (rs', c')"
      using "2.prems"(1) q True by (simp add: Let_def)
    from "2.hyps"(1) [OF q [symmetric] refl True this go_map_put [OF "2.prems"(2)] x(1)] x show ?thesis by simp
  next
    case False
    then obtain b where b: "legacy_folder_binding sha folder inventory = Inr b"
      and rest: "bind_folders sha inventory folders (map_put (FID folder) (q\<lparr>CardID := CardID b, Kind := Kind b,
          MarkerName := MarkerName b\<rparr>) rs, True) = Inr (rs', c')"
      using "2.prems"(1) q by (auto simp: Let_def sum_bind_Inr)
    have "\<exists>x. map_of (map_put (FID folder) (q\<lparr>CardID := CardID b, Kind := Kind b, MarkerName := MarkerName b\<rparr>) rs) i = Some x \<and>
        PendingStop x = PendingStop r \<and> PendingMembership x = PendingMembership r"
      using "2.prems"(2,3) same by auto
    then obtain x where x: "map_of (map_put (FID folder) (q\<lparr>CardID := CardID b, Kind := Kind b, MarkerName := MarkerName b\<rparr>) rs) i = Some x"
      "PendingStop x = PendingStop r" "PendingMembership x = PendingMembership r" by blast
    from "2.hyps"(2) [OF q [symmetric] refl False rest go_map_put [OF "2.prems"(2)] x(1)] x show ?thesis by simp
  qed
qed auto

section \<open>Properties\<close>

text \<open>
  C17. Every operation of the folder control store keeps it well formed (sixteen folders at most,
  one folder per card and content kind, every binding derived from its card, at most one
  operation under way per folder, canonical device ids), in memory also when persisting fails;
  the one operation left out starts a membership change on a folder that is being stopped.
\<close>

theorem control_operations_keep_valid:
  assumes "control_ok sha st" and "\<not> starts_membership_of_stopping op st"
  shows "case control_step sha op st of
      Inl _ \<Rightarrow> True | Inr None \<Rightarrow> True
    | Inr (Some (new, kept)) \<Rightarrow> control_ok sha new \<and> control_ok sha kept"
  using control_step_ok [OF assms(1) _ assms(2)] by (auto split: sum.split option.split)

text \<open>
  C18. Running an operation under any faults (failed system calls and power loss) keeps the file
  readable: when it returns without an error the file holds the store that is in memory, when it
  returns an error or the process dies the file holds the store before or the new one, and a boot
  after any number of boots that were cut off opens exactly what the file holds.
\<close>

theorem control_operation_durable:
  assumes "control_at sha path st f" and "storable_control sha sz st"
    and "\<not> starts_membership_of_stopping op st"
    and "\<forall>new kept. control_step sha op st = Inr (Some (new, kept)) \<longrightarrow> storable_control sha sz new"
    and "boot (run_control sha sz path op st) p f = (r, g)"
    and "\<forall>q \<in> set ps. Fail \<notin> set q"
  shows "\<exists>found h. run_clean (new_folder_control_store sha sz path [] [])
        (boots (new_folder_control_store sha sz path [] []) ps g) = (Ok found, h) \<and>
     (case r of
        Ok (None, m) \<Rightarrow> found = m
      | Ok (Some e, m) \<Rightarrow> found = st \<or> control_step sha op st = Inr (Some (found, m))
      | Died \<Rightarrow> found = st \<or> (\<exists>kept. control_step sha op st = Inr (Some (found, kept)))
      | Failed e \<Rightarrow> False)"
proof -
  note boots_ok = control_store.recover_boots [OF _ assms(6), where sha = sha and sz = sz and path = path]
  have same: "\<exists>h. run_clean (new_folder_control_store sha sz path [] [])
        (boots (new_folder_control_store sha sz path [] []) ps g') = (Ok x, h)" if "control_at sha path x g'" for x g'
    using control_store.recover_clean [OF boots_ok [where x = x and y = x and f = g'], where sz = sz] that
    by (auto simp: control_between_def)
  show ?thesis
  proof (cases "\<exists>new kept. control_step sha op st = Inr (Some (new, kept))")
    case False
    then have "r = Ok (None, st) \<or> (\<exists>e. r = Ok (Some e, st))" "g = f"
      using assms(5) by (auto simp: run_control_def boot_def io_ret_def split: sum.splits option.splits)
    then show ?thesis using same [OF assms(1)] by auto
  next
    case True
    then obtain new kept where step: "control_step sha op st = Inr (Some (new, kept))" by blast
    have "wp True (run_control sha sz path op st)
       (\<lambda>(e, m) h. if e = None then m = new \<and> control_at sha path new h else m = kept \<and> control_between sha path st new h)
       (\<lambda>_ _. False) (control_between sha path st new) f"
      by (auto simp: run_control_def step wp_ret intro!: wp_try_bindI
          wp_mono [OF persist_locked_wp [OF assms(1) assms(4) [rule_format, OF step], where b = True]])
    from boot_sat [OF this _ assms(5)] show ?thesis
      using same step by (cases r) (fastforce simp: control_between_def split: if_splits)+
  qed
qed

text \<open>
  C34. A membership change on a folder whose stop is under way is accepted, and the document it
  stores is one that no later start of the controller opens, whatever the configured folders and
  the cards are: the store refuses its own record.
\<close>

theorem stopped_membership_bricks:
  assumes "control_at sha path st f" and "map_of (Records st) i = Some r" and "PendingStop r"
    and "normalize_device_id d = Inr e" and "operation = ''share'' \<or> operation = ''unshare''"
    and "\<And>x. 0 < sz x \<and> sz x \<le> control_state_bytes"
  shows "\<exists>m g. run_clean (run_control sha sz path (Begin_Membership i d operation) st) f = (Ok (None, m), g) \<and>
    (\<forall>folders inventory. \<exists>e. fst (run_clean (new_folder_control_store sha sz path folders inventory) g) = Failed e)"
proof -
  have st: "control_ok sha st" "is_abs path" and g: "go_map (Records st)"
    and at: "single_at control_state_bytes readable_document path (Some (control_document_of st)) f"
    using assms(1) by (simp_all add: control_at_def control_ok_def)
  have ir: "(i, r) \<in> set (Records st)" using assms(2) g by (simp add: go_map_of)
  then have r: "\<not> PendingAdd r" "PendingMembership r = ''''" "valid_folder_id i"
    using st(1) assms(3)
    by (auto simp: control_ok_def validate_folder_control_records_def valid_record_def valid_pending_def)
  define new where "new = put_control i (r\<lparr>PendingMembership := operation, PendingDeviceID := e\<rparr>) st"
  have step: "\<exists>kept. control_step sha (Begin_Membership i d operation) st = Inr (Some (new, kept))"
    using assms(2,4,5) r by (auto simp: begin_membership_def Let_def new_def)
  have "i \<in> fst ` set (Records st)" using ir by force
  then have "loadable new"
    using control_ok_loadable [OF st(1)] g r(3) by (auto simp: loadable_def new_def put_control_def length_map_put)
  note loaded = load_document_of [OF this] readable_document_of [OF this]
  then have sto: "storable control_state_bytes readable_document sz (control_document_of new)"
    using assms(6) by (simp add: storable_def)
  let ?at = "single_at control_state_bytes readable_document path (Some (control_document_of new))"
  have sat: "wp False (run_control sha sz path (Begin_Membership i d operation) st)
      (\<lambda>(e, m) h. e = None \<and> m = new \<and> ?at h) (\<lambda>_ _. False) (\<lambda>_. True) f"
    using step at
    by (auto simp: run_control_def persist_locked_def wp_mkdir_present single_at_def wp_ret
        intro!: wp_try_bindI wp_mono [OF replace_file_wp [OF at sto, where b = False]])
  obtain res h where run: "run_clean (run_control sha sz path (Begin_Membership i d operation) st) f = (res, h)"
    by fastforce
  then have res: "res = Ok (None, new)" and h: "?at h"
    using run_clean_sat [OF sat run] by (cases res; auto)+
  have "\<exists>e. fst (run_clean (new_folder_control_store sha sz path folders inventory) h) = Failed e" for folders inventory
  proof -
    have stored: "single_doc control_state_bytes readable_document (h path) = Some (Some (control_document_of new))"
      using h by (simp add: single_at_def)
    have bad: "\<not> validate_folder_control_records sha rs"
      if b: "bind_folders sha inventory folders (Records new, False) = Inr (rs, c)" for rs c
    proof -
      have "go_map (Records new)" "map_of (Records new) i = Some (r\<lparr>PendingMembership := operation, PendingDeviceID := e\<rparr>)"
        using g by (simp_all add: new_def put_control_def go_map_put)
      from bind_folders_keeps [OF b this] obtain q where "(i, q) \<in> set rs" "PendingStop q" "PendingMembership q = operation"
        using assms(3) by (auto simp: go_map_of)
      then show ?thesis
        using assms(5) by (auto simp: validate_folder_control_records_def valid_record_def valid_pending_def)
    qed
    have "wp False (new_folder_control_store sha sz path folders inventory) (\<lambda>_ _. False) (\<lambda>_ _. True) (\<lambda>_. True) h"
      using st(2) bad stored
      by (auto simp: new_folder_control_store_def read_folder_control_state_def io_bind_assoc
          wp_read_single io_bind_lift loaded wp_fail split: sum.split)
    note sat = run_clean_sat [OF this]
    show ?thesis
      using sat by (cases "run_clean (new_folder_control_store sha sz path folders inventory) h")
        (auto split: outcome.splits)
  qed
  with run res show ?thesis by blast
qed

section \<open>Witnesses\<close>

definition sample_sha :: "string \<Rightarrow> string" where
  "sample_sha _ = replicate 64 CHR ''0''"

definition sample_record :: "bool \<Rightarrow> control_record" where
  "sample_record stopped = blank_record\<lparr>CardID := replicate 32 CHR ''0'', Kind := ''saves'',
     MarkerName := ''.leaf-saves-000000000000'', FirstSyncEpoch := 1, PendingStop := stopped\<rparr>"

definition sample_control :: "bool \<Rightarrow> folder_control" where
  "sample_control stopped = \<lparr>Records = [(''leaf-saves'', sample_record stopped)], Offers = [], PendingDeviceRemoval = ''''\<rparr>"

definition sample_device :: string where
  "sample_device = sample_device_of CHR ''A''"

definition control_path :: string where "control_path = ''/s/c.json''"

definition control_files :: "folder_control \<Rightarrow> control_document fs" where
  "control_files st = (\<lambda>p. if p = ''/s'' then Some Dir
     else if p = control_path then Some (Reg (Doc (control_document_of st) 9)) else None)"

lemma sample_control_ok: "control_ok sample_sha (sample_control False)" "control_ok sample_sha (sample_control True)"
  by code_simp+

lemma control_files_at:
  assumes "control_ok sha st"
  shows "control_at sha control_path st (control_files st)"
proof -
  have "dir_name control_path = ''/s''" "is_abs control_path" by code_simp+
  with assms show ?thesis
    by (simp add: control_at_def single_at_def control_files_def control_path_def tmp_of_def
        readable_document_of control_ok_loadable control_state_bytes_def)
qed

lemma small_storable: "control_ok sha st \<Longrightarrow> storable_control sha (\<lambda>_. 9) st"
  by (simp add: storable_control_def control_state_bytes_def)

theorem control_operations_keep_valid_witness:
  "case control_step sample_sha (Begin_Stop ''leaf-saves'') (sample_control False) of
     Inr (Some (new, _)) \<Rightarrow> control_ok sample_sha new \<and> stopping new ''leaf-saves'' | _ \<Rightarrow> False"
proof -
  have "case control_step sample_sha (Begin_Stop ''leaf-saves'') (sample_control False) of
     Inr (Some (new, _)) \<Rightarrow> stopping new ''leaf-saves'' | _ \<Rightarrow> False"
    by code_simp
  with control_operations_keep_valid [OF sample_control_ok(1), of "Begin_Stop ''leaf-saves''"]
  show ?thesis
    by (auto simp: starts_membership_of_stopping_def split: sum.splits option.splits)
qed

theorem control_operation_durable_witness:
  "\<exists>found h. run_clean (new_folder_control_store sample_sha (\<lambda>_. 9) control_path [] [])
      (snd (boot (run_control sample_sha (\<lambda>_. 9) control_path (Set_Manual ''leaf-saves'' True) (sample_control False))
        (replicate 6 Pass @ [Die]) (control_files (sample_control False)))) = (Ok found, h)"
proof -
  note ok = sample_control_ok(1)
  have start: "\<not> starts_membership_of_stopping (Set_Manual ''leaf-saves'' True) (sample_control False)"
    by (simp add: starts_membership_of_stopping_def)
  have new: "\<forall>new kept. control_step sample_sha (Set_Manual ''leaf-saves'' True) (sample_control False) = Inr (Some (new, kept)) \<longrightarrow>
      storable_control sample_sha (\<lambda>_. 9) new"
    using control_step_ok [OF ok _ start] small_storable by blast
  obtain r g where "boot (run_control sample_sha (\<lambda>_. 9) control_path (Set_Manual ''leaf-saves'' True) (sample_control False))
        (replicate 6 Pass @ [Die]) (control_files (sample_control False)) = (r, g)" by fastforce
  from control_operation_durable [OF control_files_at [OF ok] small_storable [OF ok] start new this, where ps = "[]"] this
  show ?thesis by auto
qed

theorem stopped_membership_bricks_witness:
  "\<exists>m g e. run_clean (run_control sample_sha (\<lambda>_. 9) control_path (Begin_Membership ''leaf-saves'' sample_device ''share'')
      (sample_control True)) (control_files (sample_control True)) = (Ok (None, m), g) \<and>
    fst (run_clean (new_folder_control_store sample_sha (\<lambda>_. 9) control_path [] []) g) = Failed e"
proof -
  have "normalize_device_id sample_device = Inr sample_device"
    unfolding sample_device_def by (rule sample_device_normal [OF device_chars(1)])
  from stopped_membership_bricks [OF control_files_at [OF sample_control_ok(2)], of "''leaf-saves''" "sample_record True",
      OF _ _ this, of "''share''" "\<lambda>_. 9"]
  show ?thesis
    by (auto simp: sample_control_def sample_record_def control_state_bytes_def)
qed

end
