(* ===== verification/Folder_Reconcile.thy ===== *)
theory Folder_Reconcile
  imports Folder_Control
begin

text \<open>
  \<open>controller/folders.go\<close>: what the controller shows of every managed folder and whether the
  folder has to be paused.  \<open>reconcileManagedFolders\<close> looks at the marker directories, so it runs
  in \<open>io\<close>; issues are named by their codes.
\<close>

section \<open>Rows\<close>

record folder_row =
  RowID :: string
  RowLabel :: string
  RowKind :: string
  RowPath :: string
  RowCard :: string
  RowType :: string
  RowState :: string
  RowPaused :: bool
  Reasons :: "string list"
  RowRescan :: bool
  RowVersioning :: string
  RowIssues :: "string list"
  PeerCount :: nat
  DeviceIDs :: "string list"

definition append_unique :: "string list \<Rightarrow> string \<Rightarrow> string list" where
  "append_unique vs v = (if v \<in> set vs then vs else vs @ [v])"

definition add_folder_issue :: "string \<Rightarrow> folder_row \<Rightarrow> folder_row" where
  "add_folder_issue code row = row\<lparr>RowIssues := RowIssues row @ [code]\<rparr>"

definition issue_when :: "bool \<Rightarrow> string \<Rightarrow> folder_row \<Rightarrow> folder_row" where
  "issue_when b code row = (if b then add_folder_issue code row else row)"

definition add_reason :: "string \<Rightarrow> folder_row \<Rightarrow> folder_row" where
  "add_reason reason row = row\<lparr>Reasons := append_unique (Reasons row) reason\<rparr>"

definition managed_content_path :: "source \<Rightarrow> string \<Rightarrow> string" where
  "managed_content_path s kind =
     (if kind = ''saves'' then SavesPath s else if kind = ''states'' then StatesPath s else '''')"

definition folder_kind_label :: "string \<Rightarrow> string" where
  "folder_kind_label kind =
     (if kind = ''saves'' then ''Saves'' else if kind = ''states'' then ''States''
      else ''Folder ('' @ kind @ '')'')"

definition source_label :: "source \<Rightarrow> string" where
  "source_label s =
     (if Primary s \<or> ID s = ''primary'' then ''Primary''
      else if ID s = ''secondary_sd'' then ''Secondary'' else ID s)"

definition remote_peer_count :: "string list \<Rightarrow> nat" where
  "remote_peer_count devices = length devices - 1"

definition version_path :: "source \<Rightarrow> string \<Rightarrow> string" where
  "version_path s kind = join_path [UserdataPath s, app_state_name, ''versions'', kind]"

definition storage_reason :: "leaf_card \<Rightarrow> string" where
  "storage_reason c = ''storage:'' @ IID (Identity c)"

definition pause_reasons :: "control_record \<Rightarrow> string list" where
  "pause_reasons r = (if Manual r then [''manual''] else []) @ (if FirstSync r then [''first-sync''] else []) @
     (if PendingMembership r \<noteq> '''' then [''membership''] else []) @ (if PendingStop r then [''stop''] else [])"

text \<open>The row before the card is known.\<close>

definition start_row :: "configured_folder \<Rightarrow> control_record \<Rightarrow> folder_row" where
  "start_row folder control =
     \<lparr>RowID = FID folder,
      RowLabel = (if FLabel folder = '''' then ''Leaf '' @ folder_kind_label (FKind folder) else FLabel folder),
      RowKind = FKind folder, RowPath = FPath folder, RowCard = '''', RowType = FType folder,
      RowState = ''idle'', RowPaused = False, Reasons = pause_reasons control, RowRescan = PendingRescan control,
      RowVersioning = (if FVersioningType folder = '''' then ''none'' else FVersioningType folder),
      RowIssues = [], PeerCount = remote_peer_count (FDevices folder), DeviceIDs = FDevices folder\<rparr>"

text \<open>A row that stops at its error: paused for its health.\<close>

definition error_row :: "folder_row \<Rightarrow> folder_row" where
  "error_row row = (add_reason ''health'' row)\<lparr>RowPaused := True, RowState := ''error''\<rparr>"

text \<open>The last lines of the loop body.\<close>

definition close_row :: "folder_row \<Rightarrow> folder_row" where
  "close_row row =
     (let row = (if RowIssues row \<noteq> [] then (add_reason ''health'' row)\<lparr>RowState := ''error''\<rparr> else row);
          row = row\<lparr>RowPaused := Reasons row \<noteq> []\<rparr>
      in if RowPaused row \<and> RowIssues row = [] then row\<lparr>RowState := ''paused''\<rparr> else row)"

definition receive_capable :: "configured_folder \<Rightarrow> bool" where
  "receive_capable folder \<longleftrightarrow> FType folder \<noteq> ''sendonly''"

text \<open>The checks against the one card that carries the folder's identity, up to the marker.\<close>

definition card_checks :: "configured_folder \<Rightarrow> control_record \<Rightarrow> leaf_card \<Rightarrow> folder_row \<Rightarrow> folder_row" where
  "card_checks folder control c row0 =
     (let row = row0\<lparr>RowCard := IID (Identity c), RowLabel := RowLabel row0 @
            [CHR '' '', CHR 0xE2, CHR 0x80, CHR 0x94, CHR '' ''] @ source_label (Source c)\<rparr>;
          expected = managed_content_path (Source c) (FKind folder);
          row = issue_when (expected = '''' \<or> clean (FPath folder) \<noteq> clean expected) ''unsafe-folder-path'' row;
          row = (if State c \<noteq> Enrolled \<or> \<not> Present c \<or> DuplicateID c
                 then add_folder_issue ''card-unavailable'' (row\<lparr>Reasons := Reasons row @ [storage_reason c]\<rparr>) else row);
          row = issue_when (FType folder \<notin> {''sendonly'', ''sendreceive'', ''receiveonly''}) ''unsupported-folder-type'' row;
          row = (if receive_capable folder \<and> \<not> Writable c
                 then add_folder_issue ''card-read-only'' (add_reason (storage_reason c) row) else row)
      in issue_when (FMarkerName folder \<noteq> MarkerName control) ''unsafe-folder-marker'' row)"

definition marker_issue :: "error + unit \<Rightarrow> folder_row \<Rightarrow> folder_row" where
  "marker_issue r row = (case r of
     Inr _ \<Rightarrow> row
   | Inl e \<Rightarrow>
       if e = ''default .stfolder indicates a foreign Syncthing manager''
       then add_folder_issue ''foreign-folder-manager'' row
       else if e = ''managed folder marker is missing'' then add_folder_issue ''marker-missing'' row
       else add_folder_issue ''unsafe-folder-marker'' row)"

definition versioning_check :: "configured_folder \<Rightarrow> leaf_card \<Rightarrow> folder_row \<Rightarrow> folder_row" where
  "versioning_check folder c row =
     issue_when (receive_capable folder \<and>
       (FVersioningType folder \<noteq> ''simple'' \<or>
        clean (FVersioningFSPath folder) \<noteq> clean (version_path (Source c) (FKind folder)) \<or>
        FVersioningFSType folder \<noteq> ''basic'')) ''unsafe-versioning'' row"

definition reconcile_folder :: "leaf_card list \<Rightarrow> (string \<times> control_record) list \<Rightarrow> configured_folder \<Rightarrow>
    ('d, folder_row) io" where
  "reconcile_folder inventory controls folder =
     (let registered = map_of controls (FID folder);
          control = (case registered of None \<Rightarrow> blank_record | Some r \<Rightarrow> r);
          row = start_row folder control
      in if registered = None \<or> \<not> complete_folder_binding control
         then io_ret (error_row (add_folder_issue ''unregistered-folder'' row))
         else
           let row = issue_when (FKind folder \<noteq> Kind control) ''unsafe-folder-kind'' (row\<lparr>RowCard := CardID control\<rparr>)
           in (case filter (\<lambda>c. IID (Identity c) \<noteq> '''' \<and> IID (Identity c) = CardID control) inventory of
                 [c] \<Rightarrow>
                   let row = card_checks folder control c row;
                       expected = managed_content_path (Source c) (FKind folder)
                   in if expected \<noteq> '''' \<and> clean (FPath folder) = clean expected \<and> Present c
                      then io_bind (io_try (validate_managed_marker expected (MarkerName control))) (\<lambda>r.
                        io_ret (close_row (versioning_check folder c (marker_issue r row))))
                      else io_ret (close_row (versioning_check folder c row))
               | [] \<Rightarrow> io_ret (error_row (add_folder_issue ''unknown-card-binding'' row))
               | _ \<Rightarrow> io_ret (error_row (add_folder_issue ''duplicate-card-id'' row))))"

definition reconcile_managed_folders :: "leaf_card list \<Rightarrow> (string \<times> control_record) list \<Rightarrow>
    configured_folder list \<Rightarrow> ('d, folder_row list) io" where
  "reconcile_managed_folders inventory controls folders = io_map (reconcile_folder inventory controls) folders"

definition pause_set_of :: "folder_row list \<Rightarrow> (string \<times> bool) list" where
  "pause_set_of rows = fold (\<lambda>row m. map_put (RowID row) (RowPaused row) m) rows []"

definition required_offline_pause_set :: "leaf_card list \<Rightarrow> (string \<times> control_record) list \<Rightarrow>
    configured_folder list \<Rightarrow> ('d, (string \<times> bool) list) io" where
  "required_offline_pause_set inventory controls folders =
     io_bind (reconcile_managed_folders inventory controls folders) (\<lambda>rows. io_ret (pause_set_of rows))"

section \<open>What an unpaused folder guarantees\<close>

text \<open>
  The marker as the file system has it: a real directory with the folder's own marker and
  without the default marker of a foreign manager.
\<close>

definition marker_present :: "string \<Rightarrow> string \<Rightarrow> 'd fs \<Rightarrow> bool" where
  "marker_present root marker f \<longleftrightarrow>
     marker \<noteq> '''' \<and> marker \<noteq> ''.stfolder'' \<and> base_name marker = marker \<and> f root = Some Dir \<and>
     f (join_path [root, ''.stfolder'']) = None \<and> f (join_path [root, marker]) = Some Dir"

definition safe_folder :: "leaf_card list \<Rightarrow> (string \<times> control_record) list \<Rightarrow> configured_folder \<Rightarrow> 'd fs \<Rightarrow> bool" where
  "safe_folder inventory controls folder f \<longleftrightarrow>
     (\<exists>r c. map_of controls (FID folder) = Some r \<and> complete_folder_binding r \<and>
        \<not> Manual r \<and> \<not> FirstSync r \<and> PendingMembership r = '''' \<and> \<not> PendingStop r \<and>
        FKind folder = Kind r \<and> FMarkerName folder = MarkerName r \<and>
        filter (\<lambda>c. IID (Identity c) \<noteq> '''' \<and> IID (Identity c) = CardID r) inventory = [c] \<and>
        State c = Enrolled \<and> Present c \<and> \<not> DuplicateID c \<and>
        managed_content_path (Source c) (FKind folder) \<noteq> '''' \<and>
        clean (FPath folder) = clean (managed_content_path (Source c) (FKind folder)) \<and>
        marker_present (managed_content_path (Source c) (FKind folder)) (MarkerName r) f \<and>
        FType folder \<in> {''sendonly'', ''sendreceive'', ''receiveonly''} \<and>
        (FType folder \<noteq> ''sendonly'' \<longrightarrow> Writable c \<and> FVersioningType folder = ''simple'' \<and>
           FVersioningFSType folder = ''basic'' \<and>
           clean (FVersioningFSPath folder) = clean (version_path (Source c) (FKind folder))))"

lemma wp_validate_managed_marker:
  assumes "C f" and "\<And>e. wp b (k (Inl e)) Q E C f" and "marker_present root marker f \<Longrightarrow> wp b (k (Inr ())) Q E C f"
  shows "wp b (io_bind (io_try (validate_managed_marker root marker)) k) Q E C f"
  using assms by (auto simp: validate_managed_marker_def marker_present_def wp_exec split: option.split)

lemma append_unique_nonempty [simp]: "append_unique vs v \<noteq> []"
  by (auto simp: append_unique_def)

lemmas row_defs = add_reason_def add_folder_issue_def issue_when_def error_row_def close_row_def
  card_checks_def marker_issue_def versioning_check_def Let_def

lemma close_row_unpaused:
  "\<not> RowPaused (close_row row) \<longleftrightarrow> RowIssues row = [] \<and> Reasons row = []"
  by (auto simp: row_defs)

lemma close_row_id [simp]: "RowID (close_row row) = RowID row"
  by (simp add: row_defs)

lemma marker_issue_unpaused:
  "RowIssues (versioning_check folder c (marker_issue r row)) = [] \<Longrightarrow>
   r = Inr () \<and> RowIssues row = [] \<and> (receive_capable folder \<longrightarrow> FVersioningType folder = ''simple'' \<and>
     FVersioningFSType folder = ''basic'' \<and> clean (FVersioningFSPath folder) = clean (version_path (Source c) (FKind folder)))"
  by (cases r) (auto simp: row_defs split: if_splits)

lemma versioning_check_simps [simp]:
  "Reasons (versioning_check folder c row) = Reasons row" "RowID (versioning_check folder c row) = RowID row"
  "Reasons (marker_issue r row) = Reasons row" "RowID (marker_issue r row) = RowID row"
  by (auto simp: row_defs split: sum.split)

lemma card_checks_clear:
  assumes "RowIssues (card_checks folder control c row) = []"
  shows "RowIssues row = [] \<and> managed_content_path (Source c) (FKind folder) \<noteq> '''' \<and>
    clean (FPath folder) = clean (managed_content_path (Source c) (FKind folder)) \<and>
    State c = Enrolled \<and> Present c \<and> \<not> DuplicateID c \<and> FType folder \<in> {''sendonly'', ''sendreceive'', ''receiveonly''} \<and>
    (receive_capable folder \<longrightarrow> Writable c) \<and> FMarkerName folder = MarkerName control \<and>
    Reasons (card_checks folder control c row) = Reasons row"
  using assms by (auto simp: row_defs split: if_splits)

lemma card_checks_id [simp]: "RowID (card_checks folder control c row) = RowID row"
  by (simp add: row_defs)

lemma error_row_facts [simp]: "RowPaused (error_row row)" "RowID (error_row row) = RowID row"
  "RowID (add_folder_issue code row) = RowID row" "RowID (issue_when b code row) = RowID row"
  "RowID (start_row folder control) = FID folder"
  by (simp_all add: row_defs start_row_def)

lemma start_reasons: "Reasons (start_row folder r) = [] \<longleftrightarrow>
    \<not> Manual r \<and> \<not> FirstSync r \<and> PendingMembership r = '''' \<and> \<not> PendingStop r"
  by (simp add: start_row_def pause_reasons_def)

lemma reconcile_folder_wp:
  fixes f :: "'d fs"
  shows "wp True (reconcile_folder inventory controls folder)
     (\<lambda>row g. g = f \<and> RowID row = FID folder \<and> (\<not> RowPaused row \<longrightarrow> safe_folder inventory controls folder f))
     (\<lambda>_ _. False) (\<lambda>g. g = f) f"
    (is "wp True _ ?Q _ _ f")
proof (cases "map_of controls (FID folder)")
  case None
  then show ?thesis by (simp add: reconcile_folder_def wp_ret)
next
  case (Some r)
  define row where "row = issue_when (FKind folder \<noteq> Kind r) ''unsafe-folder-kind'' ((start_row folder r)\<lparr>RowCard := CardID r\<rparr>)"
  have row: "RowID row = FID folder" "RowIssues row = [] \<Longrightarrow> FKind folder = Kind r"
    "Reasons row = Reasons (start_row folder r)"
    by (auto simp: row_def issue_when_def add_folder_issue_def start_row_def split: if_splits)
  let ?cards = "filter (\<lambda>c. IID (Identity c) \<noteq> '''' \<and> IID (Identity c) = CardID r) inventory"
  show ?thesis
  proof (cases "complete_folder_binding r \<and> (\<exists>c. ?cards = [c])")
    case False
    then show ?thesis
      using Some row(1)
      by (cases ?cards rule: remdups_adj.cases)
         (auto simp: reconcile_folder_def Let_def row_def [symmetric] wp_ret)
  next
    case True
    then obtain c where c: "complete_folder_binding r" "?cards = [c]" by blast
    define expected where "expected = managed_content_path (Source c) (FKind folder)"
    define closed where "closed = (\<lambda>m. close_row (versioning_check folder c (marker_issue m (card_checks folder r c row))))"
    have post: "?Q (closed m) f" if "m = Inr () \<Longrightarrow> marker_present expected (MarkerName r) f" for m
      unfolding closed_def close_row_unpaused
      using marker_issue_unpaused [of folder c m "card_checks folder r c row"] card_checks_clear [of folder r c row]
        row Some c that start_reasons [of folder r]
      by (auto simp: safe_folder_def receive_capable_def expected_def)
    have stop: "?Q (close_row (versioning_check folder c (card_checks folder r c row))) f"
      if "\<not> (expected \<noteq> '''' \<and> clean (FPath folder) = clean expected \<and> Present c)"
      unfolding close_row_unpaused
      using marker_issue_unpaused [of folder c "Inr ()" "card_checks folder r c row"] card_checks_clear [of folder r c row] row that
      by (auto simp: expected_def marker_issue_def)
    have "reconcile_folder inventory controls folder =
        (if expected \<noteq> '''' \<and> clean (FPath folder) = clean expected \<and> Present c
         then io_bind (io_try (validate_managed_marker expected (MarkerName r))) (\<lambda>m. io_ret (closed m))
         else io_ret (close_row (versioning_check folder c (card_checks folder r c row))) :: ('d, folder_row) io)"
      using Some c by (simp add: reconcile_folder_def Let_def row_def expected_def closed_def)
    moreover have "?Q (closed (Inl e)) f" "marker_present expected (MarkerName r) f \<Longrightarrow> ?Q (closed (Inr ())) f" for e
      by (rule post, simp)+
    ultimately show ?thesis
      using stop by (auto simp: wp_ret intro!: wp_validate_managed_marker)
  qed
qed

lemma io_map_wp:
  assumes "\<And>x. x \<in> set xs \<Longrightarrow> wp b (m x) (\<lambda>y g. g = f \<and> P x y) (\<lambda>_ _. False) (\<lambda>g. g = f) f"
  shows "wp b (io_map m xs) (\<lambda>ys g. g = f \<and> list_all2 P xs ys) (\<lambda>_ _. False) (\<lambda>g. g = f) f"
  using assms
proof (induction xs)
  case (Cons x xs)
  have rest: "wp b (io_map m xs) (\<lambda>ys g. g = f \<and> list_all2 P xs ys) (\<lambda>_ _. False) (\<lambda>g. g = f) f"
    using Cons by simp
  show ?case
    using Cons.prems [of x]
    by (auto simp: wp_ret intro!: wp_bindI elim!: wp_mono intro: wp_mono [OF rest])
qed (simp add: wp_ret)

lemma pause_set_keys: "fst ` set (fold (\<lambda>row m. map_put (RowID row) (RowPaused row) m) rows m) = RowID ` set rows \<union> fst ` set m"
  by (induction rows arbitrary: m) auto

lemma pause_set_of_map:
  assumes "distinct (map RowID rows)" and "row \<in> set rows"
  shows "go_map (pause_set_of rows) \<and> map_of (pause_set_of rows) (RowID row) = Some (RowPaused row)"
proof -
  have "go_map m \<Longrightarrow> go_map (fold (\<lambda>row m. map_put (RowID row) (RowPaused row) m) rows m) \<and>
      (\<forall>x. map_of (fold (\<lambda>row m. map_put (RowID row) (RowPaused row) m) rows m) x =
        (case find (\<lambda>row. RowID row = x) rows of None \<Rightarrow> map_of m x | Some row \<Rightarrow> Some (RowPaused row)))" for m
    using assms(1)
  proof (induction rows arbitrary: m)
    case (Cons r rs)
    have "find (\<lambda>row. RowID row = RowID r) rs = None"
      using Cons.prems(2) unfolding find_None_iff by (metis distinct.simps(2) image_eqI list.set_map list.simps(9))
    with Cons.IH [OF go_map_put [OF Cons.prems(1)], of "RowID r" "RowPaused r"] Cons.prems show ?case
      by (auto split: option.split)
  qed simp
  from this [of "[]"] have g: "go_map (pause_set_of rows)" and
    m: "map_of (pause_set_of rows) (RowID row) = (case find (\<lambda>q. RowID q = RowID row) rows of None \<Rightarrow> None | Some q \<Rightarrow> Some (RowPaused q))"
    by (simp_all add: pause_set_of_def split: option.split)
  have "find (\<lambda>q. RowID q = RowID row) rows \<noteq> None" using assms(2) by (auto simp: find_None_iff)
  then obtain q where q: "find (\<lambda>q. RowID q = RowID row) rows = Some q" by blast
  then have "q \<in> set rows" "RowID q = RowID row" by (auto simp: find_Some_iff)
  then have "q = row" using assms by (auto simp: distinct_map inj_on_def)
  with q g m show ?thesis by simp
qed

section \<open>Properties\<close>

text \<open>
  C1. Computing the rows of the managed folders, under failing system calls and a process that
  may die anywhere, never fails and changes no file; and a folder it leaves unpaused is safe to
  sync: its durable record binds it to exactly one enrolled, present, unduplicated card, its path
  is that card's content directory and carries its own marker and no foreign one, no manual
  pause, first sync, membership change or stop is pending, and a folder that can receive has a
  writable card and keeps old versions on the same card.
\<close>

theorem unpaused_folders_are_safe:
  assumes "boot (reconcile_managed_folders inventory controls folders) p f = (r, g)"
  shows "g = f \<and> (case r of
      Ok rows \<Rightarrow> list_all2 (\<lambda>folder row. RowID row = FID folder \<and>
        (RowPaused row \<or> safe_folder inventory controls folder f)) folders rows
    | Failed e \<Rightarrow> False
    | Died \<Rightarrow> Die \<in> set p)"
proof -
  have "wp True (reconcile_managed_folders inventory controls folders)
      (\<lambda>rows g. g = f \<and> list_all2 (\<lambda>folder row. RowID row = FID folder \<and>
        (\<not> RowPaused row \<longrightarrow> safe_folder inventory controls folder f)) folders rows)
      (\<lambda>_ _. False) (\<lambda>g. g = f) f"
    unfolding reconcile_managed_folders_def by (rule io_map_wp, rule reconcile_folder_wp)
  from boot_sat [OF this _ assms] show ?thesis
    by (cases r) (auto elim!: list_all2_mono)
qed

definition sample_folder :: configured_folder where
  "sample_folder = \<lparr>FID = ''leaf-saves'', FLabel = ''Saves'', FKind = ''saves'', FPath = ''/card/Saves'', FType = ''sendonly'',
     FMarkerName = ''.leaf-saves-000000000000'', FPaused = True, FVersioningType = '''', FVersioningFSPath = '''',
     FVersioningFSType = '''', FDevices = [sample_device]\<rparr>"

definition sample_inventory :: "leaf_card list" where
  "sample_inventory = [\<lparr>Source = sample_source\<lparr>SavesPath := ''/card/Saves''\<rparr>, Identity = \<lparr>IVersion = 1, IID = replicate 32 CHR ''0''\<rparr>,
     State = Enrolled, Present = True, Writable = True, DuplicateID = False, RetainedBytes = 0, Issues = []\<rparr>]"

definition sample_tree :: "unit fs" where
  "sample_tree = (\<lambda>p. if p = ''/card/Saves'' \<or> p = ''/card/Saves/.leaf-saves-000000000000'' then Some Dir else None)"

theorem unpaused_folders_are_safe_witness:
  "\<exists>row. fst (boot (reconcile_managed_folders sample_inventory (Records (sample_control False)) [sample_folder]) [] sample_tree)
      = Ok [row] \<and> \<not> RowPaused row \<and> safe_folder sample_inventory (Records (sample_control False)) sample_folder sample_tree"
proof -
  have run: "case fst (boot (reconcile_managed_folders sample_inventory (Records (sample_control False)) [sample_folder]) [] sample_tree)
      of Ok [row] \<Rightarrow> \<not> RowPaused row | _ \<Rightarrow> False"
    by code_simp
  obtain r g where b: "boot (reconcile_managed_folders sample_inventory (Records (sample_control False)) [sample_folder]) [] sample_tree = (r, g)"
    by fastforce
  show ?thesis
    using run unpaused_folders_are_safe [OF b] b
    by (auto simp: list_all2_Cons1 split: outcome.splits list.splits)
qed

end
