(* ===== verification/Network_Profile.thy ===== *)
theory Network_Profile
  imports Upstream Single_Store
begin

text \<open>
  The network profile: \<open>ApplyNetworkProfile\<close> of \<open>syncthing/network.go\<close> against the server, and the
  manager of \<open>controller/network.go\<close> with its state file.  The routes that \<open>derive\<close> finds are an
  input of every operation.  \<open>ticks\<close> is the number of polls that the five seconds of
  \<open>waitDisconnected\<close> leave after the first one.
\<close>

section \<open>The transition\<close>

datatype network_profile = Lan_Only | Sync_Anywhere | Other_Profile string

record profile_request =
  ReqProfile :: network_profile
  ReqSelf :: string
  ReqAllowed :: "string list"

record network_device =
  NetDevice :: string
  NetPaused :: bool

definition no_eligible_network :: "string list" where
  "no_eligible_network = [''0.0.0.0/32'', ''::/128'']"

definition validate_request :: "profile_request \<Rightarrow> error + unit" where
  "validate_request q =
     (if ReqProfile q \<noteq> Lan_Only \<and> ReqProfile q \<noteq> Sync_Anywhere then Inl ''unsupported network profile''
      else if ReqSelf q = '''' then Inl ''network profile requires the local device id''
      else if \<not> sorted_wrt (<) (ReqAllowed q) then Inl ''allowed networks must be sorted and unique''
      else Inr ())"

definition network_device_spec :: "(string \<times> network_device setter) list" where
  "network_device_spec = [(''deviceID'', set_string (\<lambda>x s. s\<lparr>NetDevice := x\<rparr>)),
     (''paused'', set_bool (\<lambda>x s. s\<lparr>NetPaused := x\<rparr>)), (''allowedNetworks'', set_strings (\<lambda>_ s. s))]"

definition decode_network_device :: "json \<Rightarrow> error + network_device" where
  "decode_network_device = decode_struct False network_device_spec \<lparr>NetDevice = '''', NetPaused = False\<rparr>"

text \<open>The connections: whether each device is connected; a later key replaces an earlier one.\<close>

definition decode_connection :: "json \<Rightarrow> error + bool" where
  "decode_connection = decode_struct False
     [(''connected'', set_bool (\<lambda>x _. x)), (''address'', set_string (\<lambda>_ s. s))] False"

fun put_connections :: "(string \<times> json) list \<Rightarrow> (string \<times> bool) list \<Rightarrow> error + (string \<times> bool) list" where
  "put_connections [] m = Inr m"
| "put_connections ((k, v) # kvs) m = sum_bind (decode_connection v) (\<lambda>b. put_connections kvs (map_put k b m))"

definition set_connections :: "(string \<times> bool) list setter" where
  "set_connections s v = (case v of
     JNull \<Rightarrow> Inr [] | JObj kvs \<Rightarrow> put_connections kvs s | _ \<Rightarrow> Inl ''cannot unmarshal into map'')"

definition read_connections :: "(string \<Rightarrow> json option) \<Rightarrow> 'u server \<Rightarrow> ('u, (string \<times> bool) list) up" where
  "read_connections parse server = api_read parse server ''/rest/system/connections'' []
     (decode_struct False [(''connections'', set_connections)] [])"

definition patch_device :: "(string \<Rightarrow> json option) \<Rightarrow> 'u server \<Rightarrow> string \<Rightarrow> (string \<times> json) list \<Rightarrow> ('u, unit) up" where
  "patch_device parse server d patch = api_send parse server PATCH (device_config_path d) (Some (JObj patch))"

definition pause_patch :: "bool \<Rightarrow> (string \<times> json) list" where
  "pause_patch b = [(''paused'', JBool b)]"

definition networks_patch :: "string list \<Rightarrow> (string \<times> json) list" where
  "networks_patch ns = [(''allowedNetworks'', JArr (map JStr ns))]"

definition options_patch :: "bool \<Rightarrow> json" where
  "options_patch anywhere = JObj [(''crashReportingEnabled'', JBool False), (''globalAnnounceEnabled'', JBool anywhere),
     (''listenAddresses'', JArr [JStr ''default'']), (''localAnnounceEnabled'', JBool True),
     (''natEnabled'', JBool anywhere), (''relaysEnabled'', JBool anywhere), (''urAccepted'', JInt (-1))]"

definition patch_network_options :: "(string \<Rightarrow> json option) \<Rightarrow> 'u server \<Rightarrow> network_profile \<Rightarrow> ('u, unit) up" where
  "patch_network_options parse server p =
     api_send parse server PATCH ''/rest/config/options'' (Some (options_patch (p = Sync_Anywhere)))"

fun poll_disconnected :: "(string \<Rightarrow> json option) \<Rightarrow> 'u server \<Rightarrow> nat \<Rightarrow> string list \<Rightarrow> ('u, unit) up" where
  "poll_disconnected parse server 0 ds = up_bind (read_connections parse server) (\<lambda>cs.
     if \<exists>(d, connected) \<in> set cs. d \<in> set ds \<and> connected
     then up_fail ''timed out waiting for peer sockets to disconnect'' else up_ret ())"
| "poll_disconnected parse server (Suc n) ds = up_bind (read_connections parse server) (\<lambda>cs.
     if \<exists>(d, connected) \<in> set cs. d \<in> set ds \<and> connected
     then poll_disconnected parse server n ds else up_ret ())"

definition wait_disconnected :: "(string \<Rightarrow> json option) \<Rightarrow> 'u server \<Rightarrow> nat \<Rightarrow> network_device list \<Rightarrow> ('u, unit) up" where
  "wait_disconnected parse server ticks ds =
     (if ds = [] then up_ret () else poll_disconnected parse server ticks (map NetDevice ds))"

text \<open>\<open>restore\<close>: every peer is resumed, whatever happens; the first error is returned.\<close>

fun restore_peers :: "(string \<Rightarrow> json option) \<Rightarrow> 'u server \<Rightarrow> string list \<Rightarrow> ('u, error option) up" where
  "restore_peers parse server [] = up_ret None"
| "restore_peers parse server (d # ds) =
     up_bind (up_try (patch_device parse server d (pause_patch False))) (\<lambda>r.
     up_bind (restore_peers parse server ds) (\<lambda>later.
       up_ret (case r of Inl e \<Rightarrow> Some e | Inr _ \<Rightarrow> later)))"

text \<open>A step of the transition: when it fails, the peers paused so far are resumed.\<close>

definition restoring :: "(string \<Rightarrow> json option) \<Rightarrow> 'u server \<Rightarrow> string list \<Rightarrow> ('u, unit) up \<Rightarrow> ('u, unit) up" where
  "restoring parse server paused m = up_bind (up_try m) (\<lambda>r. case r of
     Inl e \<Rightarrow> up_bind (restore_peers parse server paused) (\<lambda>_. up_fail e)
   | Inr _ \<Rightarrow> up_ret ())"

fun pause_peers :: "(string \<Rightarrow> json option) \<Rightarrow> 'u server \<Rightarrow> network_device list \<Rightarrow> string list \<Rightarrow> ('u, string list) up" where
  "pause_peers parse server [] paused = up_ret paused"
| "pause_peers parse server (d # ds) paused =
     (if NetPaused d then pause_peers parse server ds paused
      else up_bind (restoring parse server paused (patch_device parse server (NetDevice d) (pause_patch True))) (\<lambda>_.
        pause_peers parse server ds (paused @ [NetDevice d])))"

text \<open>The two transitions, over the other devices in the order of their ids.\<close>

definition apply_anywhere :: "(string \<Rightarrow> json option) \<Rightarrow> 'u server \<Rightarrow> network_device list \<Rightarrow> ('u, unit) up" where
  "apply_anywhere parse server remote =
     up_bind (up_each (\<lambda>d. patch_device parse server (NetDevice d) (networks_patch [])) remote) (\<lambda>_.
       patch_network_options parse server Sync_Anywhere)"

definition apply_lan_only :: "(string \<Rightarrow> json option) \<Rightarrow> 'u server \<Rightarrow> nat \<Rightarrow> string list \<Rightarrow> network_device list \<Rightarrow> ('u, unit) up" where
  "apply_lan_only parse server ticks nets remote =
     up_bind (pause_peers parse server remote []) (\<lambda>paused.
     up_bind (restoring parse server paused (wait_disconnected parse server ticks remote)) (\<lambda>_.
     up_bind (restoring parse server paused
        (up_each (\<lambda>d. patch_device parse server (NetDevice d) (networks_patch nets)) remote)) (\<lambda>_.
     up_bind (restoring parse server paused (patch_network_options parse server Lan_Only)) (\<lambda>_.
     up_bind (restore_peers parse server paused) (\<lambda>failed. case failed of
       Some e \<Rightarrow> up_fail ''restore peer pause state'' | None \<Rightarrow> up_ret ())))))"

definition remote_devices :: "string \<Rightarrow> network_device list \<Rightarrow> network_device list" where
  "remote_devices self ds = sort_key NetDevice (filter (\<lambda>d. NetDevice d \<noteq> self) ds)"

definition apply_network_profile :: "(string \<Rightarrow> json option) \<Rightarrow> 'u server \<Rightarrow> nat \<Rightarrow> profile_request \<Rightarrow> ('u, unit) up" where
  "apply_network_profile parse server ticks q =
     up_bind (up_lift (validate_request q)) (\<lambda>_.
     up_bind (api_read parse server ''/rest/config/devices'' [] (decode_slice decode_network_device)) (\<lambda>devices.
       if \<exists>d \<in> set devices. NetDevice d = '''' then up_fail ''upstream returned a device without an id''
       else if ReqProfile q = Sync_Anywhere then apply_anywhere parse server (remote_devices (ReqSelf q) devices)
       else apply_lan_only parse server ticks (if ReqAllowed q = [] then no_eligible_network else ReqAllowed q)
              (remote_devices (ReqSelf q) devices)))"

section \<open>The calls of a transition\<close>

text \<open>What a program does to the log of calls when it succeeds.\<close>

definition logs :: "('u, 'a) up \<Rightarrow> (api_call list \<Rightarrow> bool) \<Rightarrow> bool" where
  "logs m P \<longleftrightarrow> (\<forall>u x v. m u = (Inr x, v) \<longrightarrow> (\<exists>cs. calls v = calls u @ cs \<and> P cs))"

lemma logsI: "(\<And>u x v. m u = (Inr x, v) \<Longrightarrow> \<exists>cs. calls v = calls u @ cs \<and> P cs) \<Longrightarrow> logs m P"
  by (simp add: logs_def)

lemma logsE: "logs m P \<Longrightarrow> m u = (Inr x, v) \<Longrightarrow> \<exists>cs. calls v = calls u @ cs \<and> P cs"
  by (simp add: logs_def)

lemma api_json_calls: "api_json parse server out c u = (r, v) \<Longrightarrow> calls v = calls u @ [c]"
  by (auto simp: api_json_def Let_def split: prod.splits sum.splits if_splits option.splits)

lemma api_send_logs: "logs (api_send parse server m p b) (\<lambda>cs. cs = [api_call_of m p b])"
  by (auto simp: logs_def api_send_def up_bind_Inr dest: api_json_calls)

lemma api_read_logs: "logs (api_read parse server p z d) (\<lambda>cs. cs = [api_call_of GET p None])"
  by (auto simp: logs_def api_read_def up_bind_Inr dest!: api_json_calls split: option.splits)

lemma logs_mono: "logs m P \<Longrightarrow> (\<And>cs. P cs \<Longrightarrow> Q cs) \<Longrightarrow> logs m Q"
  by (fastforce simp: logs_def)

lemma logs_each: "(\<And>x. logs (m x) (\<lambda>cs. cs = [g x])) \<Longrightarrow> logs (up_each m xs) (\<lambda>cs. cs = map g xs)"
proof (induction xs)
  case (Cons x xs)
  show ?case
  proof (rule logsI)
    fix u r v
    assume "up_each m (x # xs) u = (Inr r, v)"
    then obtain y w where "m x u = (Inr y, w)" "up_each m xs w = (Inr r, v)" by (auto simp: up_bind_Inr)
    with logsE [OF Cons.prems this(1)] logsE [OF Cons.IH [OF Cons.prems] this(2)]
    show "\<exists>cs. calls v = calls u @ cs \<and> cs = map g (x # xs)" by auto
  qed
qed (auto simp: logs_def)

definition pause_call :: "bool \<Rightarrow> string \<Rightarrow> api_call" where
  "pause_call b d = api_call_of PATCH (device_config_path d) (Some (JObj (pause_patch b)))"

definition networks_call :: "string list \<Rightarrow> string \<Rightarrow> api_call" where
  "networks_call ns d = api_call_of PATCH (device_config_path d) (Some (JObj (networks_patch ns)))"

definition options_call :: "bool \<Rightarrow> api_call" where
  "options_call b = api_call_of PATCH ''/rest/config/options'' (Some (options_patch b))"

definition connections_call :: api_call where
  "connections_call = api_call_of GET ''/rest/system/connections'' None"

definition devices_call :: api_call where
  "devices_call = api_call_of GET ''/rest/config/devices'' None"

lemma restoring_Inr: "restoring parse server paused m u = (Inr x, v) \<longleftrightarrow> m u = (Inr x, v)"
  by (auto simp: restoring_def up_bind_Inr up_try_def split: prod.splits sum.splits)

lemma restore_logs: "logs (restore_peers parse server ds) (\<lambda>cs. cs = map (pause_call False) ds)"
proof (induction ds)
  case (Cons d ds)
  show ?case
  proof (rule logsI)
    fix u x v
    assume "restore_peers parse server (d # ds) u = (Inr x, v)"
    then obtain r w later where
      "patch_device parse server d (pause_patch False) u = (r, w)" "restore_peers parse server ds w = (Inr later, v)"
      by (auto simp: up_bind_Inr up_try_def split: prod.splits)
    moreover have "calls w = calls u @ [pause_call False d]"
      using calculation(1) api_json_calls
      by (fastforce simp: patch_device_def api_send_def pause_call_def up_bind_def split: prod.splits sum.splits)
    ultimately show "\<exists>cs. calls v = calls u @ cs \<and> cs = map (pause_call False) (d # ds)"
      using logsE [OF Cons.IH] by auto
  qed
qed (auto simp: logs_def)

lemma pause_logs:
  "pause_peers parse server ds paused u = (Inr ps, v) \<Longrightarrow>
   ps = paused @ map NetDevice (filter (\<lambda>d. \<not> NetPaused d) ds) \<and>
   calls v = calls u @ map (pause_call True) (map NetDevice (filter (\<lambda>d. \<not> NetPaused d) ds))"
proof (induction ds arbitrary: paused u)
  case (Cons d ds)
  show ?case
  proof (cases "NetPaused d")
    case True
    with Cons show ?thesis by simp
  next
    case False
    then obtain w where p: "patch_device parse server (NetDevice d) (pause_patch True) u = (Inr (), w)"
      and r: "pause_peers parse server ds (paused @ [NetDevice d]) w = (Inr ps, v)"
      using Cons.prems by (auto simp: up_bind_Inr restoring_Inr)
    have "calls w = calls u @ [pause_call True (NetDevice d)]"
      using logsE [OF api_send_logs p [unfolded patch_device_def]] by (simp add: pause_call_def)
    with Cons.IH [OF r] False show ?thesis by simp
  qed
qed simp

lemma poll_logs: "logs (poll_disconnected parse server n ds) (\<lambda>cs. cs \<noteq> [] \<and> set cs = {connections_call})"
proof (induction n)
  case 0
  then show ?case
    by (auto simp: logs_def up_bind_Inr read_connections_def connections_call_def split: if_splits
        dest!: logsE [OF api_read_logs])
next
  case (Suc n)
  show ?case
  proof (rule logsI)
    fix u x v
    assume "poll_disconnected parse server (Suc n) ds u = (Inr x, v)"
    then obtain cs w where r: "read_connections parse server u = (Inr cs, w)"
      and "w = v \<or> poll_disconnected parse server n ds w = (Inr x, v)"
      by (auto simp: up_bind_Inr split: if_splits)
    moreover have "calls w = calls u @ [connections_call]"
      using logsE [OF api_read_logs r [unfolded read_connections_def]] by (simp add: connections_call_def)
    ultimately show "\<exists>cs. calls v = calls u @ cs \<and> cs \<noteq> [] \<and> set cs = {connections_call}"
      using logsE [OF Suc.IH] by fastforce
  qed
qed

text \<open>The calls of a transition that succeeds, from the devices that the server listed.\<close>

definition running_peers :: "network_device list \<Rightarrow> string list" where
  "running_peers ds = map NetDevice (filter (\<lambda>d. \<not> NetPaused d) ds)"

lemma pause_step:
  "pause_peers parse server ds [] u = (Inr ps, v) \<Longrightarrow>
   ps = running_peers ds \<and> calls v = calls u @ map (pause_call True) (running_peers ds)"
  using pause_logs [of parse server ds "[]" u ps v] by (simp add: running_peers_def)

lemma wait_step:
  "wait_disconnected parse server ticks ds u = (Inr x, v) \<Longrightarrow>
   \<exists>ws. calls v = calls u @ ws \<and> set ws = (if ds = [] then {} else {connections_call})"
  by (cases "ds = []") (auto simp: wait_disconnected_def dest!: logsE [OF poll_logs])

lemma networks_step:
  "up_each (\<lambda>d. patch_device parse server (NetDevice d) (networks_patch ns)) ds u = (Inr x, v) \<Longrightarrow>
   calls v = calls u @ map (networks_call ns \<circ> NetDevice) ds"
proof -
  assume e: "up_each (\<lambda>d. patch_device parse server (NetDevice d) (networks_patch ns)) ds u = (Inr x, v)"
  have "logs (up_each (\<lambda>d. patch_device parse server (NetDevice d) (networks_patch ns)) ds)
     (\<lambda>cs. cs = map (networks_call ns \<circ> NetDevice) ds)"
    by (rule logs_each) (simp add: patch_device_def networks_call_def api_send_logs)
  from logsE [OF this e] show ?thesis by simp
qed

lemma options_step:
  "patch_network_options parse server p u = (Inr x, v) \<Longrightarrow> calls v = calls u @ [options_call (p = Sync_Anywhere)]"
  using logsE [OF api_send_logs] by (fastforce simp: patch_network_options_def options_call_def)

lemma restore_step:
  "restore_peers parse server ds u = (Inr x, v) \<Longrightarrow> calls v = calls u @ map (pause_call False) ds"
  using logsE [OF restore_logs] by fastforce

lemma profile_Inr:
  "apply_network_profile parse server ticks q u = (Inr (), v) \<longleftrightarrow> validate_request q = Inr () \<and> (\<exists>ds w.
     api_read parse server ''/rest/config/devices'' [] (decode_slice decode_network_device) u = (Inr ds, w) \<and>
     (\<forall>d \<in> set ds. NetDevice d \<noteq> '''') \<and>
     (if ReqProfile q = Sync_Anywhere then apply_anywhere parse server (remote_devices (ReqSelf q) ds)
      else apply_lan_only parse server ticks (if ReqAllowed q = [] then no_eligible_network else ReqAllowed q)
             (remote_devices (ReqSelf q) ds)) w = (Inr (), v))"
  by (cases "validate_request q")
    (auto simp: apply_network_profile_def up_bind_Inr up_lift_def simp del: up_simps(3) split: if_splits)

lemma anywhere_calls:
  assumes "apply_anywhere parse server remote u = (Inr (), v)"
  shows "calls v = calls u @ map (networks_call [] \<circ> NetDevice) remote @ [options_call True]"
proof -
  from assms obtain x w where n: "up_each (\<lambda>d. patch_device parse server (NetDevice d) (networks_patch [])) remote u = (Inr x, w)"
    and o: "patch_network_options parse server Sync_Anywhere w = (Inr (), v)"
    by (auto simp: apply_anywhere_def up_bind_Inr)
  show ?thesis using networks_step [OF n] options_step [OF o] by simp
qed

lemma lan_only_calls:
  assumes "apply_lan_only parse server ticks nets remote u = (Inr (), v)"
  shows "\<exists>waits. set waits = (if remote = [] then {} else {connections_call}) \<and>
     calls v = calls u @ map (pause_call True) (running_peers remote) @ waits @
       map (networks_call nets \<circ> NetDevice) remote @ [options_call False] @ map (pause_call False) (running_peers remote)"
proof -
  from assms obtain b c d e ps f x y z where
    p: "pause_peers parse server remote [] u = (Inr ps, b)"
    and w: "wait_disconnected parse server ticks remote b = (Inr x, c)"
    and n: "up_each (\<lambda>d. patch_device parse server (NetDevice d) (networks_patch nets)) remote c = (Inr y, d)"
    and o: "patch_network_options parse server Lan_Only d = (Inr z, e)"
    and s: "restore_peers parse server ps e = (Inr f, v)"
    by (auto simp: apply_lan_only_def up_bind_Inr restoring_Inr split: option.splits)
  obtain waits where "calls c = calls b @ waits" "set waits = (if remote = [] then {} else {connections_call})"
    using wait_step [OF w] by blast
  then show ?thesis
    using pause_step [OF p] networks_step [OF n] options_step [OF o] restore_step [OF s]
    by (intro exI [of _ waits]) simp
qed


section \<open>The network manager\<close>

text \<open>
  The manager holds the profile it reports, the allowed networks and the routes it saw last.
  Its state file holds the profile.  The routes (or the error of \<open>derive\<close>) are an argument of
  the operations.
\<close>

record network_manager =
  NMProfile :: network_profile
  NMAllowed :: "string list"
  NMObserved :: "string list"

record network_document =
  NDSchema :: int
  NDProfile :: network_profile

definition valid_network_document :: "network_document \<Rightarrow> bool" where
  "valid_network_document d \<longleftrightarrow> NDSchema d = 1 \<and> NDProfile d \<in> {Lan_Only, Sync_Anywhere}"

definition network_state_limit :: nat where "network_state_limit = 4096"

definition network_document_of :: "network_profile \<Rightarrow> network_document" where
  "network_document_of p = \<lparr>NDSchema = 1, NDProfile = p\<rparr>"

definition new_network_manager :: "string \<Rightarrow> (network_document, network_manager) io" where
  "new_network_manager p =
     io_bind (read_single network_state_limit valid_network_document p) (\<lambda>state.
       io_ret \<lparr>NMProfile = (case state of None \<Rightarrow> Lan_Only | Some d \<Rightarrow> NDProfile d), NMAllowed = [], NMObserved = []\<rparr>)"

text \<open>\<open>writeNetworkProfileState\<close>; \<open>sz\<close> is the length of the marshalled document.\<close>

definition write_network_state :: "(network_document \<Rightarrow> nat) \<Rightarrow> string \<Rightarrow> network_profile \<Rightarrow> (network_document, unit) io" where
  "write_network_state sz p profile =
     (let d = network_document_of profile in replace_file p (Doc d (sz d)))"

text \<open>The state of a running manager: the manager, the server and the files.\<close>

type_synonym 'u network_state = "network_manager \<times> 'u upstream \<times> network_document world"

definition apply_with_networks :: "(string \<Rightarrow> json option) \<Rightarrow> 'u server \<Rightarrow> nat \<Rightarrow> (network_document \<Rightarrow> nat) \<Rightarrow> string \<Rightarrow> string \<Rightarrow>
    network_profile \<Rightarrow> string list \<Rightarrow> string list \<Rightarrow> bool \<Rightarrow> 'u network_state \<Rightarrow> unit outcome \<times> 'u network_state" where
  "apply_with_networks parse server ticks sz path self profile nets observed persist = (\<lambda>(m, u, w).
     case apply_network_profile parse server ticks \<lparr>ReqProfile = profile, ReqSelf = self, ReqAllowed = nets\<rparr> u of
       (Inl e, u') \<Rightarrow> (Failed e, (m, u', w))
     | (Inr _, u') \<Rightarrow>
         let m' = \<lparr>NMProfile = profile, NMAllowed = nets, NMObserved = observed\<rparr>
         in if \<not> persist then (Ok (), (m', u', w))
            else (case write_network_state sz path profile w of
                    (Ok _, w') \<Rightarrow> (Ok (), (m', u', w'))
                  | (Failed e, w') \<Rightarrow> (Failed e, (m, u', w'))
                  | (Died, w') \<Rightarrow> (Died, (m, u', w'))))"

definition apply_profile :: "(string \<Rightarrow> json option) \<Rightarrow> 'u server \<Rightarrow> nat \<Rightarrow> (network_document \<Rightarrow> nat) \<Rightarrow> string \<Rightarrow> string \<Rightarrow>
    error + string list \<Rightarrow> network_profile \<Rightarrow> 'u network_state \<Rightarrow> unit outcome \<times> 'u network_state" where
  "apply_profile parse server ticks sz path self derived profile st = (case derived of
     Inl e \<Rightarrow> (Failed e, st)
   | Inr routes \<Rightarrow> apply_with_networks parse server ticks sz path self profile
       (if profile = Lan_Only then routes else []) routes True st)"

definition initialize_network :: "(string \<Rightarrow> json option) \<Rightarrow> 'u server \<Rightarrow> nat \<Rightarrow> (network_document \<Rightarrow> nat) \<Rightarrow> string \<Rightarrow> string \<Rightarrow>
    error + string list \<Rightarrow> 'u network_state \<Rightarrow> unit outcome \<times> 'u network_state" where
  "initialize_network parse server ticks sz path self derived st =
     apply_profile parse server ticks sz path self derived (NMProfile (fst st)) st"

definition set_network :: "(string \<Rightarrow> json option) \<Rightarrow> 'u server \<Rightarrow> nat \<Rightarrow> (network_document \<Rightarrow> nat) \<Rightarrow> string \<Rightarrow> string \<Rightarrow>
    error + string list \<Rightarrow> network_profile \<Rightarrow> 'u network_state \<Rightarrow> unit outcome \<times> 'u network_state" where
  "set_network parse server ticks sz path self derived profile st =
     (if profile \<noteq> Lan_Only \<and> profile \<noteq> Sync_Anywhere then (Failed ''unsupported network profile'', st)
      else apply_profile parse server ticks sz path self derived profile st)"

text \<open>\<open>RefreshIfChanged\<close>: true when the routes had changed and were taken over.\<close>

definition refresh_network :: "(string \<Rightarrow> json option) \<Rightarrow> 'u server \<Rightarrow> nat \<Rightarrow> (network_document \<Rightarrow> nat) \<Rightarrow> string \<Rightarrow> string \<Rightarrow>
    error + string list \<Rightarrow> 'u network_state \<Rightarrow> bool outcome \<times> 'u network_state" where
  "refresh_network parse server ticks sz path self derived = (\<lambda>(m, u, w). case derived of
     Inl e \<Rightarrow> (Failed e, (m, u, w))
   | Inr routes \<Rightarrow>
       if routes = NMObserved m then (Ok False, (m, u, w))
       else if NMProfile m \<noteq> Lan_Only then (Ok True, (m\<lparr>NMObserved := routes\<rparr>, u, w))
       else (case apply_with_networks parse server ticks sz path self (NMProfile m) routes routes False (m, u, w) of
               (Ok _, st) \<Rightarrow> (Ok True, st) | (Failed e, st) \<Rightarrow> (Failed e, st) | (Died, st) \<Rightarrow> (Died, st)))"

text \<open>\<open>Status\<close>: the profile and the allowed networks that the interface shows.\<close>

definition network_status :: "network_manager \<Rightarrow> network_profile \<times> string list" where
  "network_status m = (NMProfile m, NMAllowed m)"

definition network_storable :: "(network_document \<Rightarrow> nat) \<Rightarrow> bool" where
  "network_storable sz \<longleftrightarrow> (\<forall>p \<in> {Lan_Only, Sync_Anywhere}.
     storable network_state_limit valid_network_document sz (network_document_of p))"

lemma write_network_wp:
  assumes "single_at network_state_limit valid_network_document p x f"
    and "network_storable sz" and "profile \<in> {Lan_Only, Sync_Anywhere}"
  shows "wp b (write_network_state sz p profile)
     (\<lambda>_. single_at network_state_limit valid_network_document p (Some (network_document_of profile)))
     (\<lambda>_ g. b \<and> (single_at network_state_limit valid_network_document p x g \<or>
         single_at network_state_limit valid_network_document p (Some (network_document_of profile)) g))
     (\<lambda>g. single_at network_state_limit valid_network_document p x g \<or>
         single_at network_state_limit valid_network_document p (Some (network_document_of profile)) g) f"
  unfolding write_network_state_def Let_def
  by (rule replace_file_wp [OF assms(1)]) (use assms(2,3) in \<open>auto simp: network_storable_def\<close>)

definition stored_profile :: "network_document option \<Rightarrow> network_profile" where
  "stored_profile x = (case x of None \<Rightarrow> Lan_Only | Some d \<Rightarrow> NDProfile d)"

lemma reopen_network:
  assumes "single_at network_state_limit valid_network_document p x f"
  shows "\<exists>m h. run_clean (new_network_manager p) f = (Ok m, h) \<and> NMProfile m = stored_profile x"
proof -
  have "wp False (new_network_manager p) (\<lambda>m _. NMProfile m = stored_profile x) (\<lambda>_ _. False) (\<lambda>_. True) f"
    using assms by (simp add: new_network_manager_def single_at_def wp_read_single wp_ret stored_profile_def)
  note sat = run_clean_sat [OF this]
  show ?thesis using sat by (cases "run_clean (new_network_manager p) f") (auto split: outcome.splits)
qed

section \<open>Properties of the manager\<close>

text \<open>
  C25. Choosing a profile under any faults (failed calls of the server, failed system calls, power
  loss) leaves a state file that a restart of the controller opens: with the profile before or the
  one chosen, and with the one chosen when the operation returned without an error.
\<close>

theorem network_choice_durable:
  assumes "single_at network_state_limit valid_network_document path x (files w)" and "network_storable sz"
    and "set_network parse server ticks sz path self derived profile (m, u, w) = (r, (m', u', w'))"
  shows "\<exists>reopened h. run_clean (new_network_manager path) (files w') = (Ok reopened, h) \<and>
     (NMProfile reopened = stored_profile x \<or> NMProfile reopened = profile) \<and>
     (r = Ok () \<longrightarrow> NMProfile reopened = profile \<and> NMProfile m' = profile)"
proof -
  let ?old = "single_at network_state_limit valid_network_document path x"
  let ?new = "single_at network_state_limit valid_network_document path (Some (network_document_of profile))"
  have case_write: "if r = Ok () then ?new (files w') \<and> NMProfile m' = profile else ?old (files w') \<or> ?new (files w')"
  proof (cases "w' = w \<and> r \<noteq> Ok ()")
    case True
    with assms(1) show ?thesis by auto
  next
    case False
    then have p: "profile \<in> {Lan_Only, Sync_Anywhere}" and
      "case write_network_state sz path profile w of (q, w'') \<Rightarrow> w' = w'' \<and> r = q \<and> (q = Ok () \<longrightarrow> NMProfile m' = profile)"
      using assms(3) by (auto simp: set_network_def apply_profile_def apply_with_networks_def Let_def
          split: if_splits sum.splits prod.splits outcome.splits)
    moreover have "outcome_sat True (\<lambda>_. ?new) (\<lambda>_ g. True \<and> (?old g \<or> ?new g)) (\<lambda>g. ?old g \<or> ?new g)
        (deathless w) (write_network_state sz path profile w)"
      by (rule wpE [OF write_network_wp [OF assms(1,2) p]]) simp
    ultimately show ?thesis
      by (cases "write_network_state sz path profile w"; cases "fst (write_network_state sz path profile w)") auto
  qed
  have "stored_profile (Some (network_document_of profile)) = profile"
    by (simp add: stored_profile_def network_document_of_def)
  with case_write reopen_network show ?thesis by (metis (mono_tags, lifting))
qed

text \<open>
  When the server has taken the change to sync-anywhere but the state file cannot be written,
  the operation reports an error and the manager goes on to report LAN-only, although the last
  call to the server turned global discovery, NAT traversal and relays on; as long as the routes
  do not change, the periodic refresh does not call the server again.
\<close>

theorem failed_save_hides_profile:
  assumes "apply_network_profile parse server ticks
      \<lparr>ReqProfile = Sync_Anywhere, ReqSelf = self, ReqAllowed = []\<rparr> u = (Inr (), u')"
    and "plan w = Fail # rest" and "NMProfile m = Lan_Only" and "NMObserved m = routes"
  shows "\<exists>w'. set_network parse server ticks sz path self (Inr routes) Sync_Anywhere (m, u, w) = (Failed ''I/O error'', (m, u', w')) \<and>
     last (calls u') = options_call True \<and> fst (network_status m) = Lan_Only \<and>
     refresh_network parse server ticks sz path self (Inr routes) (m, u', w') = (Ok False, (m, u', w'))"
proof -
  from assms(1) obtain ds v where a: "apply_anywhere parse server (remote_devices self ds) v = (Inr (), u')"
    by (auto simp: profile_Inr)
  have "write_network_state sz path Sync_Anywhere w = (Failed ''I/O error'', w\<lparr>plan := rest\<rparr>)"
    using assms(2) by (simp add: write_network_state_def Let_def replace_file_def remove_safe_regular_def
        io_bind_def lstat_def sys_def)
  then show ?thesis
    using assms anywhere_calls [OF a]
    by (auto simp: set_network_def apply_profile_def apply_with_networks_def refresh_network_def network_status_def)
qed

section \<open>Witnesses\<close>

text \<open>A server that answers every call with its path, over two devices.\<close>

definition echo_server :: "unit server" where
  "echo_server c s = (Inr \<lparr>AStatus = 200, APayload = APath c\<rparr>, s)"

definition echo_parse :: "string \<Rightarrow> json option" where
  "echo_parse s = (if s = ''/rest/config/devices''
     then Some (JArr [JObj [(''deviceID'', JStr ''S'')], JObj [(''deviceID'', JStr ''B''), (''paused'', JBool False)]])
     else if s = ''/rest/system/connections'' then Some (JObj [(''connections'', JObj [])]) else None)"

definition idle_upstream :: "unit upstream" where
  "idle_upstream = \<lparr>calls = [], peer_state = ()\<rparr>"

definition sample_request :: "network_profile \<Rightarrow> profile_request" where
  "sample_request p = \<lparr>ReqProfile = p, ReqSelf = ''S'', ReqAllowed = []\<rparr>"

lemma sample_runs:
  "case apply_network_profile echo_parse echo_server 2 (sample_request Lan_Only) idle_upstream of
     (r, v) \<Rightarrow> r = Inr () \<and> length (calls v) = 6"
  "case apply_network_profile echo_parse echo_server 2 (sample_request Sync_Anywhere) idle_upstream of
     (r, v) \<Rightarrow> r = Inr () \<and> length (calls v) = 3"
  by code_simp+


definition network_path :: string where "network_path = ''/s/n.json''"

definition network_files :: "network_document fs" where
  "network_files = (\<lambda>p. if p = ''/s'' then Some Dir else None)"

lemma network_files_at: "single_at network_state_limit valid_network_document network_path None network_files"
  by (simp add: single_at_def network_files_def network_path_def tmp_of_def) code_simp

theorem network_choice_durable_witness:
  "\<exists>st reopened h. set_network echo_parse echo_server 2 (\<lambda>_. 9) network_path ''S'' (Inr []) Sync_Anywhere
       (\<lparr>NMProfile = Lan_Only, NMAllowed = [], NMObserved = []\<rparr>, idle_upstream, \<lparr>files = network_files, plan = []\<rparr>) = (Ok (), st) \<and>
     run_clean (new_network_manager network_path) (files (snd (snd st))) = (Ok reopened, h) \<and> NMProfile reopened = Sync_Anywhere"
proof -
  let ?run = "set_network echo_parse echo_server 2 (\<lambda>_. 9) network_path ''S'' (Inr []) Sync_Anywhere
       (\<lparr>NMProfile = Lan_Only, NMAllowed = [], NMObserved = []\<rparr>, idle_upstream, \<lparr>files = network_files, plan = []\<rparr>)"
  have "fst ?run = Ok ()" by code_simp
  moreover obtain r m' u' w' where run: "?run = (r, (m', u', w'))" by (metis prod_cases4)
  moreover have "network_storable (\<lambda>_. 9)"
    by (auto simp: network_storable_def storable_def network_state_limit_def valid_network_document_def network_document_of_def)
  ultimately show ?thesis
    using network_choice_durable [OF _ _ run, of None] network_files_at by auto
qed

theorem failed_save_hides_profile_witness:
  "\<exists>u' w'. set_network echo_parse echo_server 2 (\<lambda>_. 9) network_path ''S'' (Inr []) Sync_Anywhere
       (\<lparr>NMProfile = Lan_Only, NMAllowed = [], NMObserved = []\<rparr>, idle_upstream, \<lparr>files = network_files, plan = [Fail]\<rparr>) =
     (Failed ''I/O error'', (\<lparr>NMProfile = Lan_Only, NMAllowed = [], NMObserved = []\<rparr>, u', w')) \<and> last (calls u') = options_call True"
proof -
  from sample_runs(2) obtain v where "apply_network_profile echo_parse echo_server 2
      \<lparr>ReqProfile = Sync_Anywhere, ReqSelf = ''S'', ReqAllowed = []\<rparr> idle_upstream = (Inr (), v)"
    by (auto simp: sample_request_def split: prod.splits)
  from failed_save_hides_profile [OF this, of "\<lparr>files = network_files, plan = [Fail]\<rparr>" "[]"
      "\<lparr>NMProfile = Lan_Only, NMAllowed = [], NMObserved = []\<rparr>" "[]" "\<lambda>_. 9" network_path]
  show ?thesis by auto
qed

end
