(* ===== verification/Card_Tree.thy ===== *)
theory Card_Tree
  imports Go_Path Crash_Store
begin

text \<open>
  Directories as a whole, for the code that keeps snapshots on a card: listing, renaming and
  removing them, and the safe removal of one file.  A file map has no finite support of its own,
  so the operations that enumerate take \<open>paths\<close>, the paths that the card can hold, children
  before their parents.
\<close>

section \<open>System calls\<close>

definition under :: "string \<Rightarrow> string \<Rightarrow> bool" where
  "under p q \<longleftrightarrow> has_prefix q (p @ ''/'')"

text \<open>\<open>os.ReadDir\<close>: the names in order, each with what \<open>Type\<close> tells of it.\<close>

definition entries_of :: "string list \<Rightarrow> string \<Rightarrow> 'd fs \<Rightarrow> (string \<times> 'd node) list" where
  "entries_of paths p f =
     List.map_filter (\<lambda>name. map_option (Pair name) (f (join_path [p, name])))
       (sort (remdups (filter name_comp (map base_name (filter (\<lambda>q. dir_name q = p) paths)))))"

definition read_dir :: "string list \<Rightarrow> string \<Rightarrow> ('d, (string \<times> 'd node) list) io" where
  "read_dir paths p = sys (\<lambda>f. case f p of
     Some Dir \<Rightarrow> (Ok (entries_of paths p f), f)
   | _ \<Rightarrow> (Failed ''read directory error'', f))"

definition renamed :: "string \<Rightarrow> string \<Rightarrow> 'd fs \<Rightarrow> 'd fs" where
  "renamed a b f = (\<lambda>q. if q = b \<or> under b q then f (a @ drop (length b) q)
     else if q = a \<or> under a q then None else f q)"

text \<open>\<open>os.Rename\<close> of a directory onto a name that is free.\<close>

definition rename_dir :: "string \<Rightarrow> string \<Rightarrow> ('d, unit) io" where
  "rename_dir a b = sys (\<lambda>f. if f a \<noteq> Some Dir then (Failed ''no such directory'', f)
     else if f b \<noteq> None then (Failed ''file exists'', f) else (Ok (), renamed a b f))"

definition remove_entry :: "string \<Rightarrow> ('d, unit) io" where
  "remove_entry p = sys (\<lambda>f. (Ok (), f(p := None)))"

fun remove_entries :: "string list \<Rightarrow> ('d, unit) io" where
  "remove_entries [] = io_ret ()"
| "remove_entries (p # ps) = io_bind (remove_entry p) (\<lambda>_. remove_entries ps)"

text \<open>\<open>os.RemoveAll\<close>: one entry after the other, the directory itself last.\<close>

definition remove_all :: "string list \<Rightarrow> string \<Rightarrow> ('d, unit) io" where
  "remove_all paths p = remove_entries (filter (under p) paths @ [p])"

lemma wp_read_dir [wp_exec]:
  "wp b (io_bind (read_dir paths p) k) Q E C f \<longleftrightarrow> C f \<and> (b \<longrightarrow> E ''I/O error'' f) \<and>
     (if f p = Some Dir then wp b (k (entries_of paths p f)) Q E C f else E ''read directory error'' f)"
  by (auto simp: read_dir_def wp_sys_bind split: option.split node.split)

lemma wp_rename_dir [wp_exec]:
  "wp b (io_bind (rename_dir p q) k) Q E C f \<longleftrightarrow> C f \<and> (b \<longrightarrow> E ''I/O error'' f) \<and>
     (if f p \<noteq> Some Dir then E ''no such directory'' f else if f q \<noteq> None then E ''file exists'' f
      else wp b (k ()) Q E C (renamed p q f))"
  by (auto simp: rename_dir_def wp_sys_bind)

lemma wp_remove_entry [wp_exec]:
  "wp b (io_bind (remove_entry p) k) Q E C f \<longleftrightarrow> C f \<and> (b \<longrightarrow> E ''I/O error'' f) \<and> wp b (k ()) Q E C (f(p := None))"
  by (simp add: remove_entry_def wp_sys_bind)

lemma remove_entries_wp:
  assumes "I f" and "\<And>g p. I g \<Longrightarrow> p \<in> set ps \<Longrightarrow> I (g(p := None))"
    and "\<And>g. I g \<Longrightarrow> C g" and "\<And>e g. I g \<Longrightarrow> E e g" and "\<And>g. I g \<Longrightarrow> wp b (k ()) Q E C g"
  shows "wp b (io_bind (remove_entries ps) k) Q E C f"
  using assms(1,2) by (induction ps arbitrary: f) (simp_all add: wp_exec assms(3-5))

lemma remove_all_wp:
  assumes "I f" and "\<And>g q. I g \<Longrightarrow> q = p \<or> under p q \<Longrightarrow> I (g(q := None))"
    and "\<And>g. I g \<Longrightarrow> C g" and "\<And>e g. I g \<Longrightarrow> E e g" and "\<And>g. I g \<Longrightarrow> wp b (k ()) Q E C g"
  shows "wp b (io_bind (remove_all paths p) k) Q E C f"
  unfolding remove_all_def by (rule remove_entries_wp [where I = I]) (use assms in auto)

section \<open>Removing one file\<close>

text \<open>\<open>removeSafeRegular\<close> and \<open>removeSafeRegularIfExists\<close>.\<close>

definition remove_safe :: "string \<Rightarrow> ('d, unit) io" where
  "remove_safe p = io_bind (lstat p) (\<lambda>info. case info of
     None \<Rightarrow> io_fail ''no such file''
   | Some (Reg c) \<Rightarrow> remove_file p
   | Some _ \<Rightarrow> io_fail ''refuse to remove unsafe reset state file'')"

definition remove_safe_if_exists :: "string \<Rightarrow> ('d, unit) io" where
  "remove_safe_if_exists p = io_bind (io_try (lstat p)) (\<lambda>info.
     if info = Inr None then io_ret () else remove_safe p)"

lemma remove_safe_if_exists_wp:
  assumes "I f" and "I (f(p := None))"
    and "\<And>g. I g \<Longrightarrow> C g" and "\<And>e g. I g \<Longrightarrow> E e g"
    and "\<And>g. I g \<Longrightarrow> g p = None \<Longrightarrow> g = f \<or> g = f(p := None) \<Longrightarrow> wp b (k ()) Q E C g"
  shows "wp b (io_bind (remove_safe_if_exists p) k) Q E C f"
  using assms by (auto simp: remove_safe_if_exists_def remove_safe_def wp_exec split: option.split node.split)

section \<open>Names in a directory\<close>

lemma join_name_comps:
  assumes "name_comp n" and "p \<noteq> ''''"
  shows "path_comps (join_path [p, n]) = path_comps p @ [n]" "rooted (join_path [p, n]) = rooted p"
    "join_path [p, n] \<noteq> ''''" "clean (join_path [p, n]) = join_path [p, n]"
  using path_comps_join_names [of p "[n]"] assms by (simp_all add: join_path_clean)

lemma join_name_inj:
  assumes "name_comp n" and "name_comp m" and "p \<noteq> ''''" and "q \<noteq> ''''"
  shows "join_path [p, n] = join_path [q, m] \<longleftrightarrow> clean p = clean q \<and> n = m"
proof
  assume "join_path [p, n] = join_path [q, m]"
  then have "path_comps p @ [n] = path_comps q @ [m]" "rooted p = rooted q"
    using join_name_comps [OF assms(1,3)] join_name_comps [OF assms(2,4)] by metis+
  then show "clean p = clean q \<and> n = m" by (simp add: clean_eq_iff)
next
  assume "clean p = clean q \<and> n = m"
  then have "rooted p = rooted q" "path_comps p = path_comps q" "n = m" by (simp_all add: clean_eq_iff)
  then have "clean (join_path [p, n]) = clean (join_path [q, m])"
    unfolding clean_eq_iff using join_name_comps(1,2) [OF assms(1,3)] join_name_comps(1,2) [OF assms(2,4)] by simp
  then show "join_path [p, n] = join_path [q, m]"
    using join_name_comps(4) [OF assms(1,3)] join_name_comps(4) [OF assms(2,4)] by simp
qed

lemma join_name_not_self: "name_comp n \<Longrightarrow> p \<noteq> '''' \<Longrightarrow> join_path [p, n] \<noteq> p"
  using join_name_comps(1) [of n p] by (metis append_self_conv not_Cons_self2)

text \<open>A name in a directory below the root, written out.\<close>

lemma join_name_text:
  assumes "name_comp n" and "clean p = p" and "path_comps p \<noteq> []"
  shows "join_path [p, n] = p @ ''/'' @ n"
proof -
  have ne: "p \<noteq> ''''" using assms(3) by auto
  have norm: "norm_comps (rooted p) (path_comps p)" by (rule path_comps_norm)
  have app: "join_with ''/'' (cs @ [n]) = join_with ''/'' cs @ ''/'' @ n" if "cs \<noteq> []" for cs
    using that by (induction cs rule: join_with.induct [of _ "''/''", simplified]) auto
  have "join_path [p, n] = clean (join_path [p, n])" using join_name_comps(4) [OF assms(1) ne] by simp
  also have "\<dots> = render (rooted p) (path_comps p @ [n])"
    using join_name_comps(1,2) [OF assms(1) ne] by (simp add: clean_def)
  also have "\<dots> = render (rooted p) (path_comps p) @ ''/'' @ n"
    using app [OF assms(3)] assms(3) by (simp add: render_def)
  finally show ?thesis using assms(2) by (simp add: clean_def)
qed

lemma dropWhile_rev_name: "CHR ''/'' \<notin> set n \<Longrightarrow> dropWhile (\<lambda>c. c \<noteq> CHR ''/'') (rev n @ CHR ''/'' # r) = CHR ''/'' # r"
  by (subst dropWhile_append2) auto

lemma clean_trailing: "p \<noteq> '''' \<Longrightarrow> clean (p @ ''/'') = clean p"
proof -
  assume "p \<noteq> ''''"
  moreover have "path_comps (p @ ''/'') = clean_comps (rooted (p @ ''/'')) (split_on CHR ''/'' p @ [''''])"
    unfolding path_comps_def using split_on_append [of "CHR ''/''" p "''''"] by simp
  moreover have "clean_comps r (cs @ ['''']) = clean_comps r cs" for r cs by (simp add: clean_comps_def)
  ultimately show ?thesis by (simp add: clean_eq_iff rooted_append path_comps_def)
qed

lemma dir_and_base:
  assumes "name_comp n" and "clean p = p" and "path_comps p \<noteq> []"
  shows "dir_name (join_path [p, n]) = p" and "base_name (join_path [p, n]) = n"
proof -
  have n: "CHR ''/'' \<notin> set n" "n \<noteq> ''''" using assms(1) by (simp_all add: name_comp_def)
  have p: "p \<noteq> ''''" using assms(3) by auto
  show "dir_name (join_path [p, n]) = p"
    using dropWhile_rev_name [OF n(1), of "rev p"] clean_trailing [OF p] assms(2)
    by (simp add: join_name_text [OF assms] dir_name_def)
  have "dropWhile (\<lambda>c. c = CHR ''/'') (rev n @ CHR ''/'' # rev p) = rev n @ CHR ''/'' # rev p"
    using n by (cases n rule: rev_cases) auto
  then show "base_name (join_path [p, n]) = n"
    using n by (simp add: join_name_text [OF assms] base_name_def split_on_append split_on_no_sep)
qed

section \<open>Frames\<close>

text \<open>Two file maps that agree outside a few paths.\<close>

definition same_except :: "string list \<Rightarrow> 'd fs \<Rightarrow> 'd fs \<Rightarrow> bool" where
  "same_except ps f g \<longleftrightarrow> (\<forall>q. q \<notin> set ps \<longrightarrow> g q = f q)"

lemma same_except_refl [simp]: "same_except ps f f" by (simp add: same_except_def)

lemma same_except_upd: "same_except ps f g \<Longrightarrow> p \<in> set ps \<Longrightarrow> same_except ps f (g(p := x))"
  by (auto simp: same_except_def)

lemma same_except_trans: "same_except ps f g \<Longrightarrow> same_except ps g h \<Longrightarrow> same_except ps f h"
  by (simp add: same_except_def)

lemma same_exceptD: "same_except ps f g \<Longrightarrow> q \<notin> set ps \<Longrightarrow> g q = f q"
  by (simp add: same_except_def)

end
