(* ===== verification/Programs.thy ===== *)
theory Programs
  imports Prelude
begin

text \<open>
  Programs that work on several families of files and on state in memory: the outcomes of the
  prelude over any state, with the rule that brings a program over one family of files, and what
  its precondition calculus says of it, into such a state.
\<close>

section \<open>Programs\<close>

type_synonym ('s, 'a) prog = "'s \<Rightarrow> 'a outcome \<times> 's"

definition pr_ret :: "'a \<Rightarrow> ('s, 'a) prog" where "pr_ret x = (\<lambda>s. (Ok x, s))"

definition pr_fail :: "error \<Rightarrow> ('s, 'a) prog" where "pr_fail e = (\<lambda>s. (Failed e, s))"

definition pr_bind :: "('s, 'a) prog \<Rightarrow> ('a \<Rightarrow> ('s, 'b) prog) \<Rightarrow> ('s, 'b) prog" where
  "pr_bind m k = (\<lambda>s. case m s of
     (Ok x, t) \<Rightarrow> k x t | (Failed e, t) \<Rightarrow> (Failed e, t) | (Died, t) \<Rightarrow> (Died, t))"

definition pr_get :: "('s \<Rightarrow> 'a) \<Rightarrow> ('s, 'a) prog" where "pr_get g = (\<lambda>s. (Ok (g s), s))"

definition pr_put :: "('s \<Rightarrow> 's) \<Rightarrow> ('s, unit) prog" where "pr_put u = (\<lambda>s. (Ok (), u s))"

definition pr_lift :: "error + 'a \<Rightarrow> ('s, 'a) prog" where
  "pr_lift r = (case r of Inl e \<Rightarrow> pr_fail e | Inr x \<Rightarrow> pr_ret x)"

definition pr_check :: "bool \<Rightarrow> error \<Rightarrow> ('s, unit) prog" where
  "pr_check b e = (if b then pr_ret () else pr_fail e)"

fun pr_each :: "('a \<Rightarrow> ('s, unit) prog) \<Rightarrow> 'a list \<Rightarrow> ('s, unit) prog" where
  "pr_each m [] = pr_ret ()"
| "pr_each m (x # xs) = pr_bind (m x) (\<lambda>_. pr_each m xs)"

text \<open>A program over one family of files.\<close>

definition on_files :: "('s \<Rightarrow> 'd world) \<Rightarrow> ('d world \<Rightarrow> 's \<Rightarrow> 's) \<Rightarrow> ('d, 'a) io \<Rightarrow> ('s, 'a) prog" where
  "on_files get put m = (\<lambda>s. case m (get s) of (r, w) \<Rightarrow> (r, put w s))"

text \<open>The outcome of a program from a state: its value, its error, or the state it died in.\<close>

definition sat :: "('s, 'a) prog \<Rightarrow> ('a \<Rightarrow> 's \<Rightarrow> bool) \<Rightarrow> (error \<Rightarrow> 's \<Rightarrow> bool) \<Rightarrow> ('s \<Rightarrow> bool) \<Rightarrow> 's \<Rightarrow> bool" where
  "sat m Q E C s \<longleftrightarrow> (case m s of (Ok x, t) \<Rightarrow> Q x t | (Failed e, t) \<Rightarrow> E e t | (Died, t) \<Rightarrow> C t)"

lemma sat_prims [simp]:
  "sat (pr_ret x) Q E C s \<longleftrightarrow> Q x s"
  "sat (pr_fail e) Q2 E C s \<longleftrightarrow> E e s"
  "sat (pr_get g) Q3 E C s \<longleftrightarrow> Q3 (g s) s"
  "sat (pr_put u) Q4 E C s \<longleftrightarrow> Q4 () (u s)"
  "sat (pr_check b e) Q4 E C s \<longleftrightarrow> (if b then Q4 () s else E e s)"
  "sat (pr_lift r) Q6 E C s \<longleftrightarrow> (case r of Inl e \<Rightarrow> E e s | Inr x \<Rightarrow> Q6 x s)"
  by (auto simp: sat_def pr_ret_def pr_fail_def pr_get_def pr_put_def pr_check_def pr_lift_def split: sum.split)

lemma sat_bind: "sat (pr_bind m k) Q E C s \<longleftrightarrow> sat m (\<lambda>x. sat (k x) Q E C) E C s"
  by (auto simp: sat_def pr_bind_def split: prod.splits outcome.splits)

lemma sat_mono:
  "sat m Q E C s \<Longrightarrow> (\<And>x t. Q x t \<Longrightarrow> Q' x t) \<Longrightarrow> (\<And>e t. E e t \<Longrightarrow> E' e t) \<Longrightarrow> (\<And>t. C t \<Longrightarrow> C' t) \<Longrightarrow>
   sat m Q' E' C' s"
  by (auto simp: sat_def split: prod.splits outcome.splits)

lemma sat_prim_binds [simp]:
  "sat (pr_bind (pr_ret x) k) Q E C s \<longleftrightarrow> sat (k x) Q E C s"
  "sat (pr_bind (pr_fail e) k2) Q E C s \<longleftrightarrow> E e s"
  "sat (pr_bind (pr_get g) k3) Q E C s \<longleftrightarrow> sat (k3 (g s)) Q E C s"
  "sat (pr_bind (pr_put u) k4) Q E C s \<longleftrightarrow> sat (k4 ()) Q E C (u s)"
  "sat (pr_bind (pr_check b e) k5) Q E C s \<longleftrightarrow> (if b then sat (k5 ()) Q E C s else E e s)"
  "sat (pr_bind (pr_lift r) k6) Q E C s \<longleftrightarrow> (case r of Inl e \<Rightarrow> E e s | Inr x \<Rightarrow> sat (k6 x) Q E C s)"
  by (simp_all add: sat_bind)

lemma sat_bindI:
  "sat m R E' C' s \<Longrightarrow> (\<And>x t. R x t \<Longrightarrow> sat (k x) Q E C t) \<Longrightarrow> (\<And>e t. E' e t \<Longrightarrow> E e t) \<Longrightarrow>
   (\<And>t. C' t \<Longrightarrow> C t) \<Longrightarrow> sat (pr_bind m k) Q E C s"
  by (auto simp: sat_bind elim!: sat_mono)

text \<open>A program over one family changes nothing else and keeps what its precondition calculus says.\<close>

lemma sat_on_files:
  assumes "wp True m Q' E' C' (files (get s))"
    and "\<And>x w. Q' x (files w) \<Longrightarrow> Q x (put w s)"
    and "\<And>e w. E' e (files w) \<Longrightarrow> E e (put w s)"
    and "\<And>w. C' (files w) \<Longrightarrow> C (put w s)"
  shows "sat (on_files get put m) Q E C s"
proof -
  have "outcome_sat True Q' E' C' (deathless (get s)) (m (get s))"
    by (rule wpE [OF assms(1)]) simp
  then show ?thesis
    using assms(2-4) by (cases "m (get s)"; cases "fst (m (get s))") (auto simp: sat_def on_files_def)
qed

lemma sat_each:
  assumes "I s" and "\<And>x t. x \<in> set xs \<Longrightarrow> I t \<Longrightarrow> sat (m x) (\<lambda>_. I) E C t"
  shows "sat (pr_each m xs) (\<lambda>_. I) E C s"
  using assms
proof (induction xs arbitrary: s)
  case (Cons x xs)
  have "sat (m x) (\<lambda>_ t. I t) E C s" using Cons.prems by simp
  then show ?case
    by (simp add: sat_bind) (rule sat_mono, assumption, use Cons in auto)
qed simp

text \<open>A loop whose bodies each establish a fact that the later bodies keep.\<close>

lemma sat_each_facts:
  assumes "I s" and "distinct xs"
    and "\<And>x t. x \<in> set xs \<Longrightarrow> I t \<Longrightarrow> sat (m x) (\<lambda>_ t'. I t' \<and> P x t' \<and> (\<forall>y \<in> set xs. y \<noteq> x \<longrightarrow> P y t \<longrightarrow> P y t')) E C t"
  shows "sat (pr_each m xs) (\<lambda>_ t. I t \<and> (\<forall>x \<in> set xs. P x t)) E C s"
proof -
  have "sat (pr_each m ys) (\<lambda>_ t. I t \<and> (\<forall>x \<in> set (xs0 @ ys). P x t)) E C t"
    if "I t" "\<forall>x \<in> set xs0. P x t" "xs = xs0 @ ys" for xs0 ys t
    using that
  proof (induction ys arbitrary: xs0 t)
    case (Cons y ys)
    have "sat (m y) (\<lambda>_ t'. I t' \<and> P y t' \<and> (\<forall>z \<in> set xs. z \<noteq> y \<longrightarrow> P z t \<longrightarrow> P z t')) E C t"
      by (rule assms(3)) (use Cons.prems in auto)
    moreover have "sat (pr_each m ys) (\<lambda>_ t. I t \<and> (\<forall>x \<in> set (xs0 @ y # ys). P x t)) E C t'"
      if t': "I t' \<and> P y t' \<and> (\<forall>z \<in> set xs. z \<noteq> y \<longrightarrow> P z t \<longrightarrow> P z t')" for t'
    proof -
      have "y \<notin> set xs0" using assms(2) Cons.prems(3) by auto
      then have "\<forall>x \<in> set (xs0 @ [y]). P x t'" using t' Cons.prems(2,3) by auto
      from Cons.IH [OF _ this] t' Cons.prems(3) show ?thesis by simp
    qed
    ultimately show ?case by (simp add: sat_bind) (erule sat_mono, auto)
  qed simp
  from this [of s "[]" xs] show ?thesis using assms(1) by simp
qed

text \<open>Going on with the error as a value.\<close>

definition pr_try :: "('s, 'a) prog \<Rightarrow> ('s, error + 'a) prog" where
  "pr_try m = (\<lambda>s. case m s of
     (Ok x, t) \<Rightarrow> (Ok (Inr x), t) | (Failed e, t) \<Rightarrow> (Ok (Inl e), t) | (Died, t) \<Rightarrow> (Died, t))"

definition pr_when :: "bool \<Rightarrow> ('s, unit) prog \<Rightarrow> ('s, unit) prog" where
  "pr_when b m = (if b then m else pr_ret ())"

lemma sat_try: "sat (pr_try m) Q E C s \<longleftrightarrow> sat m (\<lambda>x. Q (Inr x)) (\<lambda>e. Q (Inl e)) C s"
  by (auto simp: sat_def pr_try_def split: prod.splits outcome.splits)

lemma pr_bind_Ok: "pr_bind m k s = (Ok y, u) \<longleftrightarrow> (\<exists>x t. m s = (Ok x, t) \<and> k x t = (Ok y, u))"
  by (auto simp: pr_bind_def split: prod.splits outcome.splits)

lemma pr_try_Ok: "pr_try m s = (Ok r, t) \<longleftrightarrow> (\<exists>x. r = Inr x \<and> m s = (Ok x, t)) \<or> (\<exists>e. r = Inl e \<and> m s = (Failed e, t))"
  by (auto simp: pr_try_def split: prod.splits outcome.splits)

lemma pr_prims_Ok:
  "pr_ret x s = (r, t) \<longleftrightarrow> r = Ok x \<and> t = s"
  "pr_fail e s = (q, t) \<longleftrightarrow> q = Failed e \<and> t = s"
  "pr_get g s = (p, t) \<longleftrightarrow> p = Ok (g s) \<and> t = s"
  "pr_put u s = (o', t) \<longleftrightarrow> o' = Ok () \<and> t = u s"
  "pr_check b e s = (c, t) \<longleftrightarrow> (if b then c = Ok () else c = Failed e) \<and> t = s"
  by (auto simp: pr_ret_def pr_fail_def pr_get_def pr_put_def pr_check_def)

lemma pr_lift_Ok: "pr_lift r s = (Ok x, t) \<longleftrightarrow> r = Inr x \<and> t = s"
  by (auto simp: pr_lift_def pr_fail_def pr_ret_def split: sum.splits)

lemma branch_Ok:
  "(case r of Inl e \<Rightarrow> m e | Inr y \<Rightarrow> k y) s = (Ok x, t) \<longleftrightarrow>
     (\<exists>e. r = Inl e \<and> m e s = (Ok x, t)) \<or> (\<exists>y. r = Inr y \<and> k y s = (Ok x, t))"
  "(if b then m' else n) s = (Ok x, t) \<longleftrightarrow> b \<and> m' s = (Ok x, t) \<or> \<not> b \<and> n s = (Ok x, t)"
  by (auto split: sum.split)

lemma check_Ok: "pr_check b e s = (Ok x, t) \<longleftrightarrow> b \<and> t = s"
  by (auto simp: pr_check_def pr_ret_def pr_fail_def)

lemmas run_Ok = pr_bind_Ok pr_prims_Ok(1-4) check_Ok pr_lift_Ok branch_Ok

end
