(* ===== verification/First_Sync.thy ===== *)
theory First_Sync
  imports Card_Tree Programs Folder_Reconcile Json
begin

text \<open>
  \<open>controller/first_sync.go\<close>: a folder stays paused until its first synchronisation was started
  explicitly, and a folder that can receive needs a snapshot of its content on the card before.
  The proof of both is a marker file on the card; the pause reason is in the folder control store.
  This theory has the documents, the recovery at start, the completion and the invalidation; the
  snapshots are in the theory that extends it.

  The files of a card are JSON documents: \<open>Doc j n\<close> is a file whose text is exactly the JSON value
  \<open>j\<close>.  The folder control store lives in files of its own, so a state of the program has two
  file maps, each with its plan of faults.
\<close>

section \<open>Documents\<close>

record snapshot_header =
  HSchema :: int
  HState :: string
  HEpoch :: "64 word"
  HFolder :: string
  HCard :: string
  HSource :: string
  HKind :: string
  HRelative :: string
  HName :: string
  HCreatedAt :: string
  HFiles :: int
  HDirectories :: int
  HBytes :: int

record first_sync_marker =
  MSchema :: int
  MState :: string
  MEpoch :: "64 word"
  MFolder :: string
  MCard :: string
  MKind :: string
  MFolderType :: string
  MMode :: string
  MSnapshot :: string
  MHub :: bool
  MExplicit :: bool
  MCompletedAt :: string

definition first_sync_document_schema :: int where "first_sync_document_schema = 1"
definition max_first_sync_document_bytes :: int where "max_first_sync_document_bytes = 32 * 1024"
definition first_sync_marker_name :: string where "first_sync_marker_name = ''.leaf-first-sync.json''"
definition first_sync_marker_temporary :: string where "first_sync_marker_temporary = ''.leaf-first-sync.json.tmp''"
definition snapshot_header_name :: string where "snapshot_header_name = ''snapshot.json''"
definition snapshot_header_temporary :: string where "snapshot_header_temporary = ''snapshot.json.tmp''"
definition snapshot_manifest_name :: string where "snapshot_manifest_name = ''manifest.jsonl''"
definition snapshot_files_name :: string where "snapshot_files_name = ''files''"
definition snapshot_partial_prefix :: string where "snapshot_partial_prefix = ''.partial-''"

text \<open>A \<open>uint64\<close> field.\<close>

definition set_uint :: "(64 word \<Rightarrow> 's \<Rightarrow> 's) \<Rightarrow> 's setter" where
  "set_uint upd s v = (case v of
     JNull \<Rightarrow> Inr s
   | JInt i \<Rightarrow> if 0 \<le> i \<and> i < 2 ^ 64 then Inr (upd (word_of_int i) s) else Inl ''number out of range''
   | _ \<Rightarrow> Inl ''cannot unmarshal into uint64'')"

definition zero_header :: snapshot_header where
  "zero_header = \<lparr>HSchema = 0, HState = '''', HEpoch = 0, HFolder = '''', HCard = '''', HSource = '''', HKind = '''',
     HRelative = '''', HName = '''', HCreatedAt = '''', HFiles = 0, HDirectories = 0, HBytes = 0\<rparr>"

definition header_spec :: "(string \<times> snapshot_header setter) list" where
  "header_spec = [
     (''schema'', set_int (\<lambda>x h. h\<lparr>HSchema := x\<rparr>)), (''state'', set_string (\<lambda>x h. h\<lparr>HState := x\<rparr>)),
     (''epoch'', set_uint (\<lambda>x h. h\<lparr>HEpoch := x\<rparr>)), (''folder_id'', set_string (\<lambda>x h. h\<lparr>HFolder := x\<rparr>)),
     (''card_id'', set_string (\<lambda>x h. h\<lparr>HCard := x\<rparr>)), (''source_id'', set_string (\<lambda>x h. h\<lparr>HSource := x\<rparr>)),
     (''kind'', set_string (\<lambda>x h. h\<lparr>HKind := x\<rparr>)), (''source_relative'', set_string (\<lambda>x h. h\<lparr>HRelative := x\<rparr>)),
     (''name'', set_string (\<lambda>x h. h\<lparr>HName := x\<rparr>)), (''created_at'', set_string (\<lambda>x h. h\<lparr>HCreatedAt := x\<rparr>)),
     (''file_count'', set_int (\<lambda>x h. h\<lparr>HFiles := x\<rparr>)), (''directory_count'', set_int (\<lambda>x h. h\<lparr>HDirectories := x\<rparr>)),
     (''content_bytes'', set_int (\<lambda>x h. h\<lparr>HBytes := x\<rparr>))]"

definition decode_header :: "json \<Rightarrow> error + snapshot_header" where
  "decode_header = decode_struct True header_spec zero_header"

definition header_json :: "snapshot_header \<Rightarrow> json" where
  "header_json h = JObj [
     (''schema'', JInt (HSchema h)), (''state'', JStr (HState h)), (''epoch'', JInt (uint (HEpoch h))),
     (''folder_id'', JStr (HFolder h)), (''card_id'', JStr (HCard h)), (''source_id'', JStr (HSource h)),
     (''kind'', JStr (HKind h)), (''source_relative'', JStr (HRelative h)), (''name'', JStr (HName h)),
     (''created_at'', JStr (HCreatedAt h)), (''file_count'', JInt (HFiles h)),
     (''directory_count'', JInt (HDirectories h)), (''content_bytes'', JInt (HBytes h))]"

definition zero_marker :: first_sync_marker where
  "zero_marker = \<lparr>MSchema = 0, MState = '''', MEpoch = 0, MFolder = '''', MCard = '''', MKind = '''', MFolderType = '''',
     MMode = '''', MSnapshot = '''', MHub = False, MExplicit = False, MCompletedAt = ''''\<rparr>"

definition marker_spec :: "(string \<times> first_sync_marker setter) list" where
  "marker_spec = [
     (''schema'', set_int (\<lambda>x m. m\<lparr>MSchema := x\<rparr>)), (''state'', set_string (\<lambda>x m. m\<lparr>MState := x\<rparr>)),
     (''epoch'', set_uint (\<lambda>x m. m\<lparr>MEpoch := x\<rparr>)), (''folder_id'', set_string (\<lambda>x m. m\<lparr>MFolder := x\<rparr>)),
     (''card_id'', set_string (\<lambda>x m. m\<lparr>MCard := x\<rparr>)), (''kind'', set_string (\<lambda>x m. m\<lparr>MKind := x\<rparr>)),
     (''folder_type'', set_string (\<lambda>x m. m\<lparr>MFolderType := x\<rparr>)), (''mode'', set_string (\<lambda>x m. m\<lparr>MMode := x\<rparr>)),
     (''snapshot_name'', set_string (\<lambda>x m. m\<lparr>MSnapshot := x\<rparr>)),
     (''hub_versioning_acknowledged'', set_bool (\<lambda>x m. m\<lparr>MHub := x\<rparr>)),
     (''explicit_start'', set_bool (\<lambda>x m. m\<lparr>MExplicit := x\<rparr>)),
     (''completed_at'', set_string (\<lambda>x m. m\<lparr>MCompletedAt := x\<rparr>))]"

definition decode_marker :: "json \<Rightarrow> error + first_sync_marker" where
  "decode_marker = decode_struct True marker_spec zero_marker"

text \<open>\<open>snapshot_name\<close> is omitted when it is empty.\<close>

definition marker_json :: "first_sync_marker \<Rightarrow> json" where
  "marker_json m = JObj ([
     (''schema'', JInt (MSchema m)), (''state'', JStr (MState m)), (''epoch'', JInt (uint (MEpoch m))),
     (''folder_id'', JStr (MFolder m)), (''card_id'', JStr (MCard m)), (''kind'', JStr (MKind m)),
     (''folder_type'', JStr (MFolderType m)), (''mode'', JStr (MMode m))] @
     (if MSnapshot m = '''' then [] else [(''snapshot_name'', JStr (MSnapshot m))]) @
     [(''hub_versioning_acknowledged'', JBool (MHub m)), (''explicit_start'', JBool (MExplicit m)),
      (''completed_at'', JStr (MCompletedAt m))])"

definition go_int :: "int \<Rightarrow> bool" where
  "go_int i \<longleftrightarrow> int_min \<le> i \<and> i \<le> int_max"

lemma uint_64: "0 \<le> uint (w :: 64 word) \<and> uint w < 2 ^ 64"
  using uint_bounded [of w] by simp

lemma find_field_first: "map_of spec k = Some s \<Longrightarrow> find_field spec k = Some s"
  by (simp add: find_field_def)

lemma decode_header_json:
  "go_int (HSchema h) \<Longrightarrow> go_int (HFiles h) \<Longrightarrow> go_int (HDirectories h) \<Longrightarrow> go_int (HBytes h) \<Longrightarrow>
   decode_header (header_json h) = Inr h"
  using uint_64 [of "HEpoch h"]
  by (simp add: decode_header_def header_json_def decode_struct_def header_spec_def find_field_first
      setter_defs set_uint_def go_int_def zero_header_def)

lemma decode_marker_json: "go_int (MSchema m) \<Longrightarrow> decode_marker (marker_json m) = Inr m"
  using uint_64 [of "MEpoch m"]
  by (simp add: decode_marker_def marker_json_def decode_struct_def marker_spec_def find_field_first
      setter_defs set_uint_def go_int_def zero_marker_def)

section \<open>Reading and replacing documents\<close>

definition bounded_doc :: "(json \<Rightarrow> error + 'x) \<Rightarrow> json node option \<Rightarrow> error + 'x option" where
  "bounded_doc decode n = (case n of
     None \<Rightarrow> Inr None
   | Some (Reg c) \<Rightarrow>
       if content_size c = 0 \<or> int (content_size c) > max_first_sync_document_bytes then Inl ''first-sync document is unsafe''
       else (case c of Junk _ \<Rightarrow> Inl ''decode error'' | Doc j _ \<Rightarrow> sum_bind (decode j) (\<lambda>x. Inr (Some x)))
   | Some _ \<Rightarrow> Inl ''first-sync document is unsafe'')"

definition read_bounded :: "(json \<Rightarrow> error + 'x) \<Rightarrow> string \<Rightarrow> (json, 'x option) io" where
  "read_bounded decode p = io_bind (lstat p) (\<lambda>info. case info of
     None \<Rightarrow> io_ret None
   | Some (Reg c) \<Rightarrow>
       if content_size c = 0 \<or> int (content_size c) > max_first_sync_document_bytes then io_fail ''first-sync document is unsafe''
       else io_bind (read_file p) (\<lambda>contents. case contents of
         Junk _ \<Rightarrow> io_fail ''decode error'' | Doc j _ \<Rightarrow> io_bind (io_lift (decode j)) (\<lambda>x. io_ret (Some x)))
   | Some _ \<Rightarrow> io_fail ''first-sync document is unsafe'')"

lemma wp_read_bounded [wp_exec]:
  "wp b (io_bind (read_bounded d p) k) Q E C f \<longleftrightarrow> C f \<and> (b \<longrightarrow> E ''I/O error'' f) \<and>
     (case bounded_doc d (f p) of Inl e \<Rightarrow> E e f | Inr x \<Rightarrow> wp b (k x) Q E C f)"
  by (auto simp: read_bounded_def bounded_doc_def wp_exec sum_bind_def
      split: option.split node.split content.split sum.split)

text \<open>\<open>sz\<close> is the length of a marshalled document with its newline.\<close>

definition write_bounded :: "(json \<Rightarrow> nat) \<Rightarrow> string \<Rightarrow> json \<Rightarrow> (json, unit) io" where
  "write_bounded sz p j =
     (if int (sz j) > max_first_sync_document_bytes then io_fail ''first-sync document exceeds its size limit''
      else io_bind (create_excl p) (\<lambda>_. io_bind (write_file p (Doc j (sz j))) (\<lambda>_.
        io_bind (fsync_file p) (\<lambda>_. close_file p))))"

definition replace_bounded :: "(json \<Rightarrow> nat) \<Rightarrow> string \<Rightarrow> string \<Rightarrow> json \<Rightarrow> (json, unit) io" where
  "replace_bounded sz p tmp_name j =
     (let temporary = join_path [dir_name p, tmp_name]
      in io_bind (remove_safe_if_exists temporary) (\<lambda>_.
         io_bind (lstat p) (\<lambda>info.
         if plain info then
           io_bind (write_bounded sz temporary j) (\<lambda>_. rename_file temporary p)
         else io_fail ''first-sync document target is unsafe'')))"

definition safe_directory_entries :: "string list \<Rightarrow> string \<Rightarrow> ('d, (string \<times> 'd node) list option) io" where
  "safe_directory_entries paths p = io_bind (lstat p) (\<lambda>info. case info of
     None \<Rightarrow> io_ret None
   | Some n \<Rightarrow> if n \<noteq> Dir then io_fail ''inventory root is not a real directory''
               else io_bind (read_dir paths p) (\<lambda>es. io_ret (Some es)))"

section \<open>Cards and folders\<close>

definition usable_enrolled_card :: "leaf_card \<Rightarrow> bool" where
  "usable_enrolled_card c \<longleftrightarrow>
     IID (Identity c) \<noteq> '''' \<and> State c = Enrolled \<and> Present c \<and> Writable c \<and> \<not> DuplicateID c"

definition first_sync_kind_root :: "leaf_card \<Rightarrow> string \<Rightarrow> string" where
  "first_sync_kind_root c kind = join_path [UserdataPath (Source c), app_state_name, ''snapshots'', kind]"

definition marker_file :: "leaf_card \<Rightarrow> string \<Rightarrow> string" where
  "marker_file c kind = join_path [first_sync_kind_root c kind, first_sync_marker_name]"

definition card_for_configured_folder ::
    "configured_folder \<Rightarrow> leaf_card list \<Rightarrow> (string \<times> control_record) list \<Rightarrow> leaf_card option" where
  "card_for_configured_folder folder inventory controls = (case map_of controls (FID folder) of
     None \<Rightarrow> None
   | Some r \<Rightarrow>
       if \<not> complete_folder_binding r \<or> Kind r \<noteq> FKind folder then None
       else (case filter (\<lambda>c. IID (Identity c) = CardID r) inventory of [c] \<Rightarrow> Some c | _ \<Rightarrow> None))"

section \<open>The evidence on the card\<close>

definition good_header :: "snapshot_header \<Rightarrow> configured_folder \<Rightarrow> leaf_card \<Rightarrow> 64 word \<Rightarrow> string \<Rightarrow> bool" where
  "good_header h folder c epoch name \<longleftrightarrow>
     HSchema h = first_sync_document_schema \<and> HState h = ''ready'' \<and> HEpoch h = epoch \<and> epoch \<noteq> 0 \<and>
     HFolder h = FID folder \<and> HCard h = IID (Identity c) \<and> HSource h = ID (Source c) \<and> HKind h = FKind folder \<and>
     HName h = name \<and> HFiles h \<ge> 0 \<and> HDirectories h \<ge> 0 \<and> HBytes h \<ge> 0"

definition read_snapshot_header ::
    "string \<Rightarrow> configured_folder \<Rightarrow> leaf_card \<Rightarrow> 64 word \<Rightarrow> (json, snapshot_header option) io" where
  "read_snapshot_header root folder c epoch =
     io_bind (read_bounded decode_header (join_path [root, snapshot_header_name])) (\<lambda>found. case found of
       None \<Rightarrow> io_ret None
     | Some h \<Rightarrow> io_bind (io_try (lstat (join_path [root, snapshot_manifest_name]))) (\<lambda>manifest. case manifest of
         Inr (Some (Reg _)) \<Rightarrow> io_ret (if good_header h folder c epoch (base_name root) then Some h else None)
       | _ \<Rightarrow> io_fail ''snapshot manifest is absent or unsafe''))"

text \<open>What the read says, as a function of the files.\<close>

definition header_at :: "string \<Rightarrow> configured_folder \<Rightarrow> leaf_card \<Rightarrow> 64 word \<Rightarrow> json fs \<Rightarrow> error + snapshot_header option" where
  "header_at root folder c epoch f = sum_bind (bounded_doc decode_header (f (join_path [root, snapshot_header_name])))
     (\<lambda>found. case found of None \<Rightarrow> Inr None | Some h \<Rightarrow> (case f (join_path [root, snapshot_manifest_name]) of
        Some (Reg _) \<Rightarrow> Inr (if good_header h folder c epoch (base_name root) then Some h else None)
      | _ \<Rightarrow> Inl ''snapshot manifest is absent or unsafe''))"

definition good_marker :: "first_sync_marker \<Rightarrow> configured_folder \<Rightarrow> leaf_card \<Rightarrow> 64 word \<Rightarrow> bool" where
  "good_marker m folder c epoch \<longleftrightarrow>
     MSchema m = first_sync_document_schema \<and> MState m = ''complete'' \<and> MEpoch m = epoch \<and> epoch \<noteq> 0 \<and>
     MFolder m = FID folder \<and> MCard m = IID (Identity c) \<and> MKind m = FKind folder \<and> MHub m \<and> MExplicit m \<and>
     MCompletedAt m \<noteq> '''' \<and>
     (MMode m = ''sendonly'' \<and> FType folder = ''sendonly'' \<and> MFolderType m = ''sendonly'' \<and> MSnapshot m = '''' \<or>
      MMode m = ''snapshot'' \<and> FType folder \<noteq> ''sendonly'' \<and> MFolderType m \<in> {''sendreceive'', ''receiveonly''} \<and>
        MSnapshot m \<noteq> '''')"

definition read_first_sync_marker ::
    "leaf_card \<Rightarrow> configured_folder \<Rightarrow> 64 word \<Rightarrow> (json, first_sync_marker option) io" where
  "read_first_sync_marker c folder epoch =
     io_bind (read_bounded decode_marker (marker_file c (FKind folder))) (\<lambda>found. case found of
       None \<Rightarrow> io_ret None
     | Some m \<Rightarrow>
         if \<not> good_marker m folder c epoch then io_ret None
         else if MMode m = ''sendonly'' then io_ret (Some m)
         else io_bind (read_snapshot_header (join_path [first_sync_kind_root c (FKind folder), MSnapshot m]) folder c epoch) (\<lambda>h.
           io_ret (case h of None \<Rightarrow> None | Some h \<Rightarrow> if HName h = MSnapshot m then Some m else None)))"

text \<open>
  The evidence that the first synchronisation of a folder was started: a complete marker for this
  epoch on its card, and for a folder that can receive a ready snapshot that the marker names.
\<close>

definition first_sync_proven :: "leaf_card \<Rightarrow> configured_folder \<Rightarrow> 64 word \<Rightarrow> json fs \<Rightarrow> bool" where
  "first_sync_proven c folder epoch f \<longleftrightarrow>
     (\<exists>m. bounded_doc decode_marker (f (marker_file c (FKind folder))) = Inr (Some m) \<and> good_marker m folder c epoch \<and>
        (FType folder \<noteq> ''sendonly'' \<longrightarrow>
           (\<exists>h. header_at (join_path [first_sync_kind_root c (FKind folder), MSnapshot m]) folder c epoch f = Inr (Some h) \<and>
              HName h = MSnapshot m)))"

lemma wp_read_snapshot_header:
  assumes "C f" and "\<And>e. E e f" and "\<And>r. header_at root folder c epoch f = Inr r \<Longrightarrow> wp b (k r) Q E C f"
  shows "wp b (io_bind (read_snapshot_header root folder c epoch) k) Q E C f"
  using assms by (auto simp: read_snapshot_header_def header_at_def wp_exec split: sum.split option.split node.split)

lemma wp_read_first_sync_marker:
  assumes "C f" and "\<And>e. E e f" and "\<And>r. (r \<noteq> None) = first_sync_proven c folder epoch f \<Longrightarrow> wp b (k r) Q E C f"
  shows "wp b (io_bind (read_first_sync_marker c folder epoch) k) Q E C f"
proof (cases "bounded_doc decode_marker (f (marker_file c (FKind folder)))")
  case (Inr found)
  show ?thesis
  proof (cases found)
    case None
    then show ?thesis using assms Inr by (simp add: read_first_sync_marker_def wp_exec first_sync_proven_def)
  next
    case (Some m)
    note doc = Inr [unfolded Some]
    show ?thesis
    proof (cases "good_marker m folder c epoch \<and> MMode m \<noteq> ''sendonly''")
      case True
      then have kind: "FType folder \<noteq> ''sendonly''" by (auto simp: good_marker_def)
      have "wp b (k (case h of None \<Rightarrow> None | Some h \<Rightarrow> if HName h = MSnapshot m then Some m else None)) Q E C f"
        if "header_at (join_path [first_sync_kind_root c (FKind folder), MSnapshot m]) folder c epoch f = Inr h" for h
        by (rule assms(3)) (use that doc True kind in \<open>auto simp: first_sync_proven_def split: option.split\<close>)
      then show ?thesis
        using assms(1,2) True doc
        by (simp add: read_first_sync_marker_def wp_exec wp_read_snapshot_header)
    next
      case False
      have "wp b (k (if good_marker m folder c epoch then Some m else None)) Q E C f"
        by (rule assms(3)) (use doc False in \<open>auto simp: first_sync_proven_def good_marker_def\<close>)
      then show ?thesis
        using assms(1,2) False doc by (auto simp: read_first_sync_marker_def wp_exec split: if_splits)
    qed
  qed
qed (use assms in \<open>simp add: read_first_sync_marker_def wp_exec\<close>)

text \<open>\<open>latestPreparedSnapshot\<close>: the newest ready snapshot of this epoch.\<close>

fun first_header :: "string \<Rightarrow> configured_folder \<Rightarrow> leaf_card \<Rightarrow> 64 word \<Rightarrow> string list \<Rightarrow> (json, snapshot_header option) io" where
  "first_header root folder c epoch [] = io_ret None"
| "first_header root folder c epoch (name # names) =
     io_bind (read_snapshot_header (join_path [root, name]) folder c epoch) (\<lambda>h. case h of
       None \<Rightarrow> first_header root folder c epoch names | Some h \<Rightarrow> io_ret (Some h))"

definition latest_prepared_snapshot ::
    "string list \<Rightarrow> leaf_card \<Rightarrow> configured_folder \<Rightarrow> 64 word \<Rightarrow> (json, snapshot_header option) io" where
  "latest_prepared_snapshot paths c folder epoch =
     (let root = first_sync_kind_root c (FKind folder)
      in io_bind (safe_directory_entries paths root) (\<lambda>found. case found of
        None \<Rightarrow> io_ret None
      | Some entries \<Rightarrow>
          let shown = filter (\<lambda>(name, _). \<not> has_prefix name ''.'') entries
          in if \<exists>(_, n) \<in> set shown. n \<noteq> Dir then io_fail ''snapshot history contains an unsafe entry''
             else first_header root folder c epoch (rev (map fst shown))))"

section \<open>The manager\<close>

record progress =
  PState :: string
  PSnapshot :: string
  PFiles :: int
  PDirectories :: int
  PBytes :: int
  PMessage :: string

definition progress_of :: "string \<Rightarrow> progress" where
  "progress_of s = \<lparr>PState = s, PSnapshot = '''', PFiles = 0, PDirectories = 0, PBytes = 0, PMessage = ''''\<rparr>"

definition progress_from_snapshot :: "string \<Rightarrow> snapshot_header \<Rightarrow> progress" where
  "progress_from_snapshot s h =
     \<lparr>PState = s, PSnapshot = HName h, PFiles = HFiles h, PDirectories = HDirectories h, PBytes = HBytes h, PMessage = ''''\<rparr>"

text \<open>The state of the controller that the first-sync code works on.\<close>

record sync_machine =
  CardW :: "json world"
  ControlW :: "control_document world"
  Store :: folder_control
  Progress :: "(string \<times> progress) list"

text \<open>
  What does not change: the digest and the path and document sizes of the control store, the sizes
  of the documents on a card, the present time, the name of the next snapshot (time stamp and
  random suffix) and the paths that the card can hold.
\<close>

record sync_env =
  EnvSha :: "string \<Rightarrow> string"
  EnvControlSize :: "control_document \<Rightarrow> nat"
  EnvControlPath :: string
  EnvDocSize :: "json \<Rightarrow> nat"
  EnvNow :: string
  EnvStamp :: string
  EnvPaths :: "string list"

definition on_card :: "(json, 'a) io \<Rightarrow> (sync_machine, 'a) prog" where
  "on_card = on_files CardW (\<lambda>w s. s\<lparr>CardW := w\<rparr>)"

text \<open>An operation of the control store: its error is the error of the program.\<close>

definition control_do :: "sync_env \<Rightarrow> control_op \<Rightarrow> (sync_machine, unit) prog" where
  "control_do env op s =
     (case run_control (EnvSha env) (EnvControlSize env) (EnvControlPath env) op (Store s) (ControlW s) of
        (Ok (None, st), w) \<Rightarrow> (Ok (), s\<lparr>Store := st, ControlW := w\<rparr>)
      | (Ok (Some e, st), w) \<Rightarrow> (Failed e, s\<lparr>Store := st, ControlW := w\<rparr>)
      | (Failed e, w) \<Rightarrow> (Failed e, s\<lparr>ControlW := w\<rparr>)
      | (Died, w) \<Rightarrow> (Died, s\<lparr>ControlW := w\<rparr>))"

definition set_progress :: "string \<Rightarrow> progress \<Rightarrow> (sync_machine, unit) prog" where
  "set_progress i p = pr_put (\<lambda>s. s\<lparr>Progress := map_put i p (Progress s)\<rparr>)"

definition control_of :: "(string \<times> control_record) list \<Rightarrow> string \<Rightarrow> control_record" where
  "control_of controls i = (case map_of controls i of None \<Rightarrow> blank_record | Some r \<Rightarrow> r)"

section \<open>Recovery\<close>

definition discard_entry :: "string list \<Rightarrow> string \<Rightarrow> string \<times> json node \<Rightarrow> (json, unit) io" where
  "discard_entry paths root e = (case e of (name, n) \<Rightarrow>
     if has_prefix name snapshot_partial_prefix then
       (if n \<noteq> Dir then io_fail ''first-sync partial snapshot is unsafe'' else remove_all paths (join_path [root, name]))
     else if name = first_sync_marker_temporary then remove_safe_if_exists (join_path [root, name])
     else io_ret ())"

fun discard_entries :: "string list \<Rightarrow> string \<Rightarrow> (string \<times> json node) list \<Rightarrow> (json, unit) io" where
  "discard_entries paths root [] = io_ret ()"
| "discard_entries paths root (e # es) = io_bind (discard_entry paths root e) (\<lambda>_. discard_entries paths root es)"

definition recover_first_sync_kind :: "string list \<Rightarrow> leaf_card \<Rightarrow> string \<Rightarrow> (json, unit) io" where
  "recover_first_sync_kind paths c kind =
     (let root = first_sync_kind_root c kind
      in io_bind (safe_directory_entries paths root) (\<lambda>found. case found of
        None \<Rightarrow> io_ret ()
      | Some entries \<Rightarrow>
          io_bind (discard_entries paths root entries) (\<lambda>_.
          io_bind (read_bounded decode_marker (join_path [root, first_sync_marker_name])) (\<lambda>marker. case marker of
            Some m \<Rightarrow> if MState m \<noteq> ''complete'' then remove_safe_if_exists (join_path [root, first_sync_marker_name])
                      else io_ret ()
          | None \<Rightarrow> io_ret ()))))"

definition recover_cards :: "sync_env \<Rightarrow> leaf_card list \<Rightarrow> (sync_machine, unit) prog" where
  "recover_cards env inventory =
     pr_each (\<lambda>c. if usable_enrolled_card c
       then pr_each (\<lambda>kind. on_card (recover_first_sync_kind (EnvPaths env) c kind)) [''saves'', ''states'']
       else pr_ret ()) inventory"

text \<open>A folder whose card cannot be used keeps its durable decision.\<close>

definition recover_absent :: "control_record \<Rightarrow> configured_folder \<Rightarrow> (sync_machine, unit) prog" where
  "recover_absent control folder =
     set_progress (FID folder) (progress_of (if FirstSync control then ''required'' else ''complete''))"

definition recover_complete :: "leaf_card \<Rightarrow> control_record \<Rightarrow> configured_folder \<Rightarrow> first_sync_marker \<Rightarrow> (sync_machine, unit) prog" where
  "recover_complete c control folder marker =
     pr_bind (if FirstSync control then on_card (sync_fs (Root (Source c))) else pr_ret ()) (\<lambda>_.
       set_progress (FID folder) ((progress_of ''complete'')\<lparr>PSnapshot := MSnapshot marker\<rparr>))"

definition recover_incomplete :: "sync_env \<Rightarrow> leaf_card \<Rightarrow> control_record \<Rightarrow> configured_folder \<Rightarrow> (sync_machine, unit) prog" where
  "recover_incomplete env c control folder =
     (if \<not> FirstSync control then
        pr_bind (control_do env (Require_First_Sync (FID folder))) (\<lambda>_.
          set_progress (FID folder) (progress_of ''required''))
      else pr_bind (on_card (latest_prepared_snapshot (EnvPaths env) c folder (FirstSyncEpoch control))) (\<lambda>prepared.
        case prepared of
          Some h \<Rightarrow> set_progress (FID folder) (progress_from_snapshot ''ready'' h)
        | None \<Rightarrow> pr_ret ()))"

definition recover_folder :: "sync_env \<Rightarrow> leaf_card list \<Rightarrow> (string \<times> control_record) list \<Rightarrow> configured_folder \<Rightarrow>
    (sync_machine, unit) prog" where
  "recover_folder env inventory controls folder =
     (let control = control_of controls (FID folder)
      in case card_for_configured_folder folder inventory controls of
           None \<Rightarrow> recover_absent control folder
         | Some c \<Rightarrow>
             if \<not> usable_enrolled_card c then recover_absent control folder
             else
               pr_bind (on_card (read_first_sync_marker c folder (FirstSyncEpoch control))) (\<lambda>marker.
               pr_bind (case marker of
                   Some m \<Rightarrow> recover_complete c control folder m
                 | None \<Rightarrow> recover_incomplete env c control folder) (\<lambda>_.
               pr_bind (control_do env (Set_First_Sync (FID folder) (marker = None))) (\<lambda>_.
               pr_put (\<lambda>s. if map_of (Progress s) (FID folder) = None
                 then s\<lparr>Progress := map_put (FID folder) (progress_of ''required'') (Progress s)\<rparr> else s)))))"

definition recover_first_sync :: "sync_env \<Rightarrow> configured_folder list \<Rightarrow> leaf_card list \<Rightarrow> (sync_machine, unit) prog" where
  "recover_first_sync env folders inventory =
     pr_bind (pr_get (\<lambda>s. Records (Store s))) (\<lambda>controls.
     pr_bind (recover_cards env inventory) (\<lambda>_.
       pr_each (recover_folder env inventory controls) folders))"

definition new_first_sync_manager :: "sync_env \<Rightarrow> configured_folder list \<Rightarrow> leaf_card list \<Rightarrow> (sync_machine, unit) prog" where
  "new_first_sync_manager env folders inventory =
     pr_bind (pr_put (\<lambda>s. s\<lparr>Progress := []\<rparr>)) (\<lambda>_. recover_first_sync env folders inventory)"

definition progress_for :: "string \<Rightarrow> bool \<Rightarrow> sync_machine \<Rightarrow> progress" where
  "progress_for i first_sync s =
     (let p = (case map_of (Progress s) i of None \<Rightarrow> progress_of ''required'' | Some p \<Rightarrow> p)
      in if first_sync then p else p\<lparr>PState := ''complete''\<rparr>)"

definition register_folder :: "string \<Rightarrow> (sync_machine, unit) prog" where
  "register_folder i = set_progress i (progress_of ''required'')"

section \<open>Completion and invalidation\<close>

text \<open>\<open>validateFirstSyncBinding\<close>.\<close>

definition validate_first_sync_binding :: "configured_folder \<Rightarrow> leaf_card \<Rightarrow> control_record \<Rightarrow> (json, unit) io" where
  "validate_first_sync_binding folder c binding =
     (if CardID binding \<noteq> IID (Identity c) \<or> Kind binding \<noteq> FKind folder \<or> MarkerName binding \<noteq> FMarkerName folder \<or>
         clean (FPath folder) \<noteq> clean (managed_content_path (Source c) (FKind folder))
      then io_fail ''first-sync folder binding does not match its physical card''
      else io_bind (validate_managed_marker (FPath folder) (FMarkerName folder)) (\<lambda>_.
        if FType folder \<noteq> ''sendonly'' \<and> (FVersioningType folder \<noteq> ''simple'' \<or> FVersioningFSType folder \<noteq> ''basic'' \<or>
             clean (FVersioningFSPath folder) \<noteq> clean (version_path (Source c) (FKind folder)))
        then io_fail ''first-sync receive folder does not have required same-card Simple Versioning''
        else io_ret ()))"

text \<open>\<open>ensureSafeDirectoryChain\<close>: the directories from the card root down to the target.\<close>

fun ensure_chain :: "string \<Rightarrow> string list \<Rightarrow> ('d, unit) io" where
  "ensure_chain current [] = io_ret ()"
| "ensure_chain current (name # names) =
     (let next_dir = join_path [current, name]
      in io_bind (lstat next_dir) (\<lambda>info. case info of
        None \<Rightarrow> io_bind (make_dir next_dir) (\<lambda>_. ensure_chain next_dir names)
      | Some n \<Rightarrow> if n = Dir then ensure_chain next_dir names else io_fail ''owned directory component is unsafe''))"

definition ensure_safe_directory_chain :: "string \<Rightarrow> string \<Rightarrow> ('d, unit) io" where
  "ensure_safe_directory_chain base target = (case relative_within (clean base) (clean target) of
     Inl _ \<Rightarrow> io_fail ''owned directory must be a confined child of the card''
   | Inr rel \<Rightarrow>
       if rel = ''.'' then io_fail ''owned directory must be a confined child of the card''
       else io_bind (io_try (lstat (clean base))) (\<lambda>info.
         if info \<noteq> Inr (Some Dir) then io_fail ''card root is absent or unsafe''
         else ensure_chain (clean base) (split_on CHR ''/'' rel)))"

text \<open>The pending control record of a folder, or the error that both operations give.\<close>

definition pending_control :: "configured_folder \<Rightarrow> (sync_machine, control_record) prog" where
  "pending_control folder = (\<lambda>s. case map_of (Records (Store s)) (FID folder) of
     None \<Rightarrow> (Failed ''first-sync protection is not pending for this folder'', s)
   | Some r \<Rightarrow>
       if \<not> FirstSync r \<or> FirstSyncEpoch r = 0 then (Failed ''first-sync protection is not pending for this folder'', s)
       else (Ok r, s))"

definition completion_marker :: "string \<Rightarrow> configured_folder \<Rightarrow> leaf_card \<Rightarrow> 64 word \<Rightarrow> string \<Rightarrow> string \<Rightarrow> string \<Rightarrow> first_sync_marker" where
  "completion_marker now folder c epoch mode snapshot state =
     \<lparr>MSchema = first_sync_document_schema, MState = state, MEpoch = epoch, MFolder = FID folder,
      MCard = IID (Identity c), MKind = FKind folder, MFolderType = FType folder, MMode = mode, MSnapshot = snapshot,
      MHub = True, MExplicit = True, MCompletedAt = now\<rparr>"

text \<open>The snapshot that a folder needs: its name, or the empty name for a folder that only sends.\<close>

definition required_snapshot :: "sync_env \<Rightarrow> leaf_card \<Rightarrow> configured_folder \<Rightarrow> 64 word \<Rightarrow> (json, string) io" where
  "required_snapshot env c folder epoch =
     (if FType folder = ''sendonly'' then io_ret ''''
      else io_bind (latest_prepared_snapshot (EnvPaths env) c folder epoch) (\<lambda>found. case found of
        None \<Rightarrow> io_fail ''a durable safety snapshot is required before first sync''
      | Some h \<Rightarrow> io_bind (sync_fs (Root (Source c))) (\<lambda>_. io_ret (HName h))))"

definition write_completion :: "sync_env \<Rightarrow> leaf_card \<Rightarrow> configured_folder \<Rightarrow> 64 word \<Rightarrow> string \<Rightarrow> (json, unit) io" where
  "write_completion env c folder epoch snapshot =
     (let mode = (if FType folder = ''sendonly'' then ''sendonly'' else ''snapshot'');
          marker = completion_marker (EnvNow env) folder c epoch mode snapshot;
          root = first_sync_kind_root c (FKind folder);
          path = join_path [root, first_sync_marker_name];
          replace = (\<lambda>m. replace_bounded (EnvDocSize env) path first_sync_marker_temporary (marker_json m))
      in io_bind (ensure_safe_directory_chain (Root (Source c)) root) (\<lambda>_.
         io_bind (replace (marker ''pending'')) (\<lambda>_.
         io_bind (sync_fs (Root (Source c))) (\<lambda>_.
         io_bind (replace (marker ''complete'')) (\<lambda>_.
         sync_fs (Root (Source c)))))))"

definition complete_first_sync :: "sync_env \<Rightarrow> configured_folder \<Rightarrow> leaf_card \<Rightarrow> bool \<Rightarrow> (sync_machine, unit) prog" where
  "complete_first_sync env folder c hub_acknowledged =
     pr_bind (pr_check hub_acknowledged ''hub versioning acknowledgment is required'') (\<lambda>_.
     pr_bind (pr_check (usable_enrolled_card c)
       ''first sync requires the enrolled physical card to be present and writable'') (\<lambda>_.
     pr_bind (pending_control folder) (\<lambda>control.
     pr_bind (on_card (validate_first_sync_binding folder c control)) (\<lambda>_.
     pr_bind (on_card (required_snapshot env c folder (FirstSyncEpoch control))) (\<lambda>snapshot.
     pr_bind (on_card (write_completion env c folder (FirstSyncEpoch control) snapshot)) (\<lambda>_.
     pr_bind (control_do env (Set_First_Sync (FID folder) False)) (\<lambda>_.
       set_progress (FID folder) ((progress_of ''complete'')\<lparr>PSnapshot := snapshot\<rparr>))))))))"

definition invalidate_first_sync :: "sync_env \<Rightarrow> configured_folder \<Rightarrow> leaf_card \<Rightarrow> (sync_machine, unit) prog" where
  "invalidate_first_sync env folder c =
     (let root = first_sync_kind_root c (FKind folder)
      in pr_bind (pr_check (usable_enrolled_card c) ''the enrolled physical card is unavailable'') (\<lambda>_.
         pr_bind (on_card (
           io_bind (remove_safe_if_exists (join_path [root, first_sync_marker_name])) (\<lambda>_.
           io_bind (remove_safe_if_exists (join_path [root, first_sync_marker_temporary])) (\<lambda>_.
           sync_fs (Root (Source c)))))) (\<lambda>_.
         pr_bind (control_do env (Require_First_Sync (FID folder))) (\<lambda>_.
           set_progress (FID folder) (progress_of ''required'')))))"

section \<open>Where the files lie\<close>

text \<open>A card with a user data path and one of the two content kinds.\<close>

definition located :: "leaf_card \<Rightarrow> configured_folder \<Rightarrow> bool" where
  "located c folder \<longleftrightarrow> UserdataPath (Source c) \<noteq> '''' \<and> FKind folder \<in> {''saves'', ''states''}"

lemma first_sync_names [simp]:
  "name_comp first_sync_marker_name" "name_comp first_sync_marker_temporary"
  "name_comp snapshot_header_name" "name_comp snapshot_header_temporary" "name_comp snapshot_manifest_name"
  "first_sync_marker_temporary \<noteq> first_sync_marker_name"
  "first_sync_marker_name \<noteq> first_sync_marker_temporary"
  by (simp_all add: name_comp_def first_sync_marker_name_def first_sync_marker_temporary_def
      snapshot_header_name_def snapshot_header_temporary_def snapshot_manifest_name_def)

lemma kind_root:
  assumes "located c folder"
  shows "clean (first_sync_kind_root c (FKind folder)) = first_sync_kind_root c (FKind folder)"
    and "path_comps (first_sync_kind_root c (FKind folder)) \<noteq> []"
    and "first_sync_kind_root c (FKind folder) \<noteq> ''''"
proof -
  have ne: "UserdataPath (Source c) \<noteq> ''''" and names: "\<forall>n \<in> set [app_state_name, ''snapshots'', FKind folder]. name_comp n"
    using assms by (auto simp: located_def name_comp_def app_state_name_def)
  show "clean (first_sync_kind_root c (FKind folder)) = first_sync_kind_root c (FKind folder)"
    using ne by (simp add: first_sync_kind_root_def join_path_clean)
  show comps: "path_comps (first_sync_kind_root c (FKind folder)) \<noteq> []"
    unfolding first_sync_kind_root_def path_comps_join_names(1) [OF ne names] by simp
  then show "first_sync_kind_root c (FKind folder) \<noteq> ''''" by auto
qed

text \<open>The two marker paths lie in the directory of the kind, the files of a snapshot one level below.\<close>

definition marker_paths :: "leaf_card \<Rightarrow> configured_folder \<Rightarrow> string list" where
  "marker_paths c folder = [marker_file c (FKind folder),
     join_path [first_sync_kind_root c (FKind folder), first_sync_marker_temporary]]"

lemma snapshot_file_not_marker:
  assumes "located c folder" and "name_comp snapshot" and "name_comp n"
  shows "join_path [join_path [first_sync_kind_root c (FKind folder), snapshot], n] \<notin> set (marker_paths c folder)"
proof -
  let ?root = "first_sync_kind_root c (FKind folder)"
  note root = kind_root [OF assms(1)]
  have inner: "join_path [?root, snapshot] \<noteq> ''''" by (rule join_name_comps(3) [OF assms(2) root(3)])
  have "length (path_comps (join_path [join_path [?root, snapshot], n])) = length (path_comps ?root) + 2"
    using join_name_comps(1) [OF assms(3) inner] join_name_comps(1) [OF assms(2) root(3)] by simp
  moreover have "length (path_comps q) = length (path_comps ?root) + 1" if "q \<in> set (marker_paths c folder)" for q
    using that join_name_comps(1) [OF first_sync_names(1) root(3)] join_name_comps(1) [OF first_sync_names(2) root(3)]
    by (auto simp: marker_paths_def marker_file_def)
  ultimately show ?thesis by fastforce
qed

lemma header_at_frame:
  assumes "located c folder" and "name_comp snapshot"
    and "\<And>q. q \<notin> set (marker_paths c folder) \<Longrightarrow> f q \<noteq> None \<Longrightarrow> g q = f q"
    and "header_at (join_path [first_sync_kind_root c (FKind folder), snapshot]) folder c epoch f = Inr (Some h)"
  shows "header_at (join_path [first_sync_kind_root c (FKind folder), snapshot]) folder c epoch g = Inr (Some h)"
proof -
  let ?dir = "join_path [first_sync_kind_root c (FKind folder), snapshot]"
  have "f (join_path [?dir, snapshot_header_name]) \<noteq> None" "f (join_path [?dir, snapshot_manifest_name]) \<noteq> None"
    using assms(4) by (auto simp: header_at_def bounded_doc_def sum_bind_def split: sum.splits option.splits)
  then have same: "g (join_path [?dir, snapshot_header_name]) = f (join_path [?dir, snapshot_header_name])"
    "g (join_path [?dir, snapshot_manifest_name]) = f (join_path [?dir, snapshot_manifest_name])"
    using assms(3) snapshot_file_not_marker [OF assms(1,2)] by simp_all
  show ?thesis using assms(4) unfolding header_at_def same .
qed

lemma replace_bounded_wp:
  assumes "dir_name p = root" and "t = join_path [root, tmp]" and "t \<noteq> p"
  shows "wp True (replace_bounded sz p tmp j)
     (\<lambda>_ g. same_except [p, t] f g \<and> g p = Some (Reg (Doc j (sz j))) \<and> int (sz j) \<le> max_first_sync_document_bytes)
     (\<lambda>_. same_except [p, t] f) (same_except [p, t] f) f"
  unfolding replace_bounded_def Let_def assms(1) assms(2) [symmetric]
  by (rule remove_safe_if_exists_wp [where I = "same_except [p, t] f"])
    (use assms(3) in \<open>auto simp: wp_exec write_bounded_def same_except_def\<close>)

lemma map_le_kept: "map_le f g \<Longrightarrow> f q \<noteq> None \<Longrightarrow> g q = f q"
  by (metis map_le_def domIff)

lemma ensure_chain_wp:
  assumes "map_le f0 f" and "\<And>g. map_le f0 g \<Longrightarrow> C g" and "\<And>e g. map_le f0 g \<Longrightarrow> E e g"
    and "\<And>g. map_le f0 g \<Longrightarrow> wp True (k ()) Q E C g"
  shows "wp True (io_bind (ensure_chain current names) k) Q E C f"
  using assms(1)
proof (induction names arbitrary: current f)
  case (Cons name names)
  have "map_le f0 (f(p \<mapsto> Dir))" if "f p = None" for p
    using Cons.prems that unfolding map_le_def by (metis domIff fun_upd_other)
  then have "wp True (io_bind (ensure_chain q names) k) Q E C (f(p \<mapsto> Dir))" if "f p = None" for p q
    by (rule Cons.IH) (rule that)
  with Cons assms show ?case by (auto simp: Let_def wp_exec split: option.split)
qed (use assms in \<open>simp add: wp_exec\<close>)

lemma ensure_safe_directory_chain_wp:
  assumes "\<And>g. map_le f g \<Longrightarrow> C g" and "\<And>e g. map_le f g \<Longrightarrow> E e g" and "\<And>g. map_le f g \<Longrightarrow> wp True (k ()) Q E C g"
  shows "wp True (io_bind (ensure_safe_directory_chain base target) k) Q E C f"
  using assms by (auto simp: ensure_safe_directory_chain_def wp_exec intro!: ensure_chain_wp split: sum.split)

section \<open>Completion leaves its evidence\<close>

lemma first_header_wp:
  assumes "C f" and "\<And>e. E e f"
    and "\<And>h name. name \<in> set names \<Longrightarrow> header_at (join_path [root, name]) folder c epoch f = Inr (Some h) \<Longrightarrow> wp True (k (Some h)) Q E C f"
    and "wp True (k None) Q E C f"
  shows "wp True (io_bind (first_header root folder c epoch names) k) Q E C f"
  using assms(3)
proof (induction names)
  case (Cons name names)
  have rest: "wp True (io_bind (first_header root folder c epoch names) k) Q E C f"
    by (rule Cons.IH) (use Cons.prems in auto)
  show ?case
    unfolding first_header.simps io_bind_assoc
  proof (rule wp_read_snapshot_header)
    show "C f" by (rule assms(1))
    show "E e f" for e by (rule assms(2))
    fix r
    assume "header_at (join_path [root, name]) folder c epoch f = Inr r"
    with Cons.prems [of name] rest
    show "wp True (io_bind (case r of None \<Rightarrow> first_header root folder c epoch names | Some h \<Rightarrow> io_ret (Some h)) k) Q E C f"
      by (cases r) (simp_all add: wp_exec)
  qed
qed (use assms in \<open>simp add: wp_exec\<close>)

lemma entries_of_names: "e \<in> set (entries_of paths p f) \<Longrightarrow> name_comp (fst e)"
  by (auto simp: entries_of_def map_filter_def)

lemma latest_prepared_wp:
  assumes "C f" and "\<And>e. E e f"
    and "\<And>h name. name_comp name \<Longrightarrow>
      header_at (join_path [first_sync_kind_root c (FKind folder), name]) folder c epoch f = Inr (Some h) \<Longrightarrow> wp True (k (Some h)) Q E C f"
    and "wp True (k None) Q E C f"
  shows "wp True (io_bind (latest_prepared_snapshot paths c folder epoch) k) Q E C f"
proof -
  let ?root = "first_sync_kind_root c (FKind folder)"
  let ?shown = "filter (\<lambda>(name, _). \<not> has_prefix name ''.'') (entries_of paths ?root f)"
  have "wp True (io_bind (first_header ?root folder c epoch (rev (map fst ?shown))) k) Q E C f"
    by (rule first_header_wp) (use assms entries_of_names in fastforce)+
  then show ?thesis
    using assms by (auto simp: latest_prepared_snapshot_def safe_directory_entries_def Let_def wp_exec split: option.split)
qed

lemma header_name: "header_at (join_path [root, name]) folder c epoch f = Inr (Some h) \<Longrightarrow> HName h = base_name (join_path [root, name])"
  unfolding header_at_def good_header_def
  by (cases "bounded_doc decode_header (f (join_path [join_path [root, name], snapshot_header_name]))")
    (auto split: option.splits node.splits if_splits)

text \<open>A snapshot that completion may name; the empty name for a folder that only sends.\<close>

definition snapshot_ready :: "leaf_card \<Rightarrow> configured_folder \<Rightarrow> 64 word \<Rightarrow> string \<Rightarrow> json fs \<Rightarrow> bool" where
  "snapshot_ready c folder epoch snapshot f \<longleftrightarrow>
     (if FType folder = ''sendonly'' then snapshot = ''''
      else name_comp snapshot \<and>
        (\<exists>h. header_at (join_path [first_sync_kind_root c (FKind folder), snapshot]) folder c epoch f = Inr (Some h) \<and>
             HName h = snapshot))"

lemma required_snapshot_wp:
  assumes "located c folder"
  shows "wp True (required_snapshot env c folder epoch)
     (\<lambda>snapshot g. g = f \<and> snapshot_ready c folder epoch snapshot f) (\<lambda>_ g. g = f) (\<lambda>g. g = f) f"
proof (cases "FType folder = ''sendonly''")
  case False
  have "wp True (io_bind (sync_fs (Root (Source c))) (\<lambda>_. io_ret (HName h)))
      (\<lambda>snapshot g. g = f \<and> snapshot_ready c folder epoch snapshot f) (\<lambda>_ g. g = f) (\<lambda>g. g = f) f"
    if "name_comp name" "header_at (join_path [first_sync_kind_root c (FKind folder), name]) folder c epoch f = Inr (Some h)" for h name
    using that False header_name [OF that(2)] dir_and_base(2) [OF that(1) kind_root(1,2) [OF assms]]
    by (simp add: wp_exec snapshot_ready_def)
  then show ?thesis
    using False by (auto simp: required_snapshot_def wp_exec intro!: latest_prepared_wp)
qed (simp add: required_snapshot_def snapshot_ready_def wp_exec)

lemma marker_replace_wp:
  assumes "located c folder"
  shows "wp True (replace_bounded sz (marker_file c (FKind folder)) first_sync_marker_temporary j)
     (\<lambda>_ g. same_except (marker_paths c folder) f g \<and> g (marker_file c (FKind folder)) = Some (Reg (Doc j (sz j))) \<and>
        int (sz j) \<le> max_first_sync_document_bytes)
     (\<lambda>_. same_except (marker_paths c folder) f) (same_except (marker_paths c folder) f) f"
  using replace_bounded_wp [of "marker_file c (FKind folder)" "first_sync_kind_root c (FKind folder)"
      "join_path [first_sync_kind_root c (FKind folder), first_sync_marker_temporary]" first_sync_marker_temporary sz j f]
    dir_and_base(1) [OF first_sync_names(1) kind_root(1,2) [OF assms]] kind_root(3) [OF assms] join_name_inj
  by (simp add: marker_paths_def marker_file_def)

lemma write_completion_wp:
  assumes "located c folder" and "0 < epoch" and "EnvNow env \<noteq> ''''" and "\<forall>j. 0 < EnvDocSize env j"
    and "FType folder \<in> {''sendonly'', ''sendreceive'', ''receiveonly''}" and "snapshot_ready c folder epoch snapshot f"
  shows "wp True (write_completion env c folder epoch snapshot)
     (\<lambda>_. first_sync_proven c folder epoch) (\<lambda>_ _. True) (\<lambda>_. True) f"
proof -
  let ?p = "marker_file c (FKind folder)"
  let ?mode = "if FType folder = ''sendonly'' then ''sendonly'' else ''snapshot''"
  let ?m = "completion_marker (EnvNow env) folder c epoch ?mode snapshot ''complete''"
  have good: "good_marker ?m folder c epoch"
    using assms(2,3,5,6) by (auto simp: good_marker_def completion_marker_def snapshot_ready_def name_comp_def)
  have decoded: "decode_marker (marker_json ?m) = Inr ?m"
    by (rule decode_marker_json) (simp add: completion_marker_def first_sync_document_schema_def go_int_def int_min_def int_max_def)
  have proven: "first_sync_proven c folder epoch g"
    if kept: "\<And>q. q \<notin> set (marker_paths c folder) \<Longrightarrow> f q \<noteq> None \<Longrightarrow> g q = f q"
      and doc: "g ?p = Some (Reg (Doc (marker_json ?m) (EnvDocSize env (marker_json ?m))))"
      and sz: "int (EnvDocSize env (marker_json ?m)) \<le> max_first_sync_document_bytes" for g
  proof -
    have "bounded_doc decode_marker (g ?p) = Inr (Some ?m)"
      using doc sz assms(4) decoded by (auto simp: bounded_doc_def)
    moreover have "MSnapshot ?m = snapshot" by (simp add: completion_marker_def)
    moreover have "\<exists>h. header_at (join_path [first_sync_kind_root c (FKind folder), snapshot]) folder c epoch g = Inr (Some h) \<and>
        HName h = snapshot" if "FType folder \<noteq> ''sendonly''"
      using that assms(6) header_at_frame [OF assms(1) _ kept] by (auto simp: snapshot_ready_def)
    ultimately show ?thesis using good by (auto simp: first_sync_proven_def)
  qed
  have step: "wp True (replace_bounded (EnvDocSize env) ?p first_sync_marker_temporary j)
      (\<lambda>_ h. (\<forall>q. q \<notin> set (marker_paths c folder) \<longrightarrow> f q \<noteq> None \<longrightarrow> h q = f q) \<and>
         h ?p = Some (Reg (Doc j (EnvDocSize env j))) \<and> int (EnvDocSize env j) \<le> max_first_sync_document_bytes) (\<lambda>_ _. True) (\<lambda>_. True) g"
    if "\<forall>q. q \<notin> set (marker_paths c folder) \<longrightarrow> f q \<noteq> None \<longrightarrow> g q = f q" for g j
    by (rule wp_mono [OF marker_replace_wp [OF assms(1)]]) (use that in \<open>auto simp: same_except_def\<close>)
  show ?thesis
    unfolding write_completion_def Let_def marker_file_def [symmetric]
    by (intro ensure_safe_directory_chain_wp wp_bindI TrueI, rule wp_mono [OF step])
      (auto simp: wp_exec dest: map_le_kept intro!: wp_bindI wp_mono [OF step] proven)
qed

section \<open>The machine\<close>

lemma sat_on_card:
  assumes "wp True m Q' E' C' (files (CardW s))"
    and "\<And>x w. Q' x (files w) \<Longrightarrow> Q x (s\<lparr>CardW := w\<rparr>)"
    and "\<And>e w. E' e (files w) \<Longrightarrow> E e (s\<lparr>CardW := w\<rparr>)"
    and "\<And>w. C' (files w) \<Longrightarrow> C (s\<lparr>CardW := w\<rparr>)"
  shows "sat (on_card m) Q E C s"
  unfolding on_card_def
  by (rule sat_on_files [where get = CardW and Q' = Q' and E' = E' and C' = C']) (use assms in auto)

text \<open>A program on the card touches nothing else.\<close>

lemma sat_on_card_frame:
  assumes "\<And>x w. Q x (s\<lparr>CardW := w\<rparr>)" and "\<And>e w. E e (s\<lparr>CardW := w\<rparr>)" and "\<And>w. C (s\<lparr>CardW := w\<rparr>)"
  shows "sat (on_card m) Q E C s"
  using assms by (cases "m (CardW s)") (simp add: sat_def on_card_def on_files_def split: outcome.split)

definition control_changed :: "sync_env \<Rightarrow> control_op \<Rightarrow> folder_control \<Rightarrow> folder_control \<Rightarrow> bool" where
  "control_changed env op st new \<longleftrightarrow>
     control_step (EnvSha env) op st = Inr None \<and> new = st \<or>
     (\<exists>kept. control_step (EnvSha env) op st = Inr (Some (new, kept)))"

lemma control_do_sat:
  "sat (control_do env op)
     (\<lambda>_ t. CardW t = CardW s \<and> Progress t = Progress s \<and> control_changed env op (Store s) (Store t))
     (\<lambda>_ t. CardW t = CardW s) (\<lambda>t. CardW t = CardW s) s"
proof -
  obtain r w where run: "run_control (EnvSha env) (EnvControlSize env) (EnvControlPath env) op (Store s) (ControlW s) = (r, w)"
    by fastforce
  have "control_changed env op (Store s) st" if "r = Ok (None, st)" for st
    using run that by (auto simp: run_control_def control_changed_def io_ret_def io_bind_def io_try_def
        split: sum.splits option.splits prod.splits outcome.splits)
  then show ?thesis
    using run by (cases r) (auto simp: sat_def control_do_def split: option.splits)
qed

text \<open>What is stored for a folder, in memory or in a file.\<close>

definition pending_in :: "folder_control \<Rightarrow> string \<Rightarrow> bool" where
  "pending_in st i \<longleftrightarrow> (case map_of (Records st) i of None \<Rightarrow> False | Some r \<Rightarrow> FirstSync r)"

lemma pending_in_iff: "pending_in st i \<longleftrightarrow> (\<exists>r. map_of (Records st) i = Some r \<and> FirstSync r)"
  by (simp add: pending_in_def split: option.split)

lemma set_first_sync_changed:
  assumes "control_changed env (Set_First_Sync i b) st new" and "go_map (Records st)"
  shows "\<exists>r. map_of (Records new) i = Some r \<and> FirstSync r = b"
    and "j \<noteq> i \<Longrightarrow> map_of (Records new) j = map_of (Records st) j" and "go_map (Records new)"
  using assms
  by (auto simp: control_changed_def set_first_sync_def with_record_def sticky_def put_control_def go_map_put
      split: option.splits if_splits)

lemma require_first_sync_changed:
  assumes "control_changed env (Require_First_Sync i) st new" and "go_map (Records st)"
  shows "j \<noteq> i \<Longrightarrow> map_of (Records new) j = map_of (Records st) j" and "go_map (Records new)"
  using assms
  by (auto simp: control_changed_def require_first_sync_def with_record_def sticky_def put_control_def go_map_put
      split: option.splits if_splits)

lemma control_at_unique: "control_at sha path st f \<Longrightarrow> control_at sha path st' f \<Longrightarrow> Records st = Records st'"
  by (auto simp: control_at_def single_at_def control_document_of_def)

lemma run_control_disk:
  assumes "control_at sha path st f" and "storable_control sha sz new"
    and "control_step sha op st = Inr (Some (new, kept))"
  shows "wp True (run_control sha sz path op st)
     (\<lambda>(e, m) g. e = None \<longrightarrow> m = new \<and> control_at sha path new g) (\<lambda>_ _. True) (\<lambda>_. True) f"
  by (auto simp: run_control_def assms(3) wp_ret intro!: wp_try_bindI
      wp_mono [OF persist_locked_wp [OF assms(1,2), where b = True]])

text \<open>The state is untouched but for the card.\<close>

abbreviation card_only :: "sync_machine \<Rightarrow> sync_machine \<Rightarrow> bool" where
  "card_only s t \<equiv> Store t = Store s \<and> ControlW t = ControlW s \<and> Progress t = Progress s"

lemma sat_pending_control:
  assumes "map_of (Records (Store s)) (FID folder) = Some r" and "FirstSync r"
  shows "sat (pending_control folder) Q E C s \<longleftrightarrow>
    (if FirstSyncEpoch r = 0 then E ''first-sync protection is not pending for this folder'' s else Q r s)"
  using assms by (simp add: sat_def pending_control_def)

lemma sat_checkI: "(b \<Longrightarrow> sat (k ()) Q E C s) \<Longrightarrow> (\<not> b \<Longrightarrow> E e s) \<Longrightarrow> sat (pr_bind (pr_check b e) k) Q E C s"
  by (simp add: sat_bind)

lemma sat_pendingI:
  "map_of (Records (Store s)) (FID folder) = Some r \<Longrightarrow> FirstSync r \<Longrightarrow>
   (FirstSyncEpoch r \<noteq> 0 \<Longrightarrow> sat (k r) Q E C s) \<Longrightarrow>
   (FirstSyncEpoch r = 0 \<Longrightarrow> E ''first-sync protection is not pending for this folder'' s) \<Longrightarrow>
   sat (pr_bind (pending_control folder) k) Q E C s"
  by (simp add: sat_bind sat_pending_control)

lemma sat_card_bind:
  "(\<And>x w. sat (k x) Q E C (s\<lparr>CardW := w\<rparr>)) \<Longrightarrow> (\<And>e w. E e (s\<lparr>CardW := w\<rparr>)) \<Longrightarrow>
   (\<And>w. C (s\<lparr>CardW := w\<rparr>)) \<Longrightarrow> sat (pr_bind (on_card m) k) Q E C s"
  by (simp add: sat_bind sat_on_card_frame)

section \<open>Properties\<close>

text \<open>
  C3. Completing the first synchronisation of a folder lifts its protection only on evidence:
  under any faults of the card and of the control store, when the pause reason is gone afterwards,
  in memory or in the file of the control store, then the user acknowledged, and the card holds a
  complete marker of the folder's epoch that names a ready snapshot (or the folder only sends).
  When the operation returns, the reason is gone in both.
\<close>

theorem protection_lifted_on_evidence:
  assumes "control_at (EnvSha env) (EnvControlPath env) (Store s) (files (ControlW s))"
    and "\<forall>d. 0 < EnvControlSize env d \<and> EnvControlSize env d \<le> control_state_bytes" and "\<forall>j. 0 < EnvDocSize env j"
    and "EnvNow env \<noteq> ''''" and "located c folder" and "FType folder \<in> {''sendonly'', ''sendreceive'', ''receiveonly''}"
    and "map_of (Records (Store s)) (FID folder) = Some r" and "FirstSync r"
    and "complete_first_sync env folder c hub s = (res, t)"
  shows "(\<not> pending_in (Store t) (FID folder) \<or>
       (\<exists>st. control_at (EnvSha env) (EnvControlPath env) st (files (ControlW t)) \<and> \<not> pending_in st (FID folder)) \<longrightarrow>
         hub \<and> first_sync_proven c folder (FirstSyncEpoch r) (files (CardW t))) \<and>
     (res = Ok () \<longrightarrow> \<not> pending_in (Store t) (FID folder) \<and>
         control_at (EnvSha env) (EnvControlPath env) (Store t) (files (ControlW t)))"
proof -
  let ?i = "FID folder"
  let ?at = "control_at (EnvSha env) (EnvControlPath env)"
  let ?proven = "\<lambda>t. first_sync_proven c folder (FirstSyncEpoch r) (files (CardW t))"
  let ?kept = "\<lambda>t. Store t = Store s \<and> ControlW t = ControlW s"
  let ?safe = "\<lambda>t. ?kept t \<or> hub \<and> ?proven t"
  have control: "sat (control_do env (Set_First_Sync ?i False))
      (\<lambda>_ t. ?proven t \<and> \<not> pending_in (Store t) ?i \<and> ?at (Store t) (files (ControlW t))) (\<lambda>_. ?proven) ?proven t"
    if kept: "?kept t" and proven: "?proven t" for t
  proof -
    have ok: "control_ok (EnvSha env) (Store s)" using assms(1) by (simp add: control_at_def)
    obtain new kept where step: "control_step (EnvSha env) (Set_First_Sync ?i False) (Store s) = Inr (Some (new, kept))"
      using assms(7,8) by (auto simp: set_first_sync_def with_record_def sticky_def)
    have "control_ok (EnvSha env) new"
      using control_step_ok [OF ok step] by (simp add: starts_membership_of_stopping_def)
    then have "storable_control (EnvSha env) (EnvControlSize env) new" using assms(2) by (simp add: storable_control_def)
    note disk = run_control_disk [OF assms(1) this step]
    have "sat (control_do env (Set_First_Sync ?i False)) (\<lambda>_ t'. ?at (Store t') (files (ControlW t'))) (\<lambda>_ _. True) (\<lambda>_. True) t"
      using kept wpE [OF disk]
      by (cases "run_control (EnvSha env) (EnvControlSize env) (EnvControlPath env) (Set_First_Sync ?i False) (Store s) (ControlW s)";
          cases "fst (run_control (EnvSha env) (EnvControlSize env) (EnvControlPath env) (Set_First_Sync ?i False) (Store s) (ControlW s))")
        (auto simp: sat_def control_do_def split: option.splits)
    moreover have "go_map (Records (Store t))" using ok kept by (simp add: control_ok_def)
    ultimately show ?thesis
      using control_do_sat [of env "Set_First_Sync ?i False" t] proven set_first_sync_changed(1)
      by (fastforce simp: sat_def pending_in_iff split: prod.splits outcome.splits)
  qed
  have completion: "sat (on_card (write_completion env c folder (FirstSyncEpoch r) snapshot))
      (\<lambda>_ t. ?kept t \<and> ?proven t) (\<lambda>_. ?kept) ?kept t"
    if "?kept t" "0 < FirstSyncEpoch r" "snapshot_ready c folder (FirstSyncEpoch r) snapshot (files (CardW t))" for t snapshot
    by (rule sat_on_card [OF write_completion_wp [OF assms(5) that(2) assms(4,3,6) that(3)]]) (use that(1) in auto)
  have tail: "sat (pr_bind (on_card (required_snapshot env c folder (FirstSyncEpoch r))) (\<lambda>snapshot.
     pr_bind (on_card (write_completion env c folder (FirstSyncEpoch r) snapshot)) (\<lambda>_.
     pr_bind (control_do env (Set_First_Sync (FID folder) False)) (\<lambda>_.
       set_progress (FID folder) ((progress_of ''complete'')\<lparr>PSnapshot := snapshot\<rparr>)))))
      (\<lambda>_ t. ?proven t \<and> \<not> pending_in (Store t) ?i \<and> ?at (Store t) (files (ControlW t)))
      (\<lambda>_ t. ?kept t \<or> ?proven t) (\<lambda>t. ?kept t \<or> ?proven t) t"
    if "?kept t" "0 < FirstSyncEpoch r" for t
    using that by (auto simp: sat_bind set_progress_def
        intro!: sat_on_card [OF required_snapshot_wp [OF assms(5)]] sat_mono [OF completion] sat_mono [OF control])
  have "sat (complete_first_sync env folder c hub)
      (\<lambda>_ t. hub \<and> ?proven t \<and> \<not> pending_in (Store t) ?i \<and> ?at (Store t) (files (ControlW t))) (\<lambda>_. ?safe) ?safe s"
  proof (cases "hub \<and> usable_enrolled_card c \<and> FirstSyncEpoch r \<noteq> 0")
    case True
    show ?thesis
      unfolding complete_first_sync_def
      by (rule sat_checkI, rule sat_checkI, rule sat_pendingI [OF assms(7,8)], rule sat_card_bind, rule sat_mono [OF tail])
        (use True in \<open>auto simp: word_neq_0_conv\<close>)
  next
    case False
    then show ?thesis
      by (auto simp: complete_first_sync_def sat_bind sat_pending_control [OF assms(7,8)])
  qed
  then have outcome: "case res of
      Ok _ \<Rightarrow> hub \<and> ?proven t \<and> \<not> pending_in (Store t) ?i \<and> ?at (Store t) (files (ControlW t))
    | Failed _ \<Rightarrow> ?safe t | Died \<Rightarrow> ?safe t"
    using assms(9) by (simp add: sat_def)
  have here: "pending_in (Store s) ?i" using assms(7,8) by (simp add: pending_in_iff)
  have disk: "pending_in st ?i" if "?at st (files (ControlW s))" for st
    using here control_at_unique [OF assms(1) that] by (simp add: pending_in_iff)
  have lifted: "hub \<and> ?proven t" if "?safe t" "\<not> pending_in (Store t) ?i \<or> (\<exists>st. ?at st (files (ControlW t)) \<and> \<not> pending_in st ?i)"
  proof (rule ccontr)
    assume "\<not> (hub \<and> ?proven t)"
    then have "?kept t" using that(1) by blast
    then show False using that(2) here disk by auto
  qed
  show ?thesis
  proof (cases res)
    case (Ok u)
    then show ?thesis using outcome by simp
  qed (use outcome lifted in simp_all)
qed

section \<open>Recovery decides on the evidence\<close>

lemma read_marker_wp:
  "wp True (read_first_sync_marker c folder epoch) (\<lambda>r g. g = f \<and> (r \<noteq> None) = first_sync_proven c folder epoch f)
     (\<lambda>_ _. True) (\<lambda>_. True) f"
proof -
  have "wp True (io_bind (read_first_sync_marker c folder epoch) io_ret)
      (\<lambda>r g. g = f \<and> (r \<noteq> None) = first_sync_proven c folder epoch f) (\<lambda>_ _. True) (\<lambda>_. True) f"
    by (rule wp_read_first_sync_marker) (simp_all add: wp_ret)
  then show ?thesis by (simp add: io_bind_unit)
qed

lemma latest_prepared_keeps:
  "wp True (latest_prepared_snapshot paths c folder epoch) (\<lambda>_ g. g = f) (\<lambda>_ _. True) (\<lambda>_. True) f"
proof -
  have "wp True (io_bind (latest_prepared_snapshot paths c folder epoch) io_ret) (\<lambda>_ g. g = f) (\<lambda>_ _. True) (\<lambda>_. True) f"
    by (rule latest_prepared_wp) (simp_all add: wp_ret)
  then show ?thesis by (simp add: io_bind_unit)
qed

lemma sync_fs_keeps: "wp True (sync_fs d) (\<lambda>_ g. g = f) (\<lambda>_ _. True) (\<lambda>_. True) f"
  by (simp add: wp_exec)

text \<open>What a step of the recovery of one folder keeps: the card, and the records of the others.\<close>

definition others_kept :: "string \<Rightarrow> sync_machine \<Rightarrow> sync_machine \<Rightarrow> bool" where
  "others_kept i s t \<longleftrightarrow> files (CardW t) = files (CardW s) \<and> go_map (Records (Store t)) \<and>
     (\<forall>j. j \<noteq> i \<longrightarrow> map_of (Records (Store t)) j = map_of (Records (Store s)) j)"

lemma others_kept_trans: "others_kept i s t \<Longrightarrow> others_kept i t u \<Longrightarrow> others_kept i s u"
  by (simp add: others_kept_def)

lemma set_progress_kept: "go_map (Records (Store s)) \<Longrightarrow> sat (set_progress i p) (\<lambda>_. others_kept i s) E C s"
  by (simp add: set_progress_def others_kept_def)

lemma control_do_kept:
  assumes "go_map (Records (Store s))"
  shows "sat (control_do env (Require_First_Sync i)) (\<lambda>_. others_kept i s) (\<lambda>_ _. True) (\<lambda>_. True) s"
    and "sat (control_do env (Set_First_Sync i b))
      (\<lambda>_ t. others_kept i s t \<and> (\<exists>r. map_of (Records (Store t)) i = Some r \<and> FirstSync r = b)) (\<lambda>_ _. True) (\<lambda>_. True) s"
  by (rule sat_mono [OF control_do_sat]; use assms require_first_sync_changed set_first_sync_changed in \<open>auto simp: others_kept_def\<close>)+

lemma recover_parts_kept:
  assumes "go_map (Records (Store s))"
  shows "sat (recover_absent control folder) (\<lambda>_. others_kept (FID folder) s) (\<lambda>_ _. True) (\<lambda>_. True) s"
    and "sat (recover_complete c control folder m) (\<lambda>_. others_kept (FID folder) s) (\<lambda>_ _. True) (\<lambda>_. True) s"
    and "sat (recover_incomplete env c control folder) (\<lambda>_. others_kept (FID folder) s) (\<lambda>_ _. True) (\<lambda>_. True) s"
proof -
  have put: "sat (set_progress (FID folder) p) (\<lambda>_. others_kept (FID folder) s) (\<lambda>_ _. True) (\<lambda>_. True) t"
    if "others_kept (FID folder) s t" for t p
    by (rule sat_mono [OF set_progress_kept]) (use that others_kept_trans in \<open>auto simp: others_kept_def\<close>)
  have same: "others_kept (FID folder) s s" "\<And>w. files w = files (CardW s) \<Longrightarrow> others_kept (FID folder) s (s\<lparr>CardW := w\<rparr>)"
    using assms by (simp_all add: others_kept_def)
  show "sat (recover_absent control folder) (\<lambda>_. others_kept (FID folder) s) (\<lambda>_ _. True) (\<lambda>_. True) s"
    unfolding recover_absent_def by (rule put [OF same(1)])
  show "sat (recover_complete c control folder m) (\<lambda>_. others_kept (FID folder) s) (\<lambda>_ _. True) (\<lambda>_. True) s"
    by (auto simp: recover_complete_def sat_bind intro!: put same sat_on_card [OF sync_fs_keeps])
  show "sat (recover_incomplete env c control folder) (\<lambda>_. others_kept (FID folder) s) (\<lambda>_ _. True) (\<lambda>_. True) s"
    by (auto simp: recover_incomplete_def sat_bind same
        intro!: put same sat_on_card [OF latest_prepared_keeps] sat_mono [OF control_do_kept(1) [OF assms]] split: option.split)
qed

definition decided :: "leaf_card list \<Rightarrow> (string \<times> control_record) list \<Rightarrow> configured_folder \<Rightarrow> sync_machine \<Rightarrow> bool" where
  "decided inventory controls folder s \<longleftrightarrow> (\<forall>c.
     card_for_configured_folder folder inventory controls = Some c \<longrightarrow> usable_enrolled_card c \<longrightarrow>
     (\<exists>r. map_of (Records (Store s)) (FID folder) = Some r \<and>
        (FirstSync r \<longleftrightarrow> \<not> first_sync_proven c folder (FirstSyncEpoch (control_of controls (FID folder))) (files (CardW s)))))"

lemma recover_folder_sat:
  assumes "go_map (Records (Store s))"
  shows "sat (recover_folder env inventory controls folder)
     (\<lambda>_ t. others_kept (FID folder) s t \<and> decided inventory controls folder t) (\<lambda>_ _. True) (\<lambda>_. True) s"
proof -
  let ?control = "control_of controls (FID folder)"
  show ?thesis
  proof (cases "\<exists>c. card_for_configured_folder folder inventory controls = Some c \<and> usable_enrolled_card c")
    case False
    then have "recover_folder env inventory controls folder = recover_absent ?control folder"
      by (cases "card_for_configured_folder folder inventory controls") (simp_all add: recover_folder_def)
    moreover have "decided inventory controls folder t" for t using False by (simp add: decided_def)
    ultimately show ?thesis using recover_parts_kept(1) [OF assms] by simp
  next
    case True
    then obtain c where c: "card_for_configured_folder folder inventory controls = Some c" "usable_enrolled_card c" by blast
    let ?proven = "first_sync_proven c folder (FirstSyncEpoch ?control) (files (CardW s))"
    have finish: "sat (pr_bind (control_do env (Set_First_Sync (FID folder) (marker = None))) (\<lambda>_.
         pr_put (\<lambda>s. if map_of (Progress s) (FID folder) = None
           then s\<lparr>Progress := map_put (FID folder) (progress_of ''required'') (Progress s)\<rparr> else s)))
       (\<lambda>_ u. others_kept (FID folder) s u \<and> decided inventory controls folder u) (\<lambda>_ _. True) (\<lambda>_. True) t"
      if "(marker \<noteq> None) = ?proven" "others_kept (FID folder) s t" for marker t
    proof -
      have "go_map (Records (Store t))" using that(2) by (simp add: others_kept_def)
      then show ?thesis
        unfolding sat_bind
        by (rule sat_mono [OF control_do_kept(2)])
          (use that c in \<open>auto simp: decided_def others_kept_def\<close>)
    qed
    have body: "sat (case marker of Some m \<Rightarrow> recover_complete c ?control folder m | None \<Rightarrow> recover_incomplete env c ?control folder)
        (\<lambda>_. others_kept (FID folder) s) (\<lambda>_ _. True) (\<lambda>_. True) t"
      if "others_kept (FID folder) s t" for marker t
    proof -
      have "go_map (Records (Store t))" using that by (simp add: others_kept_def)
      note parts = recover_parts_kept(2,3) [OF this]
      show ?thesis
        using others_kept_trans [OF that]
        by (cases marker) (auto intro!: sat_mono [OF parts(1)] sat_mono [OF parts(2)])
    qed
    have read: "sat (on_card (read_first_sync_marker c folder (FirstSyncEpoch ?control)))
        (\<lambda>marker t. (marker \<noteq> None) = ?proven \<and> others_kept (FID folder) s t) (\<lambda>_ _. True) (\<lambda>_. True) s"
      by (rule sat_on_card [OF read_marker_wp]) (use assms in \<open>simp_all add: others_kept_def\<close>)
    show ?thesis
      unfolding recover_folder_def Let_def using c
      by simp (rule sat_bindI [OF read], rule sat_bindI [OF body], use finish in auto)
  qed
qed

text \<open>
  C5. When the recovery at the start of the controller returns, whatever faults and half-finished
  operations went before, the pause for the first synchronisation stands for exactly those folders
  on a usable card whose card does not hold the evidence.
\<close>

theorem recovery_matches_evidence:
  assumes "new_first_sync_manager env folders inventory s = (Ok (), t)"
    and "go_map (Records (Store s))" and "distinct (map FID folders)"
  shows "\<forall>folder \<in> set folders. decided inventory (Records (Store s)) folder t"
proof -
  let ?controls = "Records (Store s)"
  have cards: "sat (recover_cards env inventory) (\<lambda>_ t. go_map (Records (Store t))) (\<lambda>_ _. True) (\<lambda>_. True) u"
    if "go_map (Records (Store u))" for u :: sync_machine
    unfolding recover_cards_def
    by (rule sat_each [where I = "\<lambda>t. go_map (Records (Store t))", OF that])
      (auto simp: sat_bind simp del: pr_each.simps intro!: sat_on_card_frame
        sat_each [where I = "\<lambda>t. go_map (Records (Store t))"])
  have loop: "sat (pr_each (recover_folder env inventory ?controls) folders)
      (\<lambda>_ t. go_map (Records (Store t)) \<and> (\<forall>folder \<in> set folders. decided inventory ?controls folder t)) (\<lambda>_ _. True) (\<lambda>_. True) u"
    if "go_map (Records (Store u))" for u :: sync_machine
  proof (rule sat_each_facts [where I = "\<lambda>t. go_map (Records (Store t))", OF that])
    show "distinct folders" using assms(3) by (simp add: distinct_map)
    fix folder and v :: sync_machine
    assume folder: "folder \<in> set folders" and v: "go_map (Records (Store v))"
    have "decided inventory ?controls x w"
      if "x \<in> set folders" "x \<noteq> folder" "decided inventory ?controls x v" "others_kept (FID folder) v w" for x w
    proof -
      have "FID x \<noteq> FID folder" using that(1,2) folder assms(3) by (auto simp: distinct_map inj_on_def)
      then show ?thesis using that(3,4) by (simp add: decided_def others_kept_def)
    qed
    then show "sat (recover_folder env inventory ?controls folder)
        (\<lambda>_ w. go_map (Records (Store w)) \<and> decided inventory ?controls folder w \<and>
          (\<forall>y \<in> set folders. y \<noteq> folder \<longrightarrow> decided inventory ?controls y v \<longrightarrow> decided inventory ?controls y w))
        (\<lambda>_ _. True) (\<lambda>_. True) v"
      by (intro sat_mono [OF recover_folder_sat [OF v]]) (auto simp: others_kept_def)
  qed
  have "sat (new_first_sync_manager env folders inventory)
      (\<lambda>_ t. \<forall>folder \<in> set folders. decided inventory ?controls folder t) (\<lambda>_ _. True) (\<lambda>_. True) s"
    unfolding new_first_sync_manager_def recover_first_sync_def
    by simp (rule sat_bindI [OF cards], use assms(2) in \<open>auto intro!: sat_mono [OF loop]\<close>)
  then show ?thesis using assms(1) by (simp add: sat_def)
qed

section \<open>Witnesses\<close>

definition sample_env :: sync_env where
  "sample_env = \<lparr>EnvSha = sample_sha, EnvControlSize = (\<lambda>_. 9), EnvControlPath = control_path, EnvDocSize = (\<lambda>_. 9),
     EnvNow = ''2026-01-01T00:00:00Z'', EnvStamp = ''20260101T000000Z-00000000'', EnvPaths = []\<rparr>"

definition pending_store :: folder_control where
  "pending_store = \<lparr>Records = [(''leaf-saves'', (sample_record False)\<lparr>FirstSync := True\<rparr>)], Offers = [], PendingDeviceRemoval = ''''\<rparr>"

definition sample_card :: leaf_card where
  "sample_card = hd sample_inventory"

definition first_sync_files :: "json fs" where
  "first_sync_files = (\<lambda>p. if p \<in> {''/card'', ''/m'', ''/m/u'', ''/card/Saves'', ''/card/Saves/.leaf-saves-000000000000''} then Some Dir else None)"

definition pending_machine :: sync_machine where
  "pending_machine = \<lparr>CardW = \<lparr>files = first_sync_files, plan = []\<rparr>,
     ControlW = \<lparr>files = control_files pending_store, plan = []\<rparr>, Store = pending_store, Progress = []\<rparr>"

lemma pending_store_at: "control_at sample_sha control_path pending_store (control_files pending_store)"
proof (rule control_files_at)
  show "control_ok sample_sha pending_store" by code_simp
qed

lemma sample_completion:
  "case complete_first_sync sample_env sample_folder sample_card True pending_machine of
     (Ok _, t) \<Rightarrow> \<not> pending_in (Store t) ''leaf-saves'' | _ \<Rightarrow> False"
  by code_simp

theorem protection_lifted_on_evidence_witness:
  "\<exists>t. complete_first_sync sample_env sample_folder sample_card True pending_machine = (Ok (), t) \<and>
     first_sync_proven sample_card sample_folder 1 (files (CardW t))"
proof -
  from sample_completion obtain t where t: "complete_first_sync sample_env sample_folder sample_card True pending_machine = (Ok (), t)"
    and lifted: "\<not> pending_in (Store t) ''leaf-saves''"
    by (auto split: prod.splits outcome.splits)
  have "located sample_card sample_folder" by code_simp
  from protection_lifted_on_evidence [OF _ _ _ _ this _ _ _ t, of "(sample_record False)\<lparr>FirstSync := True\<rparr>"] t lifted pending_store_at
  show ?thesis
    by (simp add: sample_env_def pending_machine_def pending_store_def sample_folder_def sample_record_def
        control_state_bytes_def)
qed

text \<open>A store that believes the first synchronisation is done, on a card without its marker.\<close>

definition unproven_machine :: sync_machine where
  "unproven_machine = \<lparr>CardW = \<lparr>files = first_sync_files, plan = []\<rparr>,
     ControlW = \<lparr>files = control_files (sample_control False), plan = []\<rparr>, Store = sample_control False, Progress = []\<rparr>"

lemma sample_recovery:
  "fst (new_first_sync_manager sample_env [sample_folder] sample_inventory unproven_machine) = Ok ()"
  by code_simp

theorem recovery_matches_evidence_witness:
  "\<exists>t. new_first_sync_manager sample_env [sample_folder] sample_inventory unproven_machine = (Ok (), t) \<and>
     decided sample_inventory (Records (sample_control False)) sample_folder t"
proof -
  obtain t where t: "new_first_sync_manager sample_env [sample_folder] sample_inventory unproven_machine = (Ok (), t)"
    using sample_recovery by (metis prod.collapse)
  from recovery_matches_evidence [OF t] t show ?thesis
    by (simp add: unproven_machine_def sample_control_def go_map_def)
qed

end
