(* ===== verification/Snapshot.thy ===== *)
theory Snapshot
  imports First_Sync
begin

text \<open>
  The safety snapshots of \<open>controller/first_sync.go\<close> (\<open>Prepare\<close>, \<open>prepareLocked\<close>, the scan and the
  copy) and the free-space check of \<open>leaf/storage.go\<close>.  A directory walk gives its entries: the
  relative path of each and what it is, in the order of the walk, without the root.  The manifest
  is a file of several JSON values, so it is not a document; its length is the parameter \<open>mlen\<close> of
  the copied entries.
\<close>

section \<open>Free space\<close>

definition storage_reserve_bytes :: int where "storage_reserve_bytes = 4 * 1024 * 1024"

text \<open>\<open>AvailableBytes\<close> after the \<open>statfs\<close> call: free blocks times block size, both 64 bits wide.\<close>

definition available_bytes :: "64 word \<Rightarrow> 64 word \<Rightarrow> 64 word" where
  "available_bytes blocks block_size = blocks * block_size"

definition require_free_space :: "int \<Rightarrow> error + 64 word \<times> 64 word \<Rightarrow> error + unit" where
  "require_free_space content stats =
     (if content \<le> 0 then Inr ()
      else let required = (word_of_int content :: 64 word); reserve = word_of_int storage_reserve_bytes
           in if required > - 1 - reserve then Inl ''required storage size overflows''
              else (case stats of
                Inl _ \<Rightarrow> Inl ''check free space''
              | Inr (blocks, block_size) \<Rightarrow>
                  if available_bytes blocks block_size < required + reserve then Inl ''insufficient free space'' else Inr ()))"

section \<open>Walking the source\<close>

datatype tree_entry = Tree_Error | Tree_Link | Tree_Dir | Tree_File "int option" | Tree_Special

type_synonym walk_list = "(string \<times> tree_entry) list"

definition max_snapshot_entries :: int where "max_snapshot_entries = 250000"
definition max_snapshot_relative_path :: int where "max_snapshot_relative_path = 1024"

text \<open>What \<open>SkipDir\<close> leaves of a walk.\<close>

definition skip_dir :: "string \<Rightarrow> walk_list \<Rightarrow> walk_list" where
  "skip_dir d es = filter (\<lambda>(p, _). \<not> under d p) es"

definition counted :: "int \<Rightarrow> int \<Rightarrow> error + unit" where
  "counted nf nd = (if nf + nd > max_snapshot_entries then Inl ''snapshot source exceeds the entry limit'' else Inr ())"

function scan_walk :: "string \<Rightarrow> int \<times> int \<times> int \<Rightarrow> walk_list \<Rightarrow> error + int \<times> int \<times> int" where
  "scan_walk marker acc [] = Inr acc"
| "scan_walk marker (nf, nd, nb) ((rel, e) # es) =
     (if e = Tree_Error then Inl ''walk error''
      else if rel = ''.'' \<or> int (length rel) > max_snapshot_relative_path
      then Inl ''snapshot contains an invalid or overlong relative path''
      else if rel = marker then
        (if e = Tree_Dir then scan_walk marker (nf, nd, nb) (skip_dir marker es)
         else Inl ''managed marker is not a directory'')
      else case e of
        Tree_Link \<Rightarrow> Inl ''snapshot source contains a symlink''
      | Tree_Dir \<Rightarrow> sum_bind (counted nf (nd + 1)) (\<lambda>_. scan_walk marker (nf, nd + 1, nb) es)
      | Tree_File (Some n) \<Rightarrow>
          if n < 0 \<or> nb > int_max - n then Inl ''snapshot source size is invalid''
          else sum_bind (counted (nf + 1) nd) (\<lambda>_. scan_walk marker (nf + 1, nd, nb + n) es)
      | Tree_File None \<Rightarrow> Inl ''snapshot source size is invalid''
      | _ \<Rightarrow> Inl ''snapshot source contains a special file'')"
  by pat_completeness auto
termination by (relation "measure (\<lambda>(m, a, es). length es)") (auto simp: skip_dir_def le_imp_less_Suc)

definition scan_snapshot_source :: "string \<Rightarrow> string \<Rightarrow> walk_list \<Rightarrow> ('d, int \<times> int \<times> int) io" where
  "scan_snapshot_source root marker walk = io_bind (io_try (lstat root)) (\<lambda>info.
     if info \<noteq> Inr (Some Dir) then io_fail ''snapshot source is absent, symlinked, or not a directory''
     else io_lift (scan_walk marker (0, 0, 0) walk))"

text \<open>
  Copying one file: \<open>io.CopyBuffer\<close> between the open files, then the size check, the flush and the
  closing.  The time stamps are not modelled; the sum of the copied sizes is not wrapped at 64 bits
  (the code compares it with the sum of the scan, which is checked against overflow).
\<close>

definition copy_file :: "string \<Rightarrow> string \<Rightarrow> int \<Rightarrow> ('d, unit) io" where
  "copy_file source destination expected =
     io_bind (read_file source) (\<lambda>c.
     io_bind (create_excl destination) (\<lambda>_.
     io_bind (write_file destination c) (\<lambda>_.
     if int (content_size c) \<noteq> expected then io_fail ''snapshot source changed size during copy''
     else io_bind (fsync_file destination) (\<lambda>_. close_file destination))))"

text \<open>The entries that were copied, with their sizes, in order: the manifest.\<close>

function copy_walk :: "string \<Rightarrow> string \<Rightarrow> string \<Rightarrow> (string \<times> int option) list \<Rightarrow> int \<times> int \<times> int \<Rightarrow> walk_list \<Rightarrow>
    ('d, (string \<times> int option) list \<times> int \<times> int \<times> int) io" where
  "copy_walk source dest marker manifest acc [] = io_ret (manifest, acc)"
| "copy_walk source dest marker manifest (nf, nd, nb) ((rel, e) # es) =
     (if e = Tree_Error then io_fail ''walk error''
      else if rel = ''.'' \<or> int (length rel) > max_snapshot_relative_path
      then io_fail ''snapshot contains an invalid or overlong relative path''
      else if rel = marker then
        (if e = Tree_Dir then copy_walk source dest marker manifest (nf, nd, nb) (skip_dir marker es)
         else io_fail ''managed marker is not a directory'')
      else if e = Tree_Link then io_fail ''snapshot source contains a symlink''
      else
        let target = join_path [dest, rel]
        in io_bind (io_lift (relative_within dest target)) (\<lambda>_. case e of
             Tree_Dir \<Rightarrow>
               io_bind (make_dir target) (\<lambda>_.
               io_bind (io_lift (counted nf (nd + 1))) (\<lambda>_.
                 copy_walk source dest marker (manifest @ [(rel, None)]) (nf, nd + 1, nb) es))
           | Tree_File (Some n) \<Rightarrow>
               io_bind (copy_file (join_path [source, rel]) target n) (\<lambda>_.
               io_bind (io_lift (counted (nf + 1) nd)) (\<lambda>_.
                 copy_walk source dest marker (manifest @ [(rel, Some n)]) (nf + 1, nd, nb + n) es))
           | Tree_File None \<Rightarrow> io_fail ''entry info error''
           | _ \<Rightarrow> io_fail ''snapshot source contains a special file''))"
  by pat_completeness auto
termination by (relation "measure (\<lambda>(s, d, m, man, a, es). length es)") (auto simp: skip_dir_def le_imp_less_Suc)

section \<open>Preparing a snapshot\<close>

text \<open>What a preparation is given besides the folder: the two walks and the result of \<open>statfs\<close>.\<close>

record snapshot_input =
  ScanWalk :: walk_list
  CopyWalk :: walk_list
  FreeStats :: "error + 64 word \<times> 64 word"
  ManifestSize :: "(string \<times> int option) list \<Rightarrow> nat"

definition partial_dir :: "sync_env \<Rightarrow> leaf_card \<Rightarrow> string \<Rightarrow> string" where
  "partial_dir env c kind = join_path [first_sync_kind_root c kind, snapshot_partial_prefix @ EnvStamp env]"

definition final_dir :: "sync_env \<Rightarrow> leaf_card \<Rightarrow> string \<Rightarrow> string" where
  "final_dir env c kind = join_path [first_sync_kind_root c kind, EnvStamp env]"

definition snapshot_header_for :: "sync_env \<Rightarrow> configured_folder \<Rightarrow> leaf_card \<Rightarrow> 64 word \<Rightarrow> string \<Rightarrow> int \<times> int \<times> int \<Rightarrow> string \<Rightarrow> snapshot_header" where
  "snapshot_header_for env folder c epoch relative = (\<lambda>(nf, nd, nb) state.
     \<lparr>HSchema = first_sync_document_schema, HState = state, HEpoch = epoch, HFolder = FID folder,
      HCard = IID (Identity c), HSource = ID (Source c), HKind = FKind folder, HRelative = relative,
      HName = EnvStamp env, HCreatedAt = EnvNow env, HFiles = nf, HDirectories = nd, HBytes = nb\<rparr>)"

text \<open>The directory of the snapshot with its files and its manifest, under a partial name.\<close>

definition copy_snapshot :: "string \<Rightarrow> configured_folder \<Rightarrow> snapshot_input \<Rightarrow> (json, int \<times> int \<times> int) io" where
  "copy_snapshot partial folder input =
     (let files_root = join_path [partial, snapshot_files_name]; manifest = join_path [partial, snapshot_manifest_name]
      in io_bind (make_dir partial) (\<lambda>_.
         io_bind (make_dir files_root) (\<lambda>_.
         io_bind (create_excl manifest) (\<lambda>_.
         io_bind (copy_walk (FPath folder) files_root (FMarkerName folder) [] (0, 0, 0) (CopyWalk input)) (\<lambda>(copied, counts).
         io_bind (write_file manifest (Junk (ManifestSize input copied))) (\<lambda>_.
         io_bind (fsync_file manifest) (\<lambda>_.
         io_bind (close_file manifest) (\<lambda>_.
         io_ret counts))))))))"

text \<open>From the copied files to the promoted directory.\<close>

definition promote_snapshot :: "sync_env \<Rightarrow> configured_folder \<Rightarrow> leaf_card \<Rightarrow> 64 word \<Rightarrow> int \<times> int \<times> int \<Rightarrow> (json, unit) io" where
  "promote_snapshot env folder c epoch counts =
     (let partial = partial_dir env c (FKind folder); header = join_path [partial, snapshot_header_name]
      in case relative_within (Root (Source c)) (FPath folder) of
        Inl _ \<Rightarrow> io_fail ''snapshot source is not a confined card content path''
      | Inr relative \<Rightarrow>
          if relative = ''.'' then io_fail ''snapshot source is not a confined card content path''
          else
            let doc = (\<lambda>state. header_json (snapshot_header_for env folder c epoch relative counts state))
            in io_bind (write_bounded (EnvDocSize env) header (doc ''pending'')) (\<lambda>_.
               io_bind (sync_fs (Root (Source c))) (\<lambda>_.
               io_bind (replace_bounded (EnvDocSize env) header snapshot_header_temporary (doc ''ready'')) (\<lambda>_.
               io_bind (sync_fs (Root (Source c))) (\<lambda>_.
               io_bind (rename_dir partial (final_dir env c (FKind folder))) (\<lambda>_.
               sync_fs (Root (Source c))))))))"

definition prepare_locked :: "sync_env \<Rightarrow> snapshot_input \<Rightarrow> configured_folder \<Rightarrow> leaf_card \<Rightarrow> 64 word \<Rightarrow> (json, progress) io" where
  "prepare_locked env input folder c epoch =
     (let root = first_sync_kind_root c (FKind folder);
          partial = partial_dir env c (FKind folder); final = final_dir env c (FKind folder)
      in io_bind (scan_snapshot_source (FPath folder) (FMarkerName folder) (ScanWalk input)) (\<lambda>scanned.
         io_bind (ensure_safe_directory_chain (Root (Source c)) root) (\<lambda>_.
         io_bind (io_lift (require_free_space (snd (snd scanned)) (FreeStats input))) (\<lambda>_.
         io_bind (lstat partial) (\<lambda>p.
         if p \<noteq> None then io_fail ''snapshot partial name already exists''
         else io_bind (lstat final) (\<lambda>q.
         if q \<noteq> None then io_fail ''snapshot name already exists''
         else io_bind (copy_snapshot partial folder input) (\<lambda>copied.
         if copied \<noteq> scanned
         then io_fail ''folder changed while the safety snapshot was being copied; retry after writes settle''
         else io_bind (promote_snapshot env folder c epoch copied) (\<lambda>_.
              io_bind (read_snapshot_header final folder c epoch) (\<lambda>found. case found of
                None \<Rightarrow> io_fail ''promoted snapshot did not validate''
              | Some h \<Rightarrow> io_ret (progress_from_snapshot ''ready'' h))))))))))"

definition display_first_sync_error :: "error \<Rightarrow> string" where
  "display_first_sync_error e = take 240 e"

text \<open>A program whose error is put into the progress before it is returned.\<close>

definition recording :: "string \<Rightarrow> (sync_machine, 'a) prog \<Rightarrow> (sync_machine, 'a) prog" where
  "recording i m = (\<lambda>s. case m s of
     (Failed e, t) \<Rightarrow> (Failed e, t\<lparr>Progress := map_put i ((progress_of ''error'')\<lparr>PMessage := display_first_sync_error e\<rparr>) (Progress t)\<rparr>)
   | rt \<Rightarrow> rt)"

definition prepare_first_sync :: "sync_env \<Rightarrow> snapshot_input \<Rightarrow> configured_folder \<Rightarrow> leaf_card \<Rightarrow> (sync_machine, progress) prog" where
  "prepare_first_sync env input folder c =
     pr_bind (pr_check (FType folder \<noteq> ''sendonly'') ''send-only seeding does not require a safety snapshot'') (\<lambda>_.
     pr_bind (pr_check (usable_enrolled_card c)
       ''first sync requires the enrolled physical card to be present and writable'') (\<lambda>_.
     pr_bind (pending_control folder) (\<lambda>control.
     pr_bind (on_card (validate_first_sync_binding folder c control)) (\<lambda>_.
     pr_bind (set_progress (FID folder) (progress_of ''preparing'')) (\<lambda>_.
     pr_bind (recording (FID folder) (on_card (prepare_locked env input folder c (FirstSyncEpoch control)))) (\<lambda>p.
     pr_bind (set_progress (FID folder) p) (\<lambda>_. pr_ret p)))))))"

section \<open>Paths of a snapshot\<close>

text \<open>A relative path as a walk below a directory gives it.\<close>

definition rel_ok :: "string \<Rightarrow> bool" where
  "rel_ok rel \<longleftrightarrow> (let ns = split_on CHR ''/'' rel in \<forall>n \<in> set ns. name_comp n)"

lemma rel_ok_join: "rel_ok rel \<Longrightarrow> rel = join_with ''/'' (split_on CHR ''/'' rel)"
proof -
  have "join_with [c] (split_on c s) = s" for c s
  proof (induction s)
    case (Cons x s)
    then show ?case by (cases "split_on c s" rule: list.exhaust; cases "tl (split_on c s)") auto
  qed simp
  from this [of "CHR ''/''" rel] show ?thesis by simp
qed

lemma rel_comps:
  assumes "rel_ok rel" and "p \<noteq> ''''"
  shows "path_comps (join_path [p, rel]) = path_comps p @ split_on CHR ''/'' rel" and "rooted (join_path [p, rel]) = rooted p"
    and "clean (join_path [p, rel]) = join_path [p, rel]"
proof -
  let ?ns = "split_on CHR ''/'' rel"
  have names: "\<forall>n \<in> set ?ns. name_comp n" using assms(1) by (simp add: rel_ok_def)
  have "join_with ''/'' (p # ?ns) = p @ ''/'' @ join_with ''/'' ?ns" by (cases ?ns) auto
  then have same: "join_path [p, rel] = join_path (p # ?ns)"
    using rel_ok_join [OF assms(1)] assms(2) by (simp add: join_path_clean)
  show "path_comps (join_path [p, rel]) = path_comps p @ ?ns" "rooted (join_path [p, rel]) = rooted p"
    unfolding same by (rule path_comps_join_names [OF assms(2) names])+
  show "clean (join_path [p, rel]) = join_path [p, rel]" using assms(2) by (simp add: join_path_clean)
qed

lemma rel_text:
  assumes "rel_ok rel" and "clean p = p" and "path_comps p \<noteq> []"
  shows "join_path [p, rel] = p @ ''/'' @ rel"
proof -
  let ?ns = "split_on CHR ''/'' rel"
  have p: "p \<noteq> ''''" using assms(3) by auto
  have app: "join_with ''/'' (cs @ ?ns) = join_with ''/'' cs @ ''/'' @ join_with ''/'' ?ns" if "cs \<noteq> []" for cs
    using that
  proof (induction cs)
    case (Cons c cs)
    then show ?case by (cases cs; cases ?ns) auto
  qed simp
  have "join_path [p, rel] = render (rooted p) (path_comps p @ ?ns)"
    using rel_comps [OF assms(1) p] by (metis clean_def)
  also have "\<dots> = render (rooted p) (path_comps p) @ ''/'' @ join_with ''/'' ?ns"
    using app [OF assms(3)] assms(3) by (simp add: render_def)
  finally show ?thesis using assms(2) rel_ok_join [OF assms(1)] by (simp add: clean_def)
qed

definition good_stamp :: "string \<Rightarrow> bool" where
  "good_stamp stamp \<longleftrightarrow> name_comp stamp \<and> name_comp (snapshot_partial_prefix @ stamp)"

lemma stamp_not_partial: "snapshot_partial_prefix @ stamp \<noteq> stamp"
  by (simp add: snapshot_partial_prefix_def)

lemma snapshot_dirs:
  assumes "located c folder" and "good_stamp (EnvStamp env)"
  shows "clean (partial_dir env c (FKind folder)) = partial_dir env c (FKind folder)"
    and "path_comps (partial_dir env c (FKind folder)) = path_comps (first_sync_kind_root c (FKind folder)) @ [snapshot_partial_prefix @ EnvStamp env]"
    and "clean (final_dir env c (FKind folder)) = final_dir env c (FKind folder)"
    and "path_comps (final_dir env c (FKind folder)) = path_comps (first_sync_kind_root c (FKind folder)) @ [EnvStamp env]"
    and "partial_dir env c (FKind folder) \<noteq> ''''" and "final_dir env c (FKind folder) \<noteq> ''''"
  using join_name_comps [of "snapshot_partial_prefix @ EnvStamp env" "first_sync_kind_root c (FKind folder)"]
    join_name_comps [of "EnvStamp env" "first_sync_kind_root c (FKind folder)"] kind_root [OF assms(1)] assms(2)
  by (simp_all add: partial_dir_def final_dir_def good_stamp_def)

text \<open>The header of the final snapshot lies outside the partial directory.\<close>

definition final_header :: "sync_env \<Rightarrow> leaf_card \<Rightarrow> configured_folder \<Rightarrow> string" where
  "final_header env c folder = join_path [final_dir env c (FKind folder), snapshot_header_name]"

lemma final_header_apart:
  assumes "located c folder" and "good_stamp (EnvStamp env)"
    and "path_comps q = path_comps (partial_dir env c (FKind folder)) @ cs"
  shows "q \<noteq> final_header env c folder"
proof
  assume "q = final_header env c folder"
  then have "path_comps q = path_comps (final_dir env c (FKind folder)) @ [snapshot_header_name]"
    using join_name_comps(1) [OF first_sync_names(3)] snapshot_dirs(6) [OF assms(1,2)] by (simp add: final_header_def)
  then show False using assms(3) snapshot_dirs(2,4) [OF assms(1,2)] stamp_not_partial by simp
qed

section \<open>The free-space check\<close>

text \<open>
  C36. The free-space check is sound in 64-bit arithmetic: content that it accepts fits in the free
  blocks together with the reserve, although the product of block count and block size may wrap.
\<close>

theorem accepted_content_fits:
  assumes "require_free_space content (Inr (blocks, block_size)) = Inr ()" and "0 < content" and "content < 2 ^ 63"
  shows "content + storage_reserve_bytes \<le> uint blocks * uint block_size"
proof -
  let ?c = "word_of_int content :: 64 word" and ?r = "word_of_int storage_reserve_bytes :: 64 word"
  have c: "uint ?c = content" using assms(2,3) by (simp add: uint_word_of_int take_bit_int_eq_self)
  have r: "uint ?r = storage_reserve_bytes" by (simp add: storage_reserve_bytes_def)
  have "\<not> ?c > - 1 - ?r" and enough: "\<not> blocks * block_size < ?c + ?r"
    using assms(1,2) by (auto simp: require_free_space_def available_bytes_def Let_def split: if_splits)
  have "uint ?c + uint ?r < 2 ^ 64" using c r assms(3) by (simp add: storage_reserve_bytes_def)
  then have "content + storage_reserve_bytes = uint (?c + ?r)"
    using c r assms(2) by (simp add: uint_word_arith_bintrs take_bit_int_eq_self storage_reserve_bytes_def)
  also have "uint (?c + ?r) \<le> uint (blocks * block_size)" using enough by (simp add: word_less_def not_less)
  also have "\<dots> \<le> uint blocks * uint block_size"
    by (simp add: uint_word_arith_bintrs take_bit_int_less_eq_self_iff)
  finally show ?thesis .
qed

theorem accepted_content_fits_witness:
  "(4096::int) + storage_reserve_bytes \<le> uint (2048 :: 64 word) * uint (4096 :: 64 word)"
proof -
  have "require_free_space 4096 (Inr (2048, 4096)) = Inr ()"
    by (simp add: require_free_space_def available_bytes_def storage_reserve_bytes_def)
  from accepted_content_fits [OF this] show ?thesis by simp
qed

lemma wp_bind_step:
  assumes "wp b m R E' C' f" and "\<And>x g. R x g \<Longrightarrow> wp b (k x) Q E C g" and "\<And>e g. E' e g \<Longrightarrow> E e g"
    and "\<And>g. C' g \<Longrightarrow> C g"
  shows "wp b (io_bind m k) Q E C f"
  by (rule wp_bindI, rule wp_mono [OF assms(1)]) (use assms(2-4) in auto)

section \<open>Copying\<close>

text \<open>
  An entry of the walk that belongs to the snapshot is in the tree below \<open>dest\<close>: a directory, or
  a file of the size that the walk gave, with the content that the source had in \<open>f0\<close>.
\<close>

definition entry_in :: "string \<Rightarrow> string \<Rightarrow> json fs \<Rightarrow> json fs \<Rightarrow> string \<times> tree_entry \<Rightarrow> bool" where
  "entry_in source dest f0 g = (\<lambda>(rel, e). case e of
     Tree_Dir \<Rightarrow> g (join_path [dest, rel]) = Some Dir
   | Tree_File (Some n) \<Rightarrow> (\<exists>content. g (join_path [dest, rel]) = Some (Reg content) \<and> int (content_size content) = n \<and>
       (f0 (join_path [source, rel]) \<noteq> None \<longrightarrow> f0 (join_path [source, rel]) = Some (Reg content)))
   | _ \<Rightarrow> False)"

definition in_snapshot :: "string \<Rightarrow> string \<times> tree_entry \<Rightarrow> bool" where
  "in_snapshot marker = (\<lambda>(rel, e). rel \<noteq> marker \<and> \<not> under marker rel)"

lemma map_le_Some: "f q = Some y \<Longrightarrow> map_le f g \<Longrightarrow> g q = Some y"
  by (metis map_le_def domI)

lemma map_le_upd: "map_le f0 f \<Longrightarrow> f p = None \<or> f0 p = None \<Longrightarrow> map_le f0 (f(p := x))"
  unfolding map_le_def by (metis domIff fun_upd_other)

lemma entry_in_mono:
  "entry_in source dest f0 f e \<Longrightarrow> (\<And>q. f q \<noteq> None \<Longrightarrow> q = join_path [dest, fst e] \<Longrightarrow> g q = f q) \<Longrightarrow> entry_in source dest f0 g e"
  by (auto simp: entry_in_def split: prod.splits tree_entry.splits option.splits)

lemma copy_walk_wp:
  assumes "map_le f0 f" and "f hp = None" and "\<forall>(rel, e) \<in> set es. rel_ok rel \<and> join_path [dest, rel] \<noteq> hp"
  shows "wp True (copy_walk source dest marker man acc es)
     (\<lambda>_ g. map_le f g \<and> g hp = None \<and> (\<forall>e \<in> set es. in_snapshot marker e \<longrightarrow> entry_in source dest f0 g e))
     (\<lambda>_ g. g hp = None) (\<lambda>g. g hp = None) f"
  using assms
proof (induction source dest marker man acc es arbitrary: f rule: copy_walk.induct)
  case (1 source dest marker man acc)
  then show ?case by (simp add: wp_exec)
next
  case (2 source dest marker man nf nd nb rel e es)
  let ?t = "join_path [dest, rel]"
  note hyps = "2.prems"(3)
  have hp: "?t \<noteq> hp" using hyps by simp
  have rest: "\<forall>(rel, e) \<in> set es. rel_ok rel \<and> join_path [dest, rel] \<noteq> hp" using hyps by simp
  have finish: "wp True (copy_walk source dest marker man' acc' es)
      (\<lambda>_ h. map_le f h \<and> h hp = None \<and> (\<forall>x \<in> set ((rel, e) # es). in_snapshot marker x \<longrightarrow> entry_in source dest f0 h x))
      (\<lambda>_ h. h hp = None) (\<lambda>h. h hp = None) g"
    if IH: "\<And>g'. map_le f0 g' \<Longrightarrow> g' hp = None \<Longrightarrow> wp True (copy_walk source dest marker man' acc' es)
        (\<lambda>_ h. map_le g' h \<and> h hp = None \<and> (\<forall>x \<in> set es. in_snapshot marker x \<longrightarrow> entry_in source dest f0 h x))
        (\<lambda>_ h. h hp = None) (\<lambda>h. h hp = None) g'"
      and g: "g = f(?t \<mapsto> node)" "f ?t = None" "entry_in source dest f0 g (rel, e)" for g man' acc' node
  proof -
    have le: "map_le f g" "map_le f0 g" "g hp = None"
      using g(1,2) "2.prems"(1,2) hp by (simp_all add: map_le_upd)
    show ?thesis
    proof (rule wp_mono [OF IH [OF le(2,3)]])
      fix x h
      assume h: "map_le g h \<and> h hp = None \<and> (\<forall>x \<in> set es. in_snapshot marker x \<longrightarrow> entry_in source dest f0 h x)"
      have "entry_in source dest f0 h (rel, e)"
        by (rule entry_in_mono [OF g(3)]) (use h in \<open>auto dest: map_le_Some\<close>)
      then show "map_le f h \<and> h hp = None \<and> (\<forall>x \<in> set ((rel, e) # es). in_snapshot marker x \<longrightarrow> entry_in source dest f0 h x)"
        using h map_le_trans [OF le(1)] by auto
    qed auto
  qed
  show ?case
  proof (cases "e = Tree_Error \<or> rel = ''.'' \<or> int (length rel) > max_snapshot_relative_path \<or> rel = marker \<or> e = Tree_Link")
    case True
    then show ?thesis
    proof (cases "rel = marker \<and> e = Tree_Dir \<and> rel \<noteq> ''.'' \<and> \<not> int (length rel) > max_snapshot_relative_path")
      case True
      have skip: "copy_walk source dest marker man (nf, nd, nb) ((rel, e) # es) =
          copy_walk source dest marker man (nf, nd, nb) (skip_dir marker es)"
        using True by auto
      from True have "wp True (copy_walk source dest marker man (nf, nd, nb) (skip_dir marker es))
         (\<lambda>_ g. map_le f g \<and> g hp = None \<and> (\<forall>e \<in> set (skip_dir marker es). in_snapshot marker e \<longrightarrow> entry_in source dest f0 g e))
         (\<lambda>_ g. g hp = None) (\<lambda>g. g hp = None) f"
        using "2.IH"(1) "2.prems" by (auto simp: skip_dir_def)
      then show ?thesis
        unfolding skip by (rule wp_mono) (use True in \<open>auto simp: skip_dir_def in_snapshot_def\<close>)
    qed (use "2.prems" in \<open>auto simp: wp_exec\<close>)
  next
    case False
    then have go: "copy_walk source dest marker man (nf, nd, nb) ((rel, e) # es) =
        io_bind (io_lift (relative_within dest ?t)) (\<lambda>_. case e of
             Tree_Dir \<Rightarrow>
               io_bind (make_dir ?t) (\<lambda>_.
               io_bind (io_lift (counted nf (nd + 1))) (\<lambda>_.
                 copy_walk source dest marker (man @ [(rel, None)]) (nf, nd + 1, nb) es))
           | Tree_File (Some n) \<Rightarrow>
               io_bind (copy_file (join_path [source, rel]) ?t n) (\<lambda>_.
               io_bind (io_lift (counted (nf + 1) nd)) (\<lambda>_.
                 copy_walk source dest marker (man @ [(rel, Some n)]) (nf + 1, nd, nb + n) es))
           | Tree_File None \<Rightarrow> io_fail ''entry info error''
           | _ \<Rightarrow> io_fail ''snapshot source contains a special file'')"
      by (simp add: Let_def)
    show ?thesis
    proof (cases e)
      case Tree_Dir
      have rec: "wp True (copy_walk source dest marker (man @ [(rel, None)]) (nf, nd + 1, nb) es)
          (\<lambda>_ h. map_le g' h \<and> h hp = None \<and> (\<forall>x \<in> set es. in_snapshot marker x \<longrightarrow> entry_in source dest f0 h x))
          (\<lambda>_ h. h hp = None) (\<lambda>h. h hp = None) g'" if "map_le f0 g'" "g' hp = None" for g'
        by (rule "2.IH"(2) [where x = ?t]) (use False Tree_Dir that rest in auto)
      have "wp True (copy_walk source dest marker (man @ [(rel, None)]) (nf, nd + 1, nb) es)
          (\<lambda>_ h. map_le f h \<and> h hp = None \<and> (\<forall>x \<in> set ((rel, e) # es). in_snapshot marker x \<longrightarrow> entry_in source dest f0 h x))
          (\<lambda>_ h. h hp = None) (\<lambda>h. h hp = None) (f(?t \<mapsto> Dir))" if "f ?t = None"
        by (rule finish [OF rec refl that]) (simp_all add: Tree_Dir entry_in_def)
      then show ?thesis
        unfolding go using hp "2.prems"(2) by (auto simp: Tree_Dir wp_exec split: sum.split)
    next
      case (Tree_File size)
      show ?thesis
      proof (cases size)
        case (Some n)
        have rec: "wp True (copy_walk source dest marker (man @ [(rel, Some n)]) (nf + 1, nd, nb + n) es)
            (\<lambda>_ h. map_le g' h \<and> h hp = None \<and> (\<forall>x \<in> set es. in_snapshot marker x \<longrightarrow> entry_in source dest f0 h x))
            (\<lambda>_ h. h hp = None) (\<lambda>h. h hp = None) g'" if "map_le f0 g'" "g' hp = None" for g'
          by (rule "2.IH"(3) [where x = ?t]) (use False Tree_File Some that rest in auto)
        have "wp True (copy_walk source dest marker (man @ [(rel, Some n)]) (nf + 1, nd, nb + n) es)
            (\<lambda>_ h. map_le f h \<and> h hp = None \<and> (\<forall>x \<in> set ((rel, e) # es). in_snapshot marker x \<longrightarrow> entry_in source dest f0 h x))
            (\<lambda>_ h. h hp = None) (\<lambda>h. h hp = None) (f(?t \<mapsto> Reg c))"
          if "f ?t = None" "f (join_path [source, rel]) = Some (Reg c)" "int (content_size c) = n" for c
        proof (rule finish [OF rec refl that(1)])
          have "f0 (join_path [source, rel]) \<noteq> None \<longrightarrow> f0 (join_path [source, rel]) = Some (Reg c)"
            using that(2) "2.prems"(1) unfolding map_le_def by (metis domIff)
          then show "entry_in source dest f0 (f(?t \<mapsto> Reg c)) (rel, e)"
            using that(3) by (simp add: Tree_File Some entry_in_def)
        qed
        then show ?thesis
          unfolding go using hp "2.prems"(2)
          by (auto simp: Tree_File Some copy_file_def wp_exec split: sum.split option.split node.split)
      next
        case None
        then show ?thesis unfolding go by (simp add: Tree_File wp_exec "2.prems"(2) split: sum.split)
      qed
    qed (use False "2.prems"(2) in \<open>simp_all add: go wp_exec split: sum.split\<close>)
  qed
qed

section \<open>A snapshot that is visible is complete\<close>

definition snapshot_there :: "sync_env \<Rightarrow> snapshot_input \<Rightarrow> configured_folder \<Rightarrow> leaf_card \<Rightarrow> json fs \<Rightarrow> json fs \<Rightarrow> bool" where
  "snapshot_there env input folder c f0 g \<longleftrightarrow>
     (\<forall>e \<in> set (CopyWalk input). in_snapshot (FMarkerName folder) e \<longrightarrow>
        entry_in (FPath folder) (join_path [final_dir env c (FKind folder), snapshot_files_name]) f0 g e)"

definition partial_there :: "sync_env \<Rightarrow> snapshot_input \<Rightarrow> configured_folder \<Rightarrow> leaf_card \<Rightarrow> json fs \<Rightarrow> json fs \<Rightarrow> bool" where
  "partial_there env input folder c f0 g \<longleftrightarrow>
     (\<forall>e \<in> set (CopyWalk input). in_snapshot (FMarkerName folder) e \<longrightarrow>
        entry_in (FPath folder) (join_path [partial_dir env c (FKind folder), snapshot_files_name]) f0 g e)"

definition walk_ok :: "snapshot_input \<Rightarrow> bool" where
  "walk_ok input \<longleftrightarrow> (\<forall>e \<in> set (CopyWalk input). rel_ok (fst e))"

lemma files_name [simp]: "name_comp snapshot_files_name" "snapshot_manifest_name \<noteq> snapshot_files_name"
  "snapshot_header_name \<noteq> snapshot_files_name" "snapshot_header_temporary \<noteq> snapshot_files_name"
  "snapshot_header_temporary \<noteq> snapshot_header_name"
  by (simp_all add: name_comp_def snapshot_files_name_def snapshot_manifest_name_def snapshot_header_name_def
      snapshot_header_temporary_def)

text \<open>Where a snapshot is made: on a card with its paths, under a proper name, of a proper walk.\<close>

definition snapshot_site :: "sync_env \<Rightarrow> snapshot_input \<Rightarrow> configured_folder \<Rightarrow> leaf_card \<Rightarrow> bool" where
  "snapshot_site env input folder c \<longleftrightarrow> located c folder \<and> good_stamp (EnvStamp env) \<and> walk_ok input"

lemma partial_comps:
  assumes "snapshot_site env input folder c" and "name_comp n"
  shows "path_comps (join_path [partial_dir env c (FKind folder), n]) = path_comps (partial_dir env c (FKind folder)) @ [n]"
    and "join_path [partial_dir env c (FKind folder), n] \<noteq> final_header env c folder"
    and "partial_dir env c (FKind folder) \<noteq> final_header env c folder"
proof -
  have site: "located c folder" "good_stamp (EnvStamp env)" using assms(1) by (simp_all add: snapshot_site_def)
  show p: "path_comps (join_path [partial_dir env c (FKind folder), n]) = path_comps (partial_dir env c (FKind folder)) @ [n]"
    using join_name_comps(1) [OF assms(2) snapshot_dirs(5) [OF site]] .
  show "join_path [partial_dir env c (FKind folder), n] \<noteq> final_header env c folder"
    by (rule final_header_apart [OF site p])
  show "partial_dir env c (FKind folder) \<noteq> final_header env c folder"
    by (rule final_header_apart [OF site, of _ "[]"]) simp
qed

lemma copied_comps:
  assumes "snapshot_site env input folder c" and "e \<in> set (CopyWalk input)"
  shows "path_comps (join_path [join_path [partial_dir env c (FKind folder), snapshot_files_name], fst e]) =
      path_comps (partial_dir env c (FKind folder)) @ snapshot_files_name # split_on CHR ''/'' (fst e)"
    and "join_path [join_path [partial_dir env c (FKind folder), snapshot_files_name], fst e] \<noteq> final_header env c folder"
    and "name_comp n \<Longrightarrow> n \<noteq> snapshot_files_name \<Longrightarrow>
      join_path [join_path [partial_dir env c (FKind folder), snapshot_files_name], fst e] \<noteq> join_path [partial_dir env c (FKind folder), n]"
proof -
  let ?partial = "partial_dir env c (FKind folder)"
  have site: "located c folder" "good_stamp (EnvStamp env)" and rel: "rel_ok (fst e)"
    using assms by (auto simp: snapshot_site_def walk_ok_def)
  have root: "join_path [?partial, snapshot_files_name] \<noteq> ''''"
    by (rule join_name_comps(3) [OF files_name(1) snapshot_dirs(5) [OF site]])
  show p: "path_comps (join_path [join_path [?partial, snapshot_files_name], fst e]) =
      path_comps ?partial @ snapshot_files_name # split_on CHR ''/'' (fst e)"
    using rel_comps(1) [OF rel root] partial_comps(1) [OF assms(1) files_name(1)] by simp
  show "join_path [join_path [?partial, snapshot_files_name], fst e] \<noteq> final_header env c folder"
    by (rule final_header_apart [OF site p])
  show "join_path [join_path [?partial, snapshot_files_name], fst e] \<noteq> join_path [?partial, n]"
    if "name_comp n" "n \<noteq> snapshot_files_name"
    using p partial_comps(1) [OF assms(1) that(1)] that(2) by auto
qed

lemma partial_there_frame:
  assumes "snapshot_site env input folder c" and "partial_there env input folder c f0 f"
    and "\<And>q. \<forall>n. name_comp n \<longrightarrow> n \<noteq> snapshot_files_name \<longrightarrow> q \<noteq> join_path [partial_dir env c (FKind folder), n] \<Longrightarrow> g q = f q"
  shows "partial_there env input folder c f0 g"
  unfolding partial_there_def
proof (intro ballI impI)
  fix e
  assume e: "e \<in> set (CopyWalk input)" "in_snapshot (FMarkerName folder) e"
  then have "entry_in (FPath folder) (join_path [partial_dir env c (FKind folder), snapshot_files_name]) f0 f e"
    using assms(2) by (simp add: partial_there_def)
  then show "entry_in (FPath folder) (join_path [partial_dir env c (FKind folder), snapshot_files_name]) f0 g e"
    by (rule entry_in_mono) (use copied_comps(3) [OF assms(1) e(1)] in \<open>blast intro: assms(3)\<close>)
qed

lemma copy_snapshot_wp:
  assumes "snapshot_site env input folder c" and "map_le f0 f" and "f (final_header env c folder) = None"
  shows "wp True (copy_snapshot (partial_dir env c (FKind folder)) folder input)
     (\<lambda>_ g. partial_there env input folder c f0 g \<and> g (final_header env c folder) = None)
     (\<lambda>_ g. g (final_header env c folder) = None) (\<lambda>g. g (final_header env c folder) = None) f"
proof -
  let ?partial = "partial_dir env c (FKind folder)"
  let ?root = "join_path [?partial, snapshot_files_name]" and ?manifest = "join_path [?partial, snapshot_manifest_name]"
  let ?hp = "final_header env c folder"
  have apart: "?partial \<noteq> ?hp" "?root \<noteq> ?hp" "?manifest \<noteq> ?hp"
    using partial_comps(2,3) [OF assms(1) files_name(1)] partial_comps(2) [OF assms(1) first_sync_names(5)] by simp_all
  have frame: "partial_there env input folder c f0 (g(?manifest \<mapsto> node))" if "partial_there env input folder c f0 g" for g node
    by (rule partial_there_frame [OF assms(1) that]) auto
  have copy: "wp True (copy_walk (FPath folder) ?root (FMarkerName folder) [] (0, 0, 0) (CopyWalk input))
      (\<lambda>_ g. partial_there env input folder c f0 g \<and> g ?hp = None) (\<lambda>_ g. g ?hp = None) (\<lambda>g. g ?hp = None) g"
    if "map_le f0 g" "g ?hp = None" for g
    by (rule wp_mono [OF copy_walk_wp [OF that]])
      (use copied_comps(2) [OF assms(1)] assms(1) in \<open>auto simp: partial_there_def snapshot_site_def walk_ok_def\<close>)
  show ?thesis
    unfolding copy_snapshot_def Let_def
    by (auto simp: wp_exec assms(2,3) apart apart [symmetric] map_le_upd frame intro!: wp_bind_step [OF copy])
qed

lemma renamed_there:
  assumes "snapshot_site env input folder c" and "partial_there env input folder c f0 f"
  shows "snapshot_there env input folder c f0 (renamed (partial_dir env c (FKind folder)) (final_dir env c (FKind folder)) f)"
proof -
  let ?partial = "partial_dir env c (FKind folder)" and ?final = "final_dir env c (FKind folder)"
  have site: "located c folder" "good_stamp (EnvStamp env)" using assms(1) by (simp_all add: snapshot_site_def)
  have joined: "join_path [join_path [d, snapshot_files_name], rel] = d @ ''/'' @ snapshot_files_name @ ''/'' @ rel"
    if "clean d = d" "path_comps d \<noteq> []" "rel_ok rel" for d rel
  proof -
    have "d \<noteq> ''''" using that(2) by auto
    then have "clean (join_path [d, snapshot_files_name]) = join_path [d, snapshot_files_name]"
      "path_comps (join_path [d, snapshot_files_name]) \<noteq> []"
      using join_name_comps [OF files_name(1)] by simp_all
    then show ?thesis using rel_text [OF that(3)] join_name_text [OF files_name(1) that(1,2)] by simp
  qed
  have moved: "renamed ?partial ?final f (?final @ ''/'' @ x) = f (?partial @ ''/'' @ x)" for x
    by (simp add: renamed_def under_def has_prefix_def)
  have "entry_in (FPath folder) (join_path [?final, snapshot_files_name]) f0 (renamed ?partial ?final f) e"
    if "e \<in> set (CopyWalk input)" "in_snapshot (FMarkerName folder) e" for e
  proof -
    have rel: "rel_ok (fst e)" using that(1) assms(1) by (auto simp: snapshot_site_def walk_ok_def)
    have "renamed ?partial ?final f (join_path [join_path [?final, snapshot_files_name], fst e]) =
        f (join_path [join_path [?partial, snapshot_files_name], fst e])"
      using joined [OF snapshot_dirs(1) [OF site] _ rel] joined [OF snapshot_dirs(3) [OF site] _ rel]
        snapshot_dirs(2,4) [OF site] moved by simp
    moreover have "entry_in (FPath folder) (join_path [?partial, snapshot_files_name]) f0 f e"
      using that assms(2) by (simp add: partial_there_def)
    ultimately show ?thesis
      by (auto simp: entry_in_def split: prod.splits tree_entry.splits option.splits)
  qed
  then show ?thesis by (simp add: snapshot_there_def)
qed

section \<open>Promotion\<close>

text \<open>What holds of the files at any point: the final header is absent or the snapshot is complete.\<close>

definition visible_complete :: "sync_env \<Rightarrow> snapshot_input \<Rightarrow> configured_folder \<Rightarrow> leaf_card \<Rightarrow> json fs \<Rightarrow> json fs \<Rightarrow> bool" where
  "visible_complete env input folder c f0 g \<longleftrightarrow>
     g (final_header env c folder) = None \<or> snapshot_there env input folder c f0 g"

definition staged :: "sync_env \<Rightarrow> snapshot_input \<Rightarrow> configured_folder \<Rightarrow> leaf_card \<Rightarrow> json fs \<Rightarrow> json fs \<Rightarrow> bool" where
  "staged env input folder c f0 g \<longleftrightarrow>
     partial_there env input folder c f0 g \<and> g (final_header env c folder) = None"

lemma staged_visible: "staged env input folder c f0 g \<Longrightarrow> visible_complete env input folder c f0 g"
  by (simp add: staged_def visible_complete_def)

lemma staged_frame:
  assumes "snapshot_site env input folder c" and "staged env input folder c f0 f"
    and "same_except [join_path [partial_dir env c (FKind folder), snapshot_header_name],
       join_path [partial_dir env c (FKind folder), snapshot_header_temporary]] f g"
  shows "staged env input folder c f0 g"
proof -
  have "partial_there env input folder c f0 g"
  proof (rule partial_there_frame [OF assms(1)])
    show "partial_there env input folder c f0 f" using assms(2) by (simp add: staged_def)
    show "g q = f q" if "\<forall>n. name_comp n \<longrightarrow> n \<noteq> snapshot_files_name \<longrightarrow> q \<noteq> join_path [partial_dir env c (FKind folder), n]" for q
      using same_exceptD [OF assms(3)] that by simp
  qed
  moreover have "g (final_header env c folder) = f (final_header env c folder)"
    using same_exceptD [OF assms(3)] partial_comps(2) [OF assms(1)] first_sync_names(3,4) by (metis empty_iff empty_set set_ConsD)
  ultimately show ?thesis using assms(2) by (simp add: staged_def)
qed

lemma write_bounded_wp:
  "wp True (write_bounded sz p j) (\<lambda>_. same_except (p # ps) f) (\<lambda>_. same_except (p # ps) f) (same_except (p # ps) f) f"
  by (auto simp: write_bounded_def wp_exec same_except_def)

lemma promote_snapshot_wp:
  assumes "snapshot_site env input folder c" and "staged env input folder c f0 f"
  shows "wp True (promote_snapshot env folder c epoch counts)
     (\<lambda>_. visible_complete env input folder c f0) (\<lambda>_. visible_complete env input folder c f0)
     (visible_complete env input folder c f0) f"
proof -
  let ?partial = "partial_dir env c (FKind folder)" and ?final = "final_dir env c (FKind folder)"
  let ?header = "join_path [?partial, snapshot_header_name]" and ?tmp = "join_path [?partial, snapshot_header_temporary]"
  let ?v = "visible_complete env input folder c f0"
  have site: "located c folder" "good_stamp (EnvStamp env)" using assms(1) by (simp_all add: snapshot_site_def)
  have dir: "dir_name ?header = ?partial"
    by (rule dir_and_base(1) [OF first_sync_names(3) snapshot_dirs(1) [OF site]]) (simp add: snapshot_dirs(2) [OF site])
  have tmp: "?tmp \<noteq> ?header" using join_name_inj snapshot_dirs(5) [OF site] by simp
  note keep = staged_frame [OF assms(1)]
  have replace: "wp True (replace_bounded (EnvDocSize env) ?header snapshot_header_temporary j)
      (\<lambda>_. staged env input folder c f0) (\<lambda>_. ?v) ?v g" if "staged env input folder c f0 g" for g j
    by (rule wp_mono [OF replace_bounded_wp [OF dir refl tmp]]) (use keep [OF that] staged_visible in blast)+
  have pending: "wp True (write_bounded (EnvDocSize env) ?header j) (\<lambda>_. staged env input folder c f0) (\<lambda>_. ?v) ?v g"
    if "staged env input folder c f0 g" for g j
    by (rule wp_mono [OF write_bounded_wp [where ps = "[?tmp]"]]) (use keep [OF that] staged_visible in blast)+
  have promoted: "?v (renamed ?partial ?final g)" if "staged env input folder c f0 g" for g
    using renamed_there [OF assms(1)] that by (simp add: staged_def visible_complete_def)
  show ?thesis
    unfolding promote_snapshot_def Let_def
    by (auto simp: wp_exec staged_visible assms(2) promoted
        intro!: wp_bind_step [OF pending [OF assms(2)]] wp_bind_step [OF replace] split: sum.split)
qed

lemma ensure_chain_frame:
  assumes "map_le f0 f" and "f q = None" and "current \<noteq> ''''" and "\<forall>n \<in> set names. name_comp n"
    and "length (path_comps q) > length (path_comps current) + length names"
    and "\<And>g. map_le f0 g \<Longrightarrow> g q = None \<Longrightarrow> C g" and "\<And>e g. map_le f0 g \<Longrightarrow> g q = None \<Longrightarrow> E e g"
    and "\<And>g. map_le f0 g \<Longrightarrow> g q = None \<Longrightarrow> wp True (k ()) Q E C g"
  shows "wp True (io_bind (ensure_chain current names) k) Q E C f"
  using assms(1-5)
proof (induction names arbitrary: current f)
  case (Cons name names)
  let ?next = "join_path [current, name]"
  have name: "name_comp name" and rest: "\<forall>n \<in> set names. name_comp n" using Cons.prems(4) by simp_all
  note comps = join_name_comps [OF name Cons.prems(3)]
  have next_ne: "?next \<noteq> q" using comps(1) Cons.prems(5) by auto
  have deeper: "length (path_comps q) > length (path_comps ?next) + length names" using comps(1) Cons.prems(5) by simp
  have "wp True (io_bind (ensure_chain ?next names) k) Q E C g" if "map_le f0 g" "g q = None" for g
    by (rule Cons.IH [OF that comps(3) rest deeper])
  moreover have "map_le f0 (f(?next \<mapsto> Dir))" if "f ?next = None" using Cons.prems(1) that by (simp add: map_le_upd)
  ultimately show ?case
    using Cons.prems(1,2) next_ne assms(6,7) by (auto simp: Let_def wp_exec split: option.split)
qed (use assms in \<open>simp add: wp_exec\<close>)

lemma ensure_safe_chain_frame:
  assumes "f q = None" and "length (path_comps q) > length (path_comps target)"
    and "\<And>g. map_le f g \<Longrightarrow> g q = None \<Longrightarrow> C g" and "\<And>e g. map_le f g \<Longrightarrow> g q = None \<Longrightarrow> E e g"
    and "\<And>g. map_le f g \<Longrightarrow> g q = None \<Longrightarrow> wp True (k ()) Q E C g"
  shows "wp True (io_bind (ensure_safe_directory_chain base target) k) Q E C f"
proof (cases "relative_within (clean base) (clean target)")
  case (Inl e)
  then show ?thesis using assms by (simp add: ensure_safe_directory_chain_def wp_exec)
next
  case (Inr rel)
  then obtain cs where cs: "path_comps target = path_comps base @ cs" "''..'' \<notin> set cs" "rel = rel_string cs"
    by (auto simp: relative_within_iff)
  show ?thesis
  proof (cases "rel = ''.''")
    case True
    then show ?thesis using assms Inr by (simp add: ensure_safe_directory_chain_def wp_exec)
  next
    case False
    then have ne: "cs \<noteq> []" using cs(3) by (auto simp: rel_string_def)
    have "\<forall>n \<in> set cs. n = ''..'' \<or> name_comp n"
      using norm_comp_cases [OF path_comps_norm, of _ target] cs(1) by simp
    then have names: "\<forall>n \<in> set cs. name_comp n" using cs(2) by metis
    then have split: "split_on CHR ''/'' rel = cs"
      using ne cs(3) split_on_join_with [of cs "CHR ''/''"] by (simp add: rel_string_def name_comp_def)
    have chain: "wp True (io_bind (ensure_chain (clean base) cs) k) Q E C f"
      by (rule ensure_chain_frame [where f0 = f and q = q]) (use assms names cs(1) in auto)
    then show ?thesis
      using assms Inr False by (auto simp: ensure_safe_directory_chain_def wp_exec split)
  qed
qed

lemma prepare_locked_wp:
  assumes "snapshot_site env input folder c" and "f (final_header env c folder) = None"
  shows "wp True (prepare_locked env input folder c epoch)
     (\<lambda>_ g. visible_complete env input folder c f g \<and>
        (\<exists>h. header_at (final_dir env c (FKind folder)) folder c epoch g = Inr (Some h)))
     (\<lambda>_. visible_complete env input folder c f) (visible_complete env input folder c f) f"
proof -
  let ?hp = "final_header env c folder" and ?root = "first_sync_kind_root c (FKind folder)"
  let ?v = "visible_complete env input folder c f"
  have site: "located c folder" "good_stamp (EnvStamp env)" using assms(1) by (simp_all add: snapshot_site_def)
  have absent: "?v g" if "g ?hp = None" for g using that by (simp add: visible_complete_def)
  have deep: "length (path_comps ?hp) > length (path_comps ?root)"
    using join_name_comps(1) [OF first_sync_names(3)] snapshot_dirs(4,6) [OF site] by (simp add: final_header_def)
  have copy: "wp True (copy_snapshot (partial_dir env c (FKind folder)) folder input)
     (\<lambda>_. staged env input folder c f) (\<lambda>_. ?v) ?v g" if "map_le f g" "g ?hp = None" for g
    by (rule wp_mono [OF copy_snapshot_wp [OF assms(1) that]]) (simp_all add: staged_def absent)
  have validate: "wp True (io_bind (read_snapshot_header (final_dir env c (FKind folder)) folder c epoch) (\<lambda>found. case found of
        None \<Rightarrow> io_fail ''promoted snapshot did not validate''
      | Some h \<Rightarrow> io_ret (progress_from_snapshot ''ready'' h)))
     (\<lambda>_ g. ?v g \<and> (\<exists>h. header_at (final_dir env c (FKind folder)) folder c epoch g = Inr (Some h))) (\<lambda>_. ?v) ?v g"
    if "?v g" for g
    by (rule wp_read_snapshot_header) (use that in \<open>auto simp: wp_exec split: option.split\<close>)
  have rest: "wp True (io_bind (copy_snapshot (partial_dir env c (FKind folder)) folder input) (\<lambda>copied.
         if copied \<noteq> scanned
         then io_fail ''folder changed while the safety snapshot was being copied; retry after writes settle''
         else io_bind (promote_snapshot env folder c epoch copied) (\<lambda>_.
              io_bind (read_snapshot_header (final_dir env c (FKind folder)) folder c epoch) (\<lambda>found. case found of
                None \<Rightarrow> io_fail ''promoted snapshot did not validate''
              | Some h \<Rightarrow> io_ret (progress_from_snapshot ''ready'' h)))))
     (\<lambda>_ g. ?v g \<and> (\<exists>h. header_at (final_dir env c (FKind folder)) folder c epoch g = Inr (Some h))) (\<lambda>_. ?v) ?v g"
    if "map_le f g" "g ?hp = None" for g scanned
  proof (rule wp_bind_step [OF copy [OF that]])
    fix copied h
    assume h: "staged env input folder c f h"
    show "wp True (if copied \<noteq> scanned
         then io_fail ''folder changed while the safety snapshot was being copied; retry after writes settle''
         else io_bind (promote_snapshot env folder c epoch copied) (\<lambda>_.
              io_bind (read_snapshot_header (final_dir env c (FKind folder)) folder c epoch) (\<lambda>found. case found of
                None \<Rightarrow> io_fail ''promoted snapshot did not validate''
              | Some h \<Rightarrow> io_ret (progress_from_snapshot ''ready'' h))))
       (\<lambda>_ g. ?v g \<and> (\<exists>h. header_at (final_dir env c (FKind folder)) folder c epoch g = Inr (Some h))) (\<lambda>_. ?v) ?v h"
      by (cases "copied = scanned")
        (simp_all add: wp_exec staged_visible [OF h] wp_bind_step [OF promote_snapshot_wp [OF assms(1) h] validate])
  qed simp_all
  show ?thesis
    unfolding prepare_locked_def Let_def scan_snapshot_source_def
    by (auto simp: wp_exec assms(2) absent intro!: ensure_safe_chain_frame [where f = f and q = ?hp] deep rest split: sum.split)
qed

text \<open>
  C4. Preparing a snapshot under any faults, from a card where its name is free: whenever its header
  can be read as a ready snapshot of the folder afterwards, every directory and every file of the
  walk outside the marker is in the snapshot, each file with the size of the walk and with the
  content that the folder had.  When the preparation returns, the header is there.
\<close>

theorem visible_snapshot_is_complete:
  assumes "snapshot_site env input folder c" and "f (final_header env c folder) = None"
    and "boot (prepare_locked env input folder c epoch) p f = (r, g)"
  shows "((\<exists>h. header_at (final_dir env c (FKind folder)) folder c epoch g = Inr (Some h)) \<longrightarrow>
       snapshot_there env input folder c f g) \<and>
     ((\<exists>shown. r = Ok shown) \<longrightarrow> (\<exists>h. header_at (final_dir env c (FKind folder)) folder c epoch g = Inr (Some h)))"
proof -
  have absent: "g (final_header env c folder) = None \<Longrightarrow> header_at (final_dir env c (FKind folder)) folder c epoch g = Inr None"
    by (simp add: header_at_def final_header_def bounded_doc_def)
  have "case r of
      Ok _ \<Rightarrow> visible_complete env input folder c f g \<and>
        (\<exists>h. header_at (final_dir env c (FKind folder)) folder c epoch g = Inr (Some h))
    | Failed _ \<Rightarrow> visible_complete env input folder c f g
    | Died \<Rightarrow> visible_complete env input folder c f g \<and> Die \<in> set p"
    using boot_sat [OF prepare_locked_wp [where f = f, OF assms(1,2)] _ assms(3)] by simp
  then show ?thesis using absent by (cases r) (auto simp: visible_complete_def)
qed

section \<open>Witness\<close>

definition snapshot_folder :: configured_folder where
  "snapshot_folder = sample_folder\<lparr>FPath := ''/m/Saves''\<rparr>"

definition snapshot_files :: "json fs" where
  "snapshot_files = (\<lambda>p. if p \<in> {''/m'', ''/m/u'', ''/m/Saves'', ''/m/Saves/.leaf-saves-000000000000''} then Some Dir
     else if p = ''/m/Saves/a'' then Some (Reg (Junk 3)) else None)"

definition sample_input :: snapshot_input where
  "sample_input = \<lparr>ScanWalk = [(''.leaf-saves-000000000000'', Tree_Dir), (''a'', Tree_File (Some 3))],
     CopyWalk = [(''.leaf-saves-000000000000'', Tree_Dir), (''a'', Tree_File (Some 3))],
     FreeStats = Inr (2048, 4096), ManifestSize = (\<lambda>_. 7)\<rparr>"

definition short_env :: sync_env where
  "short_env = sample_env\<lparr>EnvStamp := ''s''\<rparr>"

lemma sample_preparation:
  "case fst (boot (prepare_locked short_env sample_input snapshot_folder sample_card 1) [] snapshot_files) of
     Ok _ \<Rightarrow> True | _ \<Rightarrow> False"
  by code_simp

theorem visible_snapshot_is_complete_witness:
  "\<exists>g content. snd (boot (prepare_locked short_env sample_input snapshot_folder sample_card 1) [] snapshot_files) = g \<and>
     g (join_path [join_path [final_dir short_env sample_card ''saves'', snapshot_files_name], ''a'']) = Some (Reg content) \<and>
     content_size content = 3"
proof -
  have site: "snapshot_site short_env sample_input snapshot_folder sample_card" by code_simp
  have free: "snapshot_files (final_header short_env sample_card snapshot_folder) = None" by code_simp
  obtain r g where b: "boot (prepare_locked short_env sample_input snapshot_folder sample_card 1) [] snapshot_files = (r, g)"
    by fastforce
  have "\<exists>shown. r = Ok shown" using sample_preparation b by (auto split: outcome.splits)
  with visible_snapshot_is_complete [OF site free b] have "snapshot_there short_env sample_input snapshot_folder sample_card snapshot_files g"
    by blast
  moreover have "in_snapshot (FMarkerName snapshot_folder) (''a'', Tree_File (Some 3))" by code_simp
  ultimately show ?thesis
    using b by (auto simp: snapshot_there_def sample_input_def entry_in_def snapshot_folder_def sample_folder_def)
qed

end
