(* ===== verification/Managed_Folders.thy ===== *)
theory Managed_Folders
  imports Pause_Edit Device_Ids
begin

text \<open>
  \<open>syncthing/folders.go\<close>: the folders that the controller finds in the configuration of Syncthing,
  by the legacy rule (ids that look like \<open>leaf-saves-...\<close>) or by the bindings it has registered.
  The XML trees are those of the offline edits.
\<close>

section \<open>The folder elements\<close>

text \<open>A string attribute sets its field when it is there, the last one wins.\<close>

definition attribute_or :: "(xml_name \<times> string) list \<Rightarrow> string \<Rightarrow> string \<Rightarrow> string" where
  "attribute_or attrs name old = (case find (\<lambda>(n, v). local_name n = name) (rev attrs) of
     None \<Rightarrow> old | Some (n, v) \<Rightarrow> v)"

fun versioning_children :: "xml_tree list \<Rightarrow> configured_folder \<Rightarrow> configured_folder" where
  "versioning_children [] f = f"
| "versioning_children (t # ts) f = (case t of
     Text _ \<Rightarrow> versioning_children ts f
   | Elem n _ cs \<Rightarrow>
       versioning_children ts
         (if local_name n = ''fsPath'' then f\<lparr>FVersioningFSPath := own_text cs\<rparr>
          else if local_name n = ''fsType'' then f\<lparr>FVersioningFSType := own_text cs\<rparr> else f))"

text \<open>
  The children of a \<open>folder\<close> element.  A device is its \<open>id\<close> attribute; the pause flag is kept
  as it stands when there is none.
\<close>

fun folder_children :: "xml_tree list \<Rightarrow> configured_folder \<Rightarrow> error + configured_folder" where
  "folder_children [] f = Inr f"
| "folder_children (t # ts) f = (case t of
     Text _ \<Rightarrow> folder_children ts f
   | Elem n a cs \<Rightarrow>
       if local_name n = ''paused'' then
         (case parse_bool (own_text cs) of None \<Rightarrow> Inl ''invalid bool'' | Some b \<Rightarrow> folder_children ts (f\<lparr>FPaused := b\<rparr>))
       else if local_name n = ''markerName'' then folder_children ts (f\<lparr>FMarkerName := own_text cs\<rparr>)
       else if local_name n = ''versioning'' then
         folder_children ts (versioning_children cs (f\<lparr>FVersioningType := attribute_or a ''type'' (FVersioningType f)\<rparr>))
       else if local_name n = ''device'' then folder_children ts (f\<lparr>FDevices := FDevices f @ [attribute_or a ''id'' '''']\<rparr>)
       else folder_children ts f)"

definition blank_folder :: configured_folder where
  "blank_folder = \<lparr>FID = '''', FLabel = '''', FKind = '''', FPath = '''', FType = '''', FMarkerName = '''', FPaused = False,
     FVersioningType = '''', FVersioningFSPath = '''', FVersioningFSType = '''', FDevices = []\<rparr>"

definition raw_folder :: "(xml_name \<times> string) list \<Rightarrow> xml_tree list \<Rightarrow> error + configured_folder" where
  "raw_folder a cs = folder_children cs (blank_folder\<lparr>FID := attribute_or a ''id'' '''', FLabel := attribute_or a ''label'' '''',
     FPath := attribute_or a ''path'' '''', FType := attribute_or a ''type'' ''''\<rparr>)"

fun raw_folders :: "xml_tree list \<Rightarrow> error + configured_folder list" where
  "raw_folders [] = Inr []"
| "raw_folders (t # ts) = (case t of
     Text _ \<Rightarrow> raw_folders ts
   | Elem n a cs \<Rightarrow>
       if local_name n = ''folder'' then
         sum_bind (raw_folder a cs) (\<lambda>f. sum_bind (raw_folders ts) (\<lambda>fs. Inr (f # fs)))
       else raw_folders ts)"

definition document_folders :: "xml_doc \<Rightarrow> error + configured_folder list" where
  "document_folders d = (case build_tree [] [] d of
     None \<Rightarrow> Inl ''XML syntax error''
   | Some forest \<Rightarrow> (case filter (\<lambda>t. case t of Elem _ _ _ \<Rightarrow> True | Text _ \<Rightarrow> False) forest of
       Elem n _ cs # _ \<Rightarrow>
         if local_name n \<noteq> ''configuration'' then Inl ''expected element type configuration'' else raw_folders cs
     | _ \<Rightarrow> Inl ''EOF''))"

section \<open>Selecting the managed folders\<close>

definition max_managed_folders :: nat where "max_managed_folders = 16"

text \<open>The kind of a folder that is managed, \<open>None\<close> for a folder that is passed over.\<close>

definition managed_kind :: "(string \<times> string) list option \<Rightarrow> string \<Rightarrow> error + string option" where
  "managed_kind bindings i = (case bindings of
     Some bs \<Rightarrow> Inr (map_of bs i)
   | None \<Rightarrow>
       if \<not> has_prefix i ''leaf-saves-'' \<and> \<not> has_prefix i ''leaf-states-'' then Inr None
       else (case legacy_managed_kind i of None \<Rightarrow> Inl ''invalid Leaf folder'' | Some k \<Rightarrow> Inr (Some k)))"

fun check_devices :: "string list \<Rightarrow> string list \<Rightarrow> bool" where
  "check_devices seen [] = True"
| "check_devices seen (d # ds) = (if d = '''' \<or> d \<in> set seen then False else check_devices (d # seen) ds)"

definition managed_folder :: "string \<Rightarrow> configured_folder \<Rightarrow> configured_folder" where
  "managed_folder kind f = f\<lparr>FKind := kind, FType := (if FType f = '''' then ''sendreceive'' else FType f),
     FMarkerName := (if FMarkerName f = '''' then ''.stfolder'' else FMarkerName f)\<rparr>"

fun select_folders :: "(string \<times> string) list option \<Rightarrow> configured_folder list \<Rightarrow> configured_folder list \<Rightarrow>
    error + configured_folder list" where
  "select_folders bindings selected [] = Inr selected"
| "select_folders bindings selected (f # fs) = sum_bind (managed_kind bindings (FID f)) (\<lambda>managed. case managed of
     None \<Rightarrow> select_folders bindings selected fs
   | Some kind \<Rightarrow>
       if \<not> valid_folder_id (FID f) \<or> FID f \<in> set (map FID selected) \<or> trim_space (FPath f) = ''''
       then Inl ''invalid or duplicate Leaf folder''
       else if \<not> check_devices [] (FDevices f) then Inl ''invalid or duplicate device''
       else if length selected + 1 > max_managed_folders then Inl ''too many Leaf folders''
       else select_folders bindings (selected @ [managed_folder kind f]) fs)"

definition managed_folders_in :: "(string \<times> string) list option \<Rightarrow> bool \<Rightarrow> xml_doc \<Rightarrow> error + configured_folder list" where
  "managed_folders_in bindings require_all d =
     sum_bind (document_folders d) (\<lambda>raws. sum_bind (select_folders bindings [] raws) (\<lambda>fs.
       case bindings of
         Some bs \<Rightarrow> if require_all \<and> \<not> fst ` set bs \<subseteq> set (map FID fs)
                    then Inl ''registered folder is missing from upstream config'' else Inr fs
       | None \<Rightarrow> Inr fs))"

text \<open>The reading of the file.\<close>

definition read_managed :: "string \<Rightarrow> (string \<times> string) list option \<Rightarrow> bool \<Rightarrow> (xml_doc, configured_folder list) io" where
  "read_managed dir bindings require_all =
     io_bind (read_safe_config (config_path dir)) (\<lambda>contents. case contents of
       Junk _ \<Rightarrow> io_fail ''read managed folders'' | Doc d _ \<Rightarrow> io_lift (managed_folders_in bindings require_all d))"

definition read_managed_folders :: "string \<Rightarrow> (xml_doc, configured_folder list) io" where
  "read_managed_folders dir = read_managed dir None False"

definition read_managed_folders_for_bindings :: "string \<Rightarrow> (string \<times> string) list \<Rightarrow> bool \<Rightarrow> (xml_doc, configured_folder list) io" where
  "read_managed_folders_for_bindings dir bindings require_all =
     (if length bindings > max_managed_folders then io_fail ''too many registered bindings''
      else if \<exists>(i, k) \<in> set bindings. \<not> valid_folder_id i \<or> (k \<noteq> ''saves'' \<and> k \<noteq> ''states'')
      then io_fail ''invalid registered binding''
      else read_managed dir (Some bindings) require_all)"

definition read_available_managed_folders :: "string \<Rightarrow> (string \<times> string) list \<Rightarrow> (xml_doc, configured_folder list) io" where
  "read_available_managed_folders dir bindings = read_managed_folders_for_bindings dir bindings False"

section \<open>What is selected\<close>

lemma check_devices_distinct: "check_devices seen ds \<longleftrightarrow> distinct ds \<and> '''' \<notin> set ds \<and> set seen \<inter> set ds = {}"
  by (induction ds arbitrary: seen) auto

definition sound_managed :: "(string \<times> string) list option \<Rightarrow> configured_folder \<Rightarrow> bool" where
  "sound_managed bindings f \<longleftrightarrow>
     valid_folder_id (FID f) \<and> managed_kind bindings (FID f) = Inr (Some (FKind f)) \<and> trim_space (FPath f) \<noteq> '''' \<and>
     FType f \<noteq> '''' \<and> FMarkerName f \<noteq> '''' \<and> distinct (FDevices f) \<and> '''' \<notin> set (FDevices f)"

lemma select_folders_sound:
  "select_folders bindings selected raws = Inr fs \<Longrightarrow> length selected \<le> max_managed_folders \<Longrightarrow>
   distinct (map FID selected) \<Longrightarrow> \<forall>f \<in> set selected. sound_managed bindings f \<Longrightarrow>
   length fs \<le> max_managed_folders \<and> distinct (map FID fs) \<and> (\<forall>f \<in> set fs. sound_managed bindings f) \<and>
   set (map FID fs) = set (map FID selected) \<union> {i \<in> FID ` set raws. \<exists>k. managed_kind bindings i = Inr (Some k)}"
proof (induction raws arbitrary: selected)
  case (Cons f raws)
  obtain managed where m: "managed_kind bindings (FID f) = Inr managed"
    using Cons.prems(1) by (auto simp: sum_bind_Inr)
  show ?case
  proof (cases managed)
    case None
    then have "select_folders bindings selected raws = Inr fs" using Cons.prems(1) m by simp
    from Cons.IH [OF this Cons.prems(2-4)] m None show ?thesis by auto
  next
    case (Some kind)
    then have ok: "valid_folder_id (FID f)" "FID f \<notin> set (map FID selected)" "trim_space (FPath f) \<noteq> ''''"
      "check_devices [] (FDevices f)" "length selected + 1 \<le> max_managed_folders"
      and rest: "select_folders bindings (selected @ [managed_folder kind f]) raws = Inr fs"
      using Cons.prems(1) m by (auto split: if_splits)
    have "sound_managed bindings (managed_folder kind f)"
      using ok m Some by (auto simp: sound_managed_def managed_folder_def check_devices_distinct)
    moreover have "FID (managed_folder kind f) = FID f" by (simp add: managed_folder_def)
    ultimately show ?thesis
      using Cons.IH [OF rest] ok Cons.prems(2-4) m Some by auto
  qed
qed simp

text \<open>
  The folders that are read by the registered bindings: at most sixteen, each registered once
  with its kind, with a valid id, a path, a type, a marker and distinct devices; and when all of
  the bindings are required, exactly the registered folders.
\<close>

theorem managed_folders_bounded:
  assumes "managed_folders_in (Some bindings) require_all d = Inr fs"
  shows "length fs \<le> 16 \<and> distinct (map FID fs) \<and>
    (\<forall>f \<in> set fs. valid_folder_id (FID f) \<and> map_of bindings (FID f) = Some (FKind f) \<and> trim_space (FPath f) \<noteq> '''' \<and>
       FType f \<noteq> '''' \<and> FMarkerName f \<noteq> '''' \<and> distinct (FDevices f) \<and> '''' \<notin> set (FDevices f)) \<and>
    (require_all \<longrightarrow> FID ` set fs = fst ` set bindings)"
proof -
  obtain raws where raws: "document_folders d = Inr raws" and sel: "select_folders (Some bindings) [] raws = Inr fs"
    and all: "require_all \<longrightarrow> fst ` set bindings \<subseteq> set (map FID fs)"
    using assms by (auto simp: managed_folders_in_def sum_bind_Inr split: if_splits)
  have sound: "length fs \<le> max_managed_folders" "distinct (map FID fs)" "\<forall>f \<in> set fs. sound_managed (Some bindings) f"
    using select_folders_sound [OF sel] by simp_all
  then have kinds: "\<forall>f \<in> set fs. map_of bindings (FID f) = Some (FKind f)" by (simp add: sound_managed_def managed_kind_def)
  then have "FID ` set fs \<subseteq> fst ` set bindings" by (force dest: map_of_SomeD)
  then show ?thesis using sound kinds all by (auto simp: max_managed_folders_def sound_managed_def)
qed

theorem managed_folders_bounded_witness:
  "\<exists>fs. managed_folders_in (Some [(''a'', ''saves'')]) True
       (element ''configuration'' [] (element ''folder'' [(('''', ''id''), ''a''), (('''', ''path''), ''/x'')]
          (element ''device'' [(('''', ''id''), ''D'')] []))) = Inr fs \<and> FID ` set fs = {''a''}"
proof -
  have "case managed_folders_in (Some [(''a'', ''saves'')]) True
       (element ''configuration'' [] (element ''folder'' [(('''', ''id''), ''a''), (('''', ''path''), ''/x'')]
          (element ''device'' [(('''', ''id''), ''D'')] []))) of Inr _ \<Rightarrow> True | Inl _ \<Rightarrow> False"
    by code_simp
  then obtain fs where fs: "managed_folders_in (Some [(''a'', ''saves'')]) True
       (element ''configuration'' [] (element ''folder'' [(('''', ''id''), ''a''), (('''', ''path''), ''/x'')]
          (element ''device'' [(('''', ''id''), ''D'')] []))) = Inr fs"
    by (auto split: sum.splits)
  from managed_folders_bounded [OF this] fs show ?thesis by auto
qed

end
