(* ===== verification/Controller_Config.thy ===== *)
theory Controller_Config
  imports Leaf_Sources Life_Client Card_Tree
begin

text \<open>
  The configuration of the controller (\<open>controller/bootstrap.go\<close>): \<open>LoadConfig\<close>, its validation,
  the directories and the lock of the controller, and the loop that waits for the lifecycle
  service.  The answer of \<open>flock\<close> and the results of dialing are arguments.
\<close>

section \<open>The configuration\<close>

record controller_config =
  CfgRuntimeDir :: string
  CfgUserdataPath :: string
  CfgLogsPath :: string
  CfgConfigDir :: string
  CfgDataDir :: string
  CfgUpstreamBinary :: string
  CfgUpstreamVersion :: string
  CfgGUISocket :: string
  CfgControlSocket :: string
  CfgDaemonSocket :: string
  CfgSources :: source_list
  CfgMode :: mode
  CfgAckMS :: int
  CfgWaitMS :: int
  CfgCheckBeforeStop :: bool
  CfgRetryDelay :: int

definition service_id :: string where "service_id = ''org.umrk.syncthing''"
definition service_dir_name :: string where "service_dir_name = ''org.umrk.syncthing''"
definition controller_lock_name :: string where "controller_lock_name = ''controller.lock''"
definition default_retry :: int where "default_retry = 1000000000"
definition pinned_upstream_version :: string where "pinned_upstream_version = ''v2.1.3''"
definition game_check_ack_ms :: int where "game_check_ack_ms = 1000"
definition default_check_wait_ms :: int where "default_check_wait_ms = 15000"

text \<open>\<open>ResolveSocket\<close>: a variable that is not set reads as the empty string.\<close>

definition resolve_socket :: "getenv \<Rightarrow> string \<Rightarrow> error + string" where
  "resolve_socket getenv runtime = (case env_set getenv ''UMRK_DAEMON_SOCKET'' of
     Some explicit \<Rightarrow> Inr (clean explicit)
   | None \<Rightarrow> (case env_set getenv ''JAWAKA_SOCKET_PATH'' of
       Some compatibility \<Rightarrow> Inr (clean compatibility)
     | None \<Rightarrow> if runtime = '''' then Inl ''UMRK_RUNTIME_PATH is empty''
               else Inr (join_path [clean runtime, ''jawakad.sock''])))"

definition load_controller_config :: "string \<Rightarrow> getenv \<Rightarrow> error + string \<Rightarrow> error + controller_config" where
  "load_controller_config tmp_dir getenv executable =
     sum_bind (load_environment tmp_dir getenv) (\<lambda>env.
     if \<not> SourcePathsV2 env then Inl ''source-paths-v2 with aligned USERDATA_PATHS is required''
     else sum_bind (resolve_socket getenv (RuntimePath env)) (\<lambda>socket.
     sum_bind executable (\<lambda>exe.
       let service = (\<lambda>names. join_path ([RuntimePath env, ''services'', service_dir_name] @ names))
       in Inr
         \<lparr>CfgRuntimeDir = service [], CfgUserdataPath = EnvUserdataPath env, CfgLogsPath = LogsPath env,
          CfgConfigDir = join_path [state_dir env, ''config''], CfgDataDir = join_path [state_dir env, ''data''],
          CfgUpstreamBinary = join_path [dir_name exe, ''syncthing''], CfgUpstreamVersion = pinned_upstream_version,
          CfgGUISocket = service [''syncthing-gui.sock''], CfgControlSocket = service [''control.sock''],
          CfgDaemonSocket = socket, CfgSources = Sources env, CfgMode = Stop_Mode,
          CfgAckMS = game_check_ack_ms, CfgWaitMS = default_check_wait_ms, CfgCheckBeforeStop = True,
          CfgRetryDelay = default_retry\<rparr>)))"

fun check_config_sources :: "source list \<Rightarrow> error + unit" where
  "check_config_sources [] = Inr ()"
| "check_config_sources (s # ss) =
     (if ID s = '''' \<or> Root s = '''' \<or> UserdataPath s = ''''
      then Inl ''every PATH-2 source requires id, root, and userdata''
      else sum_bind (relative_within (Root s) (UserdataPath s)) (\<lambda>_. check_config_sources ss))"

definition validate_controller_config :: "controller_config \<Rightarrow> error + unit" where
  "validate_controller_config c =
     (if '''' \<in> set [CfgRuntimeDir c, CfgUserdataPath c, CfgLogsPath c, CfgConfigDir c, CfgDataDir c,
           CfgUpstreamBinary c, CfgUpstreamVersion c, CfgGUISocket c, CfgControlSocket c, CfgDaemonSocket c] \<or>
         CfgSources c = []
      then Inl ''runtime, userdata, config, data, upstream, and daemon values are required''
      else sum_bind (check_config_sources (CfgSources c)) (\<lambda>_.
        if CfgMode c \<noteq> Notify \<and> CfgMode c \<noteq> Stop_Mode then Inl ''unsupported game mode''
        else if CfgCheckBeforeStop c \<and> CfgMode c \<noteq> Stop_Mode then Inl ''check-before-stop requires stop mode''
        else if CfgAckMS c < 0 \<or> CfgWaitMS c < 0 \<or> CfgRetryDelay c < 0
        then Inl ''lifecycle timings must be non-negative''
        else Inr ()))"

section \<open>Directories and the lock\<close>

definition ensure_owned_directory :: "string \<Rightarrow> ('d, unit) io" where
  "ensure_owned_directory p = io_bind (lstat p) (\<lambda>info. case info of
     Some Dir \<Rightarrow> io_ret ()
   | Some _ \<Rightarrow> io_fail ''validate owned directory: not a real directory''
   | None \<Rightarrow> make_dir p)"

fun ensure_owned_directories :: "string \<Rightarrow> string list \<Rightarrow> ('d, unit) io" where
  "ensure_owned_directories root [] = io_ret ()"
| "ensure_owned_directories root (n # ns) =
     io_bind (ensure_owned_directory (join_path [root, n])) (\<lambda>_. ensure_owned_directories root ns)"

definition prepare_durable_directories :: "string \<Rightarrow> ('d, unit) io" where
  "prepare_durable_directories userdata =
     (let root = join_path [userdata, app_state_name] in
      io_bind (lstat userdata) (\<lambda>info.
      if info \<noteq> Some Dir then io_fail ''validate USERDATA_PATH before creating state''
      else
        io_bind (ensure_owned_directory root) (\<lambda>_.
        io_bind (ensure_owned_directories root [''data'', ''leaf'', ''backups'']) (\<lambda>_.
        io_bind (lstat (join_path [root, ''config''])) (\<lambda>config.
        if config = None \<or> config = Some Dir then io_ret ()
        else io_fail ''validate owned directory: not a real directory'')))))"

text \<open>
  Opening the lock file creates it when it is missing (what a link in its place leads to is not
  modelled).  \<open>flock\<close> is the answer of the call: the lock is taken, it is held by another
  process, or an error.
\<close>

datatype flock_answer = Lock_Taken | Lock_Held | Lock_Error error

definition open_or_create :: "string \<Rightarrow> ('d, unit) io" where
  "open_or_create p = sys (\<lambda>f. case f p of
     None \<Rightarrow> (Ok (), f(p \<mapsto> Reg (Junk 0)))
   | Some n \<Rightarrow> if n = Dir then (Failed ''is a directory'', f) else (Ok (), f))"

definition acquire_controller_lock :: "flock_answer \<Rightarrow> string \<Rightarrow> ('d, unit) io" where
  "acquire_controller_lock flock dir = io_bind (lstat dir) (\<lambda>info.
     if info \<noteq> Some Dir then io_fail ''validate service runtime directory''
     else io_bind (open_or_create (join_path [dir, controller_lock_name])) (\<lambda>_. case flock of
       Lock_Taken \<Rightarrow> io_ret ()
     | Lock_Held \<Rightarrow> io_fail ''controller is already running''
     | Lock_Error e \<Rightarrow> io_fail ''lock controller singleton''))"

section \<open>The lifecycle service\<close>

text \<open>
  \<open>establishLifecycle\<close>: each attempt is the two request ids and what dialing gave; while the
  service is unavailable the next attempt follows, and the list ends where the context is
  cancelled.
\<close>

type_synonym lifecycle_attempt = "string \<times> string \<times> (chunk list \<times> answers) option"

definition lifecycle_config :: "controller_config \<Rightarrow> config" where
  "lifecycle_config c = \<lparr>SocketPath = CfgDaemonSocket c, ServiceID = service_id, Mode = CfgMode c,
     AckMS = CfgAckMS c, WaitMS = CfgWaitMS c, CheckBeforeStop = CfgCheckBeforeStop c, Timeout = 0\<rparr>"

fun establish_lifecycle :: "(string \<Rightarrow> json option) \<Rightarrow> (json \<Rightarrow> string) \<Rightarrow> controller_config \<Rightarrow> lifecycle_attempt list \<Rightarrow>
    error + subscription \<times> game_state" where
  "establish_lifecycle parse marshal c [] = Inl ''context canceled''"
| "establish_lifecycle parse marshal c ((id1, id2, dialed) # attempts) =
     (case connect parse marshal (lifecycle_config c) id1 id2 dialed of
        Inr s \<Rightarrow> Inr s
      | Inl e \<Rightarrow> if e = Unavailable then establish_lifecycle parse marshal c attempts
                 else Inl ''establish LIFE-1 subscription'')"

section \<open>A loaded configuration is valid\<close>

lemma env_value_not_empty: "d \<noteq> '''' \<Longrightarrow> env_value getenv n d \<noteq> ''''"
  by (simp add: env_value_def env_set_def split: option.split)

lemma parse_path_list_not_empty: "parse_path_list raw = Inr rs \<Longrightarrow> '''' \<notin> set rs"
  using parse_path_list_spec(1) [of raw rs] clean_not_empty by (metis (no_types, lifting) imageE list.set_map)

lemma join_path_some: "\<exists>x \<in> set xs. x \<noteq> '''' \<Longrightarrow> join_path xs \<noteq> ''''"
  by (induction xs) (auto simp: join_path_def)

lemma resolve_root_list_not_empty:
  assumes "resolve_root_list getenv primary secondary = Inr rs" and "primary \<noteq> ''''"
  shows "'''' \<notin> set rs"
  using assms parse_path_list_not_empty
  by (fastforce simp: resolve_root_list_def sum_bind_Inr split: option.splits if_splits)

lemma resolve_sources_named:
  assumes "resolve_sources getenv roots secondary = Inr (ss, True)" and "'''' \<notin> set roots" and "s \<in> set ss"
  shows "ID s \<noteq> '''' \<and> Root s \<noteq> '''' \<and> UserdataPath s \<noteq> ''''"
proof -
  from assms(1) obtain resolved users shareds where
    v2: "resolve_source_paths_v2 getenv roots (resolved ! 5) (resolved ! 6) = Inr (users, shareds, True)"
    and ss: "ss = map (make_source roots secondary resolved users shareds) [0 ..< length roots]"
    by (auto simp: resolve_sources_def sum_bind_Inr)
  obtain i where i: "i < length roots" "s = make_source roots secondary resolved users shareds i"
    using assms(3) ss by auto
  have users: "required_aligned_paths getenv ''USERDATA_PATHS'' ''USERDATA_PATH'' (length roots) = Inr users"
    using v2 by (auto simp: resolve_source_paths_v2_def sum_bind_Inr split: if_splits)
  have "'''' \<notin> set users"
    using users parse_path_list_not_empty
    by (fastforce simp: required_aligned_paths_def Let_def split: option.splits if_splits)
  moreover have "length users = length roots" by (rule required_aligned_length [OF users])
  ultimately show ?thesis using i assms(2)
    by (auto simp: make_source_def value_at_def source_id_def in_set_conv_nth)
qed

lemma check_config_sources_ok:
  "\<forall>s \<in> set ss. ID s \<noteq> '''' \<and> Root s \<noteq> '''' \<and> UserdataPath s \<noteq> '''' \<and> below (Root s) (UserdataPath s) \<Longrightarrow>
   check_config_sources ss = Inr ()"
proof (induction ss)
  case (Cons s ss)
  then obtain rel where "relative_within (Root s) (UserdataPath s) = Inr rel"
    using relative_within_below by fastforce
  with Cons show ?case by simp
qed simp

text \<open>What a loaded environment gives.\<close>

lemma load_environment_facts:
  assumes "load_environment tmp_dir getenv = Inr e" and "SourcePathsV2 e"
  shows "EnvUserdataPath e \<noteq> '''' \<and> LogsPath e \<noteq> '''' \<and> RuntimePath e \<noteq> '''' \<and> Sources e \<noteq> [] \<and>
    (\<forall>s \<in> set (Sources e). ID s \<noteq> '''' \<and> Root s \<noteq> '''' \<and> UserdataPath s \<noteq> '''' \<and> below (Root s) (UserdataPath s))"
proof -
  have primary: "clean_path (env_value getenv ''SDCARD_PATH'' default_primary_root) \<noteq> ''''"
    by (simp add: clean_path_not_empty env_value_not_empty default_primary_root_def)
  obtain roots secondary where
    roots: "resolve_root_list getenv (clean_path (env_value getenv ''SDCARD_PATH'' default_primary_root)) secondary = Inr roots"
    and ss: "resolve_sources getenv roots secondary = Inr (Sources e, True)"
    using assms by (auto simp: load_environment_def Let_def sum_bind_Inr split: if_splits)
  have e: "EnvUserdataPath e \<noteq> ''''" "LogsPath e \<noteq> ''''" "RuntimePath e \<noteq> ''''"
    using assms(1) by (auto simp: load_environment_def Let_def sum_bind_Inr clean_path_not_empty env_value_not_empty
        join_path_some split: if_splits)
  have "'''' \<notin> set roots" by (rule resolve_root_list_not_empty [OF roots primary])
  moreover have "Sources e \<noteq> []"
    using resolve_sources_shape(1) [OF ss] resolve_root_list_spec [OF roots] by auto
  ultimately show ?thesis using e resolve_sources_named [OF ss] resolve_sources_below [OF ss] by simp
qed


lemma resolve_socket_not_empty: "resolve_socket getenv runtime = Inr s \<Longrightarrow> s \<noteq> ''''"
  by (auto simp: resolve_socket_def join_path_some split: option.splits if_splits)

text \<open>The directories of a loaded configuration.\<close>

definition own_directories :: "controller_config \<Rightarrow> bool" where
  "own_directories c \<longleftrightarrow> CfgUserdataPath c \<noteq> '''' \<and> (\<forall>s \<in> set (CfgSources c). UserdataPath s \<noteq> '''') \<and>
     CfgConfigDir c = join_path [join_path [CfgUserdataPath c, app_state_name], ''config''] \<and>
     CfgDataDir c = join_path [join_path [CfgUserdataPath c, app_state_name], ''data'']"

lemma load_config_own:
  assumes "load_controller_config tmp_dir getenv executable = Inr c"
  shows "own_directories c"
proof -
  obtain e where env: "load_environment tmp_dir getenv = Inr e" "SourcePathsV2 e"
    using assms by (auto simp: load_controller_config_def sum_bind_Inr split: if_splits)
  with assms load_environment_facts [OF env] show ?thesis
    by (auto simp: load_controller_config_def sum_bind_Inr Let_def own_directories_def state_dir_def)
qed

text \<open>
  C37. A configuration that loads from the environment always passes the validation that bootstrap
  makes of it, asks for stop mode, and keeps the configuration and the data of Syncthing in
  directories of their own below the user data path.
\<close>

theorem loaded_config_valid:
  assumes "load_controller_config tmp_dir getenv executable = Inr c"
  shows "validate_controller_config c = Inr () \<and> CfgMode c = Stop_Mode \<and>
    CfgConfigDir c = join_path [join_path [CfgUserdataPath c, app_state_name], ''config''] \<and>
    CfgDataDir c = join_path [join_path [CfgUserdataPath c, app_state_name], ''data'']"
proof -
  obtain e where env: "load_environment tmp_dir getenv = Inr e" "SourcePathsV2 e"
    using assms by (auto simp: load_controller_config_def sum_bind_Inr split: if_splits)
  note facts = load_environment_facts [OF env]
  have sources: "check_config_sources (Sources e) = Inr ()"
    by (rule check_config_sources_ok) (use facts in simp)
  obtain socket exe where socket: "resolve_socket getenv (RuntimePath e) = Inr socket" and exe: "executable = Inr exe"
    using assms env by (auto simp: load_controller_config_def sum_bind_Inr)
  have c: "c = \<lparr>CfgRuntimeDir = join_path [RuntimePath e, ''services'', service_dir_name],
      CfgUserdataPath = EnvUserdataPath e, CfgLogsPath = LogsPath e,
      CfgConfigDir = join_path [state_dir e, ''config''], CfgDataDir = join_path [state_dir e, ''data''],
      CfgUpstreamBinary = join_path [dir_name exe, ''syncthing''], CfgUpstreamVersion = pinned_upstream_version,
      CfgGUISocket = join_path [RuntimePath e, ''services'', service_dir_name, ''syncthing-gui.sock''],
      CfgControlSocket = join_path [RuntimePath e, ''services'', service_dir_name, ''control.sock''],
      CfgDaemonSocket = socket, CfgSources = Sources e, CfgMode = Stop_Mode, CfgAckMS = game_check_ack_ms,
      CfgWaitMS = default_check_wait_ms, CfgCheckBeforeStop = True, CfgRetryDelay = default_retry\<rparr>"
    using assms env socket exe by (simp add: load_controller_config_def Let_def)
  have names: "join_path [RuntimePath e, ''services'', service_dir_name] \<noteq> ''''"
    "join_path [state_dir e, ''config''] \<noteq> ''''" "join_path [state_dir e, ''data''] \<noteq> ''''"
    "join_path [dir_name exe, ''syncthing''] \<noteq> ''''"
    "join_path [RuntimePath e, ''services'', service_dir_name, ''syncthing-gui.sock''] \<noteq> ''''"
    "join_path [RuntimePath e, ''services'', service_dir_name, ''control.sock''] \<noteq> ''''"
    by (rule join_path_some, simp)+
  show ?thesis
    unfolding validate_controller_config_def c
    using facts sources resolve_socket_not_empty [OF socket] names
    by (auto simp: state_dir_def pinned_upstream_version_def game_check_ack_ms_def default_check_wait_ms_def default_retry_def)
qed

definition sample_config :: controller_config where
  "sample_config = (case load_controller_config ''/tmp'' sample_env_v2 (Inr ''/opt/leaf/leaf-syncthing'') of
     Inr c \<Rightarrow> c | Inl _ \<Rightarrow> undefined)"

theorem loaded_config_valid_witness:
  "validate_controller_config sample_config = Inr () \<and> CfgDataDir sample_config = ''/a/u/Syncthing/data'' \<and>
   length (CfgSources sample_config) = 2"
proof -
  have "case load_controller_config ''/tmp'' sample_env_v2 (Inr ''/opt/leaf/leaf-syncthing'') of Inl _ \<Rightarrow> False
      | Inr c \<Rightarrow> CfgDataDir c = ''/a/u/Syncthing/data'' \<and> length (CfgSources c) = 2"
    by code_simp
  then have "load_controller_config ''/tmp'' sample_env_v2 (Inr ''/opt/leaf/leaf-syncthing'') = Inr sample_config"
    "CfgDataDir sample_config = ''/a/u/Syncthing/data''" "length (CfgSources sample_config) = 2"
    by (auto simp: sample_config_def split: sum.splits)
  then show ?thesis using loaded_config_valid by blast
qed

end
