(* ===== verification/Frames.thy ===== *)
theory Frames
  imports Card_Tree
begin

text \<open>
  Invariants of programs that touch files: \<open>keeps I m\<close> says that under any faults \<open>m\<close> leaves
  \<open>I\<close> true, whether it returns, fails or dies on the way.  The rules compose along a program, so
  that a frame (which paths a program can change) is checked by one introduction step.
\<close>

definition keeps :: "('d fs \<Rightarrow> bool) \<Rightarrow> ('d, 'a) io \<Rightarrow> bool" where
  "keeps I m \<longleftrightarrow> (\<forall>b f. I f \<longrightarrow> wp b m (\<lambda>_. I) (\<lambda>_. I) I f)"

text \<open>A path that may hold anything without breaking the invariant.\<close>

definition free_path :: "('d fs \<Rightarrow> bool) \<Rightarrow> string \<Rightarrow> bool" where
  "free_path I p \<longleftrightarrow> (\<forall>f x. I f \<longrightarrow> I (f(p := x)))"

named_theorems keeps_intro "rules that check an invariant along a program"

lemma keepsD: "keeps I m \<Longrightarrow> I f \<Longrightarrow> wp b m (\<lambda>_. I) (\<lambda>_. I) I f"
  by (simp add: keeps_def)

lemma free_pathD: "free_path I p \<Longrightarrow> I f \<Longrightarrow> I (f(p := x))"
  by (simp add: free_path_def)

lemma keeps_bind [keeps_intro]:
  assumes "keeps I m" and "\<And>x. keeps I (k x)"
  shows "keeps I (io_bind m k)"
  unfolding keeps_def
proof (intro allI impI wp_bindI)
  fix b f assume "I f"
  show "wp b m (\<lambda>x. wp b (k x) (\<lambda>_. I) (\<lambda>_. I) I) (\<lambda>_. I) I f"
    by (rule wp_mono [OF keepsD [OF assms(1) \<open>I f\<close>]]) (auto intro: keepsD [OF assms(2)])
qed

lemma keeps_ret [keeps_intro]: "keeps I (io_ret x)"
  by (simp add: keeps_def wp_exec)

lemma keeps_fail [keeps_intro]: "keeps I (io_fail e)"
  by (simp add: keeps_def wp_exec)

lemma keeps_lift [keeps_intro]: "keeps I (io_lift r)"
  by (cases r) (simp_all add: io_lift_def keeps_intro)

lemma keeps_try [keeps_intro]: "keeps I m \<Longrightarrow> keeps I (io_try m)"
  by (simp add: keeps_def wp_try)

lemma keeps_if [keeps_intro]: "(b \<Longrightarrow> keeps I m) \<Longrightarrow> (\<not> b \<Longrightarrow> keeps I n) \<Longrightarrow> keeps I (if b then m else n)"
  by simp

lemma keeps_when [keeps_intro]: "(b \<Longrightarrow> keeps I m) \<Longrightarrow> keeps I (io_when b m)"
  by (simp add: io_when_def keeps_intro)

lemma keeps_option [keeps_intro]:
  "(x = None \<Longrightarrow> keeps I m) \<Longrightarrow> (\<And>y. x = Some y \<Longrightarrow> keeps I (k y)) \<Longrightarrow> keeps I (case x of None \<Rightarrow> m | Some y \<Rightarrow> k y)"
  by (cases x) simp_all

lemma keeps_sum [keeps_intro]:
  "(\<And>e. x = Inl e \<Longrightarrow> keeps I (h e)) \<Longrightarrow> (\<And>y. x = Inr y \<Longrightarrow> keeps I (k y)) \<Longrightarrow>
   keeps I (case x of Inl e \<Rightarrow> h e | Inr y \<Rightarrow> k y)"
  by (cases x) simp_all

lemma keeps_pair [keeps_intro]: "(\<And>x y. p = (x, y) \<Longrightarrow> keeps I (k x y)) \<Longrightarrow> keeps I (case p of (x, y) \<Rightarrow> k x y)"
  by (cases p) simp

lemma keeps_node [keeps_intro]:
  "(\<And>c. keeps I (a c)) \<Longrightarrow> keeps I b \<Longrightarrow> keeps I d \<Longrightarrow> keeps I e \<Longrightarrow>
   keeps I (case n of Reg c \<Rightarrow> a c | Dir \<Rightarrow> b | Link \<Rightarrow> d | Special \<Rightarrow> e)"
  by (cases n) simp_all

lemma keeps_content [keeps_intro]:
  "(\<And>d k. keeps I (a d k)) \<Longrightarrow> (\<And>k. keeps I (b k)) \<Longrightarrow> keeps I (case c of Doc d k \<Rightarrow> a d k | Junk k \<Rightarrow> b k)"
  by (cases c) simp_all

lemma keeps_sys:
  "(\<And>f. I f \<Longrightarrow> case act f of (Ok x, g) \<Rightarrow> I g | (Failed e, g) \<Rightarrow> I g | (Died, g) \<Rightarrow> False) \<Longrightarrow> keeps I (sys act)"
  unfolding keeps_def by (auto simp: wp_sys)

lemma keeps_calls [keeps_intro]:
  "keeps I (lstat p)" "keeps I (read_file p)" "keeps I (fsync_file p)" "keeps I (close_file p)" "keeps I (sync_fs p)"
  "keeps I (read_dir paths p)"
  by (auto intro!: keeps_sys simp: prim_defs read_dir_def split: option.splits node.splits)

lemma keeps_changes [keeps_intro]:
  "free_path I p \<Longrightarrow> keeps I (create_excl p)"
  "free_path I p \<Longrightarrow> keeps I (write_file p c)"
  "free_path I p \<Longrightarrow> keeps I (remove_file p)"
  "free_path I p \<Longrightarrow> keeps I (make_dir p)"
  "free_path I p \<Longrightarrow> free_path I q \<Longrightarrow> keeps I (rename_file p q)"
  "free_path I p \<Longrightarrow> keeps I (remove_entry p)"
  by (auto intro!: keeps_sys simp: prim_defs remove_entry_def free_path_def split: option.splits if_splits)

lemma keeps_remove_safe [keeps_intro]:
  "free_path I p \<Longrightarrow> keeps I (remove_safe p)" "free_path I p \<Longrightarrow> keeps I (remove_safe_if_exists p)"
  unfolding remove_safe_def remove_safe_if_exists_def by (intro keeps_intro; assumption?)+

text \<open>What a program that keeps an invariant does to a world.\<close>

lemma keeps_world:
  assumes "keeps I m" and "I (files w)" and "m w = (r, w')"
  shows "I (files w')"
  using wpE [OF keepsD [where b = True, OF assms(1,2)]] assms(3) by (cases r) (auto simp: allowed_def)

text \<open>The frame: nothing differs from the files at the start except on the paths of a set.\<close>

definition framed :: "(string \<Rightarrow> bool) \<Rightarrow> 'd fs \<Rightarrow> 'd fs \<Rightarrow> bool" where
  "framed P f g \<longleftrightarrow> (\<forall>p. g p \<noteq> f p \<longrightarrow> P p)"

lemma framed_refl [simp]: "framed P f f"
  by (simp add: framed_def)

lemma free_framed [keeps_intro]: "P p \<Longrightarrow> free_path (framed P f) p"
  by (auto simp: free_path_def framed_def)

end
