(* ===== verification/Reset.thy ===== *)
theory Reset
  imports Controller_Config First_Sync Card_Registry Frames
begin

text \<open>
  \<open>controller/reset.go\<close>: removing Syncthing's state.  A plan names the exact paths to remove; it is
  prepared and shown, then executed by a helper that turns it into a durable intent, removes the
  paths and clears the intent; an intent that is found at start is completed first.  The files
  are JSON documents as in First\_Sync.  \<open>paths\<close> are the paths that the file systems can hold,
  children before their parents; \<open>inventory\<close> is what inspecting the cards gives, or its error.
  A system call is given the path in its clean form, as the kernel resolves it when no component
  is a link.  The fault-injection hook is not modelled.
\<close>

section \<open>Documents\<close>

record reset_root =
  ResetPath :: string
  ResetFilesystem :: string
  ResetDescription :: string

record reset_card =
  ResetCardID :: string
  ResetCardSource :: string
  ResetCardRoot :: string
  ResetCardUserdata :: string

record reset_document =
  ResetSchema :: int
  ResetActionID :: string
  ResetAction :: string
  ResetRoots :: "reset_root list"
  ResetCards :: "reset_card list"
  ResetRetained :: "string list"

definition reset_action_index :: string where "reset_action_index = ''index-only''"
definition reset_action_full :: string where "reset_action_full = ''full''"
definition reset_action_available :: string where "reset_action_available = ''available-only''"
definition reset_plan_name :: string where "reset_plan_name = ''reset-plan.json''"
definition reset_intent_name :: string where "reset_intent_name = ''.leaf-syncthing-reset.json''"
definition max_reset_document :: int where "max_reset_document = 128 * 1024"

definition zero_reset_root :: reset_root where
  "zero_reset_root = \<lparr>ResetPath = '''', ResetFilesystem = '''', ResetDescription = ''''\<rparr>"

definition reset_root_spec :: "(string \<times> reset_root setter) list" where
  "reset_root_spec = [(''path'', set_string (\<lambda>x r. r\<lparr>ResetPath := x\<rparr>)),
     (''filesystem_root'', set_string (\<lambda>x r. r\<lparr>ResetFilesystem := x\<rparr>)),
     (''description'', set_string (\<lambda>x r. r\<lparr>ResetDescription := x\<rparr>))]"

definition zero_reset_card :: reset_card where
  "zero_reset_card = \<lparr>ResetCardID = '''', ResetCardSource = '''', ResetCardRoot = '''', ResetCardUserdata = ''''\<rparr>"

definition reset_card_spec :: "(string \<times> reset_card setter) list" where
  "reset_card_spec = [(''id'', set_string (\<lambda>x r. r\<lparr>ResetCardID := x\<rparr>)),
     (''source_id'', set_string (\<lambda>x r. r\<lparr>ResetCardSource := x\<rparr>)),
     (''root'', set_string (\<lambda>x r. r\<lparr>ResetCardRoot := x\<rparr>)),
     (''userdata_path'', set_string (\<lambda>x r. r\<lparr>ResetCardUserdata := x\<rparr>))]"

definition zero_reset :: reset_document where
  "zero_reset = \<lparr>ResetSchema = 0, ResetActionID = '''', ResetAction = '''', ResetRoots = [], ResetCards = [],
     ResetRetained = []\<rparr>"

text \<open>A slice of structs; a missing and an empty slice are not told apart.\<close>

definition set_slice :: "(json \<Rightarrow> error + 'a) \<Rightarrow> ('a list \<Rightarrow> 's \<Rightarrow> 's) \<Rightarrow> 's setter" where
  "set_slice decode upd s v = (case v of
     JNull \<Rightarrow> Inr (upd [] s) | JArr vs \<Rightarrow> sum_bind (map_results decode vs) (\<lambda>xs. Inr (upd xs s))
   | _ \<Rightarrow> Inl ''cannot unmarshal into slice'')"

definition reset_spec :: "(string \<times> reset_document setter) list" where
  "reset_spec = [
     (''schema'', set_int (\<lambda>x d. d\<lparr>ResetSchema := x\<rparr>)), (''action_id'', set_string (\<lambda>x d. d\<lparr>ResetActionID := x\<rparr>)),
     (''action'', set_string (\<lambda>x d. d\<lparr>ResetAction := x\<rparr>)),
     (''roots'', set_slice (decode_struct True reset_root_spec zero_reset_root) (\<lambda>x d. d\<lparr>ResetRoots := x\<rparr>)),
     (''required_cards'', set_slice (decode_struct True reset_card_spec zero_reset_card) (\<lambda>x d. d\<lparr>ResetCards := x\<rparr>)),
     (''retained'', set_strings (\<lambda>x d. d\<lparr>ResetRetained := x\<rparr>))]"

definition decode_reset :: "json \<Rightarrow> error + reset_document" where
  "decode_reset = decode_struct True reset_spec zero_reset"

definition reset_root_json :: "reset_root \<Rightarrow> json" where
  "reset_root_json r = JObj [(''path'', JStr (ResetPath r)), (''filesystem_root'', JStr (ResetFilesystem r)),
     (''description'', JStr (ResetDescription r))]"

definition reset_card_json :: "reset_card \<Rightarrow> json" where
  "reset_card_json r = JObj [(''id'', JStr (ResetCardID r)), (''source_id'', JStr (ResetCardSource r)),
     (''root'', JStr (ResetCardRoot r)), (''userdata_path'', JStr (ResetCardUserdata r))]"

definition reset_json :: "reset_document \<Rightarrow> json" where
  "reset_json d = JObj [(''schema'', JInt (ResetSchema d)), (''action_id'', JStr (ResetActionID d)),
     (''action'', JStr (ResetAction d)), (''roots'', JArr (map reset_root_json (ResetRoots d))),
     (''required_cards'', JArr (map reset_card_json (ResetCards d))),
     (''retained'', JArr (map JStr (ResetRetained d)))]"

lemma map_results_map: "(\<And>x. x \<in> set xs \<Longrightarrow> f (g x) = Inr x) \<Longrightarrow> map_results f (map g xs) = Inr xs"
  by (induction xs) auto

lemma decode_reset_root: "decode_struct True reset_root_spec zero_reset_root (reset_root_json r) = Inr r"
  by (simp add: decode_struct_def reset_root_spec_def reset_root_json_def find_field_first setter_defs zero_reset_root_def)

lemma decode_reset_card: "decode_struct True reset_card_spec zero_reset_card (reset_card_json r) = Inr r"
  by (simp add: decode_struct_def reset_card_spec_def reset_card_json_def find_field_first setter_defs zero_reset_card_def)

lemma reset_lists_map:
  "map_results (decode_struct True reset_root_spec zero_reset_root) (map reset_root_json rs) = Inr rs"
  "map_results (decode_struct True reset_card_spec zero_reset_card) (map reset_card_json cs) = Inr cs"
  "map_results json_string (map JStr xs) = Inr xs"
  by (rule map_results_map, simp add: decode_reset_root decode_reset_card json_string_def)+

lemma decode_reset_json: "go_int (ResetSchema d) \<Longrightarrow> decode_reset (reset_json d) = Inr d"
  by (simp add: decode_reset_def decode_struct_def reset_json_def reset_spec_def find_field_first setter_defs set_slice_def
      reset_lists_map go_int_def zero_reset_def)

section \<open>Reading and writing them\<close>

definition reset_doc :: "json node option \<Rightarrow> error + reset_document option" where
  "reset_doc n = (case n of
     None \<Rightarrow> Inr None
   | Some (Reg c) \<Rightarrow>
       if content_size c = 0 \<or> int (content_size c) > max_reset_document then Inl ''reset document is unsafe''
       else (case c of Junk _ \<Rightarrow> Inl ''decode error'' | Doc j _ \<Rightarrow> sum_bind (decode_reset j) (\<lambda>d. Inr (Some d)))
   | Some _ \<Rightarrow> Inl ''reset document is unsafe'')"

definition read_reset_document :: "string \<Rightarrow> (json, reset_document option) io" where
  "read_reset_document p = io_bind (lstat p) (\<lambda>info. case info of
     None \<Rightarrow> io_ret None
   | Some (Reg c) \<Rightarrow>
       if content_size c = 0 \<or> int (content_size c) > max_reset_document then io_fail ''reset document is unsafe''
       else io_bind (read_file p) (\<lambda>contents. case contents of
         Junk _ \<Rightarrow> io_fail ''decode error'' | Doc j _ \<Rightarrow> io_bind (io_lift (decode_reset j)) (\<lambda>d. io_ret (Some d)))
   | Some _ \<Rightarrow> io_fail ''reset document is unsafe'')"

text \<open>\<open>sz\<close> is the length of a marshalled document with its newline.\<close>

definition write_reset_document :: "(json \<Rightarrow> nat) \<Rightarrow> string \<Rightarrow> reset_document \<Rightarrow> (json, unit) io" where
  "write_reset_document sz p d =
     (if \<not> is_abs p then io_fail ''reset document path or sync function is invalid''
      else let j = reset_json d; temporary = p @ ''.tmp''
        in io_bind (remove_safe_if_exists temporary) (\<lambda>_.
           io_bind (create_excl temporary) (\<lambda>_.
           io_bind (write_file temporary (Doc j (sz j))) (\<lambda>_.
           io_bind (fsync_file temporary) (\<lambda>_.
           io_bind (close_file temporary) (\<lambda>_.
           io_bind (rename_file temporary p) (\<lambda>_. sync_fs (dir_name p))))))))"

definition reset_plan_path :: "controller_config \<Rightarrow> string" where
  "reset_plan_path c = join_path [CfgRuntimeDir c, reset_plan_name]"

definition reset_intent_path :: "controller_config \<Rightarrow> string" where
  "reset_intent_path c = join_path [CfgUserdataPath c, reset_intent_name]"

section \<open>What may be removed\<close>

text \<open>\<open>indexDirectory\<close>: \<open>index-v\<close>, at least one digit or dot, \<open>.db\<close>.\<close>

definition index_directory :: "string \<Rightarrow> bool" where
  "index_directory n \<longleftrightarrow> length n \<ge> 11 \<and> take 7 n = ''index-v'' \<and> drop (length n - 3) n = ''.db'' \<and>
     (\<forall>c \<in> set (take (length n - 10) (drop 7 n)). c \<in> set ''0123456789.'')"

definition reset_path_within :: "string \<Rightarrow> string \<Rightarrow> error + unit" where
  "reset_path_within base target =
     (if clean base = clean target then Inl ''reset root cannot be a mount or userdata root''
      else sum_bind (relative_within (clean base) (clean target)) (\<lambda>_. Inr ()))"

definition live_content_path :: "source list \<Rightarrow> string \<Rightarrow> bool" where
  "live_content_path ss target \<longleftrightarrow>
     (\<exists>s \<in> set ss. \<exists>live \<in> set [source.SavesPath s, source.StatesPath s, RomsPath s]. live \<noteq> '''' \<and> clean live = clean target)"

text \<open>\<open>retainedCardRoots\<close>, of the user data path of a card's source.\<close>

definition retained_roots :: "string \<Rightarrow> string list" where
  "retained_roots userdata = (let state = join_path [userdata, app_state_name]
     in [join_path [state, ''snapshots''], join_path [state, ''versions'']])"

definition folder_control_state_name :: string where "folder_control_state_name = ''folder-control.json''"

definition primary_roots :: "controller_config \<Rightarrow> (string \<times> string) list" where
  "primary_roots c = (let state = join_path [CfgUserdataPath c, app_state_name] in
     [(CfgConfigDir c, ''Syncthing configuration and device identity''),
      (CfgDataDir c, ''Syncthing derived database''),
      (join_path [state, ''backups''], ''Syncthing configuration backups''),
      (join_path [state, ''leaf'', ''trusted-clients.json''], ''trusted browser records''),
      (join_path [state, ''leaf'', ''gateway-cert.pem''], ''gateway certificate''),
      (join_path [state, ''leaf'', ''gateway-key.pem''], ''gateway private key''),
      (join_path [state, ''leaf'', folder_control_state_name], ''managed-folder control state'')])"

text \<open>The cards of a plan: each names a configured source with its paths, no card twice.\<close>

fun check_reset_cards :: "source list \<Rightarrow> string list \<Rightarrow> reset_card list \<Rightarrow> bool" where
  "check_reset_cards ss seen [] = True"
| "check_reset_cards ss seen (c # cs) = (case find (\<lambda>s. ID s = ResetCardSource c) (rev ss) of
     None \<Rightarrow> False
   | Some s \<Rightarrow>
       length (ResetCardID c) = 32 \<and> (\<forall>x \<in> set (ResetCardID c). is_hex x) \<and> ResetCardID c \<notin> set seen \<and>
       clean (Root s) = clean (ResetCardRoot c) \<and> clean (UserdataPath s) = clean (ResetCardUserdata c) \<and>
       check_reset_cards ss (ResetCardID c # seen) cs)"

definition card_userdata :: "source list \<Rightarrow> reset_card \<Rightarrow> string" where
  "card_userdata ss c = (case find (\<lambda>s. ID s = ResetCardSource c) (rev ss) of None \<Rightarrow> '''' | Some s \<Rightarrow> UserdataPath s)"

text \<open>\<open>exactResetPaths\<close>: the paths that may be removed and the ones that may be retained.\<close>

definition exact_reset_paths :: "controller_config \<Rightarrow> reset_document \<Rightarrow> error + string list \<times> string list" where
  "exact_reset_paths c d =
     (if ResetAction d = reset_action_index then
        (if \<exists>r \<in> set (ResetRoots d). clean (dir_name (ResetPath r)) \<noteq> clean (CfgDataDir c) \<or>
              \<not> index_directory (base_name (ResetPath r))
         then Inl ''index reset contains a non-index root''
         else if ResetCards d \<noteq> [] \<or> ResetRetained d \<noteq> [] then Inl ''index reset unexpectedly names card state''
         else Inr (map (clean \<circ> ResetPath) (ResetRoots d), []))
      else if \<not> check_reset_cards (CfgSources c) [] (ResetCards d)
      then Inl ''reset document contains an invalid required card''
      else if ResetAction d = reset_action_full \<and> ResetRetained d \<noteq> []
      then Inl ''full reset cannot retain declared card roots''
      else
        let carded = concat (map (retained_roots \<circ> card_userdata (CfgSources c)) (ResetCards d));
            retained = concat (map (retained_roots \<circ> UserdataPath) (CfgSources c))
        in Inr (map (clean \<circ> fst) (primary_roots c) @ carded, filter (\<lambda>p. p \<notin> set carded) retained))"

text \<open>The file systems that a root may name, and the directory it must then lie in.\<close>

definition reset_base :: "controller_config \<Rightarrow> string \<Rightarrow> string option" where
  "reset_base c fs = (case find (\<lambda>s. clean (Root s) = clean fs) (rev (CfgSources c)) of
     Some s \<Rightarrow> Some (clean (UserdataPath s))
   | None \<Rightarrow> if clean fs = clean (CfgUserdataPath c) then Some (clean (CfgUserdataPath c)) else None)"

fun check_reset_roots :: "controller_config \<Rightarrow> string list \<Rightarrow> string list \<Rightarrow> reset_root list \<Rightarrow> error + unit" where
  "check_reset_roots c allowed_roots seen [] = Inr ()"
| "check_reset_roots c allowed_roots seen (r # rs) = (case reset_base c (ResetFilesystem r) of
     None \<Rightarrow> Inl ''reset document contains an unsafe or duplicate root''
   | Some base \<Rightarrow>
       if ResetPath r = '''' \<or> ResetDescription r = '''' \<or> ResetPath r \<in> set seen \<or>
          reset_path_within base (ResetPath r) \<noteq> Inr () \<or> clean (ResetPath r) \<notin> set allowed_roots
       then Inl ''reset document contains an unsafe or duplicate root''
       else if live_content_path (CfgSources c) (ResetPath r)
       then Inl ''reset document attempted to include live content''
       else check_reset_roots c allowed_roots (ResetPath r # seen) rs)"

fun check_retained :: "string list \<Rightarrow> string list \<Rightarrow> string list \<Rightarrow> error + unit" where
  "check_retained allowed_retained seen [] = Inr ()"
| "check_retained allowed_retained seen (p # ps) =
     (if clean p \<in> set seen \<or> clean p \<notin> set allowed_retained
      then Inl ''reset document contains an unsafe retained root''
      else check_retained allowed_retained (clean p # seen) ps)"

definition validate_reset_document :: "controller_config \<Rightarrow> reset_document \<Rightarrow> error + unit" where
  "validate_reset_document c d =
     (if ResetSchema d \<noteq> 1 \<or> length (ResetActionID d) \<noteq> 32 \<or> \<not> (\<forall>x \<in> set (ResetActionID d). is_hex x) \<or>
         ResetAction d \<notin> {reset_action_index, reset_action_full, reset_action_available} \<or>
         length (ResetRoots d) > 64 \<or> length (ResetCards d) > 16 \<or> length (ResetRetained d) > 32
      then Inl ''reset document schema is unsupported''
      else sum_bind (exact_reset_paths c d) (\<lambda>(allowed_roots, allowed_retained).
           sum_bind (check_reset_roots c allowed_roots [] (ResetRoots d)) (\<lambda>_.
             check_retained allowed_retained [] (ResetRetained d))))"


section \<open>Building a plan\<close>

definition add_root :: "string \<Rightarrow> string \<Rightarrow> string \<Rightarrow> string \<Rightarrow> reset_document \<Rightarrow> error + reset_document" where
  "add_root base fs p description d = sum_bind (reset_path_within base p) (\<lambda>_.
     Inr (d\<lparr>ResetRoots := ResetRoots d @ [\<lparr>ResetPath = p, ResetFilesystem = fs, ResetDescription = description\<rparr>]\<rparr>))"

definition add_primary :: "controller_config \<Rightarrow> string \<Rightarrow> string \<Rightarrow> reset_document \<Rightarrow> error + reset_document" where
  "add_primary c p = add_root (CfgUserdataPath c) (CfgUserdataPath c) (clean p)"

fun add_primaries :: "controller_config \<Rightarrow> (string \<times> string) list \<Rightarrow> reset_document \<Rightarrow> error + reset_document" where
  "add_primaries c [] d = Inr d"
| "add_primaries c ((p, description) # ps) d = sum_bind (add_primary c p description d) (add_primaries c ps)"

fun add_card_roots :: "source \<Rightarrow> string list \<Rightarrow> reset_document \<Rightarrow> error + reset_document" where
  "add_card_roots s [] d = Inr d"
| "add_card_roots s (p # ps) d =
     sum_bind (add_root (UserdataPath s) (Root s) p ''card snapshots or version history'' d) (add_card_roots s ps)"

definition enrolled_cards :: "leaf_card list \<Rightarrow> leaf_card list" where
  "enrolled_cards inventory = sort_key (IID \<circ> Identity) (filter (\<lambda>c. IID (Identity c) \<noteq> '''') inventory)"

definition reset_ready :: "leaf_card \<Rightarrow> bool" where
  "reset_ready c \<longleftrightarrow> Present c \<and> State c = Enrolled \<and> \<not> DuplicateID c"

definition reset_card_absent :: error where "reset_card_absent = ''reset requires every enrolled card to be present''"
definition reset_pending :: error where "reset_pending = ''reset recovery is waiting for required storage''"

fun add_cards :: "string \<Rightarrow> leaf_card list \<Rightarrow> reset_document \<Rightarrow> error + reset_document" where
  "add_cards action [] d = Inr d"
| "add_cards action (c # cs) d =
     (if \<not> reset_ready c then
        (if action = reset_action_full then Inl reset_card_absent
         else add_cards action cs (d\<lparr>ResetRetained := ResetRetained d @ retained_roots (UserdataPath (Source c))\<rparr>))
      else
        let required = \<lparr>ResetCardID = IID (Identity c), ResetCardSource = ID (Source c),
              ResetCardRoot = clean (Root (Source c)), ResetCardUserdata = clean (UserdataPath (Source c))\<rparr>
        in sum_bind (add_card_roots (Source c) (retained_roots (UserdataPath (Source c)))
             (d\<lparr>ResetCards := ResetCards d @ [required]\<rparr>)) (add_cards action cs))"

definition sort_reset :: "reset_document \<Rightarrow> reset_document" where
  "sort_reset d = d\<lparr>ResetRoots := sort_key ResetPath (ResetRoots d), ResetCards := sort_key ResetCardID (ResetCards d),
     ResetRetained := sort (ResetRetained d)\<rparr>"

text \<open>The index directories that the data directory holds; a missing data directory has none.\<close>

definition read_dir_if_exists :: "string list \<Rightarrow> string \<Rightarrow> ('d, (string \<times> 'd node) list) io" where
  "read_dir_if_exists paths p = sys (\<lambda>f. case f p of
     Some Dir \<Rightarrow> (Ok (entries_of paths p f), f) | None \<Rightarrow> (Ok [], f) | _ \<Rightarrow> (Failed ''read directory error'', f))"

fun add_indexes :: "controller_config \<Rightarrow> string list \<Rightarrow> reset_document \<Rightarrow> (json, reset_document) io" where
  "add_indexes c [] d = io_ret d"
| "add_indexes c (n # ns) d =
     (if \<not> index_directory n then add_indexes c ns d
      else let p = join_path [CfgDataDir c, n] in io_bind (lstat p) (\<lambda>info.
        if info = None then io_fail ''no such file''
        else if info \<noteq> Some Dir then io_fail ''Syncthing index root is unsafe''
        else io_bind (io_lift (add_primary c p (''Syncthing derived index '' @ n) d)) (add_indexes c ns)))"

definition blank_reset :: "string \<Rightarrow> reset_document" where
  "blank_reset action = \<lparr>ResetSchema = 1, ResetActionID = replicate 32 CHR ''0'', ResetAction = action, ResetRoots = [],
     ResetCards = [], ResetRetained = []\<rparr>"

definition state_reset :: "controller_config \<Rightarrow> leaf_card list \<Rightarrow> string \<Rightarrow> error + reset_document" where
  "state_reset c inventory action = sum_bind (add_primaries c (primary_roots c) (blank_reset action))
     (add_cards action (enrolled_cards inventory))"

definition build_reset_document :: "string list \<Rightarrow> controller_config \<Rightarrow> leaf_card list \<Rightarrow> string \<Rightarrow> (json, reset_document) io" where
  "build_reset_document paths c inventory action =
     io_bind (if action = reset_action_index
        then io_bind (read_dir_if_exists paths (CfgDataDir c)) (\<lambda>es. add_indexes c (map fst es) (blank_reset action))
        else if action = reset_action_full \<or> action = reset_action_available
        then io_lift (state_reset c inventory action)
        else io_fail ''unsupported reset action'')
     (\<lambda>d. io_bind (io_lift (validate_reset_document c (sort_reset d))) (\<lambda>_. io_ret (sort_reset d)))"

definition reset_plan_status :: "reset_document \<Rightarrow> string \<times> string \<times> string list \<times> string list" where
  "reset_plan_status d = (ResetActionID d, ResetAction d,
     map (\<lambda>r. ResetDescription r @ '': '' @ ResetPath r) (ResetRoots d), ResetRetained d)"

text \<open>\<open>random\<close> is the hexadecimal form of the random bytes, or the error of reading them.\<close>

definition prepare_reset_plan :: "(json \<Rightarrow> nat) \<Rightarrow> string list \<Rightarrow> controller_config \<Rightarrow> leaf_card list \<Rightarrow> error + string \<Rightarrow> string \<Rightarrow>
    (json, string \<times> string \<times> string list \<times> string list) io" where
  "prepare_reset_plan sz paths c inventory random action =
     io_bind (build_reset_document paths c inventory action) (\<lambda>d.
     io_bind (io_lift random) (\<lambda>i.
       let d = d\<lparr>ResetActionID := i\<rparr>
       in io_bind (write_reset_document sz (reset_plan_path c) d) (\<lambda>_. io_ret (reset_plan_status d))))"

section \<open>Running a plan\<close>

definition reset_card_found :: "leaf_card list \<Rightarrow> reset_card \<Rightarrow> bool" where
  "reset_card_found inventory wanted \<longleftrightarrow> (\<exists>c \<in> set inventory.
     IID (Identity c) = ResetCardID wanted \<and> ID (Source c) = ResetCardSource wanted \<and> reset_ready c \<and>
     clean (Root (Source c)) = ResetCardRoot wanted \<and> clean (UserdataPath (Source c)) = ResetCardUserdata wanted)"

fun verify_required_cards :: "leaf_card list \<Rightarrow> reset_card list \<Rightarrow> error + unit" where
  "verify_required_cards inventory [] = Inr ()"
| "verify_required_cards inventory (w # ws) =
     (if reset_card_found inventory w then verify_required_cards inventory ws else Inl reset_pending)"

text \<open>
  \<open>removeDeclaredPath\<close>: a directory is walked first, parents before children, and its paths are
  removed in the opposite order; a path that has gone meanwhile is no error.
\<close>

definition walk_tree :: "string list \<Rightarrow> string \<Rightarrow> ('d, string list) io" where
  "walk_tree paths p = sys (\<lambda>f. (Ok (p # rev (filter (\<lambda>q. under p q \<and> f q \<noteq> None) paths)), f))"

definition remove_path :: "string list \<Rightarrow> string \<Rightarrow> ('d, unit) io" where
  "remove_path paths p = sys (\<lambda>f.
     if f p = Some Dir \<and> (\<exists>q \<in> set paths. under p q \<and> f q \<noteq> None) then (Failed ''directory not empty'', f)
     else (Ok (), f(p := None)))"

fun remove_paths :: "string list \<Rightarrow> string list \<Rightarrow> ('d, unit) io" where
  "remove_paths paths [] = io_ret ()"
| "remove_paths paths (p # ps) = io_bind (remove_path paths p) (\<lambda>_. remove_paths paths ps)"

definition remove_declared_path :: "string list \<Rightarrow> string \<Rightarrow> ('d, unit) io" where
  "remove_declared_path paths path = (let p = clean path in io_bind (lstat p) (\<lambda>info. case info of
     None \<Rightarrow> io_ret ()
   | Some Link \<Rightarrow> io_fail ''declared reset root is a symlink''
   | Some Special \<Rightarrow> io_fail ''declared reset root has an unsupported type''
   | Some (Reg _) \<Rightarrow> remove_file p
   | Some Dir \<Rightarrow> io_bind (walk_tree paths p) (\<lambda>found. remove_paths paths (rev found))))"

fun io_each :: "('a \<Rightarrow> ('d, unit) io) \<Rightarrow> 'a list \<Rightarrow> ('d, unit) io" where
  "io_each m [] = io_ret ()"
| "io_each m (x # xs) = io_bind (m x) (\<lambda>_. io_each m xs)"

definition unique_filesystems :: "reset_root list \<Rightarrow> string list" where
  "unique_filesystems rs = sort (remdups (map (clean \<circ> ResetFilesystem) rs))"

definition root_gone :: "string \<Rightarrow> ('d, unit) io" where
  "root_gone path = io_bind (io_try (lstat (clean path))) (\<lambda>info.
     if info = Inr None then io_ret () else io_fail ''reset root remains'')"

definition run_reset_intent :: "(json \<Rightarrow> nat) \<Rightarrow> string list \<Rightarrow> controller_config \<Rightarrow> leaf_card list \<Rightarrow> reset_document \<Rightarrow> (json, unit) io" where
  "run_reset_intent sz paths c inventory d =
     io_bind (io_lift (validate_reset_document c d)) (\<lambda>_.
     io_bind (io_lift (verify_required_cards inventory (ResetCards d))) (\<lambda>_.
     io_bind (read_reset_document (reset_intent_path c)) (\<lambda>present.
     io_bind (io_when (present = None) (write_reset_document sz (reset_intent_path c) d)) (\<lambda>_.
     io_bind (io_each (remove_declared_path paths \<circ> ResetPath) (ResetRoots d)) (\<lambda>_.
     io_bind (io_each sync_fs (unique_filesystems (ResetRoots d))) (\<lambda>_.
     io_bind (io_each (root_gone \<circ> ResetPath) (ResetRoots d)) (\<lambda>_.
     io_bind (remove_safe (reset_intent_path c)) (\<lambda>_.
       sync_fs (CfgUserdataPath c)))))))))"

definition recover_reset :: "(json \<Rightarrow> nat) \<Rightarrow> string list \<Rightarrow> controller_config \<Rightarrow> error + leaf_card list \<Rightarrow> (json, bool) io" where
  "recover_reset sz paths c inventory =
     io_bind (read_reset_document (reset_intent_path c)) (\<lambda>intent. case intent of
       None \<Rightarrow> io_bind (remove_safe_if_exists (reset_intent_path c @ ''.tmp'')) (\<lambda>_. io_ret False)
     | Some d \<Rightarrow> io_bind (io_lift inventory) (\<lambda>cards.
         io_bind (run_reset_intent sz paths c cards d) (\<lambda>_. io_ret True)))"

text \<open>The sealed plan is executed when it is what the state of the cards would give again.\<close>

definition confirmed_reset :: "(json \<Rightarrow> nat) \<Rightarrow> string list \<Rightarrow> controller_config \<Rightarrow> leaf_card list \<Rightarrow> reset_document \<Rightarrow> (json, unit) io" where
  "confirmed_reset sz paths c cards sealed =
     io_bind (build_reset_document paths c cards (ResetAction sealed)) (\<lambda>rebuilt.
     if reset_json sealed \<noteq> reset_json (rebuilt\<lparr>ResetActionID := ResetActionID sealed\<rparr>)
     then io_fail ''storage changed after reset confirmation; prepare the reset again''
     else
       io_bind (run_reset_intent sz paths c cards sealed) (\<lambda>_.
       io_bind (io_try (remove_safe (reset_plan_path c))) (\<lambda>_. io_ret ())))"

definition execute_reset_plan :: "(json \<Rightarrow> nat) \<Rightarrow> string list \<Rightarrow> controller_config \<Rightarrow> error + leaf_card list \<Rightarrow> flock_answer \<Rightarrow> string \<Rightarrow>
    (json, unit) io" where
  "execute_reset_plan sz paths c inventory flock action_id =
     (if length action_id \<noteq> 32 then io_fail ''reset action id is invalid''
      else
        io_bind (acquire_controller_lock flock (CfgRuntimeDir c)) (\<lambda>_.
        io_bind (io_try (read_reset_document (reset_plan_path c))) (\<lambda>read. case read of
          Inr (Some sealed) \<Rightarrow>
            if ResetActionID sealed \<noteq> action_id then io_fail ''reset plan is absent, unsafe, or stale''
            else io_bind (io_lift inventory) (\<lambda>cards. confirmed_reset sz paths c cards sealed)
        | _ \<Rightarrow> io_fail ''reset plan is absent, unsafe, or stale'')))"

section \<open>Where the removed paths lie\<close>

lemma rooted_comps: "rooted p \<Longrightarrow> n \<in> set (path_comps p) \<Longrightarrow> name_comp n"
  using path_comps_norm [of p] by (auto simp: norm_comps_def)

lemma split_clean:
  assumes "clean p = p" and "rooted p"
  shows "split_on CHR ''/'' p = (if path_comps p = [] then ['''', ''''] else '''' # path_comps p)"
proof (cases "path_comps p = []")
  case True
  then have "p = ''/''" using assms by (simp add: clean_def render_def)
  then show ?thesis by simp
next
  case False
  with split_render [OF path_comps_norm False] assms show ?thesis by (simp add: clean_def)
qed

lemma under_below:
  assumes "under r p" and "clean p = p" and "clean r = r" and "rooted p"
  shows "below r p" and "path_comps p \<noteq> path_comps r"
proof -
  obtain t where t: "p = r @ CHR ''/'' # t" using assms(1) has_prefixE unfolding under_def by fastforce
  have r: "r \<noteq> ''''" using assms(3) clean_not_empty by metis
  then have rr: "rooted r" using assms(4) t by (metis rooted_append)
  have sp: "split_on CHR ''/'' p = split_on CHR ''/'' r @ split_on CHR ''/'' t"
    unfolding t by (rule split_on_append)
  have p: "split_on CHR ''/'' p = '''' # path_comps p"
  proof (rule ccontr)
    assume "\<not> ?thesis"
    then have "path_comps p = []" using split_clean [OF assms(2,4)] by (auto split: if_splits)
    then have "p = ''/''" using assms(2,4) by (simp add: clean_def render_def)
    then show False using t r by (cases r) auto
  qed
  have "path_comps r \<noteq> []"
  proof
    assume "path_comps r = []"
    then have "split_on CHR ''/'' r = ['''', '''']" using split_clean [OF assms(3) rr] by simp
    then have "'''' \<in> set (path_comps p)" using sp p by simp
    then show False using norm_not_empty_comp [OF path_comps_norm] by blast
  qed
  then have "path_comps p = path_comps r @ split_on CHR ''/'' t"
    using split_clean [OF assms(3) rr] sp p by simp
  moreover have "split_on CHR ''/'' t \<noteq> []" by simp
  moreover have "\<forall>n \<in> set (split_on CHR ''/'' t). name_comp n"
    using rooted_comps [OF assms(4)] calculation(1) by simp
  ultimately show "below r p" "path_comps p \<noteq> path_comps r"
    using rr assms(4) descends_names by (auto simp: below_def)
qed

lemma long_name: "11 \<le> length n \<Longrightarrow> n \<noteq> ''.'' \<and> n \<noteq> ''/'' \<and> n \<noteq> ''..'' \<and> n \<noteq> ''''"
  by auto

lemma index_directory_name:
  assumes "index_directory (base_name p)"
  shows "name_comp (base_name p)"
proof -
  have "base_name p = ''.'' \<or> base_name p = ''/'' \<or> (\<exists>q. base_name p = last (split_on CHR ''/'' q))"
    by (auto simp: base_name_def Let_def)
  moreover have "CHR ''/'' \<notin> set (last (split_on CHR ''/'' q))" for q
    using split_on_elem [of "last (split_on CHR ''/'' q)" "CHR ''/''" q] by simp
  moreover have "base_name p \<noteq> ''.'' \<and> base_name p \<noteq> ''/'' \<and> base_name p \<noteq> ''..'' \<and> base_name p \<noteq> ''''"
    by (rule long_name) (use assms in \<open>simp add: index_directory_def\<close>)
  ultimately show ?thesis unfolding name_comp_def by metis
qed

lemma dir_base_below:
  assumes "name_comp (base_name p)"
  shows "below (dir_name p) p"
proof -
  define n where "n = rev (takeWhile (\<lambda>c. c \<noteq> CHR ''/'') (rev p))"
  define pre where "pre = rev (dropWhile (\<lambda>c. c \<noteq> CHR ''/'') (rev p))"
  have p: "p = pre @ n" unfolding n_def pre_def by (metis rev_append rev_rev_ident takeWhile_dropWhile_id)
  have dir: "dir_name p = clean pre" by (simp add: dir_name_def pre_def)
  have n: "CHR ''/'' \<notin> set n" unfolding n_def by (auto dest: set_takeWhileD)
  have pre: "pre = '''' \<or> (\<exists>q. pre = q @ ''/'')"
    unfolding pre_def using hd_dropWhile [of "\<lambda>c. c \<noteq> CHR ''/''" "rev p"]
    by (cases "dropWhile (\<lambda>c. c \<noteq> CHR ''/'') (rev p)") auto
  show ?thesis
  proof (cases "n = ''''")
    case True
    then show ?thesis using p dir by simp
  next
    case False
    have strip: "dropWhile (\<lambda>c. c = CHR ''/'') (rev p) = rev p"
      using False n p by (cases n rule: rev_cases) auto
    from pre have comps: "path_comps p = path_comps pre @ [n] \<and> rooted p = rooted pre \<and> base_name p = n"
    proof
      assume "pre = ''''"
      moreover have "base_name p = n" using False strip n p calculation by (simp add: base_name_def split_on_no_sep)
      then have "name_comp n" using assms by simp
      moreover have "\<not> rooted n" using calculation(2) name_comp_not_abs by (simp add: is_abs_def)
      ultimately show ?thesis
        using p n \<open>base_name p = n\<close> by (simp add: path_comps_def split_on_no_sep clean_comps_def foldl_clean_names [of "[n]", simplified])
    next
      assume "\<exists>q. pre = q @ ''/''"
      then obtain q where q: "pre = q @ ''/''" by blast
      have sp: "split_on CHR ''/'' p = split_on CHR ''/'' q @ [n]"
        using split_on_append [of "CHR ''/''" q n] n by (simp add: p q split_on_no_sep)
      have spre: "split_on CHR ''/'' pre = split_on CHR ''/'' q @ ['''']"
        using split_on_append [of "CHR ''/''" q "''''"] by (simp add: q)
      have b: "base_name p = n" using False strip sp p q by (simp add: base_name_def)
      then have "name_comp n" using assms by simp
      moreover have "rooted p = rooted pre" by (cases q) (simp_all add: p q)
      ultimately show ?thesis using b sp spre
        by (auto simp: path_comps_def clean_comps_def name_comp_def)
    qed
    then have "below pre p" using assms descends_names [of "[n]"] by (auto simp: below_def)
    then show ?thesis using dir by simp
  qed
qed


definition state_area :: "controller_config \<Rightarrow> string \<Rightarrow> bool" where
  "state_area c p \<longleftrightarrow> (\<exists>u \<in> set (CfgUserdataPath c # map UserdataPath (CfgSources c)).
     below (join_path [u, app_state_name]) p)"

lemma app_state_name_comp [simp]: "name_comp app_state_name"
  by (simp add: app_state_name_def name_comp_def)

lemma state_child:
  assumes "u \<noteq> ''''" and "\<forall>n \<in> set ns. name_comp n"
  shows "below (join_path [u, app_state_name]) (join_path (join_path [u, app_state_name] # ns))"
proof -
  have "join_path [u, app_state_name] \<noteq> ''''" by (rule join_path_some) (simp add: assms(1))
  from path_comps_join_names [OF this assms(2)] descends_names [OF assms(2)] show ?thesis
    by (simp add: below_def)
qed

lemma retained_roots_below: "u \<noteq> '''' \<Longrightarrow> p \<in> set (retained_roots u) \<Longrightarrow> below (join_path [u, app_state_name]) p"
  using state_child [of u "[''snapshots'']"] state_child [of u "[''versions'']"]
  by (auto simp: retained_roots_def Let_def name_comp_def)

lemma primary_roots_area: "own_directories c \<Longrightarrow> p \<in> fst ` set (primary_roots c) \<Longrightarrow> state_area c p"
  using state_child [of "CfgUserdataPath c" "[''config'']"] state_child [of "CfgUserdataPath c" "[''data'']"]
    state_child [of "CfgUserdataPath c" "[''backups'']"] state_child [of "CfgUserdataPath c" "[''leaf'', ''trusted-clients.json'']"]
    state_child [of "CfgUserdataPath c" "[''leaf'', ''gateway-cert.pem'']"]
    state_child [of "CfgUserdataPath c" "[''leaf'', ''gateway-key.pem'']"]
    state_child [of "CfgUserdataPath c" "[''leaf'', folder_control_state_name]"]
  by (auto simp: primary_roots_def Let_def own_directories_def state_area_def name_comp_def folder_control_state_name_def)

lemma check_reset_cards_find:
  "check_reset_cards ss seen cs \<Longrightarrow> k \<in> set cs \<Longrightarrow> find (\<lambda>s. ID s = ResetCardSource k) (rev ss) \<noteq> None"
  by (induction ss seen cs rule: check_reset_cards.induct) (auto split: option.splits)

lemma card_userdata_source:
  assumes "check_reset_cards ss seen cs" and "k \<in> set cs"
  shows "\<exists>s \<in> set ss. card_userdata ss k = UserdataPath s \<and> ID s = ResetCardSource k"
proof -
  obtain s where s: "find (\<lambda>s. ID s = ResetCardSource k) (rev ss) = Some s"
    using check_reset_cards_find [OF assms] by blast
  then have "s \<in> set ss" "ID s = ResetCardSource k"
    using find_Some_iff [of _ "rev ss"] by (auto dest: nth_mem) (metis length_rev nth_mem set_rev)
  then show ?thesis using s by (auto simp: card_userdata_def)
qed

lemma exact_paths_area:
  assumes "exact_reset_paths c d = Inr (allowed_roots, allowed_retained)" and "own_directories c"
    and "r \<in> set (ResetRoots d)" and "clean (ResetPath r) \<in> set allowed_roots"
  shows "state_area c (ResetPath r)"
proof (cases "ResetAction d = reset_action_index")
  case True
  then have r: "clean (dir_name (ResetPath r)) = clean (CfgDataDir c)" "index_directory (base_name (ResetPath r))"
    using assms(1,3) by (auto simp: exact_reset_paths_def split: if_splits)
  from dir_base_below [OF index_directory_name [OF r(2)]] have "below (CfgDataDir c) (ResetPath r)"
    using r(1) below_clean by metis
  moreover have "state_area c (CfgDataDir c)" using primary_roots_area [OF assms(2)] by (simp add: primary_roots_def Let_def)
  ultimately show ?thesis unfolding state_area_def using below_trans by blast
next
  case False
  then have cards: "check_reset_cards (CfgSources c) [] (ResetCards d)"
    and "allowed_roots = map (clean \<circ> fst) (primary_roots c) @
      concat (map (retained_roots \<circ> card_userdata (CfgSources c)) (ResetCards d))"
    using assms(1) by (auto simp: exact_reset_paths_def Let_def split: if_splits)
  then consider p where "p \<in> fst ` set (primary_roots c)" "clean (ResetPath r) = clean p"
    | k where "k \<in> set (ResetCards d)" "clean (ResetPath r) \<in> set (retained_roots (card_userdata (CfgSources c) k))"
    using assms(4) by auto
  then show ?thesis
  proof cases
    case 1
    then show ?thesis using primary_roots_area [OF assms(2) 1(1)] below_clean unfolding state_area_def by metis
  next
    case 2
    from card_userdata_source [OF cards 2(1)] obtain s where
      s: "s \<in> set (CfgSources c)" "card_userdata (CfgSources c) k = UserdataPath s" by blast
    then have "below (join_path [UserdataPath s, app_state_name]) (clean (ResetPath r))"
      using retained_roots_below [of "UserdataPath s" "clean (ResetPath r)"] 2(2) assms(2)
      by (simp add: own_directories_def)
    then show ?thesis using s(1) unfolding state_area_def by auto
  qed
qed

lemma check_reset_roots_mem:
  "check_reset_roots c allowed_roots seen rs = Inr () \<Longrightarrow> r \<in> set rs \<Longrightarrow> clean (ResetPath r) \<in> set allowed_roots"
  by (induction c allowed_roots seen rs rule: check_reset_roots.induct) (auto split: option.splits if_splits)

lemma valid_roots_area:
  assumes "validate_reset_document c d = Inr ()" and "own_directories c" and "r \<in> set (ResetRoots d)"
  shows "state_area c (ResetPath r)"
proof -
  obtain ar at where "exact_reset_paths c d = Inr (ar, at)" "check_reset_roots c ar [] (ResetRoots d) = Inr ()"
    using assms(1) by (auto simp: validate_reset_document_def sum_bind_Inr split: if_splits)
  then show ?thesis using exact_paths_area [OF _ assms(2,3)] check_reset_roots_mem assms(3) by blast
qed


section \<open>What a reset can change\<close>

definition reset_files :: "controller_config \<Rightarrow> string list" where
  "reset_files c = [reset_intent_path c, reset_intent_path c @ ''.tmp'', reset_plan_path c, reset_plan_path c @ ''.tmp'',
     join_path [CfgRuntimeDir c, controller_lock_name]]"

definition reset_touches :: "controller_config \<Rightarrow> string \<Rightarrow> bool" where
  "reset_touches c p \<longleftrightarrow> state_area c p \<or> p \<in> set (reset_files c)"

definition absolute_paths :: "string list \<Rightarrow> bool" where
  "absolute_paths paths \<longleftrightarrow> (\<forall>p \<in> set paths. clean p = p \<and> rooted p)"

lemma keeps_each [keeps_intro]: "(\<And>x. x \<in> set xs \<Longrightarrow> keeps I (m x)) \<Longrightarrow> keeps I (io_each m xs)"
  by (induction xs) (simp_all add: keeps_intro)

lemma keeps_read_reset [keeps_intro]: "keeps I (read_reset_document p)"
  unfolding read_reset_document_def by (intro keeps_intro)

lemma keeps_write_reset [keeps_intro]:
  "free_path I p \<Longrightarrow> free_path I (p @ ''.tmp'') \<Longrightarrow> keeps I (write_reset_document sz p d)"
  unfolding write_reset_document_def Let_def by (intro keeps_intro; assumption?)+

lemma keeps_remove_paths: "(\<And>p. p \<in> set ps \<Longrightarrow> free_path I p) \<Longrightarrow> keeps I (remove_paths paths ps)"
proof (induction ps)
  case (Cons p ps)
  have "keeps I (remove_path paths p)"
    unfolding remove_path_def by (rule keeps_sys) (use Cons.prems [of p] in \<open>auto simp: free_path_def\<close>)
  with Cons show ?case by (simp add: keeps_intro)
qed (simp add: keeps_intro)

lemma walk_tree_keeps:
  assumes "free_path I p" and "\<And>q. q \<in> set paths \<Longrightarrow> under p q \<Longrightarrow> free_path I q"
  shows "keeps I (io_bind (walk_tree paths p) (\<lambda>found. remove_paths paths (rev found)))"
proof -
  have "wp b (remove_paths paths (filter (\<lambda>q. under p q \<and> f q \<noteq> None) paths @ [p])) (\<lambda>_. I) (\<lambda>_. I) I f" if "I f" for b f
    using that assms by (intro keepsD keeps_remove_paths) auto
  then show ?thesis unfolding keeps_def walk_tree_def by (simp add: wp_sys_bind)
qed

lemma keeps_remove_declared:
  assumes "state_area c path" and "absolute_paths paths"
  shows "keeps (framed (reset_touches c) f) (remove_declared_path paths path)"
proof -
  have p: "reset_touches c (clean path)" using assms(1) by (simp add: reset_touches_def state_area_def)
  have "reset_touches c q" if "q \<in> set paths" "under (clean path) q" for q
  proof -
    have "below (clean path) q" using under_below [OF that(2)] assms(2) that(1) by (simp add: absolute_paths_def)
    then show ?thesis using assms(1) below_trans unfolding reset_touches_def state_area_def below_clean by blast
  qed
  then show ?thesis unfolding remove_declared_path_def Let_def
    using p by (intro keeps_intro walk_tree_keeps) auto
qed

lemma keeps_run_reset:
  assumes "own_directories c" and "absolute_paths paths"
  shows "keeps (framed (reset_touches c) f) (run_reset_intent sz paths c inventory d)"
proof (cases "validate_reset_document c d")
  case (Inl e)
  then show ?thesis by (simp add: run_reset_intent_def io_lift_def keeps_intro)
next
  case (Inr u)
  then have roots: "state_area c (ResetPath r)" if "r \<in> set (ResetRoots d)" for r
    using valid_roots_area [of c d r] assms(1) that by simp
  have docs: "reset_touches c (reset_intent_path c)" "reset_touches c (reset_intent_path c @ ''.tmp'')"
    by (simp_all add: reset_touches_def reset_files_def)
  show ?thesis unfolding run_reset_intent_def root_gone_def o_def
    using docs by (intro keeps_intro keeps_remove_declared roots assms(2)) auto
qed

lemma keeps_recover_reset:
  assumes "own_directories c" and "absolute_paths paths"
  shows "keeps (framed (reset_touches c) f) (recover_reset sz paths c inventory)"
  unfolding recover_reset_def
  by (intro keeps_intro keeps_run_reset assms) (simp_all add: reset_touches_def reset_files_def)

lemma keeps_add_indexes [keeps_intro]: "keeps I (add_indexes c ns d)"
proof (induction ns arbitrary: d)
  case (Cons n ns)
  show ?case unfolding add_indexes.simps Let_def by (intro keeps_intro Cons)
qed (simp add: keeps_intro)

lemma keeps_build_reset [keeps_intro]: "keeps I (build_reset_document paths c inventory action)"
proof -
  have "keeps I (read_dir_if_exists paths p)" for p
    unfolding read_dir_if_exists_def by (rule keeps_sys) (auto split: option.splits node.splits)
  then show ?thesis unfolding build_reset_document_def by (intro keeps_intro)
qed

lemma keeps_lock [keeps_intro]:
  "free_path I (join_path [dir, controller_lock_name]) \<Longrightarrow> keeps I (acquire_controller_lock flock dir)"
proof -
  assume p: "free_path I (join_path [dir, controller_lock_name])"
  then have "keeps I (open_or_create (join_path [dir, controller_lock_name]))"
    unfolding open_or_create_def by (intro keeps_sys) (auto simp: free_path_def split: option.splits)
  then show ?thesis unfolding acquire_controller_lock_def
    by (intro keeps_intro) (auto intro: keeps_intro split: flock_answer.split)
qed

lemma keeps_execute_reset:
  assumes "own_directories c" and "absolute_paths paths"
  shows "keeps (framed (reset_touches c) f) (execute_reset_plan sz paths c inventory flock action_id)"
  unfolding execute_reset_plan_def confirmed_reset_def
  by (intro keeps_intro keeps_run_reset assms) (simp_all add: reset_touches_def reset_files_def)


text \<open>
  C9. Whatever goes wrong on the way, executing a reset plan or completing an interrupted reset
  changes nothing but what lies in a Syncthing state directory of the user data of the controller
  or of one of its cards, and the plan, the intent and the lock file: no save, no state and no
  other file of a card is touched, even by a plan or an intent file of arbitrary content.
\<close>

theorem reset_confined:
  assumes "load_controller_config tmp_dir getenv executable = Inr c" and "absolute_paths paths"
    and "execute_reset_plan sz paths c inventory flock action_id w = (r, w') \<or>
      recover_reset sz paths c inventory w = (r2, w')"
    and "files w' p \<noteq> files w p"
  shows "(\<exists>u \<in> set (CfgUserdataPath c # map UserdataPath (CfgSources c)). below (join_path [u, app_state_name]) p) \<or>
    p \<in> set (reset_files c)"
proof -
  have "framed (reset_touches c) (files w) (files w')"
    using assms(3) keeps_world [OF keeps_execute_reset [OF load_config_own [OF assms(1)] assms(2)] framed_refl]
      keeps_world [OF keeps_recover_reset [OF load_config_own [OF assms(1)] assms(2)] framed_refl] by blast
  then show ?thesis using assms(4) by (simp add: framed_def reset_touches_def state_area_def)
qed


section \<open>Removing a tree\<close>

lemma under_length: "under p q \<Longrightarrow> length p < length q"
  by (auto simp: under_def dest: has_prefixE)

lemma under_iff: "under p q \<longleftrightarrow> (\<exists>t. q = p @ CHR ''/'' # t)"
proof
  assume "\<exists>t. q = p @ CHR ''/'' # t"
  then obtain t where "q = (p @ ''/'') @ t" by auto
  then show "under p q" unfolding under_def by (simp only: has_prefix_append)
qed (auto simp: under_def dest: has_prefixE)

lemma under_trans: "under p q \<Longrightarrow> under q r \<Longrightarrow> under p r"
  unfolding under_iff by fastforce

lemma remove_paths_wp:
  assumes "sorted_wrt (\<lambda>a b. \<not> under a b) ps"
    and "\<And>q x. q \<in> set paths \<Longrightarrow> g q \<noteq> None \<Longrightarrow> x \<in> set ps \<Longrightarrow> under x q \<Longrightarrow> q \<in> set ps"
    and "K g" and "\<And>h x. K h \<Longrightarrow> x \<in> set ps \<Longrightarrow> \<forall>q \<in> set paths. under x q \<longrightarrow> h q = None \<Longrightarrow> K (h(x := None))"
    and "\<And>h. K h \<Longrightarrow> C h"
    and "\<And>h. K h \<Longrightarrow> \<forall>x \<in> set ps. h x = None \<Longrightarrow> wp False (k ()) Q E C h"
  shows "wp False (io_bind (remove_paths paths ps) k) Q E C g"
  using assms
proof (induction ps arbitrary: g K)
  case (Cons x ps)
  have leaf: "\<forall>q \<in> set paths. under x q \<longrightarrow> g q = None"
  proof (intro ballI impI)
    fix q assume q: "q \<in> set paths" "under x q"
    show "g q = None"
    proof (rule ccontr)
      assume "g q \<noteq> None"
      then have "q \<in> set (x # ps)" using Cons.prems(2) [OF q(1) _ _ q(2)] by simp
      moreover have "q \<noteq> x" using under_length [OF q(2)] by auto
      ultimately show False using Cons.prems(1) q(2) by auto
    qed
  qed
  have "wp False (io_bind (remove_paths paths ps) k) Q E C (g(x := None))"
  proof (rule Cons.IH [where K = "\<lambda>h. K h \<and> h x = None"])
    show "sorted_wrt (\<lambda>a b. \<not> under a b) ps" using Cons.prems(1) by simp
    show "q \<in> set ps" if "q \<in> set paths" "(g(x := None)) q \<noteq> None" "y \<in> set ps" "under y q" for q y
      using Cons.prems(2) [of q y] that by (auto split: if_splits)
    show "K (g(x := None)) \<and> (g(x := None)) x = None"
      by (intro conjI Cons.prems(4) [OF Cons.prems(3) _ leaf]) simp_all
    show "K (h(y := None)) \<and> (h(y := None)) x = None"
      if st: "K h \<and> h x = None" "y \<in> set ps" "\<forall>q \<in> set paths. under y q \<longrightarrow> h q = None" for h y
      by (intro conjI Cons.prems(4) [OF _ _ st(3)]) (use st in simp_all)
  qed (use Cons.prems(5,6) in auto)
  then show ?case using leaf Cons.prems(3,5)
    by (auto simp: remove_path_def wp_exec wp_sys_bind)
qed (simp add: wp_exec)

text \<open>The paths of a plan, and what makes them removable: every path that exists there is listed,
  children first, directories have the children, and no root is a link or a device.\<close>

definition within :: "reset_document \<Rightarrow> string \<Rightarrow> bool" where
  "within d q \<longleftrightarrow> (\<exists>r \<in> set (ResetRoots d). q = clean (ResetPath r) \<or> under (clean (ResetPath r)) q)"

definition removable :: "string list \<Rightarrow> reset_document \<Rightarrow> json fs \<Rightarrow> bool" where
  "removable paths d f \<longleftrightarrow> sorted_wrt (\<lambda>a b. \<not> under a b) paths \<and>
     (\<forall>q. within d q \<and> f q \<noteq> None \<longrightarrow> q \<in> set paths) \<and>
     (\<forall>p q. within d p \<and> under p q \<and> f q \<noteq> None \<longrightarrow> f p = Some Dir) \<and>
     (\<forall>r \<in> set (ResetRoots d). f (clean (ResetPath r)) \<noteq> Some Link \<and> f (clean (ResetPath r)) \<noteq> Some Special)"

definition gone :: "reset_document \<Rightarrow> json fs \<Rightarrow> bool" where
  "gone d f \<longleftrightarrow> (\<forall>q. within d q \<longrightarrow> f q = None)"

lemma within_under: "within d p \<Longrightarrow> under p q \<Longrightarrow> within d q"
  unfolding within_def using under_trans by blast

lemma within_root: "r \<in> set (ResetRoots d) \<Longrightarrow> within d (clean (ResetPath r))"
  by (auto simp: within_def)

lemma removable_tree: "removable paths d f \<Longrightarrow> within d p \<Longrightarrow> under p q \<Longrightarrow> f q \<noteq> None \<Longrightarrow> f p = Some Dir"
  unfolding removable_def by blast

lemma removable_listed: "removable paths d f \<Longrightarrow> within d q \<Longrightarrow> f q \<noteq> None \<Longrightarrow> q \<in> set paths"
  unfolding removable_def by blast

lemma removable_sorted: "removable paths d f \<Longrightarrow> sorted_wrt (\<lambda>a b. \<not> under a b) paths"
  unfolding removable_def by blast

lemma removable_kind: "removable paths d f \<Longrightarrow> r \<in> set (ResetRoots d) \<Longrightarrow>
    f (clean (ResetPath r)) \<noteq> Some Link \<and> f (clean (ResetPath r)) \<noteq> Some Special"
  unfolding removable_def by blast

lemma removableI:
  assumes "sorted_wrt (\<lambda>a b. \<not> under a b) paths" and "\<And>q. within d q \<Longrightarrow> f q \<noteq> None \<Longrightarrow> q \<in> set paths"
    and "\<And>p q. within d p \<Longrightarrow> under p q \<Longrightarrow> f q \<noteq> None \<Longrightarrow> f p = Some Dir"
    and "\<And>r. r \<in> set (ResetRoots d) \<Longrightarrow> f (clean (ResetPath r)) \<noteq> Some Link \<and> f (clean (ResetPath r)) \<noteq> Some Special"
  shows "removable paths d f"
  using assms unfolding removable_def by blast



lemma removable_remove:
  assumes "removable paths d f" and "within d x" and "\<forall>q \<in> set paths. under x q \<longrightarrow> f q = None"
  shows "removable paths d (f(x := None))"
proof -
  have none: "f q = None" if "under x q" for q
    using assms that within_under [OF assms(2) that] unfolding removable_def by blast
  have "(f(x := None)) p = Some Dir" if "within d p" "under p q" "(f(x := None)) q \<noteq> None" for p q
  proof -
    have "f q \<noteq> None" using that(3) by (auto split: if_splits)
    then have "f p = Some Dir" using removable_tree [OF assms(1) that(1,2)] by simp
    moreover have "p \<noteq> x" using none [of q] that(2) \<open>f q \<noteq> None\<close> by auto
    ultimately show ?thesis by simp
  qed
  then show ?thesis
    by (intro removableI [OF removable_sorted [OF assms(1)]])
       (use removable_listed [OF assms(1)] removable_kind [OF assms(1)] in \<open>auto split: if_splits\<close>)
qed

lemma removable_elsewhere:
  assumes "removable paths d f" and "\<not> within d x"
  shows "removable paths d (f(x := n))"
proof -
  have same: "(f(x := n)) q = f q" if "within d q" for q using that assms(2) by auto
  have "(f(x := n)) p = Some Dir" if "within d p" "under p q" "(f(x := n)) q \<noteq> None" for p q
    using removable_tree [OF assms(1) that(1,2)] that(3) same [OF that(1)] same [OF within_under [OF that(1,2)]] by simp
  moreover have "q \<in> set paths" if "within d q" "(f(x := n)) q \<noteq> None" for q
    using assms(1) that same unfolding removable_def by auto
  moreover have "(f(x := n)) (clean (ResetPath r)) = f (clean (ResetPath r))" if "r \<in> set (ResetRoots d)" for r
    by (rule same [OF within_root [OF that]])
  ultimately show ?thesis
    by (intro removableI [OF removable_sorted [OF assms(1)]]) (simp_all add: removable_kind [OF assms(1)] del: fun_upd_apply)
qed

text \<open>Removing one root leaves nothing of it; what is left of the others stays removable.\<close>

lemma remove_declared_wp:
  assumes "removable paths d g" and r: "r \<in> set (ResetRoots d)"
    and "K g" and K: "\<And>h x. K h \<Longrightarrow> within d x \<Longrightarrow> K (h(x := None))"
    and C: "\<And>h. removable paths d h \<Longrightarrow> K h \<Longrightarrow> C h"
    and k: "\<And>h. removable paths d h \<Longrightarrow> K h \<Longrightarrow> \<forall>q. h q = g q \<or> h q = None \<Longrightarrow>
        \<forall>q. q = clean (ResetPath r) \<or> under (clean (ResetPath r)) q \<longrightarrow> h q = None \<Longrightarrow> wp False (k ()) Q E C h"
  shows "wp False (io_bind (remove_declared_path paths (ResetPath r)) k) Q E C g"
proof -
  define p where "p = clean (ResetPath r)"
  note rem = assms(1) [unfolded removable_def]
  have w: "within d p" unfolding p_def by (rule within_root [OF r])
  have kind: "g p \<noteq> Some Link" "g p \<noteq> Some Special" using rem r by (simp_all add: p_def)
  have tree: "g q = None" if "g p \<noteq> Some Dir" "under p q" for q using rem w that by blast
  have here: "wp False (k ()) Q E C h" if "removable paths d h" "K h" "\<forall>q. h q = g q \<or> h q = None"
    "h p = None" "\<And>q. under p q \<Longrightarrow> h q = None" for h
    using k [OF that(1-3)] that(4,5) unfolding p_def by blast
  show ?thesis
  proof (cases "g p")
    case None
    then have "wp False (k ()) Q E C g" using here [OF assms(1,3)] tree by simp
    then show ?thesis using None C [OF assms(1,3)]
      by (simp add: remove_declared_path_def p_def [symmetric] wp_exec)
  next
    case (Some n)
    then consider c where "n = Reg c" | "n = Dir" using kind by (cases n) auto
    then show ?thesis
    proof cases
      case 1
      have "removable paths d (g(p := None))"
        by (rule removable_remove [OF assms(1) w]) (use tree Some 1 in auto)
      then have "wp False (k ()) Q E C (g(p := None))"
        using here [of "g(p := None)"] K [OF assms(3) w] tree Some 1 by auto
      then show ?thesis using Some 1 C [OF assms(1,3)]
        by (simp add: remove_declared_path_def p_def [symmetric] wp_exec)
    next
      case 2
      define ps where "ps = filter (\<lambda>q. under p q \<and> g q \<noteq> None) paths @ [p]"
      have sorted: "sorted_wrt (\<lambda>a b. \<not> under a b) ps"
        using rem under_length [of _ p] under_length [of p]
        by (auto simp: ps_def sorted_wrt_append sorted_wrt_filter) (metis less_asym)
      have "wp False (io_bind (remove_paths paths ps) k) Q E C g"
      proof (rule remove_paths_wp [OF sorted, where K = "\<lambda>h. removable paths d h \<and> K h \<and> (\<forall>q. h q = g q \<or> h q = None)"])
        show "q \<in> set ps" if "q \<in> set paths" "g q \<noteq> None" "x \<in> set ps" "under x q" for q x
          using that under_trans by (auto simp: ps_def)
        show "removable paths d g \<and> K g \<and> (\<forall>q. g q = g q \<or> g q = None)" using assms(1,3) by simp
        show "removable paths d (h(x := None)) \<and> K (h(x := None)) \<and> (\<forall>q. (h(x := None)) q = g q \<or> (h(x := None)) q = None)"
          if "removable paths d h \<and> K h \<and> (\<forall>q. h q = g q \<or> h q = None)" "x \<in> set ps"
            "\<forall>q \<in> set paths. under x q \<longrightarrow> h q = None" for h x
        proof -
          have "within d x" using that(2) w within_under by (auto simp: ps_def)
          then show ?thesis using that removable_remove K by simp
        qed
        show "wp False (k ()) Q E C h"
          if st: "removable paths d h \<and> K h \<and> (\<forall>q. h q = g q \<or> h q = None)" "\<forall>x \<in> set ps. h x = None" for h
        proof (rule here)
          show "h q = None" if u: "under p q" for q
          proof (rule ccontr)
            assume "h q \<noteq> None"
            then have "g q \<noteq> None" using st(1) by metis
            then have "q \<in> set ps" using rem within_under [OF w u] u by (auto simp: ps_def)
            then show False using \<open>h q \<noteq> None\<close> st(2) by metis
          qed
        qed (use that in \<open>auto simp: ps_def\<close>)
      qed (use C in auto)
      then show ?thesis using Some 2 C [OF assms(1,3)]
        by (simp add: remove_declared_path_def p_def [symmetric] wp_exec walk_tree_def wp_sys_bind ps_def)
    qed
  qed
qed


lemma remove_roots_wp:
  assumes "set rs \<subseteq> set (ResetRoots d)" and "removable paths d g" and "K g"
    and K: "\<And>h x. K h \<Longrightarrow> within d x \<Longrightarrow> K (h(x := None))"
    and C: "\<And>h. removable paths d h \<Longrightarrow> K h \<Longrightarrow> C h"
    and k: "\<And>h. removable paths d h \<Longrightarrow> K h \<Longrightarrow> \<forall>q. h q = g q \<or> h q = None \<Longrightarrow>
        \<forall>r \<in> set rs. \<forall>q. q = clean (ResetPath r) \<or> under (clean (ResetPath r)) q \<longrightarrow> h q = None \<Longrightarrow> wp False (k ()) Q E C h"
  shows "wp False (io_bind (io_each (remove_declared_path paths \<circ> ResetPath) rs) k) Q E C g"
  using assms(1-3) k
proof (induction rs arbitrary: g)
  case Nil
  then show ?case by (simp add: wp_exec)
next
  case (Cons r rs)
  have "wp False (io_bind (remove_declared_path paths (ResetPath r))
      (\<lambda>_. io_bind (io_each (remove_declared_path paths \<circ> ResetPath) rs) k)) Q E C g"
  proof (rule remove_declared_wp [where d = d and r = r and K = K])
    fix h
    assume h: "removable paths d h" "K h" "\<forall>q. h q = g q \<or> h q = None"
      and gone: "\<forall>q. q = clean (ResetPath r) \<or> under (clean (ResetPath r)) q \<longrightarrow> h q = None"
    show "wp False (io_bind (io_each (remove_declared_path paths \<circ> ResetPath) rs) k) Q E C h"
    proof (rule Cons.IH [OF _ h(1,2)])
      fix h'
      assume h': "removable paths d h'" "K h'" "\<forall>q. h' q = h q \<or> h' q = None"
        "\<forall>r \<in> set rs. \<forall>q. q = clean (ResetPath r) \<or> under (clean (ResetPath r)) q \<longrightarrow> h' q = None"
      show "wp False (k ()) Q E C h'"
      proof (rule Cons.prems(4) [OF h'(1,2)])
        show "\<forall>q. h' q = g q \<or> h' q = None" using h(3) h'(3) by metis
        show "\<forall>r \<in> set (r # rs). \<forall>q. q = clean (ResetPath r) \<or> under (clean (ResetPath r)) q \<longrightarrow> h' q = None"
          using gone h'(3,4) by (metis set_ConsD)
      qed
    qed (use Cons.prems(1) in simp)
  qed (use Cons.prems K C in auto)
  then show ?case by (simp add: wp_exec o_def)
qed

lemma sync_each_wp: "C g \<Longrightarrow> wp False (k ()) Q E C g \<Longrightarrow> wp False (io_bind (io_each sync_fs ds) k) Q E C g"
  by (induction ds) (simp_all add: wp_exec)

lemma roots_gone_wp:
  "\<forall>r \<in> set rs. g (clean (ResetPath r)) = None \<Longrightarrow> C g \<Longrightarrow> wp False (k ()) Q E C g \<Longrightarrow>
   wp False (io_bind (io_each (root_gone \<circ> ResetPath) rs) k) Q E C g"
  by (induction rs) (simp_all add: root_gone_def wp_exec)

text \<open>The reading of a document decodes what is there.\<close>

lemma wp_read_reset [wp_exec]:
  "wp b (io_bind (read_reset_document p) k) Q E C f \<longleftrightarrow> C f \<and> (b \<longrightarrow> E ''I/O error'' f) \<and>
     (case reset_doc (f p) of Inl e \<Rightarrow> E e f | Inr x \<Rightarrow> wp b (k x) Q E C f)"
  by (auto simp: read_reset_document_def reset_doc_def wp_exec sum_bind_def
      split: option.split node.split content.split sum.split)

section \<open>An interrupted reset is completed\<close>

definition reset_storable :: "(json \<Rightarrow> nat) \<Rightarrow> reset_document \<Rightarrow> bool" where
  "reset_storable sz d \<longleftrightarrow> 0 < sz (reset_json d) \<and> int (sz (reset_json d)) \<le> max_reset_document"

definition reset_sealed :: "(json \<Rightarrow> nat) \<Rightarrow> controller_config \<Rightarrow> reset_document \<Rightarrow> json fs \<Rightarrow> bool" where
  "reset_sealed sz c d f \<longleftrightarrow> f (reset_intent_path c) = Some (Reg (Doc (reset_json d) (sz (reset_json d))))"

text \<open>
  What a power loss can leave: either the intent is there, and what is left of the roots can be
  removed; or it is not, and the roots are as they were in \<open>f\<close>, or gone.
\<close>

definition reset_cut :: "(json \<Rightarrow> nat) \<Rightarrow> string list \<Rightarrow> controller_config \<Rightarrow> reset_document \<Rightarrow> json fs \<Rightarrow> json fs \<Rightarrow> bool" where
  "reset_cut sz paths c d f h \<longleftrightarrow> removable paths d h \<and> plain (h (reset_intent_path c @ ''.tmp'')) \<and>
     (reset_sealed sz c d h \<or>
      h (reset_intent_path c) = None \<and> ((\<forall>q. within d q \<longrightarrow> h q = f q) \<or> gone d h))"

text \<open>What a reset of \<open>d\<close> needs of the configuration: the intent lies outside the roots.\<close>

definition reset_site :: "(json \<Rightarrow> nat) \<Rightarrow> controller_config \<Rightarrow> leaf_card list \<Rightarrow> reset_document \<Rightarrow> bool" where
  "reset_site sz c cards d \<longleftrightarrow> validate_reset_document c d = Inr () \<and> verify_required_cards cards (ResetCards d) = Inr () \<and>
     is_abs (reset_intent_path c) \<and> reset_storable sz d \<and>
     \<not> within d (reset_intent_path c) \<and> \<not> within d (reset_intent_path c @ ''.tmp'')"

lemma sealed_doc:
  assumes "reset_sealed sz c d f" and "reset_site sz c cards d"
  shows "reset_doc (f (reset_intent_path c)) = Inr (Some d)"
proof -
  have "ResetSchema d = 1"
    using assms(2) by (auto simp: reset_site_def validate_reset_document_def split: if_splits)
  then have "decode_reset (reset_json d) = Inr d"
    by (intro decode_reset_json) (simp add: go_int_def int_min_def int_max_def)
  then show ?thesis using assms by (simp add: reset_sealed_def reset_doc_def reset_site_def reset_storable_def)
qed

lemma write_reset_wp:
  assumes "is_abs p" and "plain (g (p @ ''.tmp''))" and "g p = None"
    and C: "\<And>n. plain n \<Longrightarrow> C (g(p @ ''.tmp'' := n))"
    and "C (g(p @ ''.tmp'' := None, p \<mapsto> Reg (Doc (reset_json d) (sz (reset_json d)))))"
    and "wp False (k ()) Q E C (g(p @ ''.tmp'' := None, p \<mapsto> Reg (Doc (reset_json d) (sz (reset_json d)))))"
  shows "wp False (io_bind (write_reset_document sz p d) k) Q E C g"
proof -
  define t where "t = p @ ''.tmp''"
  have ne: "t \<noteq> p" by (simp add: t_def)
  have C': "C (g(t := None))" "C (g(t \<mapsto> Reg c))" for c using C by (simp_all add: t_def)
  have step: "wp False (io_bind (create_excl t) (\<lambda>_. io_bind (write_file t (Doc (reset_json d) (sz (reset_json d)))) (\<lambda>_.
      io_bind (fsync_file t) (\<lambda>_. io_bind (close_file t) (\<lambda>_. io_bind (rename_file t p) (\<lambda>_.
      io_bind (sync_fs (dir_name p)) k)))))) Q E C h" if "h = g(t := None)" "C h" for h
    using that C' ne assms(3,5,6) by (simp add: wp_exec t_def [symmetric] fun_upd_twist)
  have "wp False (io_bind (remove_safe_if_exists t) (\<lambda>_. io_bind (create_excl t) (\<lambda>_.
      io_bind (write_file t (Doc (reset_json d) (sz (reset_json d)))) (\<lambda>_.
      io_bind (fsync_file t) (\<lambda>_. io_bind (close_file t) (\<lambda>_. io_bind (rename_file t p) (\<lambda>_.
      io_bind (sync_fs (dir_name p)) k))))))) Q E C g"
    using assms(2) plain_cases [of "g t"] C [of "g t"] step [of "g(t := None)"] step [of g] C'
    by (auto simp: remove_safe_if_exists_def remove_safe_def wp_exec t_def fun_upd_idem)
  then show ?thesis using assms(1)
    by (simp add: write_reset_document_def Let_def wp_exec t_def)
qed


lemma run_reset_wp:
  assumes site: "reset_site sz c cards d" and rem: "removable paths d g"
    and tmp: "plain (g (reset_intent_path c @ ''.tmp''))"
    and start: "reset_sealed sz c d g \<or> g (reset_intent_path c) = None \<and> (\<forall>q. within d q \<longrightarrow> g q = f q)"
  shows "wp False (run_reset_intent sz paths c cards d) (\<lambda>_ h. reset_cut sz paths c d f h \<and> gone d h \<and> h (reset_intent_path c) = None)
    (\<lambda>_ _. False) (reset_cut sz paths c d f) g"
proof -
  define i where "i = reset_intent_path c"
  define t where "t = i @ ''.tmp''"
  let ?Q = "\<lambda>(_ :: unit) h. reset_cut sz paths c d f h \<and> gone d h \<and> h i = None"
  let ?C = "reset_cut sz paths c d f"
  note out = site [unfolded reset_site_def, folded i_def, folded t_def]
  have it: "t \<noteq> i" by (simp add: t_def)
  define finish where "finish = (\<lambda>_ :: unit. io_bind (io_each sync_fs (unique_filesystems (ResetRoots d))) (\<lambda>_.
     io_bind (io_each (root_gone \<circ> ResetPath) (ResetRoots d)) (\<lambda>_.
     io_bind (remove_safe i) (\<lambda>_. sync_fs (CfgUserdataPath c)))) :: json world \<Rightarrow> unit outcome \<times> json world)"
  have last: "wp False (finish ()) ?Q (\<lambda>_ _. False) ?C h"
    if h: "removable paths d h" "plain (h t)" "reset_sealed sz c d h" "gone d h" for h
  proof -
    have cut: "?C h" using h by (simp add: reset_cut_def i_def t_def)
    have "removable paths d (h(i := None))" by (rule removable_elsewhere [OF h(1)]) (use out in simp)
    moreover have "gone d (h(i := None))" using h(4) by (simp add: gone_def)
    ultimately have end': "?C (h(i := None)) \<and> gone d (h(i := None))"
      using h(2) it by (simp add: reset_cut_def i_def [symmetric] t_def [symmetric])
    have "wp False (io_bind (remove_safe i) (\<lambda>_. sync_fs (CfgUserdataPath c))) ?Q (\<lambda>_ _. False) ?C h"
      using h(3) cut end' by (simp add: remove_safe_def wp_exec reset_sealed_def i_def)
    moreover have "\<forall>r \<in> set (ResetRoots d). h (clean (ResetPath r)) = None"
      using h(4) within_root by (simp add: gone_def)
    ultimately show ?thesis unfolding finish_def by (intro sync_each_wp roots_gone_wp cut)
  qed
  have removal: "wp False (io_bind (io_each (remove_declared_path paths \<circ> ResetPath) (ResetRoots d)) finish) ?Q (\<lambda>_ _. False) ?C h"
    if h: "removable paths d h" "plain (h t)" "reset_sealed sz c d h" for h
  proof (rule remove_roots_wp [where K = "\<lambda>h. plain (h t) \<and> reset_sealed sz c d h", OF subset_refl h(1)])
    show "plain (h t) \<and> reset_sealed sz c d h" using h by simp
    show "plain ((h'(x := None)) t) \<and> reset_sealed sz c d (h'(x := None))"
      if "plain (h' t) \<and> reset_sealed sz c d h'" "within d x" for h' x
      using that out by (auto simp: reset_sealed_def i_def)
    show "?C h'" if "removable paths d h'" "plain (h' t) \<and> reset_sealed sz c d h'" for h'
      using that by (simp add: reset_cut_def i_def t_def)
    show "wp False (finish ()) ?Q (\<lambda>_ _. False) ?C h'"
      if "removable paths d h'" "plain (h' t) \<and> reset_sealed sz c d h'"
        "\<forall>r \<in> set (ResetRoots d). \<forall>q. q = clean (ResetPath r) \<or> under (clean (ResetPath r)) q \<longrightarrow> h' q = None" for h'
      by (rule last) (use that in \<open>auto simp: gone_def within_def\<close>)
  qed
  have run: "run_reset_intent sz paths c cards d = io_bind (read_reset_document i) (\<lambda>present.
     io_bind (io_when (present = None) (write_reset_document sz i d)) (\<lambda>_.
     io_bind (io_each (remove_declared_path paths \<circ> ResetPath) (ResetRoots d)) finish))"
    using out by (simp add: run_reset_intent_def io_lift_def i_def finish_def)
  show ?thesis
  proof (cases "reset_sealed sz c d g")
    case True
    have cut: "?C g" using rem tmp True by (simp add: reset_cut_def)
    show ?thesis unfolding run
      using removal [OF rem _ True] tmp sealed_doc [OF True site] cut
      by (simp add: wp_exec i_def t_def)
  next
    case False
    then have none: "g i = None" and same: "\<forall>q. within d q \<longrightarrow> g q = f q" using start by (auto simp: i_def)
    have early: "?C (g(t := n))" if "plain n" for n
    proof -
      have "removable paths d (g(t := n))" by (rule removable_elsewhere [OF rem]) (use out in simp)
      moreover have "\<forall>q. within d q \<longrightarrow> (g(t := n)) q = f q" using same out by auto
      ultimately show ?thesis using that none it by (simp add: reset_cut_def i_def [symmetric] t_def [symmetric])
    qed
    define g' where "g' = g(t := None, i \<mapsto> Reg (Doc (reset_json d) (sz (reset_json d))))"
    have g': "removable paths d g'" "plain (g' t)" "reset_sealed sz c d g'"
      using out rem it unfolding g'_def by (auto intro!: removable_elsewhere simp: reset_sealed_def i_def)
    have cut: "?C g" using early [of "g t"] tmp by (simp add: t_def i_def)
    have cut': "?C g'" using g' by (simp add: reset_cut_def i_def t_def)
    have "wp False (io_bind (write_reset_document sz i d)
        (\<lambda>_. io_bind (io_each (remove_declared_path paths \<circ> ResetPath) (ResetRoots d)) finish)) ?Q (\<lambda>_ _. False) ?C g"
      by (rule write_reset_wp)
        (use out tmp none early cut' removal [OF g'] in \<open>simp_all add: t_def [symmetric] g'_def [symmetric] i_def [symmetric]\<close>)
    then show ?thesis unfolding run using none cut
      by (simp add: wp_exec reset_doc_def i_def)
  qed
qed


text \<open>A recovery from any cut; it returns only when nothing is left to do.\<close>

definition reset_settled :: "controller_config \<Rightarrow> reset_document \<Rightarrow> json fs \<Rightarrow> json fs \<Rightarrow> bool" where
  "reset_settled c d f h \<longleftrightarrow> h (reset_intent_path c) = None \<and> ((\<forall>q. within d q \<longrightarrow> h q = f q) \<or> gone d h)"

lemma recover_reset_wp:
  assumes site: "reset_site sz c cards d" and cut: "reset_cut sz paths c d f g"
  shows "wp False (recover_reset sz paths c (Inr cards))
    (\<lambda>_ h. reset_cut sz paths c d f h \<and> reset_settled c d f h \<and> (reset_sealed sz c d g \<longrightarrow> gone d h))
    (\<lambda>_ _. False) (reset_cut sz paths c d f) g"
proof (cases "reset_sealed sz c d g")
  case True
  have tmp: "plain (g (reset_intent_path c @ ''.tmp''))" and rem: "removable paths d g"
    using cut by (simp_all add: reset_cut_def)
  have "wp False (io_bind (run_reset_intent sz paths c cards d) (\<lambda>_. io_ret True))
      (\<lambda>_ h. reset_cut sz paths c d f h \<and> reset_settled c d f h \<and> (reset_sealed sz c d g \<longrightarrow> gone d h))
      (\<lambda>_ _. False) (reset_cut sz paths c d f) g"
    by (rule wp_bindI, rule wp_mono [OF run_reset_wp [where f = f, OF site rem tmp]])
       (use True in \<open>auto simp: wp_exec reset_settled_def\<close>)
  then show ?thesis using sealed_doc [OF True site] cut
    by (simp add: recover_reset_def wp_exec io_lift_def)
next
  case False
  define t where "t = reset_intent_path c @ ''.tmp''"
  have none: "g (reset_intent_path c) = None" and tmp: "plain (g t)" and rem: "removable paths d g"
    and roots: "(\<forall>q. within d q \<longrightarrow> g q = f q) \<or> gone d g"
    using cut False by (auto simp: reset_cut_def t_def)
  have t: "\<not> within d t" using site by (simp add: reset_site_def t_def)
  have cut': "reset_cut sz paths c d f (g(t := None))"
    using none roots t removable_elsewhere [OF rem t] by (auto simp: reset_cut_def t_def [symmetric] gone_def)
  have settled: "reset_settled c d f (g(t := None))" "reset_settled c d f g"
    using none roots t by (auto simp: reset_settled_def gone_def t_def)
  show ?thesis using none tmp cut cut' settled plain_cases [OF tmp] False
    by (auto simp: recover_reset_def wp_exec reset_doc_def remove_safe_if_exists_def remove_safe_def t_def [symmetric])
qed

lemma recover_resets_cut:
  assumes "reset_site sz c cards d"
  shows "reset_cut sz paths c d f g \<Longrightarrow> \<forall>p \<in> set ps. Fail \<notin> set p \<Longrightarrow>
    reset_cut sz paths c d f (boots (recover_reset sz paths c (Inr cards)) ps g)"
proof (induction ps arbitrary: g)
  case (Cons p ps)
  obtain r h where b: "boot (recover_reset sz paths c (Inr cards)) p g = (r, h)" by fastforce
  have "reset_cut sz paths c d f h"
    using boot_sat [OF recover_reset_wp [OF assms Cons.prems(1)] _ b] Cons.prems(2) by (cases r) auto
  then show ?case using Cons b by simp
qed simp

lemma recover_reset_clean:
  assumes "reset_site sz c cards d" and "reset_cut sz paths c d f g"
  shows "\<exists>b h. run_clean (recover_reset sz paths c (Inr cards)) g = (Ok b, h) \<and> reset_settled c d f h \<and>
    (reset_sealed sz c d g \<longrightarrow> gone d h)"
proof -
  obtain r h where b: "run_clean (recover_reset sz paths c (Inr cards)) g = (r, h)" by fastforce
  show ?thesis using run_clean_sat [OF recover_reset_wp [OF assms] b] b by (cases r) auto
qed



text \<open>Executing a plan: nothing of its roots changes before its intent is written.\<close>

definition reset_apart :: "controller_config \<Rightarrow> reset_document \<Rightarrow> bool" where
  "reset_apart c d \<longleftrightarrow>
     (let ps = [reset_intent_path c, reset_intent_path c @ ''.tmp'', reset_plan_path c,
                join_path [CfgRuntimeDir c, controller_lock_name]]
      in distinct ps \<and> (\<forall>p \<in> set ps. \<not> within d p))"

lemma reset_cut_elsewhere:
  assumes "reset_cut sz paths c d f h" and "\<not> within d p" and "p \<noteq> reset_intent_path c" and "p \<noteq> reset_intent_path c @ ''.tmp''"
  shows "reset_cut sz paths c d f (h(p := n))"
  using assms removable_elsewhere [of paths d h p n]
  by (auto simp: reset_cut_def reset_sealed_def gone_def)

lemma wp_lock:
  assumes "C f" and "E ''validate service runtime directory'' f" and "E ''is a directory'' f"
    and lock: "\<And>g. g = f \<or> g = f(join_path [dir, controller_lock_name] := Some (Reg (Junk 0))) \<Longrightarrow>
      C g \<and> (\<forall>e. E e g) \<and> wp False (k ()) Q E C g"
  shows "wp False (io_bind (acquire_controller_lock flock dir) k) Q E C f"
  using assms(1-3) lock [of f] lock [of "f(join_path [dir, controller_lock_name] := Some (Reg (Junk 0)))"]
  by (cases flock) (auto simp: acquire_controller_lock_def open_or_create_def wp_exec wp_sys_bind split: option.split)

lemma confirmed_reset_wp:
  assumes site: "reset_site sz c cards d" and apart: "reset_apart c d" and rem: "removable paths d g"
    and start: "g (reset_intent_path c) = None" "plain (g (reset_intent_path c @ ''.tmp''))" "\<forall>q. within d q \<longrightarrow> g q = f q"
  shows "wp False (confirmed_reset sz paths c cards d)
    (\<lambda>_ h. reset_cut sz paths c d f h \<and> gone d h) (\<lambda>_. reset_cut sz paths c d f) (reset_cut sz paths c d f) g"
proof -
  let ?C = "reset_cut sz paths c d f"
  let ?Q = "\<lambda>(_ :: unit) h. ?C h \<and> gone d h"
  have cut: "?C g" using rem start by (simp add: reset_cut_def)
  have ap: "\<not> within d (reset_plan_path c)" "reset_plan_path c \<noteq> reset_intent_path c"
    "reset_plan_path c \<noteq> reset_intent_path c @ ''.tmp''"
    using apart by (auto simp: reset_apart_def Let_def)
  have after: "wp False (io_bind (io_try (remove_safe (reset_plan_path c))) (\<lambda>_. io_ret ())) ?Q (\<lambda>_. ?C) ?C h"
    if h: "?C h" "gone d h" for h
    using h reset_cut_elsewhere [OF h(1) ap] ap(1)
    by (auto simp: remove_safe_def wp_exec gone_def split: option.split node.split)
  have run: "wp False (io_bind (run_reset_intent sz paths c cards d)
      (\<lambda>_. io_bind (io_try (remove_safe (reset_plan_path c))) (\<lambda>_. io_ret ()))) ?Q (\<lambda>_. ?C) ?C g"
    by (rule wp_bindI, rule wp_mono [OF run_reset_wp [where f = f, OF site rem start(2)]])
       (use after start in auto)
  show ?thesis unfolding confirmed_reset_def
    by (rule wp_bindI, rule wp_mono [OF keepsD [OF keeps_build_reset [where I = "\<lambda>h. h = g"]]])
       (use cut run in \<open>auto simp: wp_exec\<close>)
qed

lemma execute_reset_wp:
  assumes site: "reset_site sz c cards d" and apart: "reset_apart c d" and rem: "removable paths d f"
    and none: "f (reset_intent_path c) = None" and tmp: "plain (f (reset_intent_path c @ ''.tmp''))"
    and sealed: "f (reset_plan_path c) = Some (Reg (Doc (reset_json d) (sz (reset_json d))))"
  shows "wp False (execute_reset_plan sz paths c (Inr cards) flock action_id)
    (\<lambda>_ h. reset_cut sz paths c d f h \<and> gone d h) (\<lambda>_. reset_cut sz paths c d f) (reset_cut sz paths c d f) f"
proof -
  define l where "l = join_path [CfgRuntimeDir c, controller_lock_name]"
  let ?C = "reset_cut sz paths c d f"
  let ?Q = "\<lambda>(_ :: unit) h. ?C h \<and> gone d h"
  have doc: "reset_doc (f (reset_plan_path c)) = Inr (Some d)"
    using sealed_doc [of sz c d "f(reset_intent_path c := f (reset_plan_path c))"] site sealed
    by (simp add: reset_sealed_def)
  have ap: "l \<noteq> reset_intent_path c" "l \<noteq> reset_intent_path c @ ''.tmp''" "l \<noteq> reset_plan_path c" "\<not> within d l"
    using apart by (auto simp: reset_apart_def Let_def l_def)
  define rest where "rest = (\<lambda>read :: error + reset_document option. case read of
      Inr (Some sealed) \<Rightarrow>
        if ResetActionID sealed \<noteq> action_id then io_fail ''reset plan is absent, unsafe, or stale''
        else io_bind (io_lift (Inr cards)) (\<lambda>cards. confirmed_reset sz paths c cards sealed)
    | _ \<Rightarrow> io_fail ''reset plan is absent, unsafe, or stale'')"
  have locked: "?C g \<and> (\<forall>e :: error. ?C g) \<and>
      wp False (io_bind (io_try (read_reset_document (reset_plan_path c))) rest) ?Q (\<lambda>_. ?C) ?C g"
    if g: "g = f \<or> g = f(l := Some (Reg (Junk 0)))" for g
  proof -
    have start: "removable paths d g" "g (reset_intent_path c) = None" "plain (g (reset_intent_path c @ ''.tmp''))"
      "\<forall>q. within d q \<longrightarrow> g q = f q"
      using g rem tmp none ap removable_elsewhere [OF rem ap(4)] by auto
    have cut: "?C g" using start by (simp add: reset_cut_def)
    have "reset_doc (g (reset_plan_path c)) = Inr (Some d)" using g doc ap(3) by auto
    then have "wp False (io_bind (read_reset_document (reset_plan_path c)) io_ret) (\<lambda>x h. x = Some d \<and> h = g) (\<lambda>_ _. False) ?C g"
      using cut by (simp add: wp_exec)
    then have "wp False (read_reset_document (reset_plan_path c)) (\<lambda>x h. x = Some d \<and> h = g) (\<lambda>_ _. False) ?C g"
      by (simp add: io_bind_unit)
    moreover have "wp False (rest (Inr (Some d))) ?Q (\<lambda>_. ?C) ?C g"
      using confirmed_reset_wp [OF site apart start] cut by (simp add: rest_def wp_exec io_lift_def)
    ultimately show ?thesis using cut by (auto intro!: wp_try_bindI elim!: wp_mono)
  qed
  have "wp False (io_bind (acquire_controller_lock flock (CfgRuntimeDir c))
      (\<lambda>_. io_bind (io_try (read_reset_document (reset_plan_path c))) rest)) ?Q (\<lambda>_. ?C) ?C f"
    by (rule wp_lock) (use locked in \<open>simp_all add: l_def\<close>)
  then show ?thesis using locked [of f] by (simp add: execute_reset_plan_def rest_def wp_exec)
qed


text \<open>
  C11. Executing a plan is atomic: when power is lost anywhere during the execution and any number
  of times while recovering from it, the first recovery that is not interrupted returns and leaves
  either every declared path and everything below it as it was or none of it, never a part; after
  an execution that returned without an error it is none.
\<close>

theorem reset_all_or_nothing:
  assumes "reset_site sz c cards d" and "reset_apart c d" and "removable paths d f"
    and "f (reset_intent_path c) = None" and "plain (f (reset_intent_path c @ ''.tmp''))"
    and "f (reset_plan_path c) = Some (Reg (Doc (reset_json d) (sz (reset_json d))))"
    and "boot (execute_reset_plan sz paths c (Inr cards) flock action_id) p f = (r, g)"
    and "Fail \<notin> set p" and "\<forall>q \<in> set ps. Fail \<notin> set q"
  shows "\<exists>b h. run_clean (recover_reset sz paths c (Inr cards)) (boots (recover_reset sz paths c (Inr cards)) ps g) = (Ok b, h) \<and>
    ((\<forall>q. within d q \<longrightarrow> h q = f q) \<or> (\<forall>q. within d q \<longrightarrow> h q = None)) \<and>
    (r = Ok () \<longrightarrow> (\<forall>q. within d q \<longrightarrow> h q = None))"
proof -
  have sat: "case r of Ok _ \<Rightarrow> reset_cut sz paths c d f g \<and> gone d g | Failed e \<Rightarrow> reset_cut sz paths c d f g
      | Died \<Rightarrow> reset_cut sz paths c d f g \<and> Die \<in> set p"
    using boot_sat [OF execute_reset_wp [OF assms(1-6)] _ assms(7)] assms(8) by simp
  then have cut: "reset_cut sz paths c d f g" by (cases r) auto
  define f0 where "f0 = (if r = Ok () then (\<lambda>_. None) else f)"
  have "reset_cut sz paths c d f0 g"
    using cut sat by (cases r) (auto simp: f0_def reset_cut_def gone_def)
  from recover_reset_clean [OF assms(1) recover_resets_cut [OF assms(1) this assms(9)]] obtain b h where
    "run_clean (recover_reset sz paths c (Inr cards)) (boots (recover_reset sz paths c (Inr cards)) ps g) = (Ok b, h)"
    "reset_settled c d f0 h" by blast
  then show ?thesis by (cases "r = Ok ()") (auto simp: reset_settled_def gone_def f0_def)
qed

text \<open>The witnesses: one index directory with a file, on the first card of the sample configuration.\<close>

definition sample_index :: string where "sample_index = ''/a/u/Syncthing/data/index-v2.db''"

definition sample_reset :: reset_document where
  "sample_reset = \<lparr>ResetSchema = 1, ResetActionID = replicate 32 CHR ''a'', ResetAction = reset_action_index,
     ResetRoots = [\<lparr>ResetPath = sample_index, ResetFilesystem = ''/a/u'', ResetDescription = ''Syncthing derived index index-v2.db''\<rparr>],
     ResetCards = [], ResetRetained = []\<rparr>"

definition reset_paths :: "string list" where
  "reset_paths = [sample_index @ ''/a.ldb'', sample_index, ''/a/u/Syncthing/data'', ''/r'']"

definition reset_size :: "json \<Rightarrow> nat" where "reset_size _ = 200"

definition index_files :: "json fs" where
  "index_files = map_of [(sample_index @ ''/a.ldb'', Reg (Junk 3)), (sample_index, Dir), (''/a/u/Syncthing/data'', Dir)]"

definition sealed_files :: "json fs" where
  "sealed_files = index_files(''/a/u/.leaf-syncthing-reset.json'' \<mapsto> Reg (Doc (reset_json sample_reset) 200))"

definition plain_config :: controller_config where
  "plain_config = \<lparr>CfgRuntimeDir = ''/r'', CfgUserdataPath = ''/a/u'', CfgLogsPath = ''/a/u/logs'',
     CfgConfigDir = ''/a/u/Syncthing/config'', CfgDataDir = ''/a/u/Syncthing/data'', CfgUpstreamBinary = ''/o/syncthing'',
     CfgUpstreamVersion = pinned_upstream_version, CfgGUISocket = ''/r/g'', CfgControlSocket = ''/r/c'', CfgDaemonSocket = ''/r/d'',
     CfgSources = [], CfgMode = Stop_Mode, CfgAckMS = 1000, CfgWaitMS = 15000, CfgCheckBeforeStop = True, CfgRetryDelay = 0\<rparr>"

lemma plain_config_paths:
  "reset_intent_path plain_config = ''/a/u/.leaf-syncthing-reset.json''" "reset_plan_path plain_config = ''/r/reset-plan.json''"
  by code_simp+

lemma sample_reset_site: "reset_site reset_size plain_config [] sample_reset" "reset_apart plain_config sample_reset"
  by (simp_all add: reset_site_def reset_storable_def reset_apart_def Let_def reset_size_def max_reset_document_def, code_simp+)

lemma within_sample: "within sample_reset q \<longleftrightarrow> q = sample_index \<or> under sample_index q"
proof -
  have "clean sample_index = sample_index" by code_simp
  then show ?thesis by (simp add: within_def sample_reset_def)
qed

lemma index_files_dom: "index_files q \<noteq> None \<longleftrightarrow> q \<in> {sample_index @ ''/a.ldb'', sample_index, ''/a/u/Syncthing/data''}"
  by (auto simp: index_files_def)


lemma index_files_removable: "removable reset_paths sample_reset index_files"
proof (rule removableI)
  show "sorted_wrt (\<lambda>a b. \<not> under a b) reset_paths" by code_simp
  show "q \<in> set reset_paths" if "within sample_reset q" "index_files q \<noteq> None" for q
    using that(2) unfolding index_files_dom by (auto simp: reset_paths_def)
  show "index_files p = Some Dir" if p: "within sample_reset p" and q: "under p q" "index_files q \<noteq> None" for p q
  proof -
    have len: "length sample_index < length q"
      using p under_length [OF q(1)] under_length [of sample_index p] unfolding within_sample by auto
    have "q = sample_index @ ''/a.ldb''"
      using q(2) len unfolding index_files_dom by (auto simp: sample_index_def)
    moreover have "\<not> under sample_index p"
    proof
      assume "under sample_index p"
      then obtain s t where "q = sample_index @ CHR ''/'' # s @ CHR ''/'' # t" using q(1) by (auto simp: under_iff)
      then have "''a.ldb'' = s @ CHR ''/'' # t" using calculation by simp
      then have "CHR ''/'' \<in> set ''a.ldb''" by (metis in_set_conv_decomp)
      then show False by simp
    qed
    ultimately have "p = sample_index" using p within_sample by blast
    then show ?thesis by (simp add: index_files_def sample_index_def)
  qed
  show "index_files (clean (ResetPath r)) \<noteq> Some Link \<and> index_files (clean (ResetPath r)) \<noteq> Some Special"
    if "r \<in> set (ResetRoots sample_reset)" for r
    by (auto simp: index_files_def dest!: map_of_SomeD)
qed

lemma sealed_files_removable: "removable reset_paths sample_reset sealed_files"
proof -
  have "\<not> within sample_reset ''/a/u/.leaf-syncthing-reset.json''"
    using sample_reset_site(1) by (simp add: reset_site_def plain_config_paths)
  then show ?thesis unfolding sealed_files_def by (rule removable_elsewhere [OF index_files_removable])
qed


theorem reset_all_or_nothing_witness:
  "\<exists>b h. run_clean (recover_reset reset_size reset_paths plain_config (Inr []))
      (boots (recover_reset reset_size reset_paths plain_config (Inr [])) [[Die]]
        (snd (boot (execute_reset_plan reset_size reset_paths plain_config (Inr []) Lock_Taken (replicate 32 CHR ''a''))
          (replicate 20 Pass @ [Die]) (index_files(''/r/reset-plan.json'' \<mapsto> Reg (Doc (reset_json sample_reset) 200)))))) = (Ok b, h) \<and>
    (h (sample_index @ ''/a.ldb'') = Some (Reg (Junk 3)) \<longleftrightarrow> h sample_index = Some Dir)"
proof -
  define f where "f = index_files(''/r/reset-plan.json'' \<mapsto> Reg (Doc (reset_json sample_reset) 200))"
  obtain r g where b: "boot (execute_reset_plan reset_size reset_paths plain_config (Inr []) Lock_Taken (replicate 32 CHR ''a''))
      (replicate 20 Pass @ [Die]) f = (r, g)" by fastforce
  have out: "\<not> within sample_reset ''/r/reset-plan.json''"
    using sample_reset_site(2) by (simp add: reset_apart_def Let_def plain_config_paths)
  have "\<exists>b h. run_clean (recover_reset reset_size reset_paths plain_config (Inr []))
      (boots (recover_reset reset_size reset_paths plain_config (Inr [])) [[Die]] g) = (Ok b, h) \<and>
    ((\<forall>q. within sample_reset q \<longrightarrow> h q = f q) \<or> (\<forall>q. within sample_reset q \<longrightarrow> h q = None)) \<and>
    (r = Ok () \<longrightarrow> (\<forall>q. within sample_reset q \<longrightarrow> h q = None))"
    by (rule reset_all_or_nothing [OF sample_reset_site _ _ _ _ b])
       (use removable_elsewhere [OF index_files_removable out] in
          \<open>auto simp: f_def plain_config_paths index_files_def sample_index_def reset_size_def\<close>)
  moreover have "within sample_reset (sample_index @ ''/a.ldb'')" "within sample_reset sample_index"
    by (simp_all add: within_sample under_iff)
  moreover have "f (sample_index @ ''/a.ldb'') = Some (Reg (Junk 3))" "f sample_index = Some Dir"
    by (simp_all add: f_def index_files_def sample_index_def)
  ultimately show ?thesis using b unfolding f_def [symmetric] by fastforce
qed


section \<open>Two cards for one slot\<close>

lemma add_card_roots_keeps:
  "add_card_roots s ps d = Inr d' \<Longrightarrow> ResetCards d' = ResetCards d \<and> ResetRetained d' = ResetRetained d"
  by (induction ps arbitrary: d) (auto simp: add_root_def sum_bind_Inr)

lemma add_cards_mem:
  assumes "add_cards action cs d = Inr d'"
  shows "set (ResetCards d) \<subseteq> set (ResetCards d')" "set (ResetRetained d) \<subseteq> set (ResetRetained d')"
    "\<forall>c \<in> set cs. if reset_ready c then \<exists>k \<in> set (ResetCards d'). ResetCardSource k = ID (Source c)
       else action \<noteq> reset_action_full \<and> set (retained_roots (UserdataPath (Source c))) \<subseteq> set (ResetRetained d')"
proof -
  have "set (ResetCards d) \<subseteq> set (ResetCards d') \<and> set (ResetRetained d) \<subseteq> set (ResetRetained d') \<and>
    (\<forall>c \<in> set cs. if reset_ready c then \<exists>k \<in> set (ResetCards d'). ResetCardSource k = ID (Source c)
       else action \<noteq> reset_action_full \<and> set (retained_roots (UserdataPath (Source c))) \<subseteq> set (ResetRetained d'))"
    using assms
  proof (induction cs arbitrary: d)
    case (Cons c cs)
    show ?case
    proof (cases "reset_ready c")
      case False
      then show ?thesis using Cons.prems Cons.IH [of "d\<lparr>ResetRetained := ResetRetained d @ retained_roots (UserdataPath (Source c))\<rparr>"]
        by (auto split: if_splits)
    next
      case True
      define k where "k = \<lparr>ResetCardID = IID (Identity c), ResetCardSource = ID (Source c),
        ResetCardRoot = clean (Root (Source c)), ResetCardUserdata = clean (UserdataPath (Source c))\<rparr>"
      obtain d1 where d1: "add_card_roots (Source c) (retained_roots (UserdataPath (Source c))) (d\<lparr>ResetCards := ResetCards d @ [k]\<rparr>) = Inr d1"
        and rest: "add_cards action cs d1 = Inr d'"
        using Cons.prems True by (auto simp: Let_def sum_bind_Inr k_def)
      have k: "ResetCardSource k = ID (Source c)" by (simp add: k_def)
      have "ResetCards d1 = ResetCards d @ [k]" "ResetRetained d1 = ResetRetained d"
        using add_card_roots_keeps [OF d1] by simp_all
      then show ?thesis using Cons.IH [OF rest] k True by auto
    qed
  qed simp
  then show "set (ResetCards d) \<subseteq> set (ResetCards d')" "set (ResetRetained d) \<subseteq> set (ResetRetained d')"
    "\<forall>c \<in> set cs. if reset_ready c then \<exists>k \<in> set (ResetCards d'). ResetCardSource k = ID (Source c)
       else action \<noteq> reset_action_full \<and> set (retained_roots (UserdataPath (Source c))) \<subseteq> set (ResetRetained d')"
    by blast+
qed

lemma check_retained_mem: "check_retained al seen ps = Inr () \<Longrightarrow> p \<in> set ps \<Longrightarrow> clean p \<in> set al"
  by (induction al seen ps rule: check_retained.induct) (auto split: if_splits)

lemma retained_roots_clean: "p \<in> set (retained_roots u) \<Longrightarrow> u \<noteq> '''' \<Longrightarrow> clean p = p"
  using join_name_comps(4) [of "''snapshots''" "join_path [u, app_state_name]"]
    join_name_comps(4) [of "''versions''" "join_path [u, app_state_name]"] join_path_some [of "[u, app_state_name]"]
  by (auto simp: retained_roots_def Let_def name_comp_def)

lemma card_userdata_unique:
  assumes "check_reset_cards ss [] ks" and "k \<in> set ks" and "distinct (map ID ss)" and "s \<in> set ss" and "ResetCardSource k = ID s"
  shows "card_userdata ss k = UserdataPath s"
  using card_userdata_source [OF assms(1,2)] assms(3-5) by (metis distinct_map inj_onD)

lemma retained_conflict:
  assumes "distinct (map ID (CfgSources c))" and "s \<in> set (CfgSources c)" and "UserdataPath s \<noteq> ''''"
    and "k \<in> set (ResetCards d)" and "ResetCardSource k = ID s"
    and "set (retained_roots (UserdataPath s)) \<subseteq> set (ResetRetained d)"
  shows "validate_reset_document c d \<noteq> Inr ()"
proof
  assume "validate_reset_document c d = Inr ()"
  then obtain ar al where paths: "exact_reset_paths c d = Inr (ar, al)" and al: "check_retained al [] (ResetRetained d) = Inr ()"
    by (auto simp: validate_reset_document_def sum_bind_Inr split: if_splits)
  have "ResetCards d \<noteq> []" using assms(4) by auto
  then have cards: "check_reset_cards (CfgSources c) [] (ResetCards d)" and
    "al = filter (\<lambda>p. p \<notin> set (concat (map (retained_roots \<circ> card_userdata (CfgSources c)) (ResetCards d))))
      (concat (map (retained_roots \<circ> UserdataPath) (CfgSources c)))"
    using paths by (auto simp: exact_reset_paths_def Let_def split: if_splits)
  moreover have "card_userdata (CfgSources c) k = UserdataPath s"
    by (rule card_userdata_unique [OF cards assms(4,1,2,5)])
  ultimately have "p \<notin> set al" if "p \<in> set (retained_roots (UserdataPath s))" for p
    using that assms(4) by (force simp: comp_def)
  moreover have "join_path [join_path [UserdataPath s, app_state_name], ''snapshots''] \<in> set (retained_roots (UserdataPath s))"
    by (simp add: retained_roots_def Let_def)
  ultimately show False
    using check_retained_mem [OF al] assms(6) retained_roots_clean [OF _ assms(3)] by (metis subsetD)
qed

text \<open>
  When two enrolled cards were used in the same slot, so that one of them is present and the
  other, absent, is remembered there, no reset of the state can be prepared: the full reset asks
  for the absent card, and the reset of the available state, which is meant for this case, fails
  its own validation.
\<close>

theorem swapped_card_blocks_reset:
  assumes "distinct (map ID (CfgSources c))" and "s \<in> set (CfgSources c)" and "UserdataPath s \<noteq> ''''"
    and "here \<in> set inventory" and "Source here = s" and "IID (Identity here) \<noteq> ''''" and "reset_ready here"
    and "away \<in> set inventory" and "Source away = s" and "IID (Identity away) \<noteq> ''''" and "\<not> reset_ready away"
    and "action \<in> {reset_action_full, reset_action_available}"
  shows "\<exists>e. run_clean (prepare_reset_plan sz paths c inventory random action) f = (Failed e, f)"
proof -
  have enrolled: "here \<in> set (enrolled_cards inventory)" "away \<in> set (enrolled_cards inventory)"
    using assms by (simp_all add: enrolled_cards_def)
  have bad: "validate_reset_document c (sort_reset d) \<noteq> Inr ()" if st: "state_reset c inventory action = Inr d" for d
  proof -
    obtain d0 where "add_cards action (enrolled_cards inventory) d0 = Inr d"
      using st by (auto simp: state_reset_def sum_bind_Inr)
    note mem = add_cards_mem(3) [OF this]
    obtain k where "k \<in> set (ResetCards d)" "ResetCardSource k = ID s"
      using mem enrolled(1) assms(5,7) by force
    moreover have "set (retained_roots (UserdataPath s)) \<subseteq> set (ResetRetained d)"
      using mem enrolled(2) assms(9,11) by force
    ultimately show ?thesis
      by (intro retained_conflict [OF assms(1-3)]) (simp_all add: sort_reset_def)
  qed
  have act: "action \<noteq> reset_action_index" "action = reset_action_full \<or> action = reset_action_available"
    using assms(12) by (auto simp: reset_action_index_def reset_action_full_def reset_action_available_def)
  show ?thesis
  proof (cases "state_reset c inventory action")
    case (Inl e)
    then show ?thesis using act
      by (simp add: prepare_reset_plan_def build_reset_document_def io_program run_exec io_lift_def)
  next
    case (Inr d)
    then obtain e where "validate_reset_document c (sort_reset d) = Inl e"
      using bad [OF Inr] by (cases "validate_reset_document c (sort_reset d)") auto
    then show ?thesis using act Inr
      by (simp add: prepare_reset_plan_def build_reset_document_def io_program run_exec io_lift_def)
  qed
qed


definition slot_card :: "card_state \<Rightarrow> bool \<Rightarrow> char \<Rightarrow> leaf_card" where
  "slot_card st there x = \<lparr>Source = hd (CfgSources sample_config), Identity = \<lparr>IVersion = 1, IID = replicate 32 x\<rparr>, State = st,
     Present = there, Writable = there, DuplicateID = False, RetainedBytes = 0, Issues = []\<rparr>"

lemma sample_config_load: "load_controller_config ''/tmp'' sample_env_v2 (Inr ''/opt/leaf/leaf-syncthing'') = Inr sample_config"
proof -
  have "case load_controller_config ''/tmp'' sample_env_v2 (Inr ''/opt/leaf/leaf-syncthing'') of Inl _ \<Rightarrow> False | Inr c \<Rightarrow> True"
    by code_simp
  then show ?thesis by (auto simp: sample_config_def split: sum.splits)
qed

lemma sample_config_sources:
  "map ID (CfgSources sample_config) = [''primary'', ''source2''] \<and> map UserdataPath (CfgSources sample_config) = [''/a/u'', ''/b/u''] \<and>
   CfgUserdataPath sample_config = ''/a/u'' \<and> CfgDataDir sample_config = ''/a/u/Syncthing/data''"
  by code_simp

theorem swapped_card_blocks_reset_witness:
  "\<exists>e. run_clean (prepare_reset_plan reset_size reset_paths sample_config [slot_card Enrolled True CHR ''a'', slot_card Absent_Card False CHR ''b'']
      (Inr (replicate 32 CHR ''c'')) reset_action_available) index_files = (Failed e, index_files)"
proof -
  have ne: "CfgSources sample_config \<noteq> []" using sample_config_sources by (cases "CfgSources sample_config") auto
  have ids: "distinct (map ID (CfgSources sample_config))" using sample_config_sources by simp
  have u: "UserdataPath (hd (CfgSources sample_config)) \<noteq> ''''"
    using sample_config_sources by (cases "CfgSources sample_config") auto
  show ?thesis
    by (rule swapped_card_blocks_reset [where s = "hd (CfgSources sample_config)" and here = "slot_card Enrolled True CHR ''a''"
          and away = "slot_card Absent_Card False CHR ''b''"])
       (use ne ids u in \<open>auto simp: slot_card_def reset_ready_def reset_action_full_def reset_action_available_def\<close>)
qed

theorem reset_confined_witness:
  "(\<exists>u \<in> set (CfgUserdataPath sample_config # map UserdataPath (CfgSources sample_config)).
      below (join_path [u, app_state_name]) (sample_index @ ''/a.ldb'')) \<or> sample_index @ ''/a.ldb'' \<in> set (reset_files sample_config)"
proof -
  define w where "w = \<lparr>files = sealed_files, plan = []\<rparr>"
  obtain r w' where run: "recover_reset reset_size reset_paths sample_config (Inr []) w = (r, w')" by fastforce
  have "files (snd (recover_reset reset_size reset_paths sample_config (Inr []) \<lparr>files = sealed_files, plan = []\<rparr>))
      (sample_index @ ''/a.ldb'') = None" by code_simp
  then have "files w' (sample_index @ ''/a.ldb'') = None" using run by (simp add: w_def)
  moreover have "files w (sample_index @ ''/a.ldb'') \<noteq> None"
    by (simp add: w_def sealed_files_def index_files_def sample_index_def)
  moreover have "absolute_paths reset_paths" by code_simp
  ultimately show ?thesis
    by (intro reset_confined [OF sample_config_load _ disjI2 [OF run]]) auto
qed

end
