(* ===== verification/Ui_Status.thy ===== *)
theory Ui_Status
  imports Network_Profile
begin

text \<open>
  The rest of \<open>syncthing/ui.go\<close>: what the controller reads of Syncthing for its status, and the
  calls that change folders and peers.  A time is known by what the code shows of it: \<open>clock s\<close>
  is the instant that the RFC 3339 text \<open>s\<close> stands for, written in UTC to the second, and whether it
  is the zero instant (\<open>None\<close> when the text does not parse).
\<close>

section \<open>Bounded values\<close>

definition max_peer_name :: nat where "max_peer_name = 64"
definition max_folder_offers :: nat where "max_folder_offers = 32"

definition bounded_state :: "string \<Rightarrow> string" where
  "bounded_state v =
     (if v \<in> {''idle'', ''scanning'', ''scan-waiting'', ''sync-waiting'', ''sync-preparing'', ''syncing'', ''cleaning'',
         ''clean-waiting'', ''error'', ''unknown'', ''paused''} then v else ''unknown'')"

definition bounded_remote_state :: "string \<Rightarrow> string" where
  "bounded_remote_state v =
     (if v = ''valid'' then v else if v = ''paused'' then v else if v = ''notSharing'' then ''not-sharing'' else ''unknown'')"

definition nonnegative :: "int \<Rightarrow> int" where "nonnegative v = (if v < 0 then 0 else v)"

definition bounded_byte_total :: "int \<Rightarrow> int \<Rightarrow> int" where
  "bounded_byte_total left right =
     (if right < 0 then left else if left > int_max - right then int_max else left + right)"

definition max_item_total :: int where "max_item_total = 1000000000"

fun item_total :: "int \<Rightarrow> int list \<Rightarrow> int" where
  "item_total acc [] = acc"
| "item_total acc (v # vs) =
     (if nonnegative v > max_item_total - acc then max_item_total else item_total (acc + nonnegative v) vs)"

definition bounded_item_total :: "int list \<Rightarrow> int" where "bounded_item_total vs = item_total 0 vs"

definition bounded_address :: "string \<Rightarrow> string" where "bounded_address v = (if length v > 192 then take 192 v else v)"

fun contains :: "string \<Rightarrow> string \<Rightarrow> bool" where
  "contains [] p \<longleftrightarrow> p = []"
| "contains (c # s) p \<longleftrightarrow> has_prefix (c # s) p \<or> contains s p"

definition connection_kind :: "bool \<Rightarrow> string \<Rightarrow> string \<Rightarrow> string" where
  "connection_kind local typ address =
     (if contains (to_lower (typ @ '' '' @ address)) ''relay'' then ''relay'' else if local then ''local'' else ''direct'')"

definition display_peer_name :: "string \<Rightarrow> string \<Rightarrow> string" where
  "display_peer_name name device =
     (if valid_display_name (trim_space name) max_peer_name then trim_space name
      else if length device \<ge> 7 then ''Peer '' @ take 7 device else ''Peer'')"

definition display_folder_label :: "string \<Rightarrow> string \<Rightarrow> string" where
  "display_folder_label label folder =
     (if valid_display_name (trim_space label) max_folder_name then trim_space label else ''Shared folder '' @ folder)"

type_synonym clock = "string \<Rightarrow> (string \<times> bool) option"

definition bounded_offer_time :: "clock \<Rightarrow> string \<Rightarrow> string" where
  "bounded_offer_time clock v = (case clock v of None \<Rightarrow> '''' | Some (t, _) \<Rightarrow> t)"

text \<open>The sum of two \<open>int64\<close> values.\<close>

definition add64 :: "int \<Rightarrow> int \<Rightarrow> int" where "add64 a b = sint (word_of_int (a + b) :: 64 word)"

lemma item_total_bound: "0 \<le> acc \<Longrightarrow> acc \<le> max_item_total \<Longrightarrow> 0 \<le> item_total acc vs \<and> item_total acc vs \<le> max_item_total"
  by (induction vs arbitrary: acc) (auto simp: nonnegative_def max_item_total_def)

lemma bounded_item_range: "0 \<le> bounded_item_total vs" "bounded_item_total vs \<le> max_item_total"
  using item_total_bound [of 0 vs] by (auto simp: bounded_item_total_def max_item_total_def)

lemma item_total_zero: "0 \<le> acc \<Longrightarrow> item_total acc vs = 0 \<longleftrightarrow> acc = 0 \<and> (\<forall>v \<in> set vs. v \<le> 0)"
proof (induction vs arbitrary: acc)
  case (Cons v vs)
  have "0 \<le> acc + nonnegative v" using Cons.prems by (simp add: nonnegative_def)
  then show ?case
    using Cons.IH [of "acc + nonnegative v"] Cons.prems
    by (auto simp: nonnegative_def max_item_total_def split: if_splits)
qed simp

lemma bounded_item_zero: "bounded_item_total vs = 0 \<longleftrightarrow> (\<forall>v \<in> set vs. v \<le> 0)"
  by (simp add: bounded_item_total_def item_total_zero)

lemma bounded_byte_zero: "0 \<le> a \<Longrightarrow> 0 \<le> b \<Longrightarrow> bounded_byte_total a b = 0 \<longleftrightarrow> a = 0 \<and> b = 0"
  by (auto simp: bounded_byte_total_def int_max_def)

lemma bounded_byte_nonneg: "0 \<le> a \<Longrightarrow> 0 \<le> bounded_byte_total a b"
  by (auto simp: bounded_byte_total_def int_max_def)

lemma nonnegative_ge [simp]: "0 \<le> nonnegative v" "nonnegative v = 0 \<longleftrightarrow> v \<le> 0" "nonnegative v > 0 \<longleftrightarrow> v > 0"
  by (auto simp: nonnegative_def)

section \<open>What Syncthing answers\<close>

text \<open>A map of the reply: every value is decoded afresh, a later key replaces an earlier one.\<close>

fun put_entries :: "(json \<Rightarrow> error + 'a) \<Rightarrow> (string \<times> json) list \<Rightarrow> (string \<times> 'a) list \<Rightarrow> error + (string \<times> 'a) list" where
  "put_entries decode [] m = Inr m"
| "put_entries decode ((k, v) # kvs) m = sum_bind (decode v) (\<lambda>x. put_entries decode kvs (map_put k x m))"

definition decode_map :: "(json \<Rightarrow> error + 'a) \<Rightarrow> (string \<times> 'a) list \<Rightarrow> json \<Rightarrow> error + (string \<times> 'a) list" where
  "decode_map decode m v = (case v of
     JNull \<Rightarrow> Inr [] | JObj kvs \<Rightarrow> put_entries decode kvs m | _ \<Rightarrow> Inl ''cannot unmarshal into map'')"

record ui_device =
  DevID :: string
  DevName :: string
  DevPaused :: bool
  DevIntroducer :: bool
  DevIntroducedBy :: string

definition ui_device_spec :: "(string \<times> ui_device setter) list" where
  "ui_device_spec = [(''deviceID'', set_string (\<lambda>x d. d\<lparr>DevID := x\<rparr>)), (''name'', set_string (\<lambda>x d. d\<lparr>DevName := x\<rparr>)),
     (''paused'', set_bool (\<lambda>x d. d\<lparr>DevPaused := x\<rparr>)), (''introducer'', set_bool (\<lambda>x d. d\<lparr>DevIntroducer := x\<rparr>)),
     (''introducedBy'', set_string (\<lambda>x d. d\<lparr>DevIntroducedBy := x\<rparr>))]"

definition decode_ui_device :: "json \<Rightarrow> error + ui_device" where
  "decode_ui_device = decode_struct False ui_device_spec
     \<lparr>DevID = '''', DevName = '''', DevPaused = False, DevIntroducer = False, DevIntroducedBy = ''''\<rparr>"

record ui_connection =
  ConConnected :: bool
  ConPaused :: bool
  ConAddress :: string
  ConType :: string
  ConLocal :: bool
  ConIn :: int
  ConOut :: int

definition no_connection :: ui_connection where
  "no_connection = \<lparr>ConConnected = False, ConPaused = False, ConAddress = '''', ConType = '''', ConLocal = False,
     ConIn = 0, ConOut = 0\<rparr>"

definition ui_connection_spec :: "(string \<times> ui_connection setter) list" where
  "ui_connection_spec = [(''connected'', set_bool (\<lambda>x c. c\<lparr>ConConnected := x\<rparr>)),
     (''paused'', set_bool (\<lambda>x c. c\<lparr>ConPaused := x\<rparr>)), (''address'', set_string (\<lambda>x c. c\<lparr>ConAddress := x\<rparr>)),
     (''type'', set_string (\<lambda>x c. c\<lparr>ConType := x\<rparr>)), (''isLocal'', set_bool (\<lambda>x c. c\<lparr>ConLocal := x\<rparr>)),
     (''inBytesTotal'', set_int (\<lambda>x c. c\<lparr>ConIn := x\<rparr>)), (''outBytesTotal'', set_int (\<lambda>x c. c\<lparr>ConOut := x\<rparr>))]"

definition decode_ui_connections :: "json \<Rightarrow> error + (string \<times> ui_connection) list" where
  "decode_ui_connections =
     decode_struct False [(''connections'', decode_map (decode_struct False ui_connection_spec no_connection))] []"

record ui_db_status =
  DbState :: string
  DbLocalBytes :: int
  DbGlobalBytes :: int
  DbNeedBytes :: int
  DbNeedItems :: int
  DbLocalFiles :: int
  DbLocalDirectories :: int
  DbLocalSymlinks :: int
  DbGlobalFiles :: int
  DbGlobalDirectories :: int
  DbGlobalSymlinks :: int
  DbErrors :: int
  DbPullErrors :: int
  DbStateChange :: string

definition zero_db_status :: ui_db_status where
  "zero_db_status = \<lparr>DbState = '''', DbLocalBytes = 0, DbGlobalBytes = 0, DbNeedBytes = 0, DbNeedItems = 0,
     DbLocalFiles = 0, DbLocalDirectories = 0, DbLocalSymlinks = 0, DbGlobalFiles = 0, DbGlobalDirectories = 0,
     DbGlobalSymlinks = 0, DbErrors = 0, DbPullErrors = 0, DbStateChange = ''''\<rparr>"

definition db_status_spec :: "(string \<times> ui_db_status setter) list" where
  "db_status_spec = [
     (''state'', set_string (\<lambda>x d. d\<lparr>DbState := x\<rparr>)), (''localBytes'', set_int (\<lambda>x d. d\<lparr>DbLocalBytes := x\<rparr>)),
     (''globalBytes'', set_int (\<lambda>x d. d\<lparr>DbGlobalBytes := x\<rparr>)), (''needBytes'', set_int (\<lambda>x d. d\<lparr>DbNeedBytes := x\<rparr>)),
     (''needTotalItems'', set_int (\<lambda>x d. d\<lparr>DbNeedItems := x\<rparr>)), (''localFiles'', set_int (\<lambda>x d. d\<lparr>DbLocalFiles := x\<rparr>)),
     (''localDirectories'', set_int (\<lambda>x d. d\<lparr>DbLocalDirectories := x\<rparr>)),
     (''localSymlinks'', set_int (\<lambda>x d. d\<lparr>DbLocalSymlinks := x\<rparr>)), (''globalFiles'', set_int (\<lambda>x d. d\<lparr>DbGlobalFiles := x\<rparr>)),
     (''globalDirectories'', set_int (\<lambda>x d. d\<lparr>DbGlobalDirectories := x\<rparr>)),
     (''globalSymlinks'', set_int (\<lambda>x d. d\<lparr>DbGlobalSymlinks := x\<rparr>)), (''errors'', set_int (\<lambda>x d. d\<lparr>DbErrors := x\<rparr>)),
     (''pullErrors'', set_int (\<lambda>x d. d\<lparr>DbPullErrors := x\<rparr>)), (''stateChanged'', set_string (\<lambda>x d. d\<lparr>DbStateChange := x\<rparr>))]"

definition decode_db_status :: "json \<Rightarrow> error + ui_db_status" where
  "decode_db_status = decode_struct False db_status_spec zero_db_status"

record ui_completion =
  CompBytes :: int
  CompItems :: int
  CompDeletes :: int
  CompRemote :: string

definition zero_completion :: ui_completion where
  "zero_completion = \<lparr>CompBytes = 0, CompItems = 0, CompDeletes = 0, CompRemote = ''''\<rparr>"

definition completion_spec :: "(string \<times> ui_completion setter) list" where
  "completion_spec = [(''needBytes'', set_int (\<lambda>x c. c\<lparr>CompBytes := x\<rparr>)), (''needItems'', set_int (\<lambda>x c. c\<lparr>CompItems := x\<rparr>)),
     (''needDeletes'', set_int (\<lambda>x c. c\<lparr>CompDeletes := x\<rparr>)), (''remoteState'', set_string (\<lambda>x c. c\<lparr>CompRemote := x\<rparr>))]"

definition decode_completion :: "json \<Rightarrow> error + ui_completion" where
  "decode_completion = decode_struct False completion_spec zero_completion"

text \<open>A time in a reply: a text that must parse; \<open>null\<close> leaves it alone.\<close>

definition set_time :: "clock \<Rightarrow> ((string \<times> bool) \<Rightarrow> 's \<Rightarrow> 's) \<Rightarrow> 's setter" where
  "set_time clock upd s v = (case v of
     JNull \<Rightarrow> Inr s
   | JStr x \<Rightarrow> (case clock x of None \<Rightarrow> Inl ''cannot parse time'' | Some t \<Rightarrow> Inr (upd t s))
   | _ \<Rightarrow> Inl ''cannot parse time'')"

definition zero_time :: "string \<times> bool" where "zero_time = (''0001-01-01T00:00:00Z'', True)"

definition decode_stats :: "clock \<Rightarrow> json \<Rightarrow> error + (string \<times> (string \<times> bool)) list" where
  "decode_stats clock = decode_map
     (decode_struct False [(''lastFile'', set_struct False [(''at'', set_time clock (\<lambda>t _. t))] (\<lambda>s. s) (\<lambda>t _. t))] zero_time) []"

record offer_entry =
  OfferTime :: string
  OfferLabel :: string
  OfferReceive :: bool
  OfferRemote :: bool

definition offer_spec :: "(string \<times> offer_entry setter) list" where
  "offer_spec = [(''time'', set_string (\<lambda>x p. p\<lparr>OfferTime := x\<rparr>)), (''label'', set_string (\<lambda>x p. p\<lparr>OfferLabel := x\<rparr>)),
     (''receiveEncrypted'', set_bool (\<lambda>x p. p\<lparr>OfferReceive := x\<rparr>)), (''remoteEncrypted'', set_bool (\<lambda>x p. p\<lparr>OfferRemote := x\<rparr>))]"

definition decode_pending_folders :: "json \<Rightarrow> error + (string \<times> (string \<times> offer_entry) list) list" where
  "decode_pending_folders = decode_map (decode_struct False [(''offeredBy'', decode_map (decode_struct False offer_spec
     \<lparr>OfferTime = '''', OfferLabel = '''', OfferReceive = False, OfferRemote = False\<rparr>))] []) []"

definition decode_pending_devices :: "json \<Rightarrow> error + (string \<times> string) list" where
  "decode_pending_devices = decode_map (decode_struct False [(''name'', set_string (\<lambda>x _. x))] '''') []"

section \<open>The status\<close>

record ui_folder_status =
  UfID :: string
  UfState :: string
  UfLocalBytes :: int
  UfGlobalBytes :: int
  UfLocalItems :: int
  UfGlobalItems :: int
  UfNeedBytes :: int
  UfNeedItems :: int
  UfRemoteState :: string
  UfRemotePeer :: string
  UfRemoteBytes :: int
  UfRemoteItems :: int
  UfErrors :: int
  UfPullErrors :: int
  UfLastActivity :: string

record ui_peer_status =
  UpID :: string
  UpName :: string
  UpState :: string
  UpConnection :: string
  UpAddress :: string
  UpPaused :: bool
  UpIntroducer :: bool
  UpIntroducedBy :: string
  UpPending :: bool

record ui_transfer =
  TrState :: string
  TrLocal :: int
  TrGlobal :: int
  TrNeed :: int
  TrIn :: int
  TrOut :: int

record ui_offer =
  OfFolder :: string
  OfLabel :: string
  OfDevice :: string
  OfDeviceName :: string
  OfOfferedAt :: string
  OfReceive :: bool
  OfRemote :: bool

record ui_status =
  UsFolders :: "(string \<times> ui_folder_status) list"
  UsPeers :: "ui_peer_status list"
  UsOffers :: "ui_offer list"
  UsTransfer :: ui_transfer

text \<open>\<open>url.Values.Encode\<close>: the keys in order, every value escaped for a query.\<close>

definition query_safe :: "char \<Rightarrow> bool" where
  "query_safe c \<longleftrightarrow> (CHR ''a'' \<le> c \<and> c \<le> CHR ''z'') \<or> (CHR ''A'' \<le> c \<and> c \<le> CHR ''Z'') \<or>
     (CHR ''0'' \<le> c \<and> c \<le> CHR ''9'') \<or> c \<in> set ''-_.~''"

definition query_escape :: "string \<Rightarrow> string" where
  "query_escape s = concat (map (\<lambda>c. if query_safe c then [c] else if c = CHR '' '' then ''+''
     else [CHR ''%'', ''0123456789ABCDEF'' ! (of_char c div 16), ''0123456789ABCDEF'' ! (of_char c mod 16)]) s)"

definition db_status_path :: "string \<Rightarrow> string" where
  "db_status_path folder = ''/rest/db/status?folder='' @ query_escape folder"

definition completion_path :: "string \<Rightarrow> string \<Rightarrow> string" where
  "completion_path device folder =
     ''/rest/db/completion?device='' @ query_escape device @ ''&folder='' @ query_escape folder"

definition start_folder_status :: "clock \<Rightarrow> (string \<times> (string \<times> bool)) list \<Rightarrow> string \<Rightarrow> ui_db_status \<Rightarrow> ui_folder_status" where
  "start_folder_status clock stats i d =
     \<lparr>UfID = i, UfState = bounded_state (DbState d), UfLocalBytes = nonnegative (DbLocalBytes d),
      UfGlobalBytes = nonnegative (DbGlobalBytes d),
      UfLocalItems = bounded_item_total [DbLocalFiles d, DbLocalDirectories d, DbLocalSymlinks d],
      UfGlobalItems = bounded_item_total [DbGlobalFiles d, DbGlobalDirectories d, DbGlobalSymlinks d],
      UfNeedBytes = nonnegative (DbNeedBytes d), UfNeedItems = bounded_item_total [DbNeedItems d],
      UfRemoteState = ''local-only'', UfRemotePeer = '''', UfRemoteBytes = 0, UfRemoteItems = 0,
      UfErrors = nonnegative (DbErrors d), UfPullErrors = nonnegative (DbPullErrors d),
      UfLastActivity = (case map_of stats i of
          Some (t, False) \<Rightarrow> t
        | _ \<Rightarrow> (case clock (DbStateChange d) of Some (t, _) \<Rightarrow> t | None \<Rightarrow> ''''))\<rparr>"

text \<open>The loop over the devices of a folder: the row, the first peer that needs attention, the first with pending work.\<close>

record peer_scan =
  ScanRow :: ui_folder_status
  ScanCount :: nat
  ScanAttention :: "(string \<times> string) option"
  ScanPending :: string

definition attend :: "string \<Rightarrow> string \<Rightarrow> peer_scan \<Rightarrow> peer_scan" where
  "attend state peer p = (if ScanAttention p = None then p\<lparr>ScanAttention := Some (state, peer)\<rparr> else p)"

definition last_device :: "ui_device list \<Rightarrow> string \<Rightarrow> ui_device option" where
  "last_device devices d = find (\<lambda>x. DevID x = d) (rev devices)"

definition connection_of :: "(string \<times> ui_connection) list \<Rightarrow> string \<Rightarrow> ui_connection" where
  "connection_of connections d = (case map_of connections d of None \<Rightarrow> no_connection | Some c \<Rightarrow> c)"

definition add_completion :: "string \<Rightarrow> ui_completion \<Rightarrow> peer_scan \<Rightarrow> peer_scan" where
  "add_completion peer c p =
     (let state = bounded_remote_state (CompRemote c);
          bytes = nonnegative (CompBytes c); items = bounded_item_total [CompItems c, CompDeletes c];
          row = ScanRow p
      in if state \<noteq> ''valid'' then attend state peer p
         else p\<lparr>ScanRow := row\<lparr>UfRemoteBytes := bounded_byte_total (UfRemoteBytes row) bytes,
                                UfRemoteItems := bounded_item_total [UfRemoteItems row, items]\<rparr>,
                ScanPending := (if ScanPending p = '''' \<and> (bytes > 0 \<or> items > 0) then peer else ScanPending p)\<rparr>)"

fun scan_peers :: "(string \<Rightarrow> json option) \<Rightarrow> 'u server \<Rightarrow> ui_device list \<Rightarrow> (string \<times> ui_connection) list \<Rightarrow> string \<Rightarrow>
    string \<Rightarrow> string list \<Rightarrow> peer_scan \<Rightarrow> ('u, peer_scan) up" where
  "scan_peers parse server devices connections self folder [] p = up_ret p"
| "scan_peers parse server devices connections self folder (d # ds) p =
     (if d = self then scan_peers parse server devices connections self folder ds p
      else
        let p = p\<lparr>ScanCount := Suc (ScanCount p)\<rparr>;
            device = last_device devices d;
            peer = display_peer_name (case device of None \<Rightarrow> '''' | Some x \<Rightarrow> DevName x) d;
            c = connection_of connections d;
            next = scan_peers parse server devices connections self folder ds
        in if device = None \<or> \<not> ConConnected c then next (attend ''offline'' peer p)
           else if DevPaused (the device) \<or> ConPaused c then next (attend ''paused'' peer p)
           else up_bind (api_read parse server (completion_path d folder) zero_completion decode_completion) (\<lambda>x.
             next (add_completion peer x p)))"

definition close_folder_status :: "peer_scan \<Rightarrow> ui_folder_status" where
  "close_folder_status p =
     (let row = ScanRow p
      in case ScanAttention p of
           Some (state, peer) \<Rightarrow> row\<lparr>UfRemoteState := state, UfRemotePeer := peer\<rparr>
         | None \<Rightarrow>
             if UfRemoteBytes row > 0 \<or> UfRemoteItems row > 0
             then row\<lparr>UfRemoteState := ''syncing'', UfRemotePeer := ScanPending p\<rparr>
             else if ScanCount p > 0 then row\<lparr>UfRemoteState := ''current''\<rparr> else row)"

definition add_transfer :: "ui_folder_status \<Rightarrow> ui_transfer \<Rightarrow> ui_transfer" where
  "add_transfer row t = t\<lparr>TrLocal := add64 (TrLocal t) (UfLocalBytes row), TrGlobal := add64 (TrGlobal t) (UfGlobalBytes row),
     TrNeed := add64 (TrNeed t) (UfNeedBytes row),
     TrState := (if UfState row \<in> {''syncing'', ''scanning'', ''sync-preparing''} then UfState row else TrState t)\<rparr>"

fun read_folder_statuses :: "(string \<Rightarrow> json option) \<Rightarrow> 'u server \<Rightarrow> clock \<Rightarrow> ui_device list \<Rightarrow>
    (string \<times> ui_connection) list \<Rightarrow> (string \<times> (string \<times> bool)) list \<Rightarrow> string \<Rightarrow> configured_folder list \<Rightarrow>
    ui_status \<Rightarrow> ('u, ui_status) up" where
  "read_folder_statuses parse server clock devices connections stats self [] s = up_ret s"
| "read_folder_statuses parse server clock devices connections stats self (f # fs) s =
     up_bind (api_read parse server (db_status_path (FID f)) zero_db_status decode_db_status) (\<lambda>d.
     up_bind (scan_peers parse server devices connections self (FID f) (FDevices f)
        \<lparr>ScanRow = start_folder_status clock stats (FID f) d, ScanCount = 0, ScanAttention = None, ScanPending = ''''\<rparr>) (\<lambda>p.
       let row = close_folder_status p
       in read_folder_statuses parse server clock devices connections stats self fs
            (s\<lparr>UsFolders := map_put (FID f) row (UsFolders s), UsTransfer := add_transfer row (UsTransfer s)\<rparr>)))"

definition peer_row :: "ui_connection \<Rightarrow> ui_device \<Rightarrow> ui_peer_status" where
  "peer_row c d =
     (let row = \<lparr>UpID = DevID d, UpName = display_peer_name (DevName d) (DevID d), UpState = ''offline'',
            UpConnection = ''none'', UpAddress = bounded_address (ConAddress c), UpPaused = DevPaused d,
            UpIntroducer = DevIntroducer d, UpIntroducedBy = DevIntroducedBy d, UpPending = False\<rparr>
      in if DevPaused d \<or> ConPaused c then row\<lparr>UpState := ''paused''\<rparr>
         else if ConConnected c
         then row\<lparr>UpState := ''connected'', UpConnection := connection_kind (ConLocal c) (ConType c) (ConAddress c)\<rparr>
         else row)"

fun configured_peers :: "(string \<times> ui_connection) list \<Rightarrow> string \<Rightarrow> ui_device list \<Rightarrow> ui_transfer \<Rightarrow> ui_peer_status list \<times> ui_transfer" where
  "configured_peers connections self [] t = ([], t)"
| "configured_peers connections self (d # ds) t =
     (if DevID d = '''' \<or> DevID d = self then configured_peers connections self ds t
      else
        let c = connection_of connections (DevID d);
            t = t\<lparr>TrIn := add64 (TrIn t) (nonnegative (ConIn c)), TrOut := add64 (TrOut t) (nonnegative (ConOut c))\<rparr>
        in case configured_peers connections self ds t of (rows, t') \<Rightarrow> (peer_row c d # rows, t'))"

definition pending_peer :: "string \<Rightarrow> string \<Rightarrow> ui_peer_status" where
  "pending_peer device name =
     \<lparr>UpID = device, UpName = display_peer_name name device, UpState = ''pending'', UpConnection = ''none'', UpAddress = '''',
      UpPaused = False, UpIntroducer = False, UpIntroducedBy = '''', UpPending = True\<rparr>"

text \<open>
  The peers, pending ones first and by name.  The code ranges over a Go map and sorts with a sort
  that is not stable, so peers of the same name may come in any order there; here they keep the
  order of the device list and of the ids.
\<close>

definition sort_peers :: "ui_peer_status list \<Rightarrow> ui_peer_status list" where
  "sort_peers ps = sort_key UpName (filter UpPending ps) @ sort_key UpName (filter (\<lambda>p. \<not> UpPending p) ps)"

definition all_peers :: "ui_peer_status list \<Rightarrow> (string \<times> string) list \<Rightarrow> string \<Rightarrow> ui_peer_status list" where
  "all_peers rows pending self =
     sort_peers (rows @ map (\<lambda>(d, name). pending_peer d name)
       (filter (\<lambda>(d, _). d \<noteq> '''' \<and> d \<notin> UpID ` set rows \<and> d \<noteq> self) pending))"

definition peer_name_of :: "ui_peer_status list \<Rightarrow> string \<Rightarrow> string" where
  "peer_name_of peers d = (case find (\<lambda>p. UpID p = d) (rev peers) of None \<Rightarrow> '''' | Some p \<Rightarrow> UpName p)"

fun offers_of :: "clock \<Rightarrow> ui_peer_status list \<Rightarrow> string \<Rightarrow> string \<Rightarrow> (string \<times> offer_entry) list \<Rightarrow> ui_offer list \<Rightarrow> ui_offer list" where
  "offers_of clock peers self folder [] acc = acc"
| "offers_of clock peers self folder ((d, p) # ps) acc =
     (case normalize_device_id d of
        Inl _ \<Rightarrow> offers_of clock peers self folder ps acc
      | Inr n \<Rightarrow>
          if n = self \<or> length acc \<ge> max_folder_offers then offers_of clock peers self folder ps acc
          else offers_of clock peers self folder ps (acc @
            [\<lparr>OfFolder = folder, OfLabel = display_folder_label (OfferLabel p) folder, OfDevice = n,
              OfDeviceName = display_peer_name (peer_name_of peers n) n,
              OfOfferedAt = bounded_offer_time clock (OfferTime p), OfReceive = OfferReceive p, OfRemote = OfferRemote p\<rparr>]))"

fun all_offers :: "clock \<Rightarrow> ui_peer_status list \<Rightarrow> string \<Rightarrow> (string \<times> (string \<times> offer_entry) list) list \<Rightarrow> ui_offer list \<Rightarrow> ui_offer list" where
  "all_offers clock peers self [] acc = acc"
| "all_offers clock peers self ((folder, by) # fs) acc =
     all_offers clock peers self fs (if valid_folder_id folder then offers_of clock peers self folder by acc else acc)"

definition empty_ui_status :: ui_status where
  "empty_ui_status = \<lparr>UsFolders = [], UsPeers = [], UsOffers = [],
     UsTransfer = \<lparr>TrState = ''idle'', TrLocal = 0, TrGlobal = 0, TrNeed = 0, TrIn = 0, TrOut = 0\<rparr>\<rparr>"

text \<open>\<open>ReadUIStatus\<close>.  A Go map is kept in the order of its keys, which is the order the code sorts them in.\<close>

definition read_ui_status :: "(string \<Rightarrow> json option) \<Rightarrow> 'u server \<Rightarrow> clock \<Rightarrow> configured_folder list \<Rightarrow> string \<Rightarrow> ('u, ui_status) up" where
  "read_ui_status parse server clock folders self =
     up_bind (api_read parse server ''/rest/config/devices'' [] (decode_slice decode_ui_device)) (\<lambda>devices.
     up_bind (api_read parse server ''/rest/system/connections'' [] decode_ui_connections) (\<lambda>connections.
     up_bind (api_read parse server ''/rest/cluster/pending/devices'' [] decode_pending_devices) (\<lambda>pending.
     up_bind (api_read parse server ''/rest/cluster/pending/folders'' [] decode_pending_folders) (\<lambda>offered.
     up_bind (api_read parse server ''/rest/stats/folder'' [] (decode_stats clock)) (\<lambda>stats.
     up_bind (read_folder_statuses parse server clock devices connections stats self folders empty_ui_status) (\<lambda>s.
       case configured_peers connections self devices (UsTransfer s) of
         (rows, t) \<Rightarrow>
           let peers = all_peers rows pending self
           in up_ret (s\<lparr>UsPeers := peers, UsOffers := all_offers clock peers self offered [], UsTransfer := t\<rparr>)))))))"

lemma offers_bounded: "length acc \<le> max_folder_offers \<Longrightarrow> length (offers_of clock peers self folder ps acc) \<le> max_folder_offers"
  by (induction ps arbitrary: acc) (auto split: sum.split)

definition good_offer :: "string \<Rightarrow> ui_offer \<Rightarrow> bool" where
  "good_offer self p \<longleftrightarrow> canonical_device (OfDevice p) \<and> OfDevice p \<noteq> self \<and> valid_folder_id (OfFolder p)"

lemma offers_good:
  assumes "valid_folder_id folder"
  shows "list_all (good_offer self) acc \<Longrightarrow> list_all (good_offer self) (offers_of clock peers self folder ps acc)"
proof (induction ps arbitrary: acc)
  case (Cons e ps)
  obtain d p where e: "e = (d, p)" by fastforce
  show ?case
  proof (cases "normalize_device_id d")
    case (Inr n)
    with normalize_canonical [OF Inr] assms Cons show ?thesis by (simp add: e good_offer_def)
  qed (simp add: e Cons)
qed simp

lemma all_offers_sound:
  "length acc \<le> max_folder_offers \<Longrightarrow> list_all (good_offer self) acc \<Longrightarrow>
   length (all_offers clock peers self fs acc) \<le> max_folder_offers \<and> list_all (good_offer self) (all_offers clock peers self fs acc)"
proof (induction fs arbitrary: acc)
  case (Cons e fs)
  obtain folder ps where e: "e = (folder, ps)" by fastforce
  show ?case
    unfolding e all_offers.simps
    by (rule Cons.IH) (simp_all add: Cons.prems offers_bounded offers_good)
qed simp

section \<open>Changes\<close>

definition rescan_folder :: "(string \<Rightarrow> json option) \<Rightarrow> 'u server \<Rightarrow> string \<Rightarrow> ('u, unit) up" where
  "rescan_folder parse server i =
     (if \<not> valid_folder_id i then up_fail ''invalid managed folder id''
      else api_send parse server POST (''/rest/db/scan?folder='' @ query_escape i) None)"

definition rename_folder :: "(string \<Rightarrow> json option) \<Rightarrow> 'u server \<Rightarrow> string \<Rightarrow> string \<Rightarrow> ('u, unit) up" where
  "rename_folder parse server i label =
     (if \<not> valid_folder_id i \<or> \<not> valid_display_name (trim_space label) max_folder_name then up_fail ''invalid managed folder label''
      else api_send parse server PATCH (folder_path i) (Some (JObj [(''label'', JStr (trim_space label))])))"

definition add_peer :: "(string \<Rightarrow> json option) \<Rightarrow> 'u server \<Rightarrow> string \<Rightarrow> string \<Rightarrow> string list \<Rightarrow> ('u, unit) up" where
  "add_peer parse server raw name networks =
     up_bind (up_lift (normalize_device_id raw)) (\<lambda>d.
       let name = (if trim_space name = '''' then ''Syncthing peer'' else trim_space name)
       in if \<not> valid_display_name name max_peer_name then up_fail ''invalid peer name''
          else api_send parse server POST ''/rest/config/devices'' (Some (JObj [
            (''addresses'', JArr [JStr ''dynamic'']), (''allowedNetworks'', if networks = [] then JNull else JArr (map JStr networks)),
            (''autoAcceptFolders'', JBool False), (''deviceID'', JStr d), (''introducer'', JBool False),
            (''name'', JStr name), (''paused'', JBool False)])))"

definition rename_peer :: "(string \<Rightarrow> json option) \<Rightarrow> 'u server \<Rightarrow> string \<Rightarrow> string \<Rightarrow> ('u, unit) up" where
  "rename_peer parse server raw name =
     up_bind (up_lift (normalize_device_id raw)) (\<lambda>d.
       if \<not> valid_display_name (trim_space name) max_peer_name then up_fail ''invalid peer name''
       else patch_device parse server d [(''name'', JStr (trim_space name))])"

definition configured_peer_present :: "(string \<Rightarrow> json option) \<Rightarrow> 'u server \<Rightarrow> string \<Rightarrow> ('u, bool) up" where
  "configured_peer_present parse server d =
     up_bind (api_read parse server ''/rest/config/devices'' [] (decode_slice decode_ui_device)) (\<lambda>devices.
     up_bind (up_lift (collect_devices ''configured device list is invalid or duplicated'' [] (map DevID devices))) (\<lambda>ds.
       up_ret (d \<in> set ds)))"

definition remove_peer :: "(string \<Rightarrow> json option) \<Rightarrow> 'u server \<Rightarrow> string \<Rightarrow> string \<Rightarrow> ('u, unit) up" where
  "remove_peer parse server raw self_raw =
     up_bind (up_lift (normalize_device_id raw)) (\<lambda>d.
       if (case normalize_device_id self_raw of Inl _ \<Rightarrow> True | Inr self \<Rightarrow> d = self)
       then up_fail ''cannot remove the local Syncthing device''
       else up_bind (configured_peer_present parse server d) (\<lambda>present.
         if \<not> present then up_ret ()
         else up_bind (api_send parse server DELETE (device_config_path d) None) (\<lambda>_.
           up_bind (configured_peer_present parse server d) (\<lambda>still.
             if still then up_fail ''upstream peer remained configured after removal'' else up_ret ()))))"

end
