(* ===== verification/Game_Check.thy ===== *)
theory Game_Check
  imports Ui_Status Folder_Reconcile Life_Client
begin

text \<open>
  The check before a game starts: \<open>controller/game_check.go\<close> and \<open>syncthing/game_check.go\<close>.  Jawaka
  asks before it launches a game; the answer \<open>stop\<close> lets it stop Syncthing and start the game, so it
  may be given only when everything is in sync.  A read sends its requests at the same time, so what
  it sees is a function from the path of a request to its answer; the loop around it gets a list of
  reads, one per round, with the time that each takes.  Times are in nanoseconds from the start of
  the loop; only reads and timers take time, and a read ends when its context does.
\<close>

section \<open>The folders of a game\<close>

definition row_safe_for_action :: "folder_row \<Rightarrow> bool" where
  "row_safe_for_action row \<longleftrightarrow> RowCard row \<noteq> '''' \<and> (\<forall>code \<in> set (RowIssues row). code = ''folder-sync-error'')"

definition game_card :: "event \<Rightarrow> leaf_card list \<Rightarrow> error + leaf_card" where
  "game_card ev inventory = (case filter (\<lambda>c. ID (Source c) = event.SourceID ev) inventory of
     [] \<Rightarrow> Inl ''game source does not resolve to one enrolled present card''
   | [c] \<Rightarrow>
       if IID (Identity c) = '''' \<or> State c \<noteq> Enrolled \<or> \<not> Present c \<or> \<not> Writable c \<or> DuplicateID c
       then Inl ''game source does not resolve to one enrolled present card''
       else if clean (event.SavesPath ev) \<noteq> clean (managed_content_path (Source c) ''saves'') \<or>
               clean (event.StatesPath ev) \<noteq> clean (managed_content_path (Source c) ''states'')
       then Inl ''game paths do not match the resolved card'' else Inr c
   | _ \<Rightarrow> Inl ''game source resolves to multiple cards'')"

definition last_folder :: "configured_folder list \<Rightarrow> string \<Rightarrow> configured_folder option" where
  "last_folder folders i = find (\<lambda>f. FID f = i) (rev folders)"

definition last_row :: "folder_row list \<Rightarrow> string \<Rightarrow> folder_row option" where
  "last_row rows i = find (\<lambda>r. RowID r = i) (rev rows)"

text \<open>The loop over the control records; the code ranges over a Go map, whose order only selects which error is given.\<close>

fun checked_folders :: "leaf_card \<Rightarrow> configured_folder list \<Rightarrow> folder_row list \<Rightarrow> (string \<times> control_record) list \<Rightarrow>
    error + configured_folder list" where
  "checked_folders c folders rows [] = Inr []"
| "checked_folders c folders rows ((i, r) # rs) =
     (if CardID r \<noteq> IID (Identity c) \<or> Kind r \<notin> {''saves'', ''states''} then checked_folders c folders rows rs
      else if \<not> complete_folder_binding r \<or> FirstSync r \<or> PendingAdd r \<or> PendingMembership r \<noteq> '''' \<or> PendingStop r
      then Inl ''managed folder is not ready''
      else case last_folder folders i of
        None \<Rightarrow> Inl ''managed folder does not match its card binding''
      | Some folder \<Rightarrow>
          if FKind folder \<noteq> Kind r \<or> clean (FPath folder) \<noteq> clean (managed_content_path (Source c) (Kind r))
          then Inl ''managed folder does not match its card binding''
          else (case last_row rows i of
            None \<Rightarrow> Inl ''managed folder is not safe to check''
          | Some row \<Rightarrow>
              if RowPaused row \<or> \<not> row_safe_for_action row then Inl ''managed folder is not safe to check''
              else sum_bind (checked_folders c folders rows rs) (\<lambda>fs. Inr (folder # fs))))"

definition folders_for_game_check :: "event \<Rightarrow> leaf_card list \<Rightarrow> configured_folder list \<Rightarrow> (string \<times> control_record) list \<Rightarrow>
    ('d, configured_folder list) io" where
  "folders_for_game_check ev inventory folders controls =
     io_bind (io_lift (game_card ev inventory)) (\<lambda>c.
     io_bind (reconcile_managed_folders inventory controls folders) (\<lambda>rows.
       io_lift (checked_folders c folders rows controls)))"

section \<open>One read\<close>

datatype check_error = Deadline_Exceeded | Check_Failed error

type_synonym check_answers = "string \<Rightarrow> check_error + api_reply"

text \<open>The part of \<open>apiJSON\<close> behind the call, for a request whose reply is decoded.\<close>

definition reply_value :: "(string \<Rightarrow> json option) \<Rightarrow> api_reply \<Rightarrow> error + json option" where
  "reply_value parse reply =
     (if int (length (APayload reply)) > max_api_response_bytes then Inl ''upstream response exceeds limit''
      else if AStatus reply < 200 \<or> AStatus reply \<ge> 300 then Inl ''upstream API returned an HTTP error''
      else if trim_space (APayload reply) = '''' then Inr None
      else case parse (APayload reply) of
        None \<Rightarrow> Inl ''decode upstream response'' | Some v \<Rightarrow> Inr (Some v))"

definition check_get :: "(string \<Rightarrow> json option) \<Rightarrow> check_answers \<Rightarrow> string \<Rightarrow> 'a \<Rightarrow> (json \<Rightarrow> error + 'a) \<Rightarrow> check_error + 'a" where
  "check_get parse answers path zero decode = sum_bind (answers path) (\<lambda>reply.
     case reply_value parse reply of
       Inl e \<Rightarrow> Inl (Check_Failed e)
     | Inr None \<Rightarrow> Inr zero
     | Inr (Some v) \<Rightarrow> (case decode v of Inl e \<Rightarrow> Inl (Check_Failed e) | Inr x \<Rightarrow> Inr x))"

text \<open>It is the same call as the one the other operations make.\<close>

lemma check_get_api_read:
  "fst (api_read parse server path zero decode u) =
     (case check_get parse (\<lambda>p. case fst (server (api_call_of GET p None) (peer_state u)) of
          Inl e \<Rightarrow> Inl (Check_Failed ''call upstream API'') | Inr reply \<Rightarrow> Inr reply) path zero decode of
        Inl (Check_Failed e) \<Rightarrow> Inl e | Inl Deadline_Exceeded \<Rightarrow> Inl '''' | Inr x \<Rightarrow> Inr x)"
  by (auto simp: api_read_def api_json_def check_get_def reply_value_def up_bind_def up_ret_def up_lift_def Let_def
      split: prod.splits sum.splits option.splits if_splits)

record game_check_status =
  CheckCurrent :: bool
  CheckItems :: int
  CheckBytes :: int

definition peer_waits :: "(string \<times> ui_connection) list \<Rightarrow> string \<Rightarrow> bool" where
  "peer_waits connections d = (case map_of connections d of None \<Rightarrow> True | Some c \<Rightarrow> \<not> ConConnected c)"

fun check_members :: "ui_device list \<Rightarrow> (string \<times> ui_connection) list \<Rightarrow> string \<Rightarrow> string list \<Rightarrow> check_error + unit" where
  "check_members devices connections self [] = Inr ()"
| "check_members devices connections self (d # ds) =
     (if d = self then check_members devices connections self ds
      else case last_device devices d of
        None \<Rightarrow> Inl (Check_Failed ''folder peer is not configured'')
      | Some device \<Rightarrow>
          if DevPaused device \<or> (case map_of connections d of None \<Rightarrow> False | Some c \<Rightarrow> ConPaused c)
          then Inl (Check_Failed ''folder peer is paused'') else check_members devices connections self ds)"

fun check_all_members :: "ui_device list \<Rightarrow> (string \<times> ui_connection) list \<Rightarrow> string \<Rightarrow> configured_folder list \<Rightarrow> check_error + unit" where
  "check_all_members devices connections self [] = Inr ()"
| "check_all_members devices connections self (f # fs) =
     sum_bind (check_members devices connections self (FDevices f)) (\<lambda>_. check_all_members devices connections self fs)"

text \<open>What is still to be done: whether the folder has work, and the totals of items and bytes.\<close>

type_synonym pending_work = "bool \<times> int \<times> int"

fun check_peers :: "(string \<Rightarrow> json option) \<Rightarrow> check_answers \<Rightarrow> (string \<times> ui_connection) list \<Rightarrow> string \<Rightarrow> string \<Rightarrow>
    string list \<Rightarrow> pending_work \<Rightarrow> check_error + pending_work" where
  "check_peers parse answers connections self folder [] w = Inr w"
| "check_peers parse answers connections self folder (d # ds) (work, items, bytes) =
     (if d = self then check_peers parse answers connections self folder ds (work, items, bytes)
      else if peer_waits connections d
      then check_peers parse answers connections self folder ds (True, bounded_item_total [items, 1], bytes)
      else sum_bind (check_get parse answers (completion_path d folder) zero_completion decode_completion) (\<lambda>c.
        let need_bytes = nonnegative (CompBytes c);
            found = bounded_item_total [CompItems c, CompDeletes c];
            need_items = (if CompRemote c = ''unknown'' \<and> need_bytes = 0 \<and> found = 0 then 1 else found)
        in if CompRemote c \<noteq> ''unknown'' \<and> CompRemote c \<noteq> ''valid''
           then Inl (Check_Failed ''folder peer state is not current'')
           else check_peers parse answers connections self folder ds
                  (work \<or> need_bytes > 0 \<or> need_items > 0, bounded_item_total [items, need_items],
                   bounded_byte_total bytes need_bytes)))"

definition busy_states :: "string list" where
  "busy_states = [''error'', ''unknown'', ''paused'', ''scanning'', ''scan-waiting'', ''cleaning'', ''clean-waiting'']"

definition check_folder :: "(string \<Rightarrow> json option) \<Rightarrow> check_answers \<Rightarrow> (string \<times> ui_connection) list \<Rightarrow> string \<Rightarrow>
    configured_folder \<Rightarrow> int \<times> int \<Rightarrow> check_error + int \<times> int" where
  "check_folder parse answers connections self f acc = (case acc of (items, bytes) \<Rightarrow>
     sum_bind (check_get parse answers (db_status_path (FID f)) zero_db_status decode_db_status) (\<lambda>local.
     let state = bounded_state (DbState local);
         need_bytes = nonnegative (DbNeedBytes local); need_items = nonnegative (DbNeedItems local)
     in if DbErrors local > 0 \<or> DbPullErrors local > 0 then Inl (Check_Failed ''folder reports sync errors'')
        else if state \<in> set busy_states then Inl (Check_Failed ''folder state'')
        else sum_bind (check_peers parse answers connections self (FID f) (FDevices f)
            (need_bytes > 0 \<or> need_items > 0, bounded_item_total [items, need_items], bounded_byte_total bytes need_bytes))
          (\<lambda>(work, items, bytes).
            if state \<noteq> ''idle'' \<and> \<not> work then Inl (Check_Failed ''folder activity has no trustworthy pending count'')
            else Inr (items, bytes))))"

fun check_folders :: "(string \<Rightarrow> json option) \<Rightarrow> check_answers \<Rightarrow> (string \<times> ui_connection) list \<Rightarrow> string \<Rightarrow>
    configured_folder list \<Rightarrow> int \<times> int \<Rightarrow> check_error + int \<times> int" where
  "check_folders parse answers connections self [] acc = Inr acc"
| "check_folders parse answers connections self (f # fs) acc =
     sum_bind (check_folder parse answers connections self f acc) (check_folders parse answers connections self fs)"

definition read_game_check_status :: "(string \<Rightarrow> json option) \<Rightarrow> configured_folder list \<Rightarrow> string \<Rightarrow> check_answers \<Rightarrow>
    check_error + game_check_status" where
  "read_game_check_status parse folders self answers =
     (if \<exists>f \<in> set folders. FPaused f then Inl (Check_Failed ''folder is paused'')
      else sum_bind (check_get parse answers ''/rest/config/devices'' [] (decode_slice decode_ui_device)) (\<lambda>devices.
      sum_bind (check_get parse answers ''/rest/system/connections'' [] decode_ui_connections) (\<lambda>connections.
      sum_bind (check_all_members devices connections self folders) (\<lambda>_.
      sum_bind (check_folders parse answers connections self folders (0, 0)) (\<lambda>(items, bytes).
        Inr \<lparr>CheckCurrent = (items = 0 \<and> bytes = 0), CheckItems = items, CheckBytes = bytes\<rparr>)))))"

section \<open>What a current status rests on\<close>

text \<open>A peer of a folder: configured, connected, not paused on either side, in a valid session, and with nothing left to fetch.\<close>

definition peer_current :: "(string \<Rightarrow> json option) \<Rightarrow> check_answers \<Rightarrow> ui_device list \<Rightarrow> (string \<times> ui_connection) list \<Rightarrow>
    string \<Rightarrow> string \<Rightarrow> bool" where
  "peer_current parse answers devices connections folder d \<longleftrightarrow>
     (\<exists>device c done. last_device devices d = Some device \<and> \<not> DevPaused device \<and>
        map_of connections d = Some c \<and> ConConnected c \<and> \<not> ConPaused c \<and>
        check_get parse answers (completion_path d folder) zero_completion decode_completion = Inr done \<and>
        CompRemote done = ''valid'' \<and> CompBytes done \<le> 0 \<and> CompItems done \<le> 0 \<and> CompDeletes done \<le> 0)"

text \<open>A folder: running, idle, without errors or local work, and every peer of it current.\<close>

definition folder_current :: "(string \<Rightarrow> json option) \<Rightarrow> check_answers \<Rightarrow> string \<Rightarrow> configured_folder \<Rightarrow> bool" where
  "folder_current parse answers self f \<longleftrightarrow> \<not> FPaused f \<and>
     (\<exists>local. check_get parse answers (db_status_path (FID f)) zero_db_status decode_db_status = Inr local \<and>
        DbState local = ''idle'' \<and> DbErrors local \<le> 0 \<and> DbPullErrors local \<le> 0 \<and> DbNeedBytes local \<le> 0 \<and> DbNeedItems local \<le> 0) \<and>
     (\<exists>devices connections.
        check_get parse answers ''/rest/config/devices'' [] (decode_slice decode_ui_device) = Inr devices \<and>
        check_get parse answers ''/rest/system/connections'' [] decode_ui_connections = Inr connections \<and>
        (\<forall>d \<in> set (FDevices f). d \<noteq> self \<longrightarrow> peer_current parse answers devices connections (FID f) d))"

text \<open>What the totals say of a peer.\<close>

definition peer_done :: "(string \<Rightarrow> json option) \<Rightarrow> check_answers \<Rightarrow> (string \<times> ui_connection) list \<Rightarrow> string \<Rightarrow> string \<Rightarrow> bool" where
  "peer_done parse answers connections folder d \<longleftrightarrow> \<not> peer_waits connections d \<and>
     (\<exists>c. check_get parse answers (completion_path d folder) zero_completion decode_completion = Inr c \<and>
        CompRemote c = ''valid'' \<and> CompBytes c \<le> 0 \<and> CompItems c \<le> 0 \<and> CompDeletes c \<le> 0)"

lemma check_members_Inr:
  "check_members devices connections self ds = Inr () \<Longrightarrow> d \<in> set ds \<Longrightarrow> d \<noteq> self \<Longrightarrow>
   \<exists>device. last_device devices d = Some device \<and> \<not> DevPaused device \<and>
     (\<forall>c. map_of connections d = Some c \<longrightarrow> \<not> ConPaused c)"
  by (induction ds) (auto split: if_splits option.splits)

lemma check_all_members_Inr:
  "check_all_members devices connections self fs = Inr () \<Longrightarrow> f \<in> set fs \<Longrightarrow>
   check_members devices connections self (FDevices f) = Inr ()"
  by (induction fs) (auto simp: sum_bind_Inr)

text \<open>The totals never shrink, and they stay zero only where nothing is pending.\<close>

lemma check_peers_Inr:
  assumes "check_peers parse answers connections self folder ds (work, items, bytes) = Inr (work', items', bytes')"
    and "0 \<le> items" and "0 \<le> bytes"
  shows "0 \<le> items' \<and> 0 \<le> bytes' \<and> (items' = 0 \<and> bytes' = 0 \<longrightarrow> items \<le> 0 \<and> bytes = 0 \<and> work' = work \<and>
    (\<forall>d \<in> set ds. d \<noteq> self \<longrightarrow> peer_done parse answers connections folder d))"
  using assms
proof (induction ds arbitrary: work items bytes)
  case (Cons d ds)
  show ?case
  proof (cases "d = self")
    case True
    then show ?thesis using Cons.IH [of work items bytes] Cons.prems by simp
  next
    case other: False
    show ?thesis
    proof (cases "peer_waits connections d")
      case True
      from Cons.prems(1) other True
      have rest: "check_peers parse answers connections self folder ds (True, bounded_item_total [items, 1], bytes) = Inr (work', items', bytes')"
        by simp
      have "bounded_item_total [items, 1] \<noteq> 0" by (simp add: bounded_item_zero)
      with Cons.IH [OF rest bounded_item_range(1) Cons.prems(3)] show ?thesis
        using bounded_item_range(1) [of "[items, 1]"] by linarith
    next
      case False
      obtain c where c: "check_get parse answers (completion_path d folder) zero_completion decode_completion = Inr c"
        using Cons.prems(1) other False by (auto simp: sum_bind_Inr)
      define nb where "nb = nonnegative (CompBytes c)"
      define found where "found = bounded_item_total [CompItems c, CompDeletes c]"
      define ni where "ni = (if CompRemote c = ''unknown'' \<and> nb = 0 \<and> found = 0 then 1 else found)"
      have ok: "CompRemote c = ''unknown'' \<or> CompRemote c = ''valid''"
        and rest: "check_peers parse answers connections self folder ds (work \<or> nb > 0 \<or> ni > 0,
            bounded_item_total [items, ni], bounded_byte_total bytes nb) = Inr (work', items', bytes')"
        using Cons.prems(1) other False c by (auto simp: nb_def found_def ni_def Let_def split: if_splits)
      have nb: "0 \<le> nb" and fd: "0 \<le> found" by (simp_all add: nb_def found_def bounded_item_range)
      note ih = Cons.IH [OF rest bounded_item_range(1) bounded_byte_nonneg [OF Cons.prems(3)]]
      show ?thesis
      proof (intro conjI impI)
        assume zero: "items' = 0 \<and> bytes' = 0"
        then have z: "bounded_item_total [items, ni] \<le> 0" "bounded_byte_total bytes nb = 0" using ih by auto
        then have "bounded_item_total [items, ni] = 0" using bounded_item_range(1) [of "[items, ni]"] by simp
        then have items: "items \<le> 0" "ni \<le> 0" by (auto simp: bounded_item_zero)
        have bytes: "bytes = 0" "nb = 0" using z(2) Cons.prems(3) nb by (auto simp: bounded_byte_zero)
        have found: "found = 0" "CompRemote c \<noteq> ''unknown''"
          using items(2) fd bytes(2) by (auto simp: ni_def split: if_splits)
        then have "CompItems c \<le> 0 \<and> CompDeletes c \<le> 0" "CompBytes c \<le> 0"
          using bytes(2) by (simp_all add: found_def nb_def bounded_item_zero)
        then have here: "peer_done parse answers connections folder d"
          using c ok found(2) False by (auto simp: peer_done_def)
        show "items \<le> 0" "bytes = 0" by (fact items(1) bytes(1))+
        show "work' = work" using ih zero bytes(2) items(2) by auto
        show "\<forall>e \<in> set (d # ds). e \<noteq> self \<longrightarrow> peer_done parse answers connections folder e"
          using ih zero here by simp
      qed (use ih in auto)
    qed
  qed
qed simp

lemma bounded_state_idle: "bounded_state v = ''idle'' \<Longrightarrow> v = ''idle''"
  by (simp add: bounded_state_def split: if_splits)

lemma check_folder_Inr:
  assumes "check_folder parse answers connections self f (items, bytes) = Inr (items', bytes')" and "0 \<le> items" and "0 \<le> bytes"
  shows "0 \<le> items' \<and> 0 \<le> bytes' \<and> (items' = 0 \<and> bytes' = 0 \<longrightarrow> items \<le> 0 \<and> bytes = 0 \<and>
    (\<exists>local. check_get parse answers (db_status_path (FID f)) zero_db_status decode_db_status = Inr local \<and>
        DbState local = ''idle'' \<and> DbErrors local \<le> 0 \<and> DbPullErrors local \<le> 0 \<and> DbNeedBytes local \<le> 0 \<and> DbNeedItems local \<le> 0) \<and>
    (\<forall>d \<in> set (FDevices f). d \<noteq> self \<longrightarrow> peer_done parse answers connections (FID f) d))"
proof -
  obtain local where local: "check_get parse answers (db_status_path (FID f)) zero_db_status decode_db_status = Inr local"
    using assms(1) by (auto simp: check_folder_def sum_bind_Inr)
  define nb where "nb = nonnegative (DbNeedBytes local)"
  define ni where "ni = nonnegative (DbNeedItems local)"
  obtain work where errors: "DbErrors local \<le> 0" "DbPullErrors local \<le> 0"
    and peers: "check_peers parse answers connections self (FID f) (FDevices f)
      (nb > 0 \<or> ni > 0, bounded_item_total [items, ni], bounded_byte_total bytes nb) = Inr (work, items', bytes')"
    and idle: "bounded_state (DbState local) = ''idle'' \<or> work"
    using assms(1) local
    by (auto simp: check_folder_def Let_def nb_def ni_def sum_bind_Inr split: if_splits prod.splits)
  note facts = check_peers_Inr [OF peers bounded_item_range(1) bounded_byte_nonneg [OF assms(3)]]
  show ?thesis
  proof (intro conjI impI)
    assume zero: "items' = 0 \<and> bytes' = 0"
    then have z: "bounded_item_total [items, ni] \<le> 0" "bounded_byte_total bytes nb = 0" using facts by auto
    then have "bounded_item_total [items, ni] = 0" using bounded_item_range(1) [of "[items, ni]"] by simp
    then have i: "items \<le> 0" "ni \<le> 0" by (auto simp: bounded_item_zero)
    have b: "bytes = 0" "nb = 0" using z(2) assms(3) by (auto simp: bounded_byte_zero nb_def)
    show "items \<le> 0" "bytes = 0" by (fact i(1) b(1))+
    have "\<not> work" using facts zero i(2) b(2) by auto
    then have "DbState local = ''idle''" using idle bounded_state_idle by auto
    then show "\<exists>local. check_get parse answers (db_status_path (FID f)) zero_db_status decode_db_status = Inr local \<and>
        DbState local = ''idle'' \<and> DbErrors local \<le> 0 \<and> DbPullErrors local \<le> 0 \<and> DbNeedBytes local \<le> 0 \<and> DbNeedItems local \<le> 0"
      using local errors i(2) b(2) by (auto simp: nb_def ni_def nonnegative_def split: if_splits)
    show "\<forall>d \<in> set (FDevices f). d \<noteq> self \<longrightarrow> peer_done parse answers connections (FID f) d"
      using facts zero by blast
  qed (use facts in auto)
qed

lemma check_folders_Inr:
  assumes "check_folders parse answers connections self fs (items, bytes) = Inr (0, 0)" and "0 \<le> items" and "0 \<le> bytes"
  shows "items = 0 \<and> bytes = 0 \<and> (\<forall>f \<in> set fs.
    (\<exists>local. check_get parse answers (db_status_path (FID f)) zero_db_status decode_db_status = Inr local \<and>
        DbState local = ''idle'' \<and> DbErrors local \<le> 0 \<and> DbPullErrors local \<le> 0 \<and> DbNeedBytes local \<le> 0 \<and> DbNeedItems local \<le> 0) \<and>
    (\<forall>d \<in> set (FDevices f). d \<noteq> self \<longrightarrow> peer_done parse answers connections (FID f) d))"
  using assms
proof (induction fs arbitrary: items bytes)
  case (Cons f fs)
  obtain i b where f: "check_folder parse answers connections self f (items, bytes) = Inr (i, b)"
    and rest: "check_folders parse answers connections self fs (i, b) = Inr (0, 0)"
    using Cons.prems(1) by (auto simp: sum_bind_Inr)
  note here = check_folder_Inr [OF f Cons.prems(2,3)]
  have zero: "i = 0" "b = 0" using Cons.IH [OF rest] here by auto
  show ?case using Cons.IH [OF rest] here Cons.prems(2) unfolding zero by (simp add: ball_simps(1))
qed simp

lemma read_current:
  assumes "read_game_check_status parse folders self answers = Inr s" and "CheckCurrent s" and "f \<in> set folders"
  shows "folder_current parse answers self f"
proof -
  obtain devices connections where
    devices: "check_get parse answers ''/rest/config/devices'' [] (decode_slice decode_ui_device) = Inr devices" and
    connections: "check_get parse answers ''/rest/system/connections'' [] decode_ui_connections = Inr connections" and
    members: "check_all_members devices connections self folders = Inr ()" and
    folders: "check_folders parse answers connections self folders (0, 0) = Inr (0, 0)" and running: "\<not> FPaused f"
    using assms by (auto simp: read_game_check_status_def sum_bind_Inr split: if_splits)
  have "peer_current parse answers devices connections (FID f) d" if d: "d \<in> set (FDevices f)" "d \<noteq> self" for d
  proof -
    have "peer_done parse answers connections (FID f) d"
      using check_folders_Inr [OF folders] assms(3) d by simp
    then show ?thesis
      using check_members_Inr [OF check_all_members_Inr [OF members assms(3)] d]
      by (auto simp: peer_done_def peer_current_def peer_waits_def split: option.splits)
  qed
  moreover have "\<exists>local. check_get parse answers (db_status_path (FID f)) zero_db_status decode_db_status = Inr local \<and>
        DbState local = ''idle'' \<and> DbErrors local \<le> 0 \<and> DbPullErrors local \<le> 0 \<and> DbNeedBytes local \<le> 0 \<and> DbNeedItems local \<le> 0"
    using check_folders_Inr [OF folders] assms(3) by simp
  ultimately show ?thesis
    unfolding folder_current_def using devices connections running by blast
qed

text \<open>The totals of a status are never negative, so it can always be sent.\<close>

lemma check_folders_nonneg:
  "check_folders parse answers connections self fs (items, bytes) = Inr (items', bytes') \<Longrightarrow> 0 \<le> items \<Longrightarrow> 0 \<le> bytes \<Longrightarrow>
   0 \<le> items' \<and> 0 \<le> bytes'"
proof (induction fs arbitrary: items bytes)
  case (Cons f fs)
  obtain i b where f: "check_folder parse answers connections self f (items, bytes) = Inr (i, b)"
    and rest: "check_folders parse answers connections self fs (i, b) = Inr (items', bytes')"
    using Cons.prems(1) by (auto simp: sum_bind_Inr)
  show ?case using Cons.IH [OF rest] check_folder_Inr [OF f Cons.prems(2,3)] by simp
qed simp

lemma read_status_nonneg:
  "read_game_check_status parse folders self answers = Inr s \<Longrightarrow> 0 \<le> CheckItems s \<and> 0 \<le> CheckBytes s"
  by (auto simp: read_game_check_status_def sum_bind_Inr split: if_splits dest: check_folders_nonneg)

section \<open>The loop\<close>

datatype game_reply = Reply_Waiting int int | Reply_Stop | Reply_Error string

definition default_ack_ms :: int where "default_ack_ms = 250"
definition millisecond :: int where "millisecond = 1000000"
definition first_status_budget :: int where "first_status_budget = 900 * millisecond"
definition first_status_probe_budget :: int where "first_status_probe_budget = 700 * millisecond"
definition first_status_reply_margin :: int where "first_status_reply_margin = 100 * millisecond"
definition first_status_retry_delay :: int where "first_status_retry_delay = 100 * millisecond"
definition next_status_delay :: int where "next_status_delay = 500 * millisecond"

definition ack_budget :: "int \<Rightarrow> int" where
  "ack_budget ack = (if ack \<le> 0 then default_ack_ms else ack) * millisecond"

definition first_reply_budget :: "int \<Rightarrow> int" where
  "first_reply_budget ack =
     (let budget = ack_budget ack;
          margin = (if budget \<le> first_status_reply_margin then budget div 5 else first_status_reply_margin)
      in min (budget - margin) first_status_budget)"

text \<open>
  A round: what the requests of its read are answered, how long the read takes when its context
  lets it, whether the context of the check is over after the read or during the pause, and
  whether a \<open>waiting\<close> reply can be written.
\<close>

record check_round =
  RoundAnswers :: check_answers
  RoundTook :: nat
  RoundCancelled :: bool
  RoundSent :: bool
  RoundStopped :: bool

record check_state =
  CkNow :: int
  CkHave :: bool
  CkItems :: int
  CkBytes :: int
  CkSynthetic :: bool

definition read_timeout :: "int \<Rightarrow> check_state \<Rightarrow> int" where
  "read_timeout ack s =
     (let budget = ack_budget ack
      in if CkHave s then max budget (2000 * millisecond)
         else min (min budget (first_reply_budget ack - CkNow s)) first_status_probe_budget)"

text \<open>One round: the replies it writes, and the state of the next round if there is one.\<close>

type_synonym round_result = "game_reply list \<times> check_state option"

definition pause_round :: "check_round \<Rightarrow> int \<Rightarrow> game_reply list \<Rightarrow> check_state \<Rightarrow> round_result" where
  "pause_round r delay sent_now s = (sent_now, if RoundStopped r then None else Some (s\<lparr>CkNow := CkNow s + delay\<rparr>))"

definition failed_read :: "int \<Rightarrow> check_round \<Rightarrow> check_error \<Rightarrow> check_state \<Rightarrow> round_result" where
  "failed_read ack r e s =
     (let remaining = first_reply_budget ack - CkNow s
      in if \<not> CkHave s then
           (if e = Deadline_Exceeded \<and> remaining > 0 then
              ([Reply_Waiting 1 0],
               if RoundSent r then Some (s\<lparr>CkHave := True, CkItems := 1, CkBytes := 0, CkSynthetic := True\<rparr>) else None)
            else if remaining > 0 then pause_round r (min remaining first_status_retry_delay) [] s
            else ([Reply_Error ''sync-status-unavailable''], None))
         else if CkSynthetic s then ([Reply_Error ''sync-status-unavailable''], None)
         else pause_round r next_status_delay [] s)"

definition good_read :: "check_round \<Rightarrow> game_check_status \<Rightarrow> check_state \<Rightarrow> round_result" where
  "good_read r st s =
     (if CheckCurrent st then ([Reply_Stop], None)
      else if \<not> CkHave s \<or> CheckItems st \<noteq> CkItems s \<or> CheckBytes st \<noteq> CkBytes s then
        (if RoundSent r
         then pause_round r next_status_delay [Reply_Waiting (CheckItems st) (CheckBytes st)]
                (s\<lparr>CkHave := True, CkItems := CheckItems st, CkBytes := CheckBytes st, CkSynthetic := False\<rparr>)
         else ([Reply_Waiting (CheckItems st) (CheckBytes st)], None))
      else pause_round r next_status_delay [] (s\<lparr>CkSynthetic := False\<rparr>))"

definition check_step :: "(string \<Rightarrow> json option) \<Rightarrow> configured_folder list \<Rightarrow> string \<Rightarrow> int \<Rightarrow> check_round \<Rightarrow>
    check_state \<Rightarrow> int \<times> round_result" where
  "check_step parse folders self ack r s =
     (if \<not> CkHave s \<and> first_reply_budget ack - CkNow s \<le> 0
      then (CkNow s, [Reply_Error ''sync-status-unavailable''], None)
      else
        let s = s\<lparr>CkNow := CkNow s + min (int (RoundTook r)) (read_timeout ack s)\<rparr>
        in (CkNow s, if RoundCancelled r then ([], None)
              else case read_game_check_status parse folders self (RoundAnswers r) of
                Inl e \<Rightarrow> failed_read ack r e s
              | Inr st \<Rightarrow> good_read r st s))"

text \<open>The replies with their times, and whether the loop has returned when the rounds are used up.\<close>

fun check_rounds :: "(string \<Rightarrow> json option) \<Rightarrow> configured_folder list \<Rightarrow> string \<Rightarrow> int \<Rightarrow> check_round list \<Rightarrow>
    check_state \<Rightarrow> (int \<times> game_reply) list \<times> bool" where
  "check_rounds parse folders self ack [] s = ([], False)"
| "check_rounds parse folders self ack (r # rs) s = (case check_step parse folders self ack r s of
     (t, rp, None) \<Rightarrow> (map (Pair t) rp, True)
   | (t, rp, Some s') \<Rightarrow> (case check_rounds parse folders self ack rs s' of
        (later, ended) \<Rightarrow> (map (Pair t) rp @ later, ended)))"

definition start_check :: check_state where
  "start_check = \<lparr>CkNow = 0, CkHave = False, CkItems = 0, CkBytes = 0, CkSynthetic = False\<rparr>"

text \<open>\<open>running\<close> says whether the upstream process can be asked at all.\<close>

definition run_game_check :: "(string \<Rightarrow> json option) \<Rightarrow> bool \<Rightarrow> configured_folder list \<Rightarrow> string \<Rightarrow> int \<Rightarrow> check_round list \<Rightarrow>
    (int \<times> game_reply) list \<times> bool" where
  "run_game_check parse running folders self ack rounds =
     (if \<not> running then ([(0, Reply_Error ''check-unavailable'')], True)
      else check_rounds parse folders self ack rounds start_check)"

lemma stop_step:
  assumes "check_step parse folders self ack r s = (t, rp, nxt)" and "Reply_Stop \<in> set rp"
  shows "\<exists>st. read_game_check_status parse folders self (RoundAnswers r) = Inr st \<and> CheckCurrent st \<and> nxt = None \<and>
    rp = [Reply_Stop]"
  using assms
  by (auto simp: check_step_def failed_read_def good_read_def pause_round_def Let_def split: if_splits sum.splits)

lemma stop_rounds:
  assumes "check_rounds parse folders self ack rounds s = (out, ended)" and "(t, Reply_Stop) \<in> set out"
  shows "\<exists>r \<in> set rounds. \<exists>st. read_game_check_status parse folders self (RoundAnswers r) = Inr st \<and> CheckCurrent st"
  using assms
proof (induction rounds arbitrary: s out)
  case (Cons r rs)
  obtain u rp nxt where step: "check_step parse folders self ack r s = (u, rp, nxt)"
    using prod_cases3 by blast
  show ?case
  proof (cases "Reply_Stop \<in> set rp")
    case True
    then show ?thesis using stop_step [OF step] by auto
  next
    case False
    then obtain s' later where "nxt = Some s'" "check_rounds parse folders self ack rs s' = (later, ended)" "(t, Reply_Stop) \<in> set later"
      using Cons.prems step by (auto split: option.splits prod.splits)
    then show ?thesis using Cons.IH by auto
  qed
qed simp

text \<open>A stop is the last word: after it nothing is sent, and before it only \<open>waiting\<close>.\<close>

fun only_waiting :: "(int \<times> game_reply) list \<Rightarrow> bool" where
  "only_waiting [] = True"
| "only_waiting ((t, Reply_Waiting i b) # out) = (0 \<le> i \<and> 0 \<le> b \<and> only_waiting out)"
| "only_waiting ((t, Reply_Stop) # out) = (out = [])"
| "only_waiting ((t, Reply_Error e) # out) = (out = [])"

lemma check_rounds_waiting: "only_waiting (fst (check_rounds parse folders self ack rounds s))"
proof (induction rounds arbitrary: s)
  case (Cons r rs)
  obtain u rp nxt where step: "check_step parse folders self ack r s = (u, rp, nxt)"
    using prod_cases3 by blast
  have "nxt = None \<and> (rp = [] \<or> (\<exists>x. rp = [x] \<and> only_waiting [(u, x)])) \<or>
      (\<exists>s'. nxt = Some s' \<and> (rp = [] \<or> (\<exists>i b. rp = [Reply_Waiting i b] \<and> 0 \<le> i \<and> 0 \<le> b)))"
    using step read_status_nonneg [of parse folders self "RoundAnswers r"]
    by (auto simp: check_step_def failed_read_def good_read_def pause_round_def Let_def split: if_splits sum.splits)
  then show ?case
    using Cons.IH step by (auto split: prod.splits) (metis fst_conv)+
qed simp

section \<open>The folders that are asked about\<close>

lemma checked_folders_Inr:
  assumes "checked_folders c folders rows controls = Inr chosen" and "(i, r) \<in> set controls"
    and "CardID r = IID (Identity c)" and "Kind r \<in> {''saves'', ''states''}"
  shows "\<exists>folder row. folder \<in> set chosen \<and> last_folder folders i = Some folder \<and> last_row rows i = Some row \<and>
    \<not> RowPaused row \<and> FKind folder = Kind r"
  using assms
proof (induction controls arbitrary: chosen)
  case (Cons e es)
  obtain j q where e: "e = (j, q)" by fastforce
  show ?case
  proof (cases "CardID q \<noteq> IID (Identity c) \<or> Kind q \<notin> {''saves'', ''states''}")
    case True
    then show ?thesis using Cons e by (auto split: if_splits)
  next
    case False
    then obtain folder row rest where f: "last_folder folders j = Some folder" "FKind folder = Kind q"
      "last_row rows j = Some row" "\<not> RowPaused row"
      "checked_folders c folders rows es = Inr rest" "chosen = folder # rest"
      using Cons.prems(1) e by (auto simp: sum_bind_Inr split: if_splits option.splits)
    show ?thesis
    proof (cases "(i, r) = (j, q)")
      case True
      then show ?thesis using f by auto
    next
      case other: False
      then have "(i, r) \<in> set es" using Cons.prems(2) e by auto
      from Cons.IH [OF f(5) this Cons.prems(3,4)] f(6) show ?thesis by auto
    qed
  qed
qed simp

lemma find_list_all2:
  assumes "list_all2 (\<lambda>f r. RowID r = FID f \<and> P f r) fs rows" and "find (\<lambda>r. RowID r = i) rows = Some row"
  shows "\<exists>f. find (\<lambda>f. FID f = i) fs = Some f \<and> f \<in> set fs \<and> FID f = i \<and> P f row"
  using assms by (induction rule: list_all2_induct) (auto split: if_splits)

lemma last_row_folder:
  assumes "list_all2 (\<lambda>f r. RowID r = FID f \<and> P f r) folders rows" and "last_row rows i = Some row"
  shows "\<exists>f. last_folder folders i = Some f \<and> f \<in> set folders \<and> FID f = i \<and> P f row"
proof -
  have "list_all2 (\<lambda>f r. RowID r = FID f \<and> P f r) (rev folders) (rev rows)" using assms(1) by simp
  from find_list_all2 [OF this] assms(2) show ?thesis by (auto simp: last_row_def last_folder_def)
qed

text \<open>Every save or state folder that is bound to a card is among the chosen ones, and safe to sync.\<close>

definition card_covered :: "leaf_card list \<Rightarrow> (string \<times> control_record) list \<Rightarrow> configured_folder list \<Rightarrow> leaf_card \<Rightarrow>
    configured_folder list \<Rightarrow> 'd fs \<Rightarrow> bool" where
  "card_covered inventory controls folders c chosen f \<longleftrightarrow>
     (\<forall>(i, r) \<in> set controls. CardID r = IID (Identity c) \<longrightarrow> Kind r \<in> {''saves'', ''states''} \<longrightarrow>
        (\<exists>folder \<in> set chosen. folder \<in> set folders \<and> FID folder = i \<and> FKind folder = Kind r \<and>
          safe_folder inventory controls folder f))"

lemma folders_for_game_check_wp:
  fixes f :: "'d fs"
  shows "wp True (folders_for_game_check ev inventory folders controls)
     (\<lambda>chosen g. g = f \<and> (\<exists>c. game_card ev inventory = Inr c \<and> card_covered inventory controls folders c chosen f))
     (\<lambda>_ g. g = f) (\<lambda>g. g = f) f"
proof (cases "game_card ev inventory")
  case (Inr c)
  have rows: "wp True (reconcile_managed_folders inventory controls folders)
      (\<lambda>rows g. g = f \<and> list_all2 (\<lambda>folder row. RowID row = FID folder \<and>
        (\<not> RowPaused row \<longrightarrow> safe_folder inventory controls folder f)) folders rows)
      (\<lambda>_ _. False) (\<lambda>g. g = f) f"
    unfolding reconcile_managed_folders_def by (rule io_map_wp, rule reconcile_folder_wp)
  have covered: "card_covered inventory controls folders c chosen f"
    if g: "list_all2 (\<lambda>folder row. RowID row = FID folder \<and>
        (\<not> RowPaused row \<longrightarrow> safe_folder inventory controls folder f)) folders rows"
      and chosen: "checked_folders c folders rows controls = Inr chosen" for rows chosen
    unfolding card_covered_def
  proof (clarify)
    fix i r
    assume e: "(i, r) \<in> set controls" "CardID r = IID (Identity c)" "Kind r \<in> {''saves'', ''states''}"
    obtain folder row where x: "folder \<in> set chosen" "last_folder folders i = Some folder" "last_row rows i = Some row"
      "\<not> RowPaused row" "FKind folder = Kind r"
      using checked_folders_Inr [OF chosen e] by blast
    from last_row_folder [OF g x(3)] x show "\<exists>folder \<in> set chosen. folder \<in> set folders \<and> FID folder = i \<and>
        FKind folder = Kind r \<and> safe_folder inventory controls folder f" by auto
  qed
  have "wp True (io_lift (checked_folders c folders rows controls))
      (\<lambda>chosen g. g = f \<and> card_covered inventory controls folders c chosen f) (\<lambda>_ g. g = f) (\<lambda>g. g = f) g"
    if "g = f \<and> list_all2 (\<lambda>folder row. RowID row = FID folder \<and>
        (\<not> RowPaused row \<longrightarrow> safe_folder inventory controls folder f)) folders rows" for rows g
    using covered that by (cases "checked_folders c folders rows controls") (auto simp: io_lift_def wp_exec)
  from wp_mono [OF rows this] show ?thesis
    by (simp add: folders_for_game_check_def Inr io_lift_def io_bind_ret wp_bindI)
qed (simp add: folders_for_game_check_def io_lift_def wp_exec)

section \<open>Properties\<close>

text \<open>
  C6. Jawaka is told to stop Syncthing, and so to start the game, only when everything is in sync:
  under any failing system calls and any answers of Syncthing over any number of rounds, if the
  check of the folders chosen for the game's card ever replies \<open>stop\<close>, then there is one read at
  which every save or state folder whose record is bound to that card was safe to sync, running,
  idle and without errors or local work, and each of its peers was configured, connected, not paused and
  without anything left to fetch.  The \<open>stop\<close> is the last reply, and every reply before it is a valid
  \<open>waiting\<close>.
\<close>

theorem game_stops_only_when_current:
  assumes "boot (folders_for_game_check ev inventory folders controls) p f = (Ok chosen, g)"
    and "run_game_check parse running chosen self ack rounds = (out, ended)" and "(t, Reply_Stop) \<in> set out"
  shows "g = f \<and> only_waiting out \<and> fst (last out) = t \<and>
    (\<exists>c. game_card ev inventory = Inr c \<and> (\<exists>r \<in> set rounds. \<forall>(i, record) \<in> set controls.
       CardID record = IID (Identity c) \<longrightarrow> Kind record \<in> {''saves'', ''states''} \<longrightarrow>
       (\<exists>folder \<in> set folders. FID folder = i \<and> FKind folder = Kind record \<and>
         safe_folder inventory controls folder f \<and> folder_current parse (RoundAnswers r) self folder)))"
proof -
  from boot_sat [OF folders_for_game_check_wp _ assms(1)] obtain c where
    g: "g = f" and c: "game_card ev inventory = Inr c" and covered: "card_covered inventory controls folders c chosen f" by auto
  have rounds: "check_rounds parse chosen self ack rounds start_check = (out, ended)"
    using assms(2,3) by (auto simp: run_game_check_def split: if_splits)
  then obtain r st where r: "r \<in> set rounds" "read_game_check_status parse chosen self (RoundAnswers r) = Inr st" "CheckCurrent st"
    using stop_rounds [OF _ assms(3)] by blast
  have current: "folder_current parse (RoundAnswers r) self folder" if "folder \<in> set chosen" for folder
    by (rule read_current [OF r(2,3) that])
  have waiting: "only_waiting out"
    using check_rounds_waiting [of parse chosen self ack rounds start_check] rounds by simp
  have "only_waiting xs \<Longrightarrow> (t, Reply_Stop) \<in> set xs \<Longrightarrow> fst (last xs) = t" for xs
    by (induction xs rule: only_waiting.induct) auto
  with waiting assms(3) have "fst (last out) = t" by blast
  then show ?thesis
    using g c r(1) covered current waiting unfolding card_covered_def by (intro conjI exI [of _ c] bexI [of _ r]) fastforce+
qed

lemma first_reply_budget_bounds:
  "0 < first_reply_budget ack" "first_reply_budget ack < ack_budget ack" "first_reply_budget ack \<le> 9 * first_status_retry_delay"
  by (simp_all add: first_reply_budget_def ack_budget_def first_status_reply_margin_def first_status_budget_def
      first_status_retry_delay_def millisecond_def default_ack_ms_def Let_def min_def)

text \<open>A round before the first reply: it replies in time, or the rest of the budget shrinks by a retry delay.\<close>

lemma first_reply_step:
  assumes "\<not> CkHave s" and "CkNow s \<le> first_reply_budget ack" and "\<not> RoundCancelled r" and "\<not> RoundStopped r"
    and "check_step parse folders self ack r s = (t, rp, nxt)"
  shows "CkNow s \<le> t \<and> t \<le> first_reply_budget ack \<and>
    (rp \<noteq> [] \<or> (\<exists>s'. nxt = Some s' \<and> \<not> CkHave s' \<and> t \<le> CkNow s' \<and> CkNow s' \<le> first_reply_budget ack \<and>
      0 < first_reply_budget ack - CkNow s \<and>
      first_reply_budget ack - CkNow s' \<le> max 0 (first_reply_budget ack - CkNow s - first_status_retry_delay)))"
proof (cases "first_reply_budget ack - CkNow s \<le> 0")
  case True
  then show ?thesis using assms by (auto simp: check_step_def)
next
  case False
  define now where "now = CkNow s + min (int (RoundTook r)) (read_timeout ack s)"
  have timeout: "0 \<le> read_timeout ack s" "read_timeout ack s \<le> first_reply_budget ack - CkNow s"
    using False assms(1) first_reply_budget_bounds [of ack]
    by (auto simp: read_timeout_def first_status_probe_budget_def millisecond_def)
  then have now: "CkNow s \<le> now" "now \<le> first_reply_budget ack" by (auto simp: now_def)
  have step: "check_step parse folders self ack r s = (now,
      case read_game_check_status parse folders self (RoundAnswers r) of
        Inl e \<Rightarrow> failed_read ack r e (s\<lparr>CkNow := now\<rparr>) | Inr st \<Rightarrow> good_read r st (s\<lparr>CkNow := now\<rparr>))"
    using False assms(1,3) by (auto simp: check_step_def now_def Let_def split: sum.split)
  show ?thesis
  proof (cases "read_game_check_status parse folders self (RoundAnswers r)")
    case (Inr st)
    then show ?thesis
      using assms step now by (auto simp: good_read_def pause_round_def split: if_splits)
  next
    case (Inl e)
    then show ?thesis
      using assms step now False by (auto simp: failed_read_def pause_round_def Let_def min_def max_def first_status_retry_delay_def millisecond_def split: if_splits)
  qed
qed

lemma first_reply_in_time:
  assumes "\<not> CkHave s" and "CkNow s \<le> first_reply_budget ack"
    and "first_reply_budget ack - CkNow s \<le> int n * first_status_retry_delay" and "n < length rounds"
    and "\<forall>r \<in> set rounds. \<not> RoundCancelled r \<and> \<not> RoundStopped r"
  shows "\<exists>t reply rest. fst (check_rounds parse folders self ack rounds s) = (t, reply) # rest \<and>
    CkNow s \<le> t \<and> t \<le> first_reply_budget ack"
  using assms
proof (induction rounds arbitrary: n s)
  case (Cons r rs)
  obtain t rp nxt where step: "check_step parse folders self ack r s = (t, rp, nxt)"
    using prod_cases3 by blast
  note one = first_reply_step [OF Cons.prems(1,2) _ _ step]
  show ?case
  proof (cases rp)
    case (Cons x xs)
    then show ?thesis using one step Cons.prems(5) by (auto split: option.split prod.split)
  next
    case Nil
    then obtain s' where s': "nxt = Some s'" "\<not> CkHave s'" "t \<le> CkNow s'" "CkNow s' \<le> first_reply_budget ack"
        "first_reply_budget ack - CkNow s' \<le> max 0 (first_reply_budget ack - CkNow s - first_status_retry_delay)"
      and more: "0 < first_reply_budget ack - CkNow s"
      using one Cons.prems(5) by auto
    obtain m where m: "n = Suc m" using Cons.prems(3) more by (cases n) auto
    have "first_reply_budget ack - CkNow s' \<le> int m * first_status_retry_delay"
      using s'(5) Cons.prems(3) m
      by (auto simp: first_status_retry_delay_def millisecond_def algebra_simps max_def split: if_splits)
    from Cons.IH [OF s'(2,4) this] Cons.prems(4,5) m
    obtain u reply rest where "fst (check_rounds parse folders self ack rs s') = (u, reply) # rest" "CkNow s' \<le> u" "u \<le> first_reply_budget ack"
      by auto
    then show ?thesis using step Nil s'(1,3) one Cons.prems(5) by (auto split: prod.splits)
  qed
qed simp

text \<open>
  C19. The loop always answers in time: whatever Syncthing answers and however long its reads take
  until their context ends, unless the check is cancelled the first reply is written after at most
  ten reads, within the first-reply budget, which leaves part of the time that Jawaka waits for an
  acknowledgement.
\<close>

theorem game_check_answers_in_time:
  assumes "\<forall>r \<in> set rounds. \<not> RoundCancelled r \<and> \<not> RoundStopped r" and "10 \<le> length rounds"
  shows "\<exists>t reply rest. fst (run_game_check parse running folders self ack rounds) = (t, reply) # rest \<and>
    0 \<le> t \<and> t \<le> first_reply_budget ack \<and> first_reply_budget ack < ack_budget ack"
proof (cases running)
  case True
  have "\<exists>t reply rest. fst (check_rounds parse folders self ack rounds start_check) = (t, reply) # rest \<and>
      CkNow start_check \<le> t \<and> t \<le> first_reply_budget ack"
    by (rule first_reply_in_time [where n = 9])
      (use assms first_reply_budget_bounds [of ack] in \<open>auto simp: start_check_def\<close>)
  then show ?thesis using True first_reply_budget_bounds(2) [of ack] by (simp add: run_game_check_def start_check_def)
qed (use first_reply_budget_bounds [of ack] in \<open>simp add: run_game_check_def\<close>)

definition calm_event :: event where
  "calm_event = \<lparr>Version = 1, Name = ''game.check'', LaunchID = ''l1'', SourceID = ''primary'', SavesPath = ''/card/Saves'',
     StatesPath = '''', WaitBudgetMS = Some 5000\<rparr>"

definition calm_peer :: string where "calm_peer = sample_device_of CHR ''B''"

definition calm_parse :: "string \<Rightarrow> json option" where
  "calm_parse s =
     (if s = ''devices'' then Some (JArr [JObj [(''deviceID'', JStr calm_peer)]])
      else if s = ''connections'' then Some (JObj [(''connections'', JObj [(calm_peer, JObj [(''connected'', JBool True)])])])
      else if s = ''peer'' then Some (JObj [(''remoteState'', JStr ''valid'')])
      else if s = ''idle'' then Some (JObj [(''state'', JStr ''idle'')]) else None)"

definition calm_answers :: check_answers where
  "calm_answers p = Inr \<lparr>AStatus = 200, APayload =
     (if p = ''/rest/config/devices'' then ''devices'' else if p = ''/rest/system/connections'' then ''connections''
      else if has_prefix p ''/rest/db/completion'' then ''peer'' else ''idle'')\<rparr>"

definition calm_round :: check_round where
  "calm_round = \<lparr>RoundAnswers = calm_answers, RoundTook = 5, RoundCancelled = False, RoundSent = True, RoundStopped = False\<rparr>"

definition down_round :: check_round where
  "down_round = \<lparr>RoundAnswers = (\<lambda>_. Inl (Check_Failed ''refused'')), RoundTook = 5, RoundCancelled = False, RoundSent = True,
     RoundStopped = False\<rparr>"

definition running_folder :: configured_folder where
  "running_folder = sample_folder\<lparr>FPaused := False, FDevices := [sample_device, calm_peer]\<rparr>"

theorem game_stops_only_when_current_witness:
  "\<exists>folder \<in> set [running_folder]. folder_current calm_parse calm_answers sample_device folder \<and>
     safe_folder sample_inventory (Records (sample_control False)) folder sample_tree"
proof -
  have chosen: "fst (boot (folders_for_game_check calm_event sample_inventory [running_folder] (Records (sample_control False))) [] sample_tree)
      = Ok [running_folder]" by code_simp
  have out: "run_game_check calm_parse True [running_folder] sample_device 1000 [calm_round] = ([(5, Reply_Stop)], True)"
    by code_simp
  have card: "game_card calm_event sample_inventory = Inr (hd sample_inventory)" by code_simp
  have bound: "(''leaf-saves'', sample_record False) \<in> set (Records (sample_control False))"
    "CardID (sample_record False) = IID (Identity (hd sample_inventory))" "Kind (sample_record False) = ''saves''"
    by (simp_all add: sample_control_def sample_record_def sample_inventory_def)
  obtain g where "boot (folders_for_game_check calm_event sample_inventory [running_folder] (Records (sample_control False))) [] sample_tree
      = (Ok [running_folder], g)" using chosen by (metis prod.collapse)
  from game_stops_only_when_current [OF this out] card bound show ?thesis by (fastforce simp: calm_round_def)
qed

theorem game_check_answers_in_time_witness:
  "\<exists>t reply rest. fst (run_game_check calm_parse True [running_folder] sample_device 1000 (replicate 10 down_round)) = (t, reply) # rest \<and>
     t \<le> 900000000"
proof -
  have "first_reply_budget 1000 = 900000000" by code_simp
  then show ?thesis
    using game_check_answers_in_time [of "replicate 10 down_round" calm_parse True "[running_folder]" sample_device 1000]
    by (auto simp: down_round_def)
qed

end
