(* ===== verification/Live_Status.thy ===== *)
theory Live_Status
  imports First_Sync Game_Check
begin

text \<open>
  The status that the controller shows: \<open>controller/ui.go\<close> and the status functions of \<open>run.go\<close>.
  It holds the rows of the last inventory, changed in place by what Syncthing reports and by the
  operations of the user.  An issue is its code, its scope and its subject.
\<close>

section \<open>The status\<close>

record ui_issue =
  IsCode :: string
  IsScope :: string
  IsSubject :: string

record live_row = folder_row +
  LrLocalBytes :: int
  LrGlobalBytes :: int
  LrLocalItems :: int
  LrGlobalItems :: int
  LrNeedBytes :: int
  LrNeedItems :: int
  LrRemoteState :: string
  LrRemotePeer :: string
  LrRemoteNeedBytes :: int
  LrRemoteNeedItems :: int
  LrLastSync :: string
  LrFirst :: progress
  LrConflictCount :: nat
  LrConflicts :: "string list"

record card_row =
  CrID :: string
  CrSource :: string
  CrSuffix :: string
  CrSlot :: string
  CrRoot :: string
  CrState :: card_state
  CrEnrolled :: bool
  CrPresent :: bool
  CrWritable :: bool
  CrDuplicate :: bool
  CrRetained :: int
  CrIssues :: "ui_issue list"

record peer_status =
  PsID :: string
  PsSuffix :: string
  PsName :: string
  PsState :: string
  PsConnection :: string
  PsAddress :: string
  PsPaused :: bool
  PsIntroducer :: bool
  PsIntroducedBy :: string
  PsPending :: bool

record offer_status =
  OsFolder :: string
  OsLabel :: string
  OsDevice :: string
  OsSuffix :: string
  OsDeviceName :: string
  OsOfferedAt :: string
  OsReceive :: bool
  OsRemote :: bool
  OsIgnored :: bool



record view =
  VwUpstream :: string
  VwGame :: game_state
  VwCards :: "card_row list"
  VwRows :: "live_row list"
  VwPeers :: "peer_status list"
  VwOffers :: "offer_status list"
  VwTransfer :: "ui_transfer option"
  VwIssues :: "ui_issue list"

definition service_subject :: string where "service_subject = ''org.umrk.syncthing''"

section \<open>Issues and lookups\<close>

definition same_issue :: "ui_issue \<Rightarrow> ui_issue \<Rightarrow> bool" where
  "same_issue a b \<longleftrightarrow> IsCode a = IsCode b \<and> IsScope a = IsScope b \<and> IsSubject a = IsSubject b"

definition append_issue :: "ui_issue list \<Rightarrow> ui_issue \<Rightarrow> ui_issue list" where
  "append_issue is i = (if \<exists>j \<in> set is. same_issue j i then is else is @ [i])"

definition without_issue :: "ui_issue list \<Rightarrow> string \<Rightarrow> ui_issue list" where
  "without_issue is code = filter (\<lambda>i. IsCode i \<noteq> code) is"

definition without_subject_issue :: "ui_issue list \<Rightarrow> string \<Rightarrow> string \<Rightarrow> ui_issue list" where
  "without_subject_issue is code subject = filter (\<lambda>i. IsCode i \<noteq> code \<or> IsSubject i \<noteq> subject) is"

definition device_id_suffix :: "string \<Rightarrow> string" where
  "device_id_suffix d = (let plain = filter (\<lambda>c. c \<noteq> CHR ''-'') d
     in if length plain \<le> 7 then plain else drop (length plain - 7) plain)"

definition identity_suffix :: "string \<Rightarrow> string" where
  "identity_suffix i = (if length i \<le> 8 then i else drop (length i - 8) i)"

definition find_row :: "view \<Rightarrow> string \<Rightarrow> live_row option" where
  "find_row v i = find (\<lambda>row. RowID row = i) (VwRows v)"

definition find_folder_offer :: "view \<Rightarrow> string \<Rightarrow> string \<Rightarrow> offer_status option" where
  "find_folder_offer v folder device = find (\<lambda>o'. OsFolder o' = folder \<and> OsDevice o' = device) (VwOffers v)"

definition find_peer :: "view \<Rightarrow> string \<Rightarrow> peer_status option" where
  "find_peer v d = find (\<lambda>p. PsID p = d) (VwPeers v)"

definition folder_safe_for_action :: "live_row \<Rightarrow> bool" where
  "folder_safe_for_action row \<longleftrightarrow> RowCard row \<noteq> '''' \<and> (\<forall>code \<in> set (RowIssues row). code = ''folder-sync-error'')"

definition folder_safe_for_inspect :: "live_row \<Rightarrow> bool" where
  "folder_safe_for_inspect row \<longleftrightarrow> RowCard row \<noteq> '''' \<and> is_abs (RowPath row) \<and>
     (\<forall>code \<in> set (RowIssues row). code = ''folder-sync-error'' \<or> code = ''folder-conflicts'')"

definition only_manual_pause :: "string list \<Rightarrow> bool" where
  "only_manual_pause reasons \<longleftrightarrow> (\<forall>r \<in> set reasons. r = ''manual'')"

definition device_folder_memberships :: "configured_folder list \<Rightarrow> string \<Rightarrow> string list" where
  "device_folder_memberships fs d = map FLabel (filter (\<lambda>f. d \<in> set (FDevices f)) fs)"

text \<open>The first configured folder of an id, with its position.\<close>

fun find_configured_at :: "nat \<Rightarrow> configured_folder list \<Rightarrow> string \<Rightarrow> (configured_folder \<times> nat) option" where
  "find_configured_at n [] i = None"
| "find_configured_at n (f # fs) i = (if FID f = i then Some (f, n) else find_configured_at (Suc n) fs i)"

definition find_configured_folder :: "configured_folder list \<Rightarrow> string \<Rightarrow> (configured_folder \<times> nat) option" where
  "find_configured_folder fs i = find_configured_at 0 fs i"

text \<open>A change of the row that \<open>findFolder\<close> returns a pointer to.\<close>

fun change_row :: "string \<Rightarrow> (live_row \<Rightarrow> live_row) \<Rightarrow> live_row list \<Rightarrow> live_row list" where
  "change_row i g [] = []"
| "change_row i g (r # rs) = (if RowID r = i then g r # rs else r # change_row i g rs)"

definition on_row :: "string \<Rightarrow> (live_row \<Rightarrow> live_row) \<Rightarrow> view \<Rightarrow> view" where
  "on_row i g v = v\<lparr>VwRows := change_row i g (VwRows v)\<rparr>"

section \<open>What Syncthing reports\<close>

definition sync_error_issue :: "string \<Rightarrow> ui_issue" where
  "sync_error_issue i = \<lparr>IsCode = ''folder-sync-error'', IsScope = ''folder'', IsSubject = i\<rparr>"

definition live_folder :: "ui_folder_status \<Rightarrow> live_row \<Rightarrow> live_row" where
  "live_folder up row =
     (let row = row\<lparr>LrLocalBytes := UfLocalBytes up, LrGlobalBytes := UfGlobalBytes up, LrLocalItems := UfLocalItems up,
            LrGlobalItems := UfGlobalItems up, LrNeedBytes := UfNeedBytes up, LrNeedItems := UfNeedItems up,
            LrRemoteState := UfRemoteState up, LrRemotePeer := UfRemotePeer up, LrRemoteNeedBytes := UfRemoteBytes up,
            LrRemoteNeedItems := UfRemoteItems up, LrLastSync := UfLastActivity up\<rparr>;
          row = (if RowIssues row = [] then row\<lparr>RowState := if RowPaused row then ''paused'' else UfState up\<rparr> else row)
      in if UfErrors up > 0 \<or> UfPullErrors up > 0
         then row\<lparr>RowIssues := append_unique (RowIssues row) ''folder-sync-error''\<rparr> else row)"

definition live_step :: "(string \<times> ui_folder_status) list \<Rightarrow> live_row \<Rightarrow> live_row list \<times> ui_issue list \<Rightarrow> live_row list \<times> ui_issue list" where
  "live_step reported row0 acc =
     (let row = row0\<lparr>RowIssues := filter (\<lambda>c. c \<noteq> ''folder-sync-error'') (RowIssues row0)\<rparr>
      in case map_of reported (RowID row) of
           None \<Rightarrow> (fst acc @ [row], snd acc)
         | Some up \<Rightarrow> (fst acc @ [live_folder up row],
             if UfErrors up > 0 \<or> UfPullErrors up > 0 then append_issue (snd acc) (sync_error_issue (RowID row)) else snd acc))"

definition peer_of :: "ui_peer_status \<Rightarrow> peer_status" where
  "peer_of p = \<lparr>PsID = UpID p, PsSuffix = device_id_suffix (UpID p), PsName = UpName p, PsState = UpState p,
     PsConnection = UpConnection p, PsAddress = UpAddress p, PsPaused = UpPaused p, PsIntroducer = UpIntroducer p,
     PsIntroducedBy = UpIntroducedBy p, PsPending = UpPending p\<rparr>"

definition offer_of :: "ui_offer \<Rightarrow> offer_status" where
  "offer_of o' = \<lparr>OsFolder = OfFolder o', OsLabel = OfLabel o', OsDevice = OfDevice o', OsSuffix = device_id_suffix (OfDevice o'),
     OsDeviceName = OfDeviceName o', OsOfferedAt = OfOfferedAt o', OsReceive = OfReceive o', OsRemote = OfRemote o',
     OsIgnored = False\<rparr>"

definition apply_live_status :: "view \<Rightarrow> ui_status \<Rightarrow> view" where
  "apply_live_status v live =
     (let issues = without_issue (without_issue (VwIssues v) ''upstream-status-unavailable'') ''folder-sync-error''
      in case fold (live_step (UsFolders live)) (VwRows v) ([], issues) of
           (rows, issues) \<Rightarrow> v\<lparr>VwRows := rows, VwIssues := issues, VwPeers := map peer_of (UsPeers live),
             VwOffers := map offer_of (UsOffers live), VwTransfer := Some (UsTransfer live)\<rparr>)"

definition apply_ignored_offers :: "view \<Rightarrow> (string \<times> ignored_offer) list \<Rightarrow> view" where
  "apply_ignored_offers v ignored = v\<lparr>VwOffers :=
     map (\<lambda>o'. o'\<lparr>OsIgnored := map_of ignored (folder_offer_key (OsFolder o') (OsDevice o')) \<noteq> None\<rparr>) (VwOffers v)\<rparr>"

definition apply_live_error :: "view \<Rightarrow> view" where
  "apply_live_error v = v\<lparr>VwIssues := append_issue (VwIssues v)
     \<lparr>IsCode = ''upstream-status-unavailable'', IsScope = ''controller'', IsSubject = service_subject\<rparr>\<rparr>"

definition apply_first_sync_status :: "sync_machine \<Rightarrow> view \<Rightarrow> view" where
  "apply_first_sync_status m v = v\<lparr>VwRows := map (\<lambda>row.
     row\<lparr>LrFirst := progress_for (RowID row) (FirstSync (control_of (Records (Store m)) (RowID row))) m\<rparr>) (VwRows v)\<rparr>"

section \<open>The inventory\<close>

definition card_row_of :: "leaf_card \<Rightarrow> card_row" where
  "card_row_of c =
     (let i = IID (Identity c); identifier = (if i = '''' then ''source:'' @ ID (Source c) else i)
      in \<lparr>CrID = identifier, CrSource = ID (Source c), CrSuffix = identity_suffix i, CrSlot = source_label (Source c),
          CrRoot = Root (Source c), CrState = State c, CrEnrolled = i \<noteq> '''', CrPresent = Present c, CrWritable = Writable c,
          CrDuplicate = DuplicateID c, CrRetained = RetainedBytes c,
          CrIssues = map (\<lambda>code. \<lparr>IsCode = code, IsScope = ''card'', IsSubject = identifier\<rparr>) (Issues c)\<rparr>)"

definition apply_card_inventory :: "leaf_card list \<Rightarrow> view \<Rightarrow> view" where
  "apply_card_inventory inventory v = (let rows = map card_row_of inventory
     in v\<lparr>VwCards := rows, VwIssues := filter (\<lambda>i. IsScope i \<noteq> ''card'') (VwIssues v) @ concat (map CrIssues rows)\<rparr>)"

definition fresh_row :: "folder_row \<Rightarrow> live_row" where
  "fresh_row row = folder_row.extend row (live_row.fields 0 0 0 0 0 0 '''' '''' 0 0 '''' (progress_of '''') 0 [])"

definition row_issues :: "folder_row \<Rightarrow> ui_issue list" where
  "row_issues row = map (\<lambda>code. \<lparr>IsCode = code, IsScope = ''folder'', IsSubject = RowID row\<rparr>) (RowIssues row)"

definition apply_inventory :: "leaf_card list \<Rightarrow> configured_folder list \<Rightarrow> (string \<times> control_record) list \<Rightarrow> view \<Rightarrow> ('d, view) io" where
  "apply_inventory inventory folders controls v0 =
     (let v = apply_card_inventory inventory v0
      in io_bind (reconcile_managed_folders inventory controls folders) (\<lambda>rows.
         io_ret (v\<lparr>VwRows := map fresh_row rows,
           VwIssues := filter (\<lambda>i. IsScope i \<noteq> ''folder'') (VwIssues v) @ concat (map row_issues rows)\<rparr>)))"

definition control_status :: "game_state \<Rightarrow> leaf_card list \<Rightarrow> configured_folder list \<Rightarrow> (string \<times> control_record) list \<Rightarrow> ('d, view) io" where
  "control_status game inventory folders controls = apply_inventory inventory folders controls
     \<lparr>VwUpstream = ''running'', VwGame = game, VwCards = [], VwRows = [], VwPeers = [], VwOffers = [], VwTransfer = None, VwIssues = []\<rparr>"

section \<open>Games\<close>

definition reconcile_game_state :: "game_state \<Rightarrow> event \<Rightarrow> game_state" where
  "reconcile_game_state g ev =
     (if Name ev \<in> {''game.start'', ''game.check''} then
        \<lparr>Active = True, StateLaunchID = LaunchID ev, StateSourceID = event.SourceID ev, StateSavesPath = event.SavesPath ev, StateStatesPath = event.StatesPath ev\<rparr>
      else if Name ev \<in> {''game.abort'', ''game.finish''} \<and> StateLaunchID g = LaunchID ev then zero_game_state else g)"

end
