(* ===== verification/Browser_Trust.thy ===== *)
theory Browser_Trust
  imports Single_Store Programs
begin

text \<open>
  \<open>gateway/trust.go\<close>: the browsers that were paired.  A browser keeps a token, the store the
  digest of the token with the instants of the pairing and of the last use.  Times are
  nanoseconds; \<open>sha\<close> is the hexadecimal digest, \<open>sz\<close> the length of a marshalled document.
\<close>

section \<open>The store\<close>

record trust_record =
  TrHash :: string
  TrCreated :: int
  TrLastUsed :: int

record trust_document =
  TDSchema :: int
  TDRecords :: "trust_record list"

record trust_store =
  TrustRecords :: "trust_record list"
  TrustW :: "trust_document world"

definition second :: int where "second = 1000000000"
definition max_trust_records :: nat where "max_trust_records = 32"
definition trust_absolute :: int where "trust_absolute = 30 * 24 * 3600 * second"
definition trust_idle :: int where "trust_idle = 24 * 3600 * second"
definition last_used_flush :: int where "last_used_flush = 5 * 60 * second"
definition max_trust_bytes :: nat where "max_trust_bytes = 64 * 1024"

text \<open>The zero instant of Go, January 1 of the year 1.\<close>

definition zero_instant :: int where "zero_instant = - 62135596800 * second"

definition hex_digit :: "char \<Rightarrow> bool" where
  "hex_digit c \<longleftrightarrow> (CHR ''0'' \<le> c \<and> c \<le> CHR ''9'') \<or> (CHR ''a'' \<le> c \<and> c \<le> CHR ''f'') \<or> (CHR ''A'' \<le> c \<and> c \<le> CHR ''F'')"

definition valid_trust_record :: "trust_record \<Rightarrow> bool" where
  "valid_trust_record r \<longleftrightarrow> length (TrHash r) = 64 \<and> (\<forall>c \<in> set (TrHash r). hex_digit c) \<and>
     TrCreated r \<noteq> zero_instant \<and> TrLastUsed r \<noteq> zero_instant"

definition valid_trust_document :: "trust_document \<Rightarrow> bool" where
  "valid_trust_document d \<longleftrightarrow> TDSchema d = 1 \<and> length (TDRecords d) \<le> max_trust_records \<and>
     (\<forall>r \<in> set (TDRecords d). valid_trust_record r)"

text \<open>A record stays for thirty days, while it is used every day, and not before its creation.\<close>

definition trust_alive :: "int \<Rightarrow> trust_record \<Rightarrow> bool" where
  "trust_alive now r \<longleftrightarrow>
     \<not> (now - TrCreated r > trust_absolute \<or> now - TrLastUsed r > trust_idle \<or> now < TrCreated r)"

definition prune_trust :: "int \<Rightarrow> trust_record list \<Rightarrow> trust_record list" where
  "prune_trust now rs = filter (trust_alive now) rs"

definition persist_trust :: "(trust_document \<Rightarrow> nat) \<Rightarrow> string \<Rightarrow> trust_record list \<Rightarrow> (trust_document, unit) io" where
  "persist_trust sz path rs =
     (let d = \<lparr>TDSchema = 1, TDRecords = rs\<rparr>
      in io_bind (mkdir_all (dir_name path)) (\<lambda>_.
         io_bind (remove_safe_regular (tmp_of path)) (\<lambda>_.
         io_bind (create_excl (tmp_of path)) (\<lambda>_.
         io_bind (write_file (tmp_of path) (Doc d (sz d))) (\<lambda>_.
         io_bind (fsync_file (tmp_of path)) (\<lambda>_.
         io_bind (close_file (tmp_of path)) (\<lambda>_.
         rename_file (tmp_of path) path)))))))"

definition load_trust :: "string \<Rightarrow> int \<Rightarrow> (trust_document, trust_record list) io" where
  "load_trust path now =
     io_bind (read_single max_trust_bytes valid_trust_document path) (\<lambda>found.
       io_ret (case found of None \<Rightarrow> [] | Some d \<Rightarrow> prune_trust now (TDRecords d)))"

definition new_trust_store :: "string \<Rightarrow> int \<Rightarrow> (trust_document, trust_record list) io" where
  "new_trust_store path now =
     (if \<not> is_abs path then io_fail ''trust store path must be absolute'' else load_trust path now)"

section \<open>Operations\<close>

text \<open>Saving the records of the store; \<open>quietly\<close> when the code drops the error.\<close>

definition save_trust :: "(trust_document \<Rightarrow> nat) \<Rightarrow> string \<Rightarrow> ('a trust_store_scheme, unit) prog" where
  "save_trust sz path = (\<lambda>s. on_files TrustW (\<lambda>w s. s\<lparr>TrustW := w\<rparr>) (persist_trust sz path (TrustRecords s)) s)"

definition save_quietly :: "(trust_document \<Rightarrow> nat) \<Rightarrow> string \<Rightarrow> ('a trust_store_scheme, unit) prog" where
  "save_quietly sz path = pr_bind (pr_try (save_trust sz path)) (\<lambda>_. pr_ret ())"

definition prune_store :: "int \<Rightarrow> ('a trust_store_scheme, bool) prog" where
  "prune_store now = (\<lambda>s. let rs = prune_trust now (TrustRecords s)
     in (Ok (length rs \<noteq> length (TrustRecords s)), s\<lparr>TrustRecords := rs\<rparr>))"

definition count_trust :: "(trust_document \<Rightarrow> nat) \<Rightarrow> string \<Rightarrow> int \<Rightarrow> ('a trust_store_scheme, nat) prog" where
  "count_trust sz path now =
     pr_bind (prune_store now) (\<lambda>changed.
     pr_bind (pr_when changed (save_quietly sz path)) (\<lambda>_.
       pr_get (\<lambda>s. length (TrustRecords s))))"

text \<open>
  A new record, and the oldest by use dropped beyond the limit.  \<open>token\<close> is the token that is drawn
  (\<open>None\<close> when the random source fails).  The code's sort is not stable; records of equal use keep
  their order here.
\<close>

definition keep_newest :: "trust_record list \<Rightarrow> trust_record list" where
  "keep_newest rs = (let sorted_rs = sort_key TrLastUsed rs
     in drop (length sorted_rs - max_trust_records) sorted_rs)"

definition issue_trust :: "(string \<Rightarrow> string) \<Rightarrow> (trust_document \<Rightarrow> nat) \<Rightarrow> string \<Rightarrow> int \<Rightarrow> string option \<Rightarrow>
    ('a trust_store_scheme, string) prog" where
  "issue_trust sha sz path now token =
     pr_bind (prune_store now) (\<lambda>_. case token of
       None \<Rightarrow> pr_fail ''random source''
     | Some tok \<Rightarrow>
         pr_bind (pr_put (\<lambda>s. s\<lparr>TrustRecords := keep_newest (TrustRecords s @
           [\<lparr>TrHash = sha tok, TrCreated = now, TrLastUsed = now\<rparr>])\<rparr>)) (\<lambda>_.
         pr_bind (save_trust sz path) (\<lambda>_. pr_ret tok)))"

fun touch_trust :: "string \<Rightarrow> int \<Rightarrow> trust_record list \<Rightarrow> (trust_record list \<times> bool) option" where
  "touch_trust hash now [] = None"
| "touch_trust hash now (r # rs) =
     (if TrHash r = hash then
        (if now - TrLastUsed r \<ge> last_used_flush then Some (r\<lparr>TrLastUsed := now\<rparr> # rs, True) else Some (r # rs, False))
      else map_option (\<lambda>(rs', touched). (r # rs', touched)) (touch_trust hash now rs))"

definition authenticate_trust :: "(string \<Rightarrow> string) \<Rightarrow> (trust_document \<Rightarrow> nat) \<Rightarrow> string \<Rightarrow> int \<Rightarrow> string \<Rightarrow>
    ('a trust_store_scheme, bool) prog" where
  "authenticate_trust sha sz path now token =
     (if token = '''' then pr_ret False
      else pr_bind (prune_store now) (\<lambda>changed.
        pr_bind (pr_get (\<lambda>s. touch_trust (sha token) now (TrustRecords s))) (\<lambda>found. case found of
          Some (rs, touched) \<Rightarrow>
            pr_bind (pr_put (\<lambda>s. s\<lparr>TrustRecords := rs\<rparr>)) (\<lambda>_.
            pr_bind (pr_when (changed \<or> touched) (save_quietly sz path)) (\<lambda>_. pr_ret True))
        | None \<Rightarrow> pr_bind (pr_when changed (save_quietly sz path)) (\<lambda>_. pr_ret False))))"

definition revoke_trust :: "(string \<Rightarrow> string) \<Rightarrow> (trust_document \<Rightarrow> nat) \<Rightarrow> string \<Rightarrow> string \<Rightarrow> ('a trust_store_scheme, unit) prog" where
  "revoke_trust sha sz path token =
     pr_bind (pr_put (\<lambda>s. s\<lparr>TrustRecords := filter (\<lambda>r. TrHash r \<noteq> sha token) (TrustRecords s)\<rparr>)) (\<lambda>_.
       save_trust sz path)"

definition revoke_all_trust :: "(trust_document \<Rightarrow> nat) \<Rightarrow> string \<Rightarrow> ('a trust_store_scheme, unit) prog" where
  "revoke_all_trust sz path = pr_bind (pr_put (\<lambda>s. s\<lparr>TrustRecords := []\<rparr>)) (\<lambda>_. save_trust sz path)"

section \<open>What the operations leave in memory\<close>

text \<open>
  An operation of the store leaves the rest of a larger state alone; \<open>idents\<close> are the browsers of
  a store with the instants of their pairing.
\<close>

definition idents :: "'a trust_store_scheme \<Rightarrow> (string \<times> int) set" where
  "idents s = (\<lambda>r. (TrHash r, TrCreated r)) ` set (TrustRecords s)"

definition rest_kept :: "'a trust_store_scheme \<Rightarrow> 'a trust_store_scheme \<Rightarrow> bool" where
  "rest_kept s t \<longleftrightarrow> trust_store.more t = trust_store.more s"

definition no_new :: "'a trust_store_scheme \<Rightarrow> 'a trust_store_scheme \<Rightarrow> bool" where
  "no_new s t \<longleftrightarrow> rest_kept s t \<and> idents t \<subseteq> idents s"

lemma no_new_refl [simp]: "no_new s s"
  by (simp add: no_new_def rest_kept_def)

lemma no_new_trans: "no_new s t \<Longrightarrow> no_new t u \<Longrightarrow> no_new s u"
  by (auto simp: no_new_def rest_kept_def)

lemma save_sat: "sat (save_trust sz path) (\<lambda>_ t. rest_kept s t \<and> TrustRecords t = TrustRecords s)
    (\<lambda>_ t. rest_kept s t \<and> TrustRecords t = TrustRecords s) (\<lambda>t. rest_kept s t \<and> TrustRecords t = TrustRecords s) s"
  by (auto simp: sat_def save_trust_def on_files_def rest_kept_def split: prod.split outcome.split)

lemma quietly_sat: "sat (save_quietly sz path) (\<lambda>_ t. rest_kept s t \<and> TrustRecords t = TrustRecords s)
    (\<lambda>_ _. False) (\<lambda>t. rest_kept s t \<and> TrustRecords t = TrustRecords s) s"
  unfolding save_quietly_def sat_bind sat_try
  by (rule sat_mono [OF save_sat]) auto

lemma when_quietly_sat: "sat (pr_when b (save_quietly sz path)) (\<lambda>_ t. rest_kept s t \<and> TrustRecords t = TrustRecords s)
    (\<lambda>_ _. False) (\<lambda>t. rest_kept s t \<and> TrustRecords t = TrustRecords s) s"
  using quietly_sat [of sz path s] by (cases b) (simp_all add: pr_when_def rest_kept_def)

lemma prune_sat: "sat (prune_store now) (\<lambda>_ t. no_new s t \<and> (\<forall>r \<in> set (TrustRecords t). trust_alive now r)) (\<lambda>_ _. False) (\<lambda>_. False) s"
  by (auto simp: sat_def prune_store_def Let_def no_new_def rest_kept_def idents_def prune_trust_def)

lemma count_sat: "sat (count_trust sz path now) (\<lambda>n t. no_new s t \<and> n = length (TrustRecords t)) (\<lambda>_ _. False) (no_new s) s"
  unfolding count_trust_def sat_bind
proof (rule sat_mono [OF prune_sat])
  fix changed t
  assume t: "no_new s t \<and> (\<forall>r \<in> set (TrustRecords t). trust_alive now r)"
  show "sat (pr_when changed (save_quietly sz path)) (\<lambda>_. sat (pr_get (\<lambda>s. length (TrustRecords s)))
      (\<lambda>n t. no_new s t \<and> n = length (TrustRecords t)) (\<lambda>_ _. False) (no_new s)) (\<lambda>_ _. False) (no_new s) t"
    by (rule sat_mono [OF when_quietly_sat]) (use t in \<open>auto simp: no_new_def rest_kept_def idents_def\<close>)
qed auto

lemma keep_newest_sub: "set (keep_newest rs) \<subseteq> set rs"
  using set_drop_subset [of _ "sort_key TrLastUsed rs"] by (fastforce simp: keep_newest_def Let_def)

definition one_new :: "string \<Rightarrow> int \<Rightarrow> 'a trust_store_scheme \<Rightarrow> 'a trust_store_scheme \<Rightarrow> bool" where
  "one_new hash now s t \<longleftrightarrow> rest_kept s t \<and> idents t \<subseteq> insert (hash, now) (idents s)"

lemma issue_sat:
  "sat (issue_trust sha sz path now token) (\<lambda>tok t. token = Some tok \<and> one_new (sha tok) now s t)
     (\<lambda>_ t. case token of None \<Rightarrow> no_new s t | Some tok \<Rightarrow> one_new (sha tok) now s t)
     (\<lambda>t. case token of None \<Rightarrow> no_new s t | Some tok \<Rightarrow> one_new (sha tok) now s t) s"
proof (cases token)
  case None
  show ?thesis unfolding issue_trust_def sat_bind None
    by (rule sat_mono [OF prune_sat]) (auto simp: None)
next
  case (Some tok)
  have step: "sat (pr_bind (save_trust sz path) (\<lambda>_. pr_ret tok)) (\<lambda>x t. x = tok \<and> one_new (sha tok) now s t)
      (\<lambda>_. one_new (sha tok) now s) (one_new (sha tok) now s) t" if "one_new (sha tok) now s t" for t
    unfolding sat_bind by (rule sat_mono [OF save_sat]) (use that in \<open>auto simp: one_new_def rest_kept_def idents_def\<close>)
  have "idents (t\<lparr>TrustRecords := keep_newest (TrustRecords t @ [\<lparr>TrHash = sha tok, TrCreated = now, TrLastUsed = now\<rparr>])\<rparr>)
      \<subseteq> insert (sha tok, now) (idents t)" for t :: "'a trust_store_scheme"
    using image_mono [OF keep_newest_sub [of "TrustRecords t @ [\<lparr>TrHash = sha tok, TrCreated = now, TrLastUsed = now\<rparr>]"],
      of "\<lambda>r. (TrHash r, TrCreated r)"] by (simp add: idents_def)
  then have "one_new (sha tok) now s (t\<lparr>TrustRecords := keep_newest (TrustRecords t @ [\<lparr>TrHash = sha tok, TrCreated = now, TrLastUsed = now\<rparr>])\<rparr>)"
    if "no_new s t" for t
    using that unfolding no_new_def one_new_def rest_kept_def by (simp, blast)
  then show ?thesis unfolding issue_trust_def sat_bind [of "prune_store now"] Some
    by (intro sat_mono [OF prune_sat]) (auto intro: sat_mono [OF step])
qed

lemma touch_found: "touch_trust hash now rs = Some (rs', b) \<Longrightarrow>
    (\<exists>r \<in> set rs. TrHash r = hash) \<and> map (\<lambda>r. (TrHash r, TrCreated r)) rs' = map (\<lambda>r. (TrHash r, TrCreated r)) rs"
  by (induction rs arbitrary: rs') (auto split: if_splits)

lemma touch_idents: "touch_trust hash now (TrustRecords t) = Some (rs, b) \<Longrightarrow> idents (t\<lparr>TrustRecords := rs\<rparr>) = idents t"
  using arg_cong [OF conjunct2 [OF touch_found], of hash now "TrustRecords t" rs b set] by (simp add: idents_def)

text \<open>A browser that is let in has a record that is alive.\<close>

lemma authenticate_sat:
  "sat (authenticate_trust sha sz path now token)
     (\<lambda>ok t. no_new s t \<and> (ok \<longrightarrow> (\<exists>r \<in> set (TrustRecords s). TrHash r = sha token \<and> trust_alive now r)))
     (\<lambda>_ _. False) (no_new s) s"
proof (cases "token = ''''")
  case False
  have fin: "sat (pr_bind (pr_when b (save_quietly sz path)) (\<lambda>_. pr_ret ok)) (\<lambda>ok' t. ok' = ok \<and> no_new s t) (\<lambda>_ _. False) (no_new s) t"
    if "no_new s t" for b ok and t :: "'a trust_store_scheme"
    unfolding sat_bind
    by (rule sat_mono [OF when_quietly_sat]) (use that in \<open>auto simp: no_new_def rest_kept_def idents_def\<close>)
  have main: "sat (case touch_trust (sha token) now (TrustRecords t) of
          Some (rs, touched) \<Rightarrow> pr_bind (pr_put (\<lambda>s. s\<lparr>TrustRecords := rs\<rparr>)) (\<lambda>_.
            pr_bind (pr_when (changed \<or> touched) (save_quietly sz path)) (\<lambda>_. pr_ret True))
        | None \<Rightarrow> pr_bind (pr_when changed (save_quietly sz path)) (\<lambda>_. pr_ret False))
       (\<lambda>ok t. no_new s t \<and> (ok \<longrightarrow> (\<exists>r \<in> set (prune_trust now (TrustRecords s)). TrHash r = sha token))) (\<lambda>_ _. False) (no_new s) t"
    if t: "no_new s t" "TrustRecords t = prune_trust now (TrustRecords s)" for changed t
  proof (cases "touch_trust (sha token) now (TrustRecords t)")
    case None
    have "sat (pr_bind (pr_when changed (save_quietly sz path)) (\<lambda>_. pr_ret False))
        (\<lambda>ok t. no_new s t \<and> (ok \<longrightarrow> (\<exists>r \<in> set (prune_trust now (TrustRecords s)). TrHash r = sha token))) (\<lambda>_ _. False) (no_new s) t"
      by (rule sat_mono [OF fin [OF t(1)]]) simp_all
    then show ?thesis by (simp add: None)
  next
    case (Some x)
    obtain rs touched where x: "x = (rs, touched)" by (cases x)
    have "no_new s (t\<lparr>TrustRecords := rs\<rparr>)"
      using t(1) touch_idents [OF Some [unfolded x]] by (simp add: no_new_def rest_kept_def)
    note ends = fin [OF this, of "changed \<or> touched" True]
    have "sat (pr_bind (pr_when (changed \<or> touched) (save_quietly sz path)) (\<lambda>_. pr_ret True))
        (\<lambda>ok t. no_new s t \<and> (ok \<longrightarrow> (\<exists>r \<in> set (prune_trust now (TrustRecords s)). TrHash r = sha token))) (\<lambda>_ _. False) (no_new s)
        (t\<lparr>TrustRecords := rs\<rparr>)"
      by (rule sat_mono [OF ends]) (use touch_found [OF Some [unfolded x]] t(2) in simp_all)
    then show ?thesis by (simp add: Some x)
  qed
  have pruned: "sat (prune_store now) (\<lambda>_ t. no_new s t \<and> TrustRecords t = prune_trust now (TrustRecords s)) (\<lambda>_ _. False) (\<lambda>_. False) s"
    by (auto simp: sat_def prune_store_def Let_def no_new_def rest_kept_def idents_def prune_trust_def)
  show ?thesis
    unfolding authenticate_trust_def if_not_P [OF False] sat_bind [of "prune_store now"]
  proof (rule sat_mono [OF pruned])
    fix changed t
    assume "no_new s t \<and> TrustRecords t = prune_trust now (TrustRecords s)"
    then show "sat (pr_bind (pr_get (\<lambda>s. touch_trust (sha token) now (TrustRecords s))) (\<lambda>found. case found of
          Some (rs, touched) \<Rightarrow>
            pr_bind (pr_put (\<lambda>s. s\<lparr>TrustRecords := rs\<rparr>)) (\<lambda>_.
            pr_bind (pr_when (changed \<or> touched) (save_quietly sz path)) (\<lambda>_. pr_ret True))
        | None \<Rightarrow> pr_bind (pr_when changed (save_quietly sz path)) (\<lambda>_. pr_ret False)))
      (\<lambda>ok t. no_new s t \<and> (ok \<longrightarrow> (\<exists>r \<in> set (TrustRecords s). TrHash r = sha token \<and> trust_alive now r)))
      (\<lambda>_ _. False) (no_new s) t"
      unfolding sat_prim_binds
      by (intro sat_mono [OF main [of t changed]]) (auto simp: prune_trust_def)
  qed auto
qed (simp add: authenticate_trust_def)

lemma revoke_sat:
  "sat (revoke_trust sha sz path token) (\<lambda>_ t. no_new s t \<and> sha token \<notin> fst ` idents t) (\<lambda>_ t. no_new s t \<and> sha token \<notin> fst ` idents t)
     (\<lambda>t. no_new s t \<and> sha token \<notin> fst ` idents t) s"
  unfolding revoke_trust_def
  by (simp, rule sat_mono [OF save_sat]) (auto simp: no_new_def rest_kept_def idents_def)

lemma revoke_all_sat:
  "sat (revoke_all_trust sz path) (\<lambda>_ t. rest_kept s t \<and> TrustRecords t = []) (\<lambda>_ t. rest_kept s t \<and> TrustRecords t = [])
     (\<lambda>t. rest_kept s t \<and> TrustRecords t = []) s"
  unfolding revoke_all_trust_def
  by (simp, rule sat_mono [OF save_sat]) (auto simp: rest_kept_def)

end
