(* ===== verification/Proxy_Filter.thy ===== *)
theory Proxy_Filter
  imports Ui_Status
begin

text \<open>
  \<open>gateway/proxy.go\<close>: which requests of a browser go on to Syncthing, and what is taken out of the
  replies.  A URL is the one \<open>net/http\<close> has parsed; the standard library's escaping and its parsing
  of queries are written out, as the checks rest on them.
\<close>

section \<open>URLs\<close>

record request_url =
  UrlScheme :: string
  UrlHost :: string
  UrlPath :: string
  UrlRawPath :: string
  UrlRawQuery :: string
  UrlFragment :: string

text \<open>\<open>URL.EscapedPath\<close> where the raw path is empty.\<close>

definition path_char :: "char \<Rightarrow> bool" where
  "path_char c \<longleftrightarrow> (CHR ''a'' \<le> c \<and> c \<le> CHR ''z'') \<or> (CHR ''A'' \<le> c \<and> c \<le> CHR ''Z'') \<or>
     (CHR ''0'' \<le> c \<and> c \<le> CHR ''9'') \<or> c \<in> set ''-_.~$&+,/:;=@''"

definition escaped_path :: "string \<Rightarrow> string" where
  "escaped_path p = (if p = ''*'' then ''*'' else concat (map (\<lambda>c. if path_char c then [c]
     else [CHR ''%'', ''0123456789ABCDEF'' ! (of_char c div 16), ''0123456789ABCDEF'' ! (of_char c mod 16)]) p))"

text \<open>\<open>URL.Query\<close>: pairs that cannot be decoded are left out, equal keys collect their values.\<close>

definition hex_value :: "char \<Rightarrow> nat option" where
  "hex_value c = (if CHR ''0'' \<le> c \<and> c \<le> CHR ''9'' then Some (of_char c - 48)
     else if CHR ''a'' \<le> c \<and> c \<le> CHR ''f'' then Some (of_char c - 87)
     else if CHR ''A'' \<le> c \<and> c \<le> CHR ''F'' then Some (of_char c - 55) else None)"

fun query_unescape :: "string \<Rightarrow> string option" where
  "query_unescape [] = Some []"
| "query_unescape (c # s) =
     (if c = CHR ''%'' then (case s of
        a # b # rest \<Rightarrow> (case (hex_value a, hex_value b) of
           (Some x, Some y) \<Rightarrow> map_option ((#) (char_of (16 * x + y))) (query_unescape rest)
         | _ \<Rightarrow> None)
      | _ \<Rightarrow> None)
      else map_option ((#) (if c = CHR ''+'' then CHR '' '' else c)) (query_unescape s))"

definition cut_at :: "char \<Rightarrow> string \<Rightarrow> string \<times> string" where
  "cut_at c s = (takeWhile (\<lambda>x. x \<noteq> c) s, drop 1 (dropWhile (\<lambda>x. x \<noteq> c) s))"

definition query_pair :: "string \<Rightarrow> (string \<times> string) option" where
  "query_pair item =
     (if CHR '';'' \<in> set item \<or> item = [] then None
      else case cut_at (CHR ''='') item of (k, v) \<Rightarrow>
        (case (query_unescape k, query_unescape v) of (Some k', Some v') \<Rightarrow> Some (k', v') | _ \<Rightarrow> None))"

fun add_value :: "string \<times> string \<Rightarrow> (string \<times> string list) list \<Rightarrow> (string \<times> string list) list" where
  "add_value (k, v) [] = [(k, [v])]"
| "add_value (k, v) ((k', vs) # q) = (if k' = k then (k', vs @ [v]) # q else (k', vs) # add_value (k, v) q)"

definition parse_query :: "string \<Rightarrow> (string \<times> string list) list" where
  "parse_query raw = fold add_value (List.map_filter query_pair (split_on (CHR ''&'') raw)) []"

text \<open>\<open>strconv.ParseUint\<close> with base 10 and 64 bits.\<close>

definition digit_char :: "char \<Rightarrow> bool" where
  "digit_char c \<longleftrightarrow> CHR ''0'' \<le> c \<and> c \<le> CHR ''9''"

definition decimal :: "string \<Rightarrow> nat" where
  "decimal s = foldl (\<lambda>n c. 10 * n + (of_char c - 48)) 0 s"

definition parses_uint :: "string \<Rightarrow> bool" where
  "parses_uint s \<longleftrightarrow> s \<noteq> [] \<and> (\<forall>c \<in> set s. digit_char c) \<and> decimal s < 2 ^ 64"

section \<open>The list of what may be read\<close>

definition numeric_query_only :: "(string \<times> string list) list \<Rightarrow> string list \<Rightarrow> bool" where
  "numeric_query_only q names \<longleftrightarrow> (\<forall>(k, vs) \<in> set q. k \<in> set names \<and> length vs = 1 \<and> hd vs \<noteq> [] \<and> parses_uint (hd vs))"

definition bounded_queries :: "(string \<times> string list) list \<Rightarrow> string list \<Rightarrow> bool" where
  "bounded_queries q names \<longleftrightarrow> length q = length names \<and>
     (\<forall>n \<in> set names. case map_of q n of
        Some [v] \<Rightarrow> 0 < length v \<and> length v \<le> 128
      | _ \<Rightarrow> False)"

definition bounded_query :: "(string \<times> string list) list \<Rightarrow> string \<Rightarrow> bool" where
  "bounded_query q name = bounded_queries q [name]"

definition static_languages :: "string list" where
  "static_languages = [
     ''ar'', ''bg'', ''ca'', ''ca@valencia'', ''cs'', ''da'', ''de'', ''el'', ''en'', ''en-GB'', ''eo'',
     ''es'', ''eu'', ''fil'', ''fr'', ''fy'', ''ga'', ''gl'', ''he-IL'', ''hi'', ''hr'', ''hu'', ''id'',
     ''it'', ''ja'', ''ko-KR'', ''lt'', ''nl'', ''pl'', ''pt-BR'', ''pt-PT'', ''ro-RO'', ''ru'', ''sk'',
     ''sl'', ''sv'', ''tr'', ''uk'', ''zh-CN'', ''zh-HK'', ''zh-TW'']"

definition fixed_paths :: "string list" where
  "fixed_paths = [
     ''/'', ''/meta.js'', ''/themes.json'', ''/assets/img/favicon-default.png'',
     ''/assets/img/safari-pinned-tab.svg'', ''/assets/img/logo-horizontal.svg'',
     ''/assets/font/raleway.css'', ''/assets/font/raleway-500.woff'', ''/assets/css/tree.css'',
     ''/assets/css/overrides.css'', ''/assets/css/theme.css'', ''/vendor/bootstrap/css/bootstrap.css'',
     ''/vendor/daterangepicker/daterangepicker.css'', ''/vendor/fork-awesome/css/fork-awesome.css'',
     ''/vendor/fork-awesome/css/v5-compat.css'', ''/vendor/fork-awesome/fonts/forkawesome-webfont.eot'',
     ''/vendor/fork-awesome/fonts/forkawesome-webfont.woff2'',
     ''/vendor/fork-awesome/fonts/forkawesome-webfont.woff'',
     ''/vendor/fork-awesome/fonts/forkawesome-webfont.ttf'',
     ''/vendor/fork-awesome/fonts/forkawesome-webfont.svg'', ''/vendor/bootstrap/fonts/reception-0.svg'',
     ''/vendor/bootstrap/fonts/reception-1.svg'', ''/vendor/bootstrap/fonts/reception-2.svg'',
     ''/vendor/bootstrap/fonts/reception-3.svg'', ''/vendor/bootstrap/fonts/reception-4.svg'',
     ''/vendor/jquery/jquery-3.7.1.js'', ''/vendor/angular/angular.js'',
     ''/vendor/angular/angular-sanitize.js'', ''/vendor/angular/angular-translate.js'',
     ''/vendor/angular/angular-translate-loader-static-files.js'',
     ''/vendor/angular/angular-dirPagination.js'', ''/vendor/moment/moment.js'',
     ''/vendor/bootstrap/js/bootstrap.js'', ''/vendor/daterangepicker/daterangepicker.js'',
     ''/vendor/fancytree/jquery.fancytree-all-deps.js'',
     ''/vendor/HumanizeDuration.js/humanize-duration.js'', ''/assets/lang/valid-langs.js'',
     ''/assets/lang/prettyprint.js'', ''/syncthing/app.js'', ''/syncthing/development/logbar.js'',
     ''/syncthing/development/logbar.html'', ''/syncthing/core/module.js'',
     ''/syncthing/core/alwaysNumberFilter.js'', ''/syncthing/core/basenameFilter.js'',
     ''/syncthing/core/binaryFilter.js'', ''/syncthing/core/localeNumberFilter.js'',
     ''/syncthing/core/percentFilter.js'', ''/syncthing/core/durationFilter.js'',
     ''/syncthing/core/eventService.js'', ''/syncthing/core/identiconDirective.js'',
     ''/syncthing/core/languageSelectDirective.js'', ''/syncthing/core/localeService.js'',
     ''/syncthing/core/modalDirective.js'', ''/syncthing/core/metricFilter.js'',
     ''/syncthing/core/notificationDirective.js'', ''/syncthing/core/pathIsSubDirDirective.js'',
     ''/syncthing/core/popoverDirective.js'', ''/syncthing/core/syncthingController.js'',
     ''/syncthing/core/tooltipDirective.js'', ''/syncthing/core/uncamelFilter.js'',
     ''/syncthing/core/uniqueFolderDirective.js'', ''/syncthing/core/validDeviceidDirective.js'',
     ''/syncthing/core/notifications.html'', ''/syncthing/core/networkErrorDialogView.html'',
     ''/syncthing/core/httpErrorDialogView.html'', ''/syncthing/core/restartingDialogView.html'',
     ''/syncthing/core/upgradingDialogView.html'', ''/syncthing/core/shutdownDialogView.html'',
     ''/syncthing/core/savingChangesDialogView.html'', ''/syncthing/core/upgradeModalView.html'',
     ''/syncthing/core/majorUpgradeModalView.html'', ''/syncthing/core/aboutModalView.html'',
     ''/syncthing/core/connectivityStatusModalView.html'', ''/syncthing/core/logViewerModalView.html'',
     ''/syncthing/device/idqrModalView.html'', ''/syncthing/device/editDeviceModalView.html'',
     ''/syncthing/device/globalChangesModalView.html'', ''/syncthing/device/removeDeviceDialogView.html'',
     ''/syncthing/device/shareDeviceIdDialogView.html'', ''/syncthing/folder/editFolderModalView.html'',
     ''/syncthing/folder/restoreVersionsModalView.html'',
     ''/syncthing/folder/restoreVersionsConfirmation.html'',
     ''/syncthing/folder/removeFolderDialogView.html'', ''/syncthing/folder/revertOverrideView.html'',
     ''/syncthing/settings/settingsModalView.html'', ''/syncthing/settings/advancedSettingsModalView.html'',
     ''/syncthing/settings/discardChangesConfirmation.html'',
     ''/syncthing/usagereport/usageReportModalView.html'',
     ''/syncthing/usagereport/usageReportPreviewModalView.html'',
     ''/syncthing/transfer/neededFilesModalView.html'', ''/syncthing/transfer/failedFilesModalView.html'',
     ''/syncthing/transfer/remoteNeededFilesModalView.html'',
     ''/syncthing/transfer/localChangedFilesModalView.html'', ''/theme-assets/light/assets/css/theme.css'',
     ''/theme-assets/dark/assets/css/theme.css'', ''/theme-assets/black/assets/css/theme.css'',
     ''/theme-assets/default/assets/css/theme.css'']"

definition static_paths :: "string list" where
  "static_paths = fixed_paths @ map (\<lambda>l. ''/assets/lang/lang-'' @ l @ ''.json'') static_languages"

definition static_version_query :: "string \<Rightarrow> string" where
  "static_version_query p = (if p \<in> set [
     ''/vendor/fork-awesome/fonts/forkawesome-webfont.eot'',
     ''/vendor/fork-awesome/fonts/forkawesome-webfont.woff2'',
     ''/vendor/fork-awesome/fonts/forkawesome-webfont.woff'',
     ''/vendor/fork-awesome/fonts/forkawesome-webfont.ttf'',
     ''/vendor/fork-awesome/fonts/forkawesome-webfont.svg'']
     then ''v=1.2.0'' else '''')"

definition exact_no_query :: "string list" where
  "exact_no_query = [
     ''/rest/noauth/health'', ''/rest/system/status'', ''/rest/system/version'',
     ''/rest/system/connections'', ''/rest/system/error'', ''/rest/system/discovery'', ''/rest/config'',
     ''/rest/config/insync'', ''/rest/cluster/pending/devices'', ''/rest/cluster/pending/folders'',
     ''/rest/stats/device'', ''/rest/stats/folder'', ''/rest/svc/lang'']"

definition plain_url :: "request_url \<Rightarrow> bool" where
  "plain_url u \<longleftrightarrow> \<not> (UrlScheme u \<noteq> '''' \<or> UrlHost u \<noteq> '''' \<or> UrlRawPath u \<noteq> '''' \<or> UrlFragment u \<noteq> '''' \<or>
     contains (UrlPath u) ''//'' \<or> contains (escaped_path (UrlPath u)) ''%2e'' \<or> contains (escaped_path (UrlPath u)) ''%2E'')"

definition allow_proxy_url :: "request_url \<Rightarrow> bool" where
  "allow_proxy_url u \<longleftrightarrow> plain_url u \<and>
     (let p = UrlPath u; q = parse_query (UrlRawQuery u)
      in if p \<in> set static_paths then UrlRawQuery u = '''' \<or> UrlRawQuery u = static_version_query p
         else if p \<in> set exact_no_query then UrlRawQuery u = ''''
         else if p = ''/rest/events'' then numeric_query_only q [''since'', ''limit'', ''timeout'']
         else if p = ''/rest/events/disk'' then numeric_query_only q [''limit'']
         else if p = ''/rest/db/status'' then bounded_query q ''folder''
         else if p = ''/rest/db/completion'' then bounded_queries q [''device'', ''folder'']
         else False)"

section \<open>Replies\<close>

text \<open>The values of keys that hold secrets are replaced, at every depth.\<close>

definition secret_name :: "string \<Rightarrow> bool" where
  "secret_name k \<longleftrightarrow> to_lower k \<in> set [''apikey'', ''password'', ''untrustedpassword'', ''token'']"

fun redact_secrets :: "json \<Rightarrow> json" where
  "redact_secrets (JObj kvs) = JObj (map (\<lambda>(k, v). (k, if secret_name k then JStr '''' else redact_secrets v)) kvs)"
| "redact_secrets (JArr vs) = JArr (map redact_secrets vs)"
| "redact_secrets v = v"

definition max_proxy_json :: nat where "max_proxy_json = 4 * 1024 * 1024"
definition max_proxy_html :: nat where "max_proxy_html = 4 * 1024 * 1024"
definition max_proxy_css :: nat where "max_proxy_css = 1024 * 1024"

text \<open>
  A reply of Syncthing.  Header names are canonical, as the client of \<open>net/http\<close> leaves them; a
  body that cannot be read to its end is \<open>Inl\<close>.  \<open>RespRequest\<close> is the method and path of the request.
\<close>

record upstream_response =
  RespStatus :: int
  RespHeader :: "(string \<times> string list) list"
  RespBody :: "(error + string) option"
  RespRequest :: "(string \<times> string) option"

definition header_del :: "string \<Rightarrow> (string \<times> string list) list \<Rightarrow> (string \<times> string list) list" where
  "header_del n hs = filter (\<lambda>(k, v). k \<noteq> n) hs"

definition header_set :: "string \<Rightarrow> string \<Rightarrow> (string \<times> string list) list \<Rightarrow> (string \<times> string list) list" where
  "header_set n v hs = header_del n hs @ [(n, [v])]"

definition header_get :: "string \<Rightarrow> (string \<times> string list) list \<Rightarrow> string" where
  "header_get n hs = (case map_of hs n of Some (v # _) \<Rightarrow> v | _ \<Rightarrow> '''')"

fun decimal_of :: "nat \<Rightarrow> string" where
  "decimal_of n = (if n < 10 then [char_of (48 + n)] else decimal_of (n div 10) @ [char_of (48 + n mod 10)])"

declare decimal_of.simps [simp del]

definition new_body :: "string \<Rightarrow> upstream_response \<Rightarrow> upstream_response" where
  "new_body b r = r\<lparr>RespBody := Some (Inr b),
     RespHeader := header_del ''Content-Encoding'' (header_set ''Content-Length'' (decimal_of (length b)) (RespHeader r))\<rparr>"

definition limited_body :: "nat \<Rightarrow> error \<Rightarrow> upstream_response \<Rightarrow> error + string" where
  "limited_body limit e r = (case RespBody r of
     Some (Inr b) \<Rightarrow> if length b > limit then Inl e else Inr b
   | _ \<Rightarrow> Inl e)"

definition marked_html :: string where
  "marked_html = ''id=\"leaf-read-only-banner\"''"

fun index_of :: "string \<Rightarrow> string \<Rightarrow> nat option" where
  "index_of p [] = (if p = [] then Some 0 else None)"
| "index_of p (c # s) = (if has_prefix (c # s) p then Some 0 else map_option Suc (index_of p s))"

definition with_banner :: "string \<Rightarrow> string \<Rightarrow> error + string" where
  "with_banner banner page =
     (if contains page marked_html then Inr page
      else let low = lower_ascii page in case index_of ''<body'' low of
        None \<Rightarrow> Inl ''upstream UI shell has no body''
      | Some i \<Rightarrow> (case index_of ''>'' (drop i low) of
          None \<Rightarrow> Inl ''upstream UI shell has an invalid body''
        | Some j \<Rightarrow> Inr (take (i + j + 1) page @ banner @ drop (i + j + 1) page)))"

definition add_read_only_banner :: "string \<Rightarrow> upstream_response \<Rightarrow> error + upstream_response" where
  "add_read_only_banner banner r =
     sum_bind (limited_body max_proxy_html ''upstream UI shell exceeds gateway limit'' r) (\<lambda>page.
     sum_bind (with_banner banner page) (\<lambda>page'. Inr (new_body page' r)))"

definition open_headers :: "(string \<times> string list) list \<Rightarrow> (string \<times> string list) list" where
  "open_headers hs = filter (\<lambda>(k, v). \<not> has_prefix (to_lower k) ''access-control-'')
     (header_set ''Cache-Control'' ''no-store'' (header_del ''Set-Cookie'' hs))"

text \<open>\<open>url_of\<close> parses the location of a redirect, \<open>parse\<close> the first value of a body, \<open>marshal\<close> writes one.\<close>

definition check_redirect :: "(string \<Rightarrow> request_url option) \<Rightarrow> upstream_response \<Rightarrow> error + unit" where
  "check_redirect url_of r = (let loc = header_get ''Location'' (RespHeader r)
     in if 300 \<le> RespStatus r \<and> RespStatus r < 400 \<and> loc \<noteq> '''' then
          (case url_of loc of
             Some u \<Rightarrow> if UrlScheme u = '''' \<and> UrlHost u = '''' \<and> allow_proxy_url u then Inr ()
                       else Inl ''upstream external or unknown redirect rejected''
           | None \<Rightarrow> Inl ''upstream external or unknown redirect rejected'')
        else Inr ())"

definition banner_step :: "string \<Rightarrow> upstream_response \<Rightarrow> error + upstream_response" where
  "banner_step banner r =
     (if RespStatus r = 200 \<and> RespRequest r = Some (''GET'', ''/'') \<and> RespBody r \<noteq> None
      then add_read_only_banner banner r else Inr r)"

definition config_step :: "(string \<Rightarrow> json option) \<Rightarrow> (json \<Rightarrow> string) \<Rightarrow> upstream_response \<Rightarrow> error + upstream_response" where
  "config_step parse marshal r =
     (if map_option snd (RespRequest r) = Some ''/rest/config'' \<and> RespBody r \<noteq> None then
        sum_bind (limited_body max_proxy_json ''upstream config response exceeds gateway limit'' r) (\<lambda>b.
          case parse b of
            None \<Rightarrow> Inl ''upstream config response is invalid''
          | Some v \<Rightarrow> Inr (new_body (marshal (redact_secrets v)) r))
      else Inr r)"

definition style_step :: "string \<Rightarrow> upstream_response \<Rightarrow> error + upstream_response" where
  "style_step overrides r =
     (if map_option snd (RespRequest r) = Some ''/assets/css/overrides.css'' \<and> RespBody r \<noteq> None then
        sum_bind (limited_body max_proxy_css ''upstream stylesheet exceeds gateway limit'' r) (\<lambda>b.
          Inr (new_body (b @ overrides) r))
      else Inr r)"

definition normalize_response :: "(string \<Rightarrow> request_url option) \<Rightarrow> (string \<Rightarrow> json option) \<Rightarrow> (json \<Rightarrow> string) \<Rightarrow>
    string \<Rightarrow> string \<Rightarrow> upstream_response \<Rightarrow> error + upstream_response" where
  "normalize_response url_of parse marshal banner overrides r0 =
     (let r = r0\<lparr>RespHeader := open_headers (RespHeader r0)\<rparr>
      in sum_bind (check_redirect url_of r) (\<lambda>_.
         sum_bind (banner_step banner r) (\<lambda>r1.
         sum_bind (config_step parse marshal r1) (style_step overrides))))"

section \<open>No secret leaves\<close>

text \<open>
  Two values that differ only below keys that hold secrets, and that no secret shows in the
  redacted value: there every such key has the empty string.
\<close>

inductive same_public :: "json \<Rightarrow> json \<Rightarrow> bool" where
  same_leaf: "same_public v v"
| same_arr: "list_all2 same_public vs ws \<Longrightarrow> same_public (JArr vs) (JArr ws)"
| same_obj: "list_all2 (\<lambda>p q. fst p = fst q \<and> (secret_name (fst p) \<or> same_public (snd p) (snd q))) kvs kws \<Longrightarrow>
     same_public (JObj kvs) (JObj kws)"

fun hides_secrets :: "json \<Rightarrow> bool" where
  "hides_secrets (JObj kvs) \<longleftrightarrow> (\<forall>(k, v) \<in> set kvs. if secret_name k then v = JStr '''' else hides_secrets v)"
| "hides_secrets (JArr vs) \<longleftrightarrow> (\<forall>v \<in> set vs. hides_secrets v)"
| "hides_secrets v \<longleftrightarrow> True"

lemma redact_hides: "hides_secrets (redact_secrets v)"
  by (induction v rule: redact_secrets.induct) auto

lemma redact_same: "same_public v w \<Longrightarrow> redact_secrets v = redact_secrets w"
proof (induction rule: same_public.induct)
  case (same_arr vs ws)
  then show ?case by (induction rule: list_all2_induct) simp_all
next
  case (same_obj kvs kws)
  then show ?case by (induction rule: list_all2_induct) auto
qed simp


section \<open>What the filter lets through\<close>

text \<open>A path of the list: no parent directory, no doubled separator, and rooted.\<close>

definition readable_paths :: "string list" where
  "readable_paths = static_paths @ exact_no_query @
     [''/rest/events'', ''/rest/events/disk'', ''/rest/db/status'', ''/rest/db/completion'']"

lemma allowed_readable: "allow_proxy_url u \<Longrightarrow> UrlPath u \<in> set readable_paths"
  by (auto simp: allow_proxy_url_def readable_paths_def Let_def split: if_splits)

section \<open>The configuration that reaches a browser\<close>



definition sample_config :: "string \<Rightarrow> json" where
  "sample_config key = JObj [(''gui'', JObj [(''apiKey'', JStr key), (''theme'', JStr ''dark'')])]"

definition sample_response :: upstream_response where
  "sample_response = \<lparr>RespStatus = 200, RespHeader = [(''Set-Cookie'', [''id''])], RespBody = None, RespRequest = Some (''GET'', ''/rest/config'')\<rparr>"

lemma sample_same: "same_public (sample_config k) (sample_config k')"
proof -
  have "secret_name ''apiKey''" by code_simp
  then show ?thesis by (auto simp: sample_config_def intro!: same_obj same_leaf)
qed


end
