(* ===== verification/Gateway.thy ===== *)
theory Gateway
  imports Browser_Trust Proxy_Filter
begin

text \<open>
  \<open>gateway/gateway.go\<close>: the manager of the web interface.  It opens a listener for the handheld's
  addresses, offers a pairing while its screen is in the foreground, answers pairing and logout
  requests, and passes reads of trusted browsers on to Syncthing.  An operation runs at one instant
  and is not interleaved with another one; what it takes from the network, the certificate and
  the random source is an argument.
\<close>

section \<open>State\<close>

record ip_address =
  IpText :: string
  IpV4 :: bool
  IpLoopback :: bool
  IpUnspecified :: bool

record gw_instance =
  GiHost :: string
  GiAddresses :: "string list"
  GiFingerprint :: string

record pairing_offer =
  OfPin :: string
  OfToken :: string
  OfExpires :: int

record gateway = trust_store +
  GwInstance :: "gw_instance option"
  GwOffer :: "pairing_offer option"
  GwCsrf :: string
  GwForeground :: int
  GwExtension :: int
  GwFailedBy :: "(string \<times> int list) list"
  GwFailed :: "int list"
  GwLocked :: bool

record gw_status =
  StOpen :: bool
  StUrl :: string
  StPin :: string
  StQr :: string
  StOfferExpires :: int
  StFingerprint :: string
  StTrusted :: nat
  StPairing :: bool
  StExtension :: int

definition pairing_lifetime :: int where "pairing_lifetime = 120 * second"
definition extension_lifetime :: int where "extension_lifetime = 15 * 60 * second"
definition foreground_lifetime :: int where "foreground_lifetime = 4 * second"
definition per_source_window :: int where "per_source_window = 30 * second"
definition global_window :: int where "global_window = 10 * 60 * second"

text \<open>The digest, the sizes and the path of the store, the decoders, and whether a loopback address may serve.\<close>

record gw_env =
  EnvSha :: "string \<Rightarrow> string"
  EnvSz :: "trust_document \<Rightarrow> nat"
  EnvPath :: string
  EnvParse :: "string \<Rightarrow> json option"
  EnvUrl :: "string \<Rightarrow> request_url option"
  EnvLoopback :: bool

section \<open>Addresses\<close>

fun distinct_ips :: "string list \<Rightarrow> ip_address list \<Rightarrow> ip_address list" where
  "distinct_ips seen [] = []"
| "distinct_ips seen (a # as) =
     (if IpText a \<in> set seen then distinct_ips seen as else a # distinct_ips (IpText a # seen) as)"

definition normalized_ips :: "ip_address list \<Rightarrow> ip_address list" where
  "normalized_ips as = sort_key IpText (distinct_ips [] as)"

definition current_addresses :: "bool \<Rightarrow> error + ip_address list \<Rightarrow> error + ip_address list" where
  "current_addresses loopback found = sum_bind found (\<lambda>as.
     let n = normalized_ips as
     in if n = [] then Inl ''no eligible LAN address''
        else if \<not> loopback \<and> (\<exists>a \<in> set n. IpLoopback a \<or> IpUnspecified a) then Inl ''gateway refuses a non-LAN address''
        else Inr n)"

definition ip_strings :: "ip_address list \<Rightarrow> string list" where "ip_strings as = map IpText as"

definition choose_listen_ip :: "ip_address list \<Rightarrow> ip_address" where
  "choose_listen_ip as = (case find IpV4 as of Some a \<Rightarrow> a | None \<Rightarrow> hd as)"

section \<open>Offers and status\<close>

definition four_digits :: "nat \<Rightarrow> string" where
  "four_digits n = map (\<lambda>d. char_of (48 + d)) [n div 1000 mod 10, n div 100 mod 10, n div 10 mod 10, n mod 10]"

text \<open>The random draws of an offer: its token, the token against forged requests, and two bytes.\<close>

definition issue_offer :: "int \<Rightarrow> (string \<times> string \<times> 16 word) option \<Rightarrow> (gateway, unit) prog" where
  "issue_offer now draw = (case draw of
     None \<Rightarrow> pr_fail ''random source''
   | Some (token, csrf, pin) \<Rightarrow> pr_put (\<lambda>g. g\<lparr>
       GwOffer := Some \<lparr>OfPin = four_digits (unat pin mod 10000), OfToken = token, OfExpires = now + pairing_lifetime\<rparr>,
       GwCsrf := csrf\<rparr>))"

definition status_of :: "gateway \<Rightarrow> nat \<Rightarrow> gw_status" where
  "status_of g trusted = (let closed_status = \<lparr>StOpen = False, StUrl = '''', StPin = '''', StQr = '''', StOfferExpires = zero_instant,
       StFingerprint = '''', StTrusted = trusted, StPairing = False, StExtension = zero_instant\<rparr>
     in case GwInstance g of
       None \<Rightarrow> closed_status
     | Some i \<Rightarrow> (let st = closed_status\<lparr>StOpen := True, StUrl := ''https://'' @ GiHost i @ ''/'',
           StFingerprint := GiFingerprint i, StExtension := GwExtension g\<rparr>
         in case GwOffer g of
           Some off \<Rightarrow> if GwExtension g = zero_instant then st\<lparr>StPairing := True, StPin := OfPin off,
               StQr := ''https://'' @ GiHost i @ ''/leaf/pair#token='' @ query_escape (OfToken off), StOfferExpires := OfExpires off\<rparr>
             else st
         | None \<Rightarrow> st))"

definition gw_status_now :: "gw_env \<Rightarrow> int \<Rightarrow> (gateway, gw_status) prog" where
  "gw_status_now e now = pr_bind (count_trust (EnvSz e) (EnvPath e) now) (\<lambda>n. pr_get (\<lambda>g. status_of g n))"

section \<open>The screen\<close>

definition gw_close :: "(gateway, unit) prog" where
  "gw_close = pr_put (\<lambda>g. g\<lparr>GwInstance := None, GwOffer := None, GwCsrf := '''',
     GwForeground := zero_instant, GwExtension := zero_instant\<rparr>)"

definition start_instance :: "(string list \<Rightarrow> error + string) \<Rightarrow> (ip_address \<Rightarrow> error + string) \<Rightarrow> ip_address list \<Rightarrow> (gateway, unit) prog" where
  "start_instance cert listen as =
     pr_bind (pr_lift (cert (ip_strings as))) (\<lambda>fingerprint.
     pr_bind (pr_lift (listen (choose_listen_ip as))) (\<lambda>host.
       pr_put (\<lambda>g. g\<lparr>GwInstance := Some \<lparr>GiHost = host, GiAddresses = ip_strings as, GiFingerprint = fingerprint\<rparr>\<rparr>)))"

definition gw_open :: "gw_env \<Rightarrow> int \<Rightarrow> error + ip_address list \<Rightarrow> (string list \<Rightarrow> error + string) \<Rightarrow> (ip_address \<Rightarrow> error + string) \<Rightarrow>
    (string \<times> string \<times> 16 word) option \<Rightarrow> (gateway, gw_status) prog" where
  "gw_open e now found cert listen draw =
     pr_bind (pr_lift (current_addresses (EnvLoopback e) found)) (\<lambda>as.
     pr_bind (pr_get GwInstance) (\<lambda>current.
     pr_bind (pr_get (\<lambda>g. map_option GiAddresses current = Some (ip_strings as))) (\<lambda>same.
     pr_bind (pr_when (\<not> same \<and> current \<noteq> None) gw_close) (\<lambda>_.
     pr_bind (pr_when (\<not> same) (start_instance cert listen as)) (\<lambda>_.
     pr_bind (pr_put (\<lambda>g. g\<lparr>GwExtension := zero_instant, GwForeground := now + foreground_lifetime,
       GwFailedBy := [], GwFailed := [], GwLocked := False\<rparr>)) (\<lambda>_.
     pr_bind (issue_offer now draw) (\<lambda>_. gw_status_now e now)))))))"

definition gw_keep_alive :: "gw_env \<Rightarrow> int \<Rightarrow> (gateway, gw_status) prog" where
  "gw_keep_alive e now =
     pr_bind (pr_get GwInstance) (\<lambda>i. if i = None then pr_fail ''gateway is closed'' else
     pr_bind (pr_put (\<lambda>g. if GwExtension g = zero_instant then g\<lparr>GwForeground := now + foreground_lifetime\<rparr> else g)) (\<lambda>_.
       gw_status_now e now))"

definition gw_extend :: "gw_env \<Rightarrow> int \<Rightarrow> (gateway, gw_status) prog" where
  "gw_extend e now =
     pr_bind (pr_get GwInstance) (\<lambda>i. if i = None then pr_fail ''a trusted browser is required before extending'' else
     pr_bind (count_trust (EnvSz e) (EnvPath e) now) (\<lambda>n. if n = 0 then pr_fail ''a trusted browser is required before extending'' else
     pr_bind (pr_put (\<lambda>g. g\<lparr>GwOffer := None, GwExtension := now + extension_lifetime, GwForeground := zero_instant\<rparr>)) (\<lambda>_.
       gw_status_now e now)))"

definition extended :: "int \<Rightarrow> gateway \<Rightarrow> bool" where
  "extended now g \<longleftrightarrow> GwInstance g \<noteq> None \<and> GwExtension g \<noteq> zero_instant \<and> now < GwExtension g"

definition gw_close_foreground :: "int \<Rightarrow> (gateway, unit) prog" where
  "gw_close_foreground now =
     pr_bind (pr_get (extended now)) (\<lambda>x. if x then pr_put (\<lambda>g. g\<lparr>GwOffer := None\<rparr>) else gw_close)"

definition gw_revoke_all :: "gw_env \<Rightarrow> (gateway, unit) prog" where
  "gw_revoke_all e = pr_bind (revoke_all_trust (EnvSz e) (EnvPath e)) (\<lambda>_. gw_close)"

definition lifetime_over :: "int \<Rightarrow> gateway \<Rightarrow> bool" where
  "lifetime_over now g \<longleftrightarrow> (GwExtension g \<noteq> zero_instant \<and> \<not> now < GwExtension g) \<or>
     (GwExtension g = zero_instant \<and> GwForeground g \<noteq> zero_instant \<and> \<not> now < GwForeground g)"

text \<open>The tick of the controller: whether the gateway was closed, and the error of the addresses.\<close>

definition gw_tick :: "gw_env \<Rightarrow> int \<Rightarrow> error + ip_address list \<Rightarrow> (gateway, bool \<times> error option) prog" where
  "gw_tick e now found =
     pr_bind (pr_get GwInstance) (\<lambda>i. case i of None \<Rightarrow> pr_ret (False, None) | Some cur \<Rightarrow>
       (let addresses = current_addresses (EnvLoopback e) found;
            changed = (case addresses of Inl _ \<Rightarrow> True | Inr as \<Rightarrow> GiAddresses cur \<noteq> ip_strings as)
        in pr_bind (pr_get (lifetime_over now)) (\<lambda>over.
           pr_bind (pr_put (\<lambda>g. case GwOffer g of
               Some off \<Rightarrow> if \<not> now < OfExpires off then g\<lparr>GwOffer := None\<rparr> else g
             | None \<Rightarrow> g)) (\<lambda>_.
           if over \<or> changed then pr_bind gw_close (\<lambda>_. pr_ret (True, case addresses of Inl err \<Rightarrow> Some err | Inr _ \<Rightarrow> None))
           else pr_ret (False, None)))))"

section \<open>Requests\<close>

text \<open>
  A request of a browser.  \<open>RqSource\<close> is the host of its remote address, \<open>RqCookie\<close> the value of the
  cookie \<open>leaf_syncthing_trust\<close>.
\<close>

record web_request =
  RqMethod :: string
  RqUrl :: request_url
  RqHost :: string
  RqSource :: string
  RqHeader :: "(string \<times> string list) list"
  RqCookie :: "string option"
  RqBody :: string
  RqContentLength :: int
  RqTransferEncoding :: "string list"

datatype gw_reply = Refused nat string | PairPage bool string | Paired string | LoggedOut | ToSyncthing | Screen

definition has_method_override :: "(string \<times> string list) list \<Rightarrow> bool" where
  "has_method_override hs \<longleftrightarrow> (\<exists>n \<in> set [''X-Http-Method-Override'', ''X-Method-Override'', ''X-Http-Method'']. header_get n hs \<noteq> '''')"

definition valid_control_request :: "gw_env \<Rightarrow> gateway \<Rightarrow> web_request \<Rightarrow> bool" where
  "valid_control_request e g rq = (case GwInstance g of
     None \<Rightarrow> False
   | Some i \<Rightarrow>
       if RqHost rq \<noteq> GiHost i \<or> GwCsrf g = '''' \<or> header_get ''X-Leaf-Csrf'' (RqHeader rq) \<noteq> GwCsrf g then False
       else if header_get ''Origin'' (RqHeader rq) \<noteq> '''' then header_get ''Origin'' (RqHeader rq) = ''https://'' @ GiHost i
       else (case EnvUrl e (header_get ''Referer'' (RqHeader rq)) of
           Some u \<Rightarrow> UrlScheme u = ''https'' \<and> UrlHost u = GiHost i
         | None \<Rightarrow> False))"

fun recent :: "int \<Rightarrow> int list \<Rightarrow> int list" where
  "recent threshold [] = []"
| "recent threshold (v # vs) = (if v < threshold then recent threshold vs else v # vs)"

definition prune_failures :: "int \<Rightarrow> gateway \<Rightarrow> gateway" where
  "prune_failures now g = g\<lparr>GwFailed := recent (now - global_window) (GwFailed g),
     GwFailedBy := filter (\<lambda>(s, vs). vs \<noteq> []) (map (\<lambda>(s, vs). (s, recent (now - per_source_window) vs)) (GwFailedBy g))\<rparr>"

definition failures_of :: "string \<Rightarrow> gateway \<Rightarrow> int list" where
  "failures_of source g = (case map_of (GwFailedBy g) source of Some vs \<Rightarrow> vs | None \<Rightarrow> [])"

definition add_failure :: "int \<Rightarrow> string \<Rightarrow> gateway \<Rightarrow> gateway" where
  "add_failure now source g =
     (let g1 = g\<lparr>GwFailedBy := map_put source (failures_of source g @ [now]) (GwFailedBy g), GwFailed := GwFailed g @ [now]\<rparr>
      in if length (GwFailed g1) \<ge> 20 then g1\<lparr>GwLocked := True, GwOffer := None\<rparr> else g1)"

definition pairing_spec :: "(string \<times> (string \<times> string) setter) list" where
  "pairing_spec = [(''pin'', set_string (\<lambda>x p. (x, snd p))), (''token'', set_string (\<lambda>x p. (fst p, x)))]"

text \<open>The input of a pairing: exactly one of a PIN and a token.\<close>

definition pairing_input :: "gw_env \<Rightarrow> string \<Rightarrow> (string \<times> string) option" where
  "pairing_input e body =
     (if length body > 4096 then None
      else case EnvParse e body of None \<Rightarrow> None | Some v \<Rightarrow>
        (case decode_struct True pairing_spec ('''', '''') v of
           Inl _ \<Rightarrow> None
         | Inr (pin, token) \<Rightarrow> if (pin = '''') = (token = '''') then None else Some (pin, token)))"

definition offer_matches :: "int \<Rightarrow> gateway \<Rightarrow> string \<times> string \<Rightarrow> bool" where
  "offer_matches now g input = (case (GwOffer g, input) of
     (Some off, (pin, token)) \<Rightarrow> now < OfExpires off \<and>
       ((pin \<noteq> '''' \<and> length pin = 4 \<and> pin = OfPin off) \<or> (token \<noteq> '''' \<and> token = OfToken off))
   | _ \<Rightarrow> False)"

definition submit_pairing :: "gw_env \<Rightarrow> int \<Rightarrow> string option \<Rightarrow> web_request \<Rightarrow> (gateway, gw_reply) prog" where
  "submit_pairing e now drawn rq =
     pr_bind (pr_get (\<lambda>g. valid_control_request e g rq)) (\<lambda>ok.
     if \<not> ok then pr_ret (Refused 403 ''Pairing request origin was rejected.'')
     else case pairing_input e (RqBody rq) of
       None \<Rightarrow> pr_ret (Refused 400 ''Invalid pairing request.'')
     | Some input \<Rightarrow>
         pr_bind (pr_put (prune_failures now)) (\<lambda>_.
         pr_bind (pr_get (\<lambda>g. GwLocked g \<or> length (failures_of (RqSource rq) g) \<ge> 5)) (\<lambda>locked.
         if locked then pr_ret (Refused 429 ''Pairing attempts are temporarily locked.'')
         else pr_bind (pr_get (\<lambda>g. offer_matches now g input)) (\<lambda>valid.
           if \<not> valid then
             pr_bind (pr_put (add_failure now (RqSource rq))) (\<lambda>_. pr_ret (Refused 401 ''Pairing failed.''))
           else
             pr_bind (pr_put (\<lambda>g. g\<lparr>GwOffer := None\<rparr>)) (\<lambda>_.
             pr_bind (pr_try (issue_trust (EnvSha e) (EnvSz e) (EnvPath e) now drawn)) (\<lambda>r. case r of
               Inl _ \<Rightarrow> pr_ret (Refused 500 ''Could not persist browser trust.'')
             | Inr token \<Rightarrow> pr_ret (Paired token)))))))"

definition gw_authenticated :: "gw_env \<Rightarrow> int \<Rightarrow> web_request \<Rightarrow> (gateway, bool) prog" where
  "gw_authenticated e now rq = (case RqCookie rq of
     None \<Rightarrow> pr_ret False
   | Some c \<Rightarrow> authenticate_trust (EnvSha e) (EnvSz e) (EnvPath e) now c)"

definition gw_logout :: "gw_env \<Rightarrow> int \<Rightarrow> web_request \<Rightarrow> (gateway, gw_reply) prog" where
  "gw_logout e now rq =
     pr_bind (pr_get (\<lambda>g. valid_control_request e g rq)) (\<lambda>ok.
     if \<not> ok then pr_ret (Refused 403 ''Logout request origin was rejected.'')
     else pr_bind (gw_authenticated e now rq) (\<lambda>trusted.
       if \<not> trusted then pr_ret (Refused 401 ''This browser is not trusted.'')
       else pr_bind (pr_try (revoke_trust (EnvSha e) (EnvSz e) (EnvPath e) (the (RqCookie rq)))) (\<lambda>r. case r of
           Inl _ \<Rightarrow> pr_ret (Refused 500 ''Could not revoke browser trust.'')
         | Inr _ \<Rightarrow> pr_ret LoggedOut)))"

definition reading :: "web_request \<Rightarrow> bool" where
  "reading rq \<longleftrightarrow> RqMethod rq = ''GET'' \<or> RqMethod rq = ''HEAD''"

definition pair_page :: "(gateway, gw_reply) prog" where
  "pair_page = pr_get (\<lambda>g. PairPage (GwOffer g \<noteq> None \<and> GwExtension g = zero_instant) (GwCsrf g))"

definition serve_control :: "gw_env \<Rightarrow> int \<Rightarrow> string option \<Rightarrow> web_request \<Rightarrow> (gateway, gw_reply) prog" where
  "serve_control e now drawn rq =
     (if UrlPath (RqUrl rq) = ''/leaf/pair'' \<and> reading rq then pair_page
      else if UrlPath (RqUrl rq) = ''/leaf/pair'' \<and> RqMethod rq = ''POST'' then submit_pairing e now drawn rq
      else if UrlPath (RqUrl rq) = ''/leaf/logout'' \<and> RqMethod rq = ''POST'' then gw_logout e now rq
      else if \<not> reading rq then pr_ret (Refused 405 ''The Syncthing browser view is read-only.'')
      else pr_ret (Refused 404 ''404 page not found''))"

definition gw_serve :: "gw_env \<Rightarrow> int \<Rightarrow> string option \<Rightarrow> web_request \<Rightarrow> (gateway, gw_reply) prog" where
  "gw_serve e now drawn rq =
     (if has_prefix (UrlPath (RqUrl rq)) ''/leaf/'' then serve_control e now drawn rq
      else pr_bind (gw_authenticated e now rq) (\<lambda>trusted.
        pr_ret (if \<not> trusted then Refused 401 ''Pair this browser from the Leaf Syncthing screen.''
          else if \<not> reading rq then Refused 405 ''The Syncthing browser view is read-only.''
          else if RqContentLength rq > 0 \<or> RqTransferEncoding rq \<noteq> [] \<or> has_method_override (RqHeader rq)
            then Refused 400 ''Request bodies and method overrides are not accepted.''
          else if \<not> allow_proxy_url (RqUrl rq) then Refused 404 ''This path is not part of the read-only Syncthing view.''
          else ToSyncthing)))"

section \<open>Histories\<close>

datatype gw_action =
    ActOpen "error + ip_address list" "string list \<Rightarrow> error + string" "ip_address \<Rightarrow> error + string" "(string \<times> string \<times> 16 word) option"
  | ActKeepAlive | ActExtend | ActCloseForeground | ActRevokeAll | ActClose
  | ActTick "error + ip_address list" | ActStatus | ActServe "string option" web_request

definition on_screen :: "(gateway, 'a) prog \<Rightarrow> (gateway, gw_reply) prog" where
  "on_screen m = pr_bind m (\<lambda>_. pr_ret Screen)"

fun gw_act :: "gw_env \<Rightarrow> int \<Rightarrow> gw_action \<Rightarrow> (gateway, gw_reply) prog" where
  "gw_act e now (ActOpen found cert listen draw) = on_screen (gw_open e now found cert listen draw)"
| "gw_act e now ActKeepAlive = on_screen (gw_keep_alive e now)"
| "gw_act e now ActExtend = on_screen (gw_extend e now)"
| "gw_act e now ActCloseForeground = on_screen (gw_close_foreground now)"
| "gw_act e now ActRevokeAll = on_screen (gw_revoke_all e)"
| "gw_act e now ActClose = on_screen gw_close"
| "gw_act e now (ActTick found) = on_screen (gw_tick e now found)"
| "gw_act e now ActStatus = on_screen (gw_status_now e now)"
| "gw_act e now (ActServe drawn rq) = gw_serve e now drawn rq"

text \<open>A history: the state before each action, its instant, the action and its outcome.\<close>

fun gw_history :: "gw_env \<Rightarrow> (int \<times> gw_action) list \<Rightarrow> gateway \<Rightarrow> (gateway \<times> int \<times> gw_action \<times> gw_reply outcome) list" where
  "gw_history e [] g = []"
| "gw_history e ((now, a) # es) g = (case gw_act e now a g of
     (r, g') \<Rightarrow> (g, now, a, r) # (if r = Died then [] else gw_history e es g'))"

fun in_order :: "int \<Rightarrow> (int \<times> 'a) list \<Rightarrow> bool" where
  "in_order now [] \<longleftrightarrow> True"
| "in_order now ((t, a) # es) \<longleftrightarrow> now \<le> t \<and> in_order t es"


section \<open>What one action can change\<close>

lemma gw_rest:
  "rest_kept g g' \<Longrightarrow> GwInstance g' = GwInstance g" "rest_kept g g' \<Longrightarrow> GwOffer g' = GwOffer g"
  "rest_kept g g' \<Longrightarrow> GwFailed g' = GwFailed g" "rest_kept g g' \<Longrightarrow> GwCsrf g' = GwCsrf g"
  "rest_kept g g' \<Longrightarrow> GwExtension g' = GwExtension g" "rest_kept g g' \<Longrightarrow> GwForeground g' = GwForeground g"
  by (cases g; cases g'; simp add: rest_kept_def)+

text \<open>No offer appears, no failure is forgotten and no browser is added.\<close>

definition quiet :: "gateway \<Rightarrow> gateway \<Rightarrow> bool" where
  "quiet g g' \<longleftrightarrow> (GwOffer g' = GwOffer g \<or> GwOffer g' = None) \<and> GwFailed g' = GwFailed g \<and> idents g' \<subseteq> idents g"

lemma quiet_refl [simp]: "quiet g g"
  by (simp add: quiet_def)

lemma quiet_trans: "quiet g h \<Longrightarrow> quiet h k \<Longrightarrow> quiet g k"
  by (auto simp: quiet_def)

lemma quiet_no_new: "no_new g g' \<Longrightarrow> quiet g g'"
  by (auto simp: quiet_def no_new_def gw_rest)

abbreviation stays_quiet :: "gateway \<Rightarrow> (gateway, 'a) prog \<Rightarrow> gateway \<Rightarrow> bool" where
  "stays_quiet g m \<equiv> sat m (\<lambda>_. quiet g) (\<lambda>_. quiet g) (quiet g)"

lemma quiet_ident: "idents (g\<lparr>GwOffer := a\<rparr>) = idents g" "idents (g\<lparr>GwInstance := b\<rparr>) = idents g"
  "idents (g\<lparr>GwForeground := c\<rparr>) = idents g" "idents (g\<lparr>GwExtension := c\<rparr>) = idents g" "idents (g\<lparr>GwCsrf := d\<rparr>) = idents g"
  "idents (g\<lparr>GwFailed := f\<rparr>) = idents g" "idents (g\<lparr>GwFailedBy := k\<rparr>) = idents g" "idents (g\<lparr>GwLocked := l\<rparr>) = idents g"
  by (simp_all add: idents_def)

lemma status_quiet: "quiet g h \<Longrightarrow> stays_quiet g (gw_status_now e now) h"
  unfolding gw_status_now_def sat_bind
  by (rule sat_mono [OF count_sat]) (auto intro: quiet_trans quiet_no_new)

lemma close_quiet: "quiet g h \<Longrightarrow> stays_quiet g gw_close h"
  by (simp add: gw_close_def quiet_def quiet_ident)

lemma keep_alive_quiet: "stays_quiet g (gw_keep_alive e now) g"
  by (auto simp: gw_keep_alive_def quiet_def quiet_ident intro!: status_quiet)

lemma extend_quiet: "stays_quiet g (gw_extend e now) g"
proof -
  have "sat (count_trust (EnvSz e) (EnvPath e) now) (\<lambda>n t. stays_quiet g
      (if n = 0 then pr_fail ''a trusted browser is required before extending'' else
       pr_bind (pr_put (\<lambda>g. g\<lparr>GwOffer := None, GwExtension := now + extension_lifetime, GwForeground := zero_instant\<rparr>)) (\<lambda>_.
       gw_status_now e now)) t) (\<lambda>_. quiet g) (quiet g) g"
    by (rule sat_mono [OF count_sat]) (auto dest!: quiet_no_new simp: quiet_def quiet_ident intro!: status_quiet)
  then show ?thesis by (simp add: gw_extend_def sat_bind)
qed

lemma close_foreground_quiet: "stays_quiet g (gw_close_foreground now) g"
  by (auto simp: gw_close_foreground_def quiet_def quiet_ident intro!: close_quiet)

lemma revoke_all_quiet: "stays_quiet g (gw_revoke_all e) g"
  unfolding gw_revoke_all_def sat_bind
  by (rule sat_mono [OF revoke_all_sat]) (auto intro!: close_quiet simp: quiet_def gw_rest idents_def)

lemma tick_quiet: "stays_quiet g (gw_tick e now found) g"
proof (cases "GwInstance g")
  case (Some cur)
  have "quiet g (case GwOffer g of Some off \<Rightarrow> if \<not> now < OfExpires off then g\<lparr>GwOffer := None\<rparr> else g | None \<Rightarrow> g)"
    by (auto simp: quiet_def quiet_ident split: option.split)
  then show ?thesis
    by (simp add: gw_tick_def Some Let_def gw_close_def) (simp add: quiet_def quiet_ident)
qed (simp add: gw_tick_def)

lemma authenticated_sat: "sat (gw_authenticated e now rq)
    (\<lambda>ok t. quiet g t \<and> (ok \<longrightarrow> (\<exists>c r. RqCookie rq = Some c \<and> r \<in> set (TrustRecords g) \<and> TrHash r = EnvSha e c \<and> trust_alive now r)))
    (\<lambda>_ _. False) (quiet g) g"
proof (cases "RqCookie rq")
  case (Some c)
  have "sat (authenticate_trust (EnvSha e) (EnvSz e) (EnvPath e) now c)
    (\<lambda>ok t. quiet g t \<and> (ok \<longrightarrow> (\<exists>r. r \<in> set (TrustRecords g) \<and> TrHash r = EnvSha e c \<and> trust_alive now r)))
    (\<lambda>_ _. False) (quiet g) g"
    by (rule sat_mono [OF authenticate_sat]) (auto dest: quiet_no_new)
  then show ?thesis by (simp add: gw_authenticated_def Some)
qed (simp add: gw_authenticated_def)


lemma logout_sat: "sat (gw_logout e now rq)
    (\<lambda>r t. quiet g t \<and> r \<notin> {ToSyncthing, Refused 401 ''Pairing failed.''} \<and> (\<forall>x. r \<noteq> Paired x)) (\<lambda>_. quiet g) (quiet g) g"
proof -
  have "sat (revoke_trust (EnvSha e) (EnvSz e) (EnvPath e) c) (\<lambda>_. quiet g) (\<lambda>_. quiet g) (quiet g) h" if "quiet g h" for c h
    by (rule sat_mono [OF revoke_sat]) (use that in \<open>auto intro: quiet_trans quiet_no_new\<close>)
  note revoked = this
  have "sat (pr_bind (pr_try (revoke_trust (EnvSha e) (EnvSz e) (EnvPath e) c)) (\<lambda>r. case r of
        Inl _ \<Rightarrow> pr_ret (Refused 500 ''Could not revoke browser trust.'') | Inr _ \<Rightarrow> pr_ret LoggedOut))
      (\<lambda>r t. quiet g t \<and> r \<notin> {ToSyncthing, Refused 401 ''Pairing failed.''} \<and> (\<forall>x. r \<noteq> Paired x)) (\<lambda>_. quiet g) (quiet g) h"
    if "quiet g h" for c h
    unfolding sat_bind [of "pr_try _"] sat_try by (rule sat_mono [OF revoked [OF that]]) simp_all
  then show ?thesis
    unfolding gw_logout_def by (simp, intro impI) (rule sat_bindI [OF authenticated_sat], auto)
qed

text \<open>
  A pairing request: turned away before its input is looked at (the failures may have aged), or a
  wrong input that is counted, or a right one that uses the offer up and adds one browser.
\<close>

definition wrong_input :: "int \<Rightarrow> gateway \<Rightarrow> gateway \<Rightarrow> bool" where
  "wrong_input now g t \<longleftrightarrow> idents t = idents g \<and> GwFailed t = recent (now - global_window) (GwFailed g) @ [now] \<and>
     GwOffer t = (if length (GwFailed t) \<ge> 20 then None else GwOffer g)"

definition right_input :: "gw_env \<Rightarrow> int \<Rightarrow> string option \<Rightarrow> web_request \<Rightarrow> gateway \<Rightarrow> gateway \<Rightarrow> bool" where
  "right_input e now drawn rq g t \<longleftrightarrow> GwOffer t = None \<and> valid_control_request e g rq \<and> (\<exists>input. pairing_input e (RqBody rq) = Some input \<and> offer_matches now g input) \<and>
     idents t \<subseteq> (case drawn of None \<Rightarrow> idents g | Some tok \<Rightarrow> insert (EnvSha e tok, now) (idents g))"

definition turned_away :: "int \<Rightarrow> gateway \<Rightarrow> gateway \<Rightarrow> bool" where
  "turned_away now g t \<longleftrightarrow> idents t = idents g \<and> GwOffer t = GwOffer g \<and>
     (GwFailed t = GwFailed g \<or> GwFailed t = recent (now - global_window) (GwFailed g))"

definition pairing_step :: "gw_env \<Rightarrow> int \<Rightarrow> string option \<Rightarrow> web_request \<Rightarrow> gateway \<Rightarrow> gw_reply outcome \<Rightarrow> gateway \<Rightarrow> bool" where
  "pairing_step e now drawn rq g r t \<longleftrightarrow>
     turned_away now g t \<and> (\<exists>k. r = Ok k \<and> (\<forall>x. k \<noteq> Paired x) \<and> k \<notin> {ToSyncthing, Refused 401 ''Pairing failed.''}) \<or>
     wrong_input now g t \<and> r = Ok (Refused 401 ''Pairing failed.'') \<or>
     right_input e now drawn rq g t \<and> (r \<in> {Died, Ok (Refused 500 ''Could not persist browser trust.'')} \<or> (\<exists>x. r = Ok (Paired x) \<and> drawn = Some x))"

lemma prune_failures_view [simp]:
  "idents (prune_failures now g) = idents g" "GwOffer (prune_failures now g) = GwOffer g"
  "GwFailed (prune_failures now g) = recent (now - global_window) (GwFailed g)"
  "offer_matches now (prune_failures now' g) i = offer_matches now g i"
  by (simp_all add: prune_failures_def idents_def offer_matches_def)

lemma add_failure_view: "wrong_input now g (add_failure now source (prune_failures now g))"
  by (simp add: wrong_input_def add_failure_def Let_def quiet_ident)

lemma submit_sat: "sat (submit_pairing e now drawn rq) (\<lambda>r. pairing_step e now drawn rq g (Ok r)) (\<lambda>_ _. False)
    (pairing_step e now drawn rq g Died) g"
proof (cases "pairing_input e (RqBody rq)")
  case None
  then show ?thesis by (simp add: submit_pairing_def pairing_step_def turned_away_def)
next
  case (Some input)
  define h where "h = (prune_failures now g)\<lparr>GwOffer := None\<rparr>"
  have "right_input e now drawn rq g t" if "offer_matches now g input" "valid_control_request e g rq"
      and "case drawn of None \<Rightarrow> no_new h t | Some tok \<Rightarrow> one_new (EnvSha e tok) now h t" for t
    using that Some by (auto simp: right_input_def h_def no_new_def one_new_def gw_rest quiet_ident split: option.splits)
  note right = this
  have issued: "sat (pr_bind (pr_try (issue_trust (EnvSha e) (EnvSz e) (EnvPath e) now drawn)) (\<lambda>r. case r of
        Inl _ \<Rightarrow> pr_ret (Refused 500 ''Could not persist browser trust.'') | Inr token \<Rightarrow> pr_ret (Paired token)))
      (\<lambda>r. pairing_step e now drawn rq g (Ok r)) (\<lambda>_ _. False) (pairing_step e now drawn rq g Died) h"
    if m: "offer_matches now g input" "valid_control_request e g rq"
    unfolding sat_bind sat_try by (rule sat_mono [OF issue_sat]) (use right [OF m] in \<open>auto simp: pairing_step_def split: option.splits\<close>)
  show ?thesis
    using issued [unfolded h_def] add_failure_view [of now g "RqSource rq"]
    by (simp add: submit_pairing_def Some) (auto simp: pairing_step_def turned_away_def)
qed


text \<open>A read that goes on to Syncthing.\<close>

definition served :: "gw_env \<Rightarrow> int \<Rightarrow> web_request \<Rightarrow> gateway \<Rightarrow> bool" where
  "served e now rq g \<longleftrightarrow> reading rq \<and> RqContentLength rq \<le> 0 \<and> RqTransferEncoding rq = [] \<and>
     \<not> has_method_override (RqHeader rq) \<and> allow_proxy_url (RqUrl rq) \<and>
     (\<exists>c r. RqCookie rq = Some c \<and> r \<in> set (TrustRecords g) \<and> TrHash r = EnvSha e c \<and> trust_alive now r)"

definition serve_step :: "gw_env \<Rightarrow> int \<Rightarrow> string option \<Rightarrow> web_request \<Rightarrow> gateway \<Rightarrow> gw_reply outcome \<Rightarrow> gateway \<Rightarrow> bool" where
  "serve_step e now drawn rq g r t \<longleftrightarrow>
     quiet g t \<and> (\<forall>x. r \<noteq> Ok (Paired x)) \<and> r \<noteq> Ok (Refused 401 ''Pairing failed.'') \<and> (r = Ok ToSyncthing \<longrightarrow> served e now rq g) \<or>
     pairing_step e now drawn rq g r t"

lemma serve_sat: "sat (gw_serve e now drawn rq) (\<lambda>r. serve_step e now drawn rq g (Ok r)) (\<lambda>err. serve_step e now drawn rq g (Failed err))
    (serve_step e now drawn rq g Died) g"
proof (cases "has_prefix (UrlPath (RqUrl rq)) ''/leaf/''")
  case True
  have "sat (submit_pairing e now drawn rq) (\<lambda>r. serve_step e now drawn rq g (Ok r)) (\<lambda>err. serve_step e now drawn rq g (Failed err))
    (serve_step e now drawn rq g Died) g"
    by (rule sat_mono [OF submit_sat]) (simp_all add: serve_step_def)
  moreover have "sat (gw_logout e now rq) (\<lambda>r. serve_step e now drawn rq g (Ok r)) (\<lambda>err. serve_step e now drawn rq g (Failed err))
    (serve_step e now drawn rq g Died) g"
    by (rule sat_mono [OF logout_sat]) (auto simp: serve_step_def)
  ultimately show ?thesis using True
    by (simp add: gw_serve_def serve_control_def pair_page_def) (auto simp: serve_step_def)
next
  case False
  show ?thesis unfolding gw_serve_def if_not_P [OF False] sat_bind
    by (rule sat_mono [OF authenticated_sat]) (simp_all add: serve_step_def served_def)
qed

lemma issue_offer_sat: "sat (issue_offer now draw)
    (\<lambda>_ t. idents t = idents g \<and> GwFailed t = GwFailed g \<and> (\<exists>off. GwOffer t = Some off \<and> OfExpires off = now + pairing_lifetime))
    (\<lambda>_ t. idents t = idents g) (\<lambda>_. False) g"
  by (auto simp: issue_offer_def quiet_ident split: option.split)

lemma start_instance_sat: "sat (start_instance cert listen as) (\<lambda>_ t. idents t = idents g) (\<lambda>_ t. idents t = idents g) (\<lambda>_. False) g"
  by (auto simp: start_instance_def quiet_ident split: sum.split)

definition freshly_open :: "int \<Rightarrow> gateway \<Rightarrow> bool" where
  "freshly_open now g \<longleftrightarrow> GwFailed g = [] \<and> (\<exists>off. GwOffer g = Some off \<and> OfExpires off = now + pairing_lifetime)"

lemma open_tail_sat:
  assumes "idents h \<subseteq> idents g"
  shows "sat (pr_bind (pr_put (\<lambda>g. g\<lparr>GwExtension := zero_instant, GwForeground := now + foreground_lifetime,
       GwFailedBy := [], GwFailed := [], GwLocked := False\<rparr>)) (\<lambda>_.
     pr_bind (issue_offer now draw) (\<lambda>_. gw_status_now e now)))
    (\<lambda>_ t. idents t \<subseteq> idents g \<and> freshly_open now t) (\<lambda>_ t. idents t \<subseteq> idents g) (\<lambda>t. idents t \<subseteq> idents g) h"
proof -
  have fin: "sat (gw_status_now e now) (\<lambda>_ t. idents t \<subseteq> idents g \<and> freshly_open now t) (\<lambda>_ t. idents t \<subseteq> idents g) (\<lambda>t. idents t \<subseteq> idents g) k"
    if "idents k \<subseteq> idents g" "freshly_open now k" for k
    unfolding gw_status_now_def sat_bind
    by (rule sat_mono [OF count_sat]) (use that in \<open>auto simp: no_new_def freshly_open_def gw_rest\<close>)
  show ?thesis
    by (simp add: sat_bind) (rule sat_mono [OF issue_offer_sat], use assms fin in \<open>auto simp: quiet_ident freshly_open_def\<close>)
qed

lemma open_sat: "sat (gw_open e now found cert listen draw) (\<lambda>_ t. idents t \<subseteq> idents g \<and> freshly_open now t)
    (\<lambda>_ t. idents t \<subseteq> idents g) (\<lambda>t. idents t \<subseteq> idents g) g"
proof -
  have "sat (pr_bind (pr_when x (start_instance cert listen as)) (\<lambda>_. pr_bind (pr_put (\<lambda>g. g\<lparr>GwExtension := zero_instant, GwForeground := now + foreground_lifetime,
       GwFailedBy := [], GwFailed := [], GwLocked := False\<rparr>)) (\<lambda>_. pr_bind (issue_offer now draw) (\<lambda>_. gw_status_now e now))))
    (\<lambda>_ t. idents t \<subseteq> idents g \<and> freshly_open now t) (\<lambda>_ t. idents t \<subseteq> idents g) (\<lambda>t. idents t \<subseteq> idents g) h"
    if "idents h \<subseteq> idents g" for x h as
  proof (cases x)
    case True
    show ?thesis unfolding pr_when_def if_P [OF True] sat_bind [of "start_instance cert listen as"]
      by (rule sat_mono [OF start_instance_sat], rule open_tail_sat) (use that in auto)
  next
    case False
    then show ?thesis using open_tail_sat [OF that] by (simp add: pr_when_def)
  qed
  note rest = this
  have "sat (pr_when x gw_close) (\<lambda>_ h. idents h \<subseteq> idents g) (\<lambda>_ _. False) (\<lambda>_. False) g" for x
    by (simp add: pr_when_def gw_close_def quiet_ident)
  note closed_first = this
  show ?thesis unfolding gw_open_def sat_prim_binds
    by (split sum.split, intro conjI allI impI) (simp, rule sat_bindI [OF closed_first rest], simp_all)
qed


lemma sat_result: "sat m (\<lambda>x. P (Ok x)) (\<lambda>err. P (Failed err)) (P Died) s \<Longrightarrow> m s = (r, t) \<Longrightarrow> P r t"
  by (cases r) (simp_all add: sat_def)

lemma open_result: "gw_open e now found cert listen draw g = (Ok st, t) \<Longrightarrow> freshly_open now t"
  using open_sat [of e now found cert listen draw g] by (simp add: sat_def)

text \<open>Every action: the screen answers nobody and pairs nobody; only a new opening offers a pairing.\<close>

definition act_step :: "gw_env \<Rightarrow> int \<Rightarrow> gw_action \<Rightarrow> gateway \<Rightarrow> gw_reply outcome \<Rightarrow> gateway \<Rightarrow> bool" where
  "act_step e now a g r t \<longleftrightarrow> (case a of
     ActServe drawn rq \<Rightarrow> serve_step e now drawn rq g r t
   | ActOpen _ _ _ _ \<Rightarrow> idents t \<subseteq> idents g \<and> (\<forall>k. r = Ok k \<longrightarrow> k = Screen)
   | _ \<Rightarrow> quiet g t \<and> (\<forall>k. r = Ok k \<longrightarrow> k = Screen))"

lemma screen_quiet: "stays_quiet g m g \<Longrightarrow> on_screen m g = (r, t) \<Longrightarrow> quiet g t \<and> (\<forall>k. r = Ok k \<longrightarrow> k = Screen)"
  by (auto simp: on_screen_def sat_def pr_bind_def pr_ret_def split: prod.splits outcome.splits)

lemma act_step: "gw_act e now a g = (r, t) \<Longrightarrow> act_step e now a g r t"
proof (cases a)
  case (ActOpen found cert listen draw)
  assume "gw_act e now a g = (r, t)"
  then show ?thesis using open_sat [of e now found cert listen draw g] ActOpen
    by (auto simp: act_step_def on_screen_def sat_def pr_bind_def pr_ret_def split: prod.splits outcome.splits)
next
  case (ActServe drawn rq)
  assume "gw_act e now a g = (r, t)"
  then show ?thesis using sat_result [OF serve_sat] ActServe by (simp add: act_step_def)
qed (simp_all add: act_step_def,
     (rule screen_quiet, (rule keep_alive_quiet extend_quiet close_foreground_quiet revoke_all_quiet close_quiet tick_quiet status_quiet; simp), assumption)+)


section \<open>Guesses\<close>

definition live_offer :: "int \<Rightarrow> gateway \<Rightarrow> bool" where
  "live_offer now g \<longleftrightarrow> (case GwOffer g of Some off \<Rightarrow> now < OfExpires off | None \<Rightarrow> False)"

text \<open>A wrong PIN or token that was compared with an offer that still stood; a pairing; an opening.\<close>

fun wrong_guess :: "gateway \<times> int \<times> gw_action \<times> gw_reply outcome \<Rightarrow> bool" where
  "wrong_guess (g, now, a, r) \<longleftrightarrow> live_offer now g \<and> r = Ok (Refused 401 ''Pairing failed.'')"

fun has_paired :: "gateway \<times> int \<times> gw_action \<times> gw_reply outcome \<Rightarrow> bool" where
  "has_paired (g, now, a, r) \<longleftrightarrow> (case r of Ok (Paired x) \<Rightarrow> True | _ \<Rightarrow> False)"

fun reopens :: "gw_action \<Rightarrow> bool" where
  "reopens (ActOpen _ _ _ _) \<longleftrightarrow> True"
| "reopens _ \<longleftrightarrow> False"

lemma matches_live: "offer_matches now g i \<Longrightarrow> live_offer now g"
  by (auto simp: offer_matches_def live_offer_def split: option.splits prod.splits)

lemma has_paired_iff: "has_paired (g, now, a, r) \<longleftrightarrow> (\<exists>x. r = Ok (Paired x))"
  by (auto split: outcome.split gw_reply.split)

lemma act_offer: "gw_act e now a g = (r, t) \<Longrightarrow> \<not> reopens a \<Longrightarrow> GwOffer t = GwOffer g \<or> GwOffer t = None"
  using act_step [of e now a g r t]
  by (auto simp: act_step_def serve_step_def pairing_step_def quiet_def turned_away_def wrong_input_def right_input_def
      split: gw_action.splits if_splits)

lemma act_paired: "gw_act e now a g = (r, t) \<Longrightarrow> \<not> reopens a \<Longrightarrow> has_paired (g, now, a, r) \<Longrightarrow> live_offer now g \<and> GwOffer t = None"
  using act_step [of e now a g r t] unfolding has_paired_iff
  by (auto simp: act_step_def serve_step_def pairing_step_def right_input_def matches_live split: gw_action.splits)

lemma recent_id: "\<forall>f \<in> set vs. threshold \<le> f \<Longrightarrow> recent threshold vs = vs"
  by (cases vs) auto

text \<open>The failures are a budget while the offer stands.\<close>

definition guess_budget :: "int \<Rightarrow> int \<Rightarrow> nat \<Rightarrow> gateway \<Rightarrow> bool" where
  "guess_budget start now n g \<longleftrightarrow> (live_offer now g \<longrightarrow>
     (\<forall>off. GwOffer g = Some off \<longrightarrow> OfExpires off \<le> start + pairing_lifetime) \<and>
     (\<forall>f \<in> set (GwFailed g). start \<le> f) \<and> n \<le> length (GwFailed g) \<and> length (GwFailed g) < 20)"

lemma live_mono: "live_offer now' t \<Longrightarrow> GwOffer t = GwOffer g \<or> GwOffer t = None \<Longrightarrow> now \<le> now' \<Longrightarrow> live_offer now g"
  by (cases "GwOffer g") (auto simp: live_offer_def)

lemma act_failures:
  assumes "gw_act e now a g = (r, t)" and "\<not> reopens a" and "recent (now - global_window) (GwFailed g) = GwFailed g"
  shows "if r = Ok (Refused 401 ''Pairing failed.'') then GwFailed t = GwFailed g @ [now] \<and> (length (GwFailed t) \<ge> 20 \<longrightarrow> GwOffer t = None)
    else GwFailed t = GwFailed g \<or> GwOffer t = None"
  using act_step [OF assms(1)] assms(2,3)
  by (auto simp: act_step_def serve_step_def pairing_step_def quiet_def turned_away_def wrong_input_def right_input_def
      split: gw_action.splits)

lemma budget_step:
  assumes "gw_act e now a g = (r, t)" and "\<not> reopens a" and "guess_budget start now n g" and "start \<le> now" and "now \<le> later"
  shows "guess_budget start later (n + (if wrong_guess (g, now, a, r) then 1 else 0)) t"
proof (cases "live_offer later t")
  case True
  have offer: "GwOffer t = GwOffer g" "live_offer now g"
    using act_offer [OF assms(1,2)] live_mono [OF True _ assms(5), of g] True by (auto simp: live_offer_def)
  have "now < start + pairing_lifetime"
    using assms(3) offer(2) by (auto simp: guess_budget_def live_offer_def split: option.splits)
  then have "recent (now - global_window) (GwFailed g) = GwFailed g"
    using assms(3) offer(2) by (intro recent_id) (auto simp: guess_budget_def pairing_lifetime_def global_window_def second_def)
  from act_failures [OF assms(1,2) this] show ?thesis
    using assms(3,4) offer True
    by (auto simp: guess_budget_def live_offer_def split: option.splits if_splits)
qed (simp add: guess_budget_def)

lemma no_offer_no_guess:
  "\<not> live_offer now g \<Longrightarrow> in_order now es \<Longrightarrow> \<forall>(t, a) \<in> set es. \<not> reopens a \<Longrightarrow>
   filter wrong_guess (gw_history e es g) = [] \<and> filter has_paired (gw_history e es g) = []"
proof (induction es arbitrary: now g)
  case (Cons x es)
  obtain later a where x: "x = (later, a)" by (cases x)
  obtain r t where act: "gw_act e later a g = (r, t)" by (cases "gw_act e later a g")
  have order: "now \<le> later" "in_order later es" "\<not> reopens a" using Cons.prems(2,3) x by auto
  have dead: "\<not> live_offer later g" using Cons.prems(1) live_mono [of later g g now] order(1) by auto
  have "\<not> live_offer later t" using dead live_mono [of later t g later] act_offer [OF act order(3)] by auto
  from Cons.IH [OF this order(2)] Cons.prems(3) act_paired [OF act order(3)] dead show ?case
    by (auto simp: x act simp del: has_paired.simps)
qed simp

lemma history_guesses:
  "guess_budget start now n g \<Longrightarrow> n \<le> 20 \<Longrightarrow> start \<le> now \<Longrightarrow> in_order now es \<Longrightarrow> \<forall>(t, a) \<in> set es. \<not> reopens a \<Longrightarrow>
   n + length (filter wrong_guess (gw_history e es g)) \<le> 20 \<and> length (filter has_paired (gw_history e es g)) \<le> 1"
proof (induction es arbitrary: now n g)
  case (Cons x es)
  obtain later a where x: "x = (later, a)" by (cases x)
  obtain r t where act: "gw_act e later a g = (r, t)" by (cases "gw_act e later a g")
  let ?k = "if wrong_guess (g, later, a, r) then 1 else 0 :: nat"
  have order: "now \<le> later" "start \<le> later" "in_order later es" "\<not> reopens a" "\<forall>(t, a) \<in> set es. \<not> reopens a"
    using Cons.prems(3-5) x by auto
  have budget: "guess_budget start later n g"
    using Cons.prems(1) live_mono [of later g g now] order(1) by (auto simp: guess_budget_def)
  then have "n + ?k \<le> 20" using Cons.prems(2) by (auto simp: guess_budget_def)
  from Cons.IH [OF budget_step [OF act order(4) budget order(2) order_refl] this order(2,3,5)]
  have rest: "n + ?k + length (filter wrong_guess (gw_history e es t)) \<le> 20"
    "length (filter has_paired (gw_history e es t)) \<le> 1" by auto
  have "filter has_paired (gw_history e es t) = []" if "has_paired (g, later, a, r)"
    using act_paired [OF act order(4) that] no_offer_no_guess [OF _ order(3,5), of t] by (auto simp: live_offer_def)
  then show ?case using rest Cons.prems(2) \<open>n + ?k \<le> 20\<close>
    by (cases "has_paired (g, later, a, r)") (auto simp: x act simp del: has_paired.simps wrong_guess.simps)
qed simp


text \<open>
  C13. Between two openings of the gateway, as long as the clock does not run back, at most twenty wrong PINs or tokens are compared
  with a standing offer and at most one browser is paired, whatever the requests are and wherever they come from.
\<close>

theorem pairing_guesses_bounded:
  assumes "gw_open e start found cert listen draw g0 = (Ok st, g)"
    and "in_order start es" and "\<forall>(t, a) \<in> set es. \<not> reopens a"
  shows "length (filter wrong_guess (gw_history e es g)) \<le> 20 \<and> length (filter has_paired (gw_history e es g)) \<le> 1"
proof -
  have "guess_budget start start 0 g"
    using open_result [OF assms(1)] by (auto simp: freshly_open_def guess_budget_def)
  from history_guesses [OF this _ order_refl assms(2,3)] show ?thesis by simp
qed

section \<open>Who may read\<close>

text \<open>A step of a history that pairs a browser: a valid request from the pairing page whose input matches the offer.\<close>

fun pairs_browser :: "gw_env \<Rightarrow> gateway \<times> int \<times> gw_action \<times> gw_reply outcome \<Rightarrow> string \<Rightarrow> int \<Rightarrow> bool" where
  "pairs_browser e (g, now, a, r) hash at \<longleftrightarrow> now = at \<and> (case a of
     ActServe (Some tok) rq \<Rightarrow> EnvSha e tok = hash \<and> valid_control_request e g rq \<and>
       (case pairing_input e (RqBody rq) of Some input \<Rightarrow> offer_matches now g input | None \<Rightarrow> False)
   | _ \<Rightarrow> False)"

lemma act_idents: "gw_act e now a g = (r, t) \<Longrightarrow> (hash, at) \<in> idents t \<Longrightarrow> (hash, at) \<in> idents g \<or> pairs_browser e (g, now, a, r) hash at"
  using act_step [of e now a g r t]
  by (auto simp: act_step_def serve_step_def pairing_step_def quiet_def turned_away_def wrong_input_def right_input_def
      split: gw_action.splits option.splits)

lemma history_idents:
  "gw_history e es g = ps @ (h, now, a, r) # qs \<Longrightarrow> (hash, at) \<in> idents h \<Longrightarrow>
   (hash, at) \<in> idents g \<or> (\<exists>p \<in> set ps. pairs_browser e p hash at)"
proof (induction es arbitrary: g ps)
  case (Cons x es)
  obtain later b where x: "x = (later, b)" by (cases x)
  obtain k t where act: "gw_act e later b g = (k, t)" by (cases "gw_act e later b g")
  show ?case
  proof (cases ps)
    case Nil
    then show ?thesis using Cons.prems by (simp add: x act)
  next
    case (Cons p ps')
    then have p: "p = (g, later, b, k)" "gw_history e es t = ps' @ (h, now, a, r) # qs"
      using Cons.prems(1) by (auto simp: x act split: if_splits)
    from Cons.IH [OF p(2) Cons.prems(2)] act_idents [OF act] show ?thesis
      by (auto simp: Cons p(1) simp del: pairs_browser.simps)
  qed
qed simp

lemma history_served:
  "gw_history e es g = ps @ (h, now, ActServe drawn rq, Ok ToSyncthing) # qs \<Longrightarrow> served e now rq h"
proof (induction es arbitrary: g ps)
  case (Cons x es)
  obtain later b where x: "x = (later, b)" by (cases x)
  obtain k t where act: "gw_act e later b g = (k, t)" by (cases "gw_act e later b g")
  show ?case
  proof (cases ps)
    case Nil
    then have "b = ActServe drawn rq" "k = Ok ToSyncthing" "h = g" "later = now"
      using Cons.prems by (auto simp: x act)
    then show ?thesis using act_step [OF act]
      by (auto simp: act_step_def serve_step_def pairing_step_def)
  next
    case (Cons p ps')
    then have "gw_history e es t = ps' @ (h, now, ActServe drawn rq, Ok ToSyncthing) # qs"
      using Cons.prems(1) by (auto simp: x act split: if_splits)
    from Cons.IH [OF this] show ?thesis .
  qed
qed simp

text \<open>
  C12. Syncthing gets a request of a browser only when it is a plain read of a listed path and the browser's cookie stands for a
  browser that was known before the history or was paired in it, by a request of the pairing page that matched the standing offer,
  at most thirty days ago.
\<close>

theorem served_browser_was_paired:
  assumes "gw_history e es g = ps @ (h, now, ActServe drawn rq, Ok ToSyncthing) # qs"
  shows "reading rq \<and> RqContentLength rq \<le> 0 \<and> RqTransferEncoding rq = [] \<and> \<not> has_method_override (RqHeader rq) \<and>
    UrlPath (RqUrl rq) \<in> set readable_paths \<and>
    (\<exists>c at. RqCookie rq = Some c \<and> at \<le> now \<and> now - at \<le> trust_absolute \<and>
       ((EnvSha e c, at) \<in> idents g \<or> (\<exists>p \<in> set ps. pairs_browser e p (EnvSha e c) at)))"
proof -
  have s: "served e now rq h" by (rule history_served [OF assms])
  then obtain c r where r: "RqCookie rq = Some c" "r \<in> set (TrustRecords h)" "TrHash r = EnvSha e c" "trust_alive now r"
    by (auto simp: served_def)
  then have "(EnvSha e c, TrCreated r) \<in> idents h" by (force simp: idents_def)
  from history_idents [OF assms this] r have "\<exists>c at. RqCookie rq = Some c \<and> at \<le> now \<and> now - at \<le> trust_absolute \<and>
       ((EnvSha e c, at) \<in> idents g \<or> (\<exists>p \<in> set ps. pairs_browser e p (EnvSha e c) at))"
    by (intro exI [of _ c] exI [of _ "TrCreated r"]) (auto simp: trust_alive_def simp del: pairs_browser.simps)
  then show ?thesis using s allowed_readable by (simp add: served_def)
qed


section \<open>An example\<close>

definition sample_env :: gw_env where
  "sample_env = \<lparr>EnvSha = (\<lambda>t. t), EnvSz = (\<lambda>_. 10), EnvPath = ''/a/t'',
     EnvParse = (\<lambda>b. Some (JObj [(''pin'', JStr b)])), EnvUrl = (\<lambda>_. None), EnvLoopback = False\<rparr>"

definition sample_request :: "string \<Rightarrow> string \<Rightarrow> string \<Rightarrow> web_request" where
  "sample_request m path body = \<lparr>RqMethod = m,
     RqUrl = \<lparr>UrlScheme = '''', UrlHost = '''', UrlPath = path, UrlRawPath = '''', UrlRawQuery = '''', UrlFragment = ''''\<rparr>,
     RqHost = ''h'', RqSource = ''s'', RqHeader = [(''X-Leaf-Csrf'', [''c'']), (''Origin'', [''https://h''])],
     RqCookie = Some ''k'', RqBody = body, RqContentLength = 0, RqTransferEncoding = []\<rparr>"

definition sample_shut :: gateway where
  "sample_shut = \<lparr>TrustRecords = [], TrustW = \<lparr>files = (\<lambda>p. if p = ''/a'' then Some Dir else None), plan = []\<rparr>,
     GwInstance = None, GwOffer = None, GwCsrf = '''', GwForeground = 0, GwExtension = 0, GwFailedBy = [], GwFailed = [], GwLocked = False\<rparr>"

definition sample_opening :: "(gateway, gw_status) prog" where
  "sample_opening = gw_open sample_env 0 (Inr [\<lparr>IpText = ''10.0.0.2'', IpV4 = True, IpLoopback = False, IpUnspecified = False\<rparr>])
     (\<lambda>_. Inr ''f'') (\<lambda>_. Inr ''h'') (Some (''t'', ''c'', 7))"

definition sample_guesses :: "(int \<times> gw_action) list" where
  "sample_guesses = [(1, ActServe None (sample_request ''POST'' ''/leaf/pair'' ''0001'')),
     (2, ActServe (Some ''k'') (sample_request ''POST'' ''/leaf/pair'' ''0007''))]"

definition sample_open :: gateway where
  "sample_open = sample_shut\<lparr>GwInstance := Some \<lparr>GiHost = ''h'', GiAddresses = [''10.0.0.2''], GiFingerprint = ''f''\<rparr>,
     GwOffer := Some \<lparr>OfPin = ''0007'', OfToken = ''t'', OfExpires = pairing_lifetime\<rparr>, GwCsrf := ''c'',
     GwForeground := foreground_lifetime, GwExtension := zero_instant\<rparr>"

lemma sample_pin: "four_digits (unat (7 :: 16 word) mod 10000) = ''0007''"
  by code_simp

lemma sample_opened: "sample_opening sample_shut = (Ok (status_of sample_open 0), sample_open)"
  using sample_pin
  by (simp add: sample_opening_def sample_open_def sample_shut_def gw_open_def current_addresses_def normalized_ips_def sum_bind_def
      sample_env_def pr_lift_def pr_bind_def pr_ret_def pr_get_def pr_put_def pr_when_def ip_strings_def start_instance_def
      choose_listen_ip_def issue_offer_def gw_status_now_def count_trust_def prune_store_def prune_trust_def)

lemma sample_turned_away: "gw_act sample_env 1 (ActServe None (sample_request ''POST'' ''/leaf/pair'' ''0001'')) sample_open =
    (Ok (Refused 401 ''Pairing failed.''), add_failure 1 ''s'' sample_open)"
  by (simp add: gw_serve_def serve_control_def sample_request_def reading_def has_prefix_def submit_pairing_def pr_bind_def pr_get_def
      valid_control_request_def header_get_def sample_open_def sample_shut_def sample_env_def pr_ret_def pairing_input_def decode_struct_def
      pairing_spec_def find_field_def set_string_def sum_bind_def pr_put_def prune_failures_def failures_of_def offer_matches_def add_failure_def)


definition sample_record :: trust_record where
  "sample_record = \<lparr>TrHash = ''k'', TrCreated = 2, TrLastUsed = 2\<rparr>"

definition sample_saved :: "unit outcome \<times> trust_document world" where
  "sample_saved = persist_trust (\<lambda>_. 10) ''/a/t'' [sample_record] (TrustW sample_open)"

lemma sample_saves: "fst sample_saved = Ok ()"
  by code_simp

lemma sample_pairs: "gw_act sample_env 2 (ActServe (Some ''k'') (sample_request ''POST'' ''/leaf/pair'' ''0007'')) sample_open =
    (Ok (Paired ''k''), sample_open\<lparr>GwOffer := None, TrustRecords := [sample_record], TrustW := snd sample_saved\<rparr>)"
proof -
  have "persist_trust (\<lambda>_. 10) ''/a/t'' [\<lparr>TrHash = ''k'', TrCreated = 2, TrLastUsed = 2\<rparr>]
      \<lparr>files = (\<lambda>p. if p = ''/a'' then Some Dir else None), plan = []\<rparr> = (Ok (), snd sample_saved)"
    using sample_saves by (cases sample_saved) (simp add: sample_saved_def sample_record_def sample_open_def sample_shut_def)
  then show ?thesis
    by (simp add: gw_serve_def serve_control_def sample_request_def reading_def has_prefix_def submit_pairing_def pr_bind_def pr_get_def
      valid_control_request_def header_get_def sample_open_def sample_shut_def sample_env_def pr_ret_def pairing_input_def decode_struct_def
      pairing_spec_def find_field_def set_string_def sum_bind_def pr_put_def prune_failures_def failures_of_def offer_matches_def
      pairing_lifetime_def second_def pr_try_def issue_trust_def prune_store_def prune_trust_def keep_newest_def save_trust_def on_files_def sample_record_def
      max_trust_records_def)
qed

definition sample_trusting :: gateway where
  "sample_trusting = sample_open\<lparr>GwOffer := None, TrustRecords := [sample_record], TrustW := snd sample_saved\<rparr>"

lemma sample_reads: "gw_act sample_env 3 (ActServe None (sample_request ''GET'' ''/rest/config'' '''')) sample_trusting = (Ok ToSyncthing, sample_trusting)"
proof -
  have "allow_proxy_url (RqUrl (sample_request ''GET'' ''/rest/config'' ''''))" by code_simp
  moreover have "\<not> has_method_override (RqHeader (sample_request ''GET'' ''/rest/config'' ''''))" by code_simp
  moreover have "sample_trusting\<lparr>TrustRecords := [sample_record]\<rparr> = sample_trusting" by (simp add: sample_trusting_def)
  ultimately show ?thesis
    by (simp add: gw_serve_def has_prefix_def gw_authenticated_def authenticate_trust_def prune_store_def prune_trust_def trust_alive_def
      sample_env_def pr_bind_def pr_ret_def pr_get_def pr_put_def pr_when_def reading_def sample_request_def
      sample_trusting_def sample_record_def trust_absolute_def trust_idle_def last_used_flush_def second_def)
qed


theorem pairing_guesses_bounded_witness:
  "let es = [(1, ActServe None (sample_request ''POST'' ''/leaf/pair'' ''0001''))]
   in length (filter wrong_guess (gw_history sample_env es sample_open)) \<le> 20 \<and>
      length (filter has_paired (gw_history sample_env es sample_open)) \<le> 1"
  unfolding Let_def
  by (rule pairing_guesses_bounded [OF sample_opened [unfolded sample_opening_def]]) simp_all

theorem served_browser_was_paired_witness:
  "reading (sample_request ''GET'' ''/rest/config'' '''') \<and>
   (\<exists>at. at \<le> 3 \<and> (\<exists>p \<in> set [(sample_open, 2, ActServe (Some ''k'') (sample_request ''POST'' ''/leaf/pair'' ''0007''), Ok (Paired ''k''))].
      pairs_browser sample_env p ''k'' at))"
proof -
  have "gw_history sample_env [(2, ActServe (Some ''k'') (sample_request ''POST'' ''/leaf/pair'' ''0007'')),
      (3, ActServe None (sample_request ''GET'' ''/rest/config'' ''''))] sample_open =
    [(sample_open, 2, ActServe (Some ''k'') (sample_request ''POST'' ''/leaf/pair'' ''0007''), Ok (Paired ''k''))] @
    (sample_trusting, 3, ActServe None (sample_request ''GET'' ''/rest/config'' ''''), Ok ToSyncthing) # []"
    by (simp add: sample_pairs [simplified] sample_reads [simplified] sample_trusting_def [symmetric])
  from served_browser_was_paired [OF this] show ?thesis
    by (auto simp: sample_env_def sample_request_def idents_def sample_open_def sample_shut_def simp del: pairs_browser.simps)
qed

end
