(* ===== verification/Ui_Protocol.thy ===== *)
theory Ui_Protocol
  imports Live_Status Frame_Wire Gateway "HOL-Library.AList"
begin

text \<open>
  The protocol between the controller and the screen (\<open>uicontrol/protocol.go\<close>, and the exchange of
  \<open>server.go\<close>): one strict request, one operation, one bounded reply.  Texts for people are not
  modelled; an error is its code.  Go's nil and empty slices are both the empty list, so that
  \<open>normalize\<close> has nothing to do.
\<close>

section \<open>Words\<close>

definition max_identifier :: nat where "max_identifier = 64"

definition identifier_char :: "char \<Rightarrow> bool" where
  "identifier_char c \<longleftrightarrow> (CHR ''a'' \<le> c \<and> c \<le> CHR ''z'') \<or> (CHR ''A'' \<le> c \<and> c \<le> CHR ''Z'') \<or>
     (CHR ''0'' \<le> c \<and> c \<le> CHR ''9'') \<or> c \<in> set ''._:-''"

definition valid_ui_id :: "string \<Rightarrow> bool" where
  "valid_ui_id v \<longleftrightarrow> v \<noteq> '''' \<and> length v \<le> max_identifier \<and> (\<forall>c \<in> set v. identifier_char c)"

definition valid_display_text :: "string \<Rightarrow> nat \<Rightarrow> bool" where
  "valid_display_text v maximum \<longleftrightarrow> v \<noteq> '''' \<and> length v \<le> maximum \<and> (\<forall>c \<in> set v. \<not> (c < CHR 0x20 \<or> c = CHR 0x7F))"

definition folder_kinds :: "string list" where "folder_kinds = [''saves'', ''states'']"
definition folder_types :: "string list" where "folder_types = [''sendonly'', ''sendreceive'', ''receiveonly'']"

section \<open>Requests\<close>

record ui_request =
  UrVersion :: int
  UrID :: string
  UrOperation :: string
  UrArguments :: "json option"

definition request_spec :: "(string \<times> ui_request setter) list" where
  "request_spec = [(''v'', set_int (\<lambda>x s. s\<lparr>UrVersion := x\<rparr>)), (''id'', set_string (\<lambda>x s. s\<lparr>UrID := x\<rparr>)),
     (''op'', set_string (\<lambda>x s. s\<lparr>UrOperation := x\<rparr>)), (''args'', set_raw (\<lambda>x s. s\<lparr>UrArguments := x\<rparr>))]"

definition zero_request :: ui_request where
  "zero_request = \<lparr>UrVersion = 0, UrID = '''', UrOperation = '''', UrArguments = None\<rparr>"

text \<open>\<open>parse\<close> gives the value of a payload that is exactly one JSON value.\<close>

definition decode_request :: "(string \<Rightarrow> json option) \<Rightarrow> string \<Rightarrow> error + ui_request" where
  "decode_request parse payload = (case parse payload of
     None \<Rightarrow> Inl ''request is not one JSON value'' | Some v \<Rightarrow> decode_struct True request_spec zero_request v)"

section \<open>Arguments\<close>

definition empty_object :: "json option \<Rightarrow> bool" where
  "empty_object raw \<longleftrightarrow> raw = Some (JObj [])"

text \<open>The structs into which arguments are decoded, in one record with all of their fields.\<close>

record ui_arguments =
  ArConfirmed :: bool
  ArProfile :: string
  ArSource :: string
  ArKind :: string
  ArFolderType :: string
  ArDevices :: "string list"
  ArFolder :: string
  ArDevice :: string
  ArPlan :: string
  ArStates :: bool
  ArManual :: bool
  ArLimit :: bool
  ArHub :: bool
  ArAction :: string
  ArPhrase :: string
  ArLevel :: string
  ArSuffix :: string
  ArCategory :: string
  ArName :: string
  ArBytes :: int

definition zero_arguments :: ui_arguments where
  "zero_arguments = \<lparr>ArConfirmed = False, ArProfile = '''', ArSource = '''', ArKind = '''', ArFolderType = '''', ArDevices = [],
     ArFolder = '''', ArDevice = '''', ArPlan = '''', ArStates = False, ArManual = False, ArLimit = False, ArHub = False,
     ArAction = '''', ArPhrase = '''', ArLevel = '''', ArSuffix = '''', ArCategory = '''', ArName = '''', ArBytes = 0\<rparr>"

definition argument_fields :: "(string \<times> ui_arguments setter) list" where
  "argument_fields = [(''confirmed'', set_bool (\<lambda>x s. s\<lparr>ArConfirmed := x\<rparr>)), (''profile'', set_string (\<lambda>x s. s\<lparr>ArProfile := x\<rparr>)),
     (''source_id'', set_string (\<lambda>x s. s\<lparr>ArSource := x\<rparr>)), (''kind'', set_string (\<lambda>x s. s\<lparr>ArKind := x\<rparr>)),
     (''folder_type'', set_string (\<lambda>x s. s\<lparr>ArFolderType := x\<rparr>)), (''device_ids'', set_strings (\<lambda>x s. s\<lparr>ArDevices := x\<rparr>)),
     (''folder_id'', set_string (\<lambda>x s. s\<lparr>ArFolder := x\<rparr>)), (''device_id'', set_string (\<lambda>x s. s\<lparr>ArDevice := x\<rparr>)),
     (''plan_id'', set_string (\<lambda>x s. s\<lparr>ArPlan := x\<rparr>)), (''states_warning_acknowledged'', set_bool (\<lambda>x s. s\<lparr>ArStates := x\<rparr>)),
     (''manual_edit_warning_acknowledged'', set_bool (\<lambda>x s. s\<lparr>ArManual := x\<rparr>)),
     (''snapshot_limit_acknowledged'', set_bool (\<lambda>x s. s\<lparr>ArLimit := x\<rparr>)),
     (''hub_versioning_acknowledged'', set_bool (\<lambda>x s. s\<lparr>ArHub := x\<rparr>)), (''action'', set_string (\<lambda>x s. s\<lparr>ArAction := x\<rparr>)),
     (''confirmation'', set_string (\<lambda>x s. s\<lparr>ArPhrase := x\<rparr>)), (''level'', set_string (\<lambda>x s. s\<lparr>ArLevel := x\<rparr>)),
     (''card_suffix'', set_string (\<lambda>x s. s\<lparr>ArSuffix := x\<rparr>)), (''category'', set_string (\<lambda>x s. s\<lparr>ArCategory := x\<rparr>)),
     (''name'', set_string (\<lambda>x s. s\<lparr>ArName := x\<rparr>)), (''bytes'', set_int (\<lambda>x s. s\<lparr>ArBytes := x\<rparr>))]"

text \<open>A strict decoder into a struct of the named fields, and the check that follows it.\<close>

definition arguments_with :: "string list \<Rightarrow> (ui_arguments \<Rightarrow> bool) \<Rightarrow> (ui_arguments \<Rightarrow> 'a) \<Rightarrow> json option \<Rightarrow> error + 'a" where
  "arguments_with names ok result raw = (case raw of
     None \<Rightarrow> Inl ''EOF''
   | Some v \<Rightarrow> sum_bind (decode_struct True (filter (\<lambda>(n, f). n \<in> set names) argument_fields) zero_arguments v) (\<lambda>a.
       if ok a then Inr (result a) else Inl ''invalid arguments''))"


text \<open>\<open>decodeStrictMap\<close>: an object, the last value of each key; other decoders of this kind count its keys.\<close>

definition strict_map :: "json option \<Rightarrow> (string \<times> json) list option" where
  "strict_map raw = (case raw of Some (JObj kvs) \<Rightarrow> Some (fold (\<lambda>(k, v) m. AList.update k v m) kvs []) | _ \<Rightarrow> None)"

definition raw_string :: "json option \<Rightarrow> string option" where
  "raw_string v = (case v of Some (JStr x) \<Rightarrow> Some x | Some JNull \<Rightarrow> Some '''' | _ \<Rightarrow> None)"

definition id_arguments :: "string \<Rightarrow> json option \<Rightarrow> error + string" where
  "id_arguments field raw = (case strict_map raw of
     None \<Rightarrow> Inl ''invalid id arguments''
   | Some m \<Rightarrow> if length m \<noteq> 1 then Inl ''invalid id arguments''
       else (case raw_string (map_of m field) of
         Some v \<Rightarrow> if valid_ui_id v then Inr v else Inl ''invalid id'' | None \<Rightarrow> Inl ''invalid id''))"

definition confirmed_id_arguments :: "string \<Rightarrow> json option \<Rightarrow> error + string" where
  "confirmed_id_arguments field raw = (case strict_map raw of
     None \<Rightarrow> Inl ''invalid confirmed id arguments''
   | Some m \<Rightarrow> if length m \<noteq> 2 then Inl ''invalid confirmed id arguments''
       else (case raw_string (map_of m field) of
         None \<Rightarrow> Inl ''invalid id''
       | Some v \<Rightarrow> if \<not> valid_ui_id v then Inl ''invalid id''
           else if map_of m ''confirmed'' \<noteq> Some (JBool True) then Inl ''confirmation is required'' else Inr v))"

definition named_arguments :: "string \<Rightarrow> string \<Rightarrow> nat \<Rightarrow> json option \<Rightarrow> error + string \<times> string" where
  "named_arguments id_field name_field max_name raw = (case strict_map raw of
     None \<Rightarrow> Inl ''invalid named arguments''
   | Some m \<Rightarrow> if length m \<noteq> 2 then Inl ''invalid named arguments''
       else (case (raw_string (map_of m id_field), raw_string (map_of m name_field)) of
         (Some i, Some n) \<Rightarrow> if i = '''' \<or> length i > 256 then Inl ''invalid subject id''
             else if \<not> valid_display_text n max_name then Inl ''invalid display name'' else Inr (i, n)
       | _ \<Rightarrow> Inl ''invalid named arguments''))"

definition reset_phrase :: "string \<Rightarrow> string" where
  "reset_phrase action = (if action = ''index-only'' then ''RESET INDEX'' else if action = ''full'' then ''RESET SYNCTHING''
     else if action = ''available-only'' then ''RESET AVAILABLE STATE'' else '''')"

definition confirmed_arguments :: "json option \<Rightarrow> error + unit" where
  "confirmed_arguments = arguments_with [''confirmed''] ArConfirmed (\<lambda>a. ())"

definition network_profile_arguments :: "json option \<Rightarrow> error + string" where
  "network_profile_arguments = arguments_with [''profile'', ''confirmed'']
     (\<lambda>a. ArConfirmed a \<and> ArProfile a \<in> {''lan-only'', ''sync-anywhere''}) ArProfile"

definition enroll_card_arguments :: "json option \<Rightarrow> error + string" where
  "enroll_card_arguments = arguments_with [''source_id''] (\<lambda>a. valid_ui_id (ArSource a)) ArSource"

definition onboarding_plan_arguments :: "json option \<Rightarrow> error + (string \<times> string \<times> string \<times> string list)" where
  "onboarding_plan_arguments = arguments_with [''source_id'', ''kind'', ''folder_type'', ''device_ids'']
     (\<lambda>a. valid_ui_id (ArSource a) \<and> ArKind a \<in> set folder_kinds \<and> ArFolderType a \<in> set folder_types \<and>
        ArDevices a \<noteq> [] \<and> length (ArDevices a) \<le> 32 \<and> (\<forall>d \<in> set (ArDevices a). valid_ui_id d))
     (\<lambda>a. (ArSource a, ArKind a, ArFolderType a, ArDevices a))"

definition offer_plan_arguments :: "json option \<Rightarrow> error + (string \<times> string \<times> string \<times> string \<times> string)" where
  "offer_plan_arguments = arguments_with [''folder_id'', ''device_id'', ''source_id'', ''kind'', ''folder_type'']
     (\<lambda>a. valid_ui_id (ArFolder a) \<and> valid_ui_id (ArDevice a) \<and> valid_ui_id (ArSource a) \<and>
        ArKind a \<in> set folder_kinds \<and> ArFolderType a \<in> set folder_types)
     (\<lambda>a. (ArFolder a, ArDevice a, ArSource a, ArKind a, ArFolderType a))"

definition folder_membership_arguments :: "json option \<Rightarrow> error + (string \<times> string)" where
  "folder_membership_arguments = arguments_with [''folder_id'', ''device_id'', ''confirmed'']
     (\<lambda>a. ArConfirmed a \<and> valid_ui_id (ArFolder a) \<and> valid_ui_id (ArDevice a)) (\<lambda>a. (ArFolder a, ArDevice a))"

definition onboarding_create_arguments :: "json option \<Rightarrow> error + (string \<times> bool \<times> bool)" where
  "onboarding_create_arguments =
     arguments_with [''plan_id'', ''confirmed'', ''states_warning_acknowledged'', ''manual_edit_warning_acknowledged'']
     (\<lambda>a. length (ArPlan a) = 32 \<and> valid_ui_id (ArPlan a) \<and> ArConfirmed a \<and> ArManual a) (\<lambda>a. (ArPlan a, ArStates a, ArManual a))"

definition first_sync_prepare_arguments :: "json option \<Rightarrow> error + string" where
  "first_sync_prepare_arguments = arguments_with [''folder_id'', ''confirmed'', ''snapshot_limit_acknowledged'']
     (\<lambda>a. valid_ui_id (ArFolder a) \<and> ArConfirmed a \<and> ArLimit a) ArFolder"

definition first_sync_start_arguments :: "json option \<Rightarrow> error + (string \<times> bool)" where
  "first_sync_start_arguments = arguments_with [''folder_id'', ''confirmed'', ''hub_versioning_acknowledged'']
     (\<lambda>a. valid_ui_id (ArFolder a) \<and> ArConfirmed a \<and> ArHub a) (\<lambda>a. (ArFolder a, ArHub a))"

definition folder_type_arguments :: "json option \<Rightarrow> error + (string \<times> string)" where
  "folder_type_arguments = arguments_with [''folder_id'', ''folder_type'', ''confirmed'']
     (\<lambda>a. valid_ui_id (ArFolder a) \<and> ArConfirmed a \<and> ArFolderType a \<in> set folder_types) (\<lambda>a. (ArFolder a, ArFolderType a))"

definition reset_arguments :: "json option \<Rightarrow> error + string" where
  "reset_arguments = arguments_with [''action'', ''confirmed'', ''confirmation'']
     (\<lambda>a. ArConfirmed a \<and> reset_phrase (ArAction a) \<noteq> '''' \<and> ArPhrase a = reset_phrase (ArAction a)) ArAction"

definition log_level_arguments :: "json option \<Rightarrow> error + string" where
  "log_level_arguments = arguments_with [''level'', ''confirmed'']
     (\<lambda>a. ArConfirmed a \<and> ArLevel a \<in> {''normal'', ''debug''}) ArLevel"

definition storage_cleanup_arguments :: "json option \<Rightarrow> error + (string \<times> string \<times> string \<times> string \<times> int)" where
  "storage_cleanup_arguments = arguments_with [''card_suffix'', ''category'', ''kind'', ''name'', ''bytes'', ''confirmed'']
     (\<lambda>a. ArConfirmed a \<and> valid_display_text (ArSuffix a) 16 \<and> ArCategory a \<in> {''snapshot'', ''versions''} \<and>
        ArKind a \<in> set folder_kinds \<and> valid_display_text (ArName a) 128 \<and> 0 \<le> ArBytes a \<and> ArBytes a \<le> 9007199254740991)
     (\<lambda>a. (ArSuffix a, ArCategory a, ArKind a, ArName a, ArBytes a))"

section \<open>Operations\<close>

text \<open>
  What the controller is asked to do, and the function of \<open>Operations\<close> that does it.  A function that
  is not given is nil.
\<close>

datatype ui_call =
    Call_Status
  | Call_Enroll string
  | Call_Network string
  | Call_Gateway string
  | Call_Folder string string string
  | Call_Inspect string
  | Call_Plan string string string "string list"
  | Call_Offer_Plan string string string string string
  | Call_Offer string string string
  | Call_Create string bool bool
  | Call_Prepare string
  | Call_Start string bool
  | Call_Type string string
  | Call_Membership string string string
  | Call_Device string string string
  | Call_Reset string
  | Call_Log string
  | Call_Diagnostics
  | Call_Cleanup string string string string int

datatype op_field =
    Op_Status | Op_Enroll | Op_Network | Op_Gateway | Op_Folder | Op_Inspect | Op_Plan | Op_Offer_Plan | Op_Offer
  | Op_Create | Op_Prepare | Op_Start | Op_Type | Op_Membership | Op_Device | Op_Reset | Op_Log | Op_Diagnostics | Op_Cleanup

definition op_fields :: "(string \<times> op_field) list" where
  "op_fields = [(''status.get'', Op_Status), (''card.enroll'', Op_Enroll), (''network.profile.set'', Op_Network),
     (''gateway.open'', Op_Gateway), (''gateway.keepalive'', Op_Gateway), (''gateway.close'', Op_Gateway),
     (''gateway.extend'', Op_Gateway), (''gateway.revoke-all'', Op_Gateway),
     (''folder.pause'', Op_Folder), (''folder.resume'', Op_Folder), (''folder.rescan'', Op_Folder), (''folder.stop'', Op_Folder),
     (''folder.inspect'', Op_Inspect), (''folder.rename'', Op_Folder), (''folder.onboard.plan'', Op_Plan),
     (''folder.offer.plan'', Op_Offer_Plan), (''folder.offer.ignore'', Op_Offer), (''folder.offer.restore'', Op_Offer),
     (''folder.share'', Op_Membership), (''folder.unshare'', Op_Membership), (''folder.onboard.create'', Op_Create),
     (''folder.first-sync.prepare'', Op_Prepare), (''folder.first-sync.start'', Op_Start), (''folder.type.set'', Op_Type),
     (''device.add'', Op_Device), (''device.rename'', Op_Device), (''device.remove'', Op_Device), (''reset.prepare'', Op_Reset),
     (''log.level.set'', Op_Log), (''diagnostics.export'', Op_Diagnostics), (''storage.cleanup'', Op_Cleanup)]"

definition on_empty :: "ui_call \<Rightarrow> json option \<Rightarrow> error + ui_call" where
  "on_empty c raw = (if empty_object raw then Inr c else Inl ''requires empty args'')"

abbreviation decoded_as :: "error + 'a \<Rightarrow> ('a \<Rightarrow> ui_call) \<Rightarrow> error + ui_call" where
  "decoded_as r f \<equiv> sum_bind r (\<lambda>x. Inr (f x))"

text \<open>The arguments of an operation, decoded as the branches of \<open>Handle\<close> do.\<close>

definition parse_call :: "op_field \<Rightarrow> string \<Rightarrow> json option \<Rightarrow> error + ui_call" where
  "parse_call field op raw = (case field of
     Op_Status \<Rightarrow> on_empty Call_Status raw
   | Op_Enroll \<Rightarrow> decoded_as (enroll_card_arguments raw) Call_Enroll
   | Op_Network \<Rightarrow> decoded_as (network_profile_arguments raw) Call_Network
   | Op_Gateway \<Rightarrow> if op \<in> {''gateway.extend'', ''gateway.revoke-all''} then decoded_as (confirmed_arguments raw) (\<lambda>u. Call_Gateway op)
       else on_empty (Call_Gateway op) raw
   | Op_Folder \<Rightarrow> if op = ''folder.stop'' then decoded_as (confirmed_id_arguments ''folder_id'' raw) (\<lambda>i. Call_Folder op i '''')
       else if op = ''folder.rename'' then decoded_as (named_arguments ''folder_id'' ''label'' 96 raw) (\<lambda>(i, n). Call_Folder op i n)
       else decoded_as (id_arguments ''folder_id'' raw) (\<lambda>i. Call_Folder op i '''')
   | Op_Inspect \<Rightarrow> decoded_as (id_arguments ''folder_id'' raw) Call_Inspect
   | Op_Plan \<Rightarrow> decoded_as (onboarding_plan_arguments raw) (\<lambda>(s, k, t, ds). Call_Plan s k t ds)
   | Op_Offer_Plan \<Rightarrow> decoded_as (offer_plan_arguments raw) (\<lambda>(f, d, s, k, t). Call_Offer_Plan f d s k t)
   | Op_Offer \<Rightarrow> decoded_as (folder_membership_arguments raw) (\<lambda>(f, d). Call_Offer op f d)
   | Op_Create \<Rightarrow> decoded_as (onboarding_create_arguments raw) (\<lambda>(p, s, m). Call_Create p s m)
   | Op_Prepare \<Rightarrow> decoded_as (first_sync_prepare_arguments raw) Call_Prepare
   | Op_Start \<Rightarrow> decoded_as (first_sync_start_arguments raw) (\<lambda>(f, h). Call_Start f h)
   | Op_Type \<Rightarrow> decoded_as (folder_type_arguments raw) (\<lambda>(f, t). Call_Type f t)
   | Op_Membership \<Rightarrow> decoded_as (folder_membership_arguments raw) (\<lambda>(f, d). Call_Membership op f d)
   | Op_Device \<Rightarrow> if op = ''device.remove'' then decoded_as (confirmed_id_arguments ''device_id'' raw) (\<lambda>d. Call_Device op d '''')
       else decoded_as (named_arguments ''device_id'' ''name'' 64 raw) (\<lambda>(d, n). Call_Device op d n)
   | Op_Reset \<Rightarrow> decoded_as (reset_arguments raw) Call_Reset
   | Op_Log \<Rightarrow> decoded_as (log_level_arguments raw) Call_Log
   | Op_Diagnostics \<Rightarrow> on_empty Call_Diagnostics raw
   | Op_Cleanup \<Rightarrow> decoded_as (storage_cleanup_arguments raw) (\<lambda>(s, c, k, n, b). Call_Cleanup s c k n b))"

section \<open>The status of a reply\<close>

record gateway_view =
  GvOpen :: bool
  GvURL :: string
  GvPIN :: string
  GvQR :: string
  GvOfferExpires :: string
  GvFingerprint :: string
  GvTrusted :: nat
  GvPairing :: bool
  GvExtension :: string

text \<open>\<open>rfc3339\<close> formats a time.\<close>

definition control_gateway_status :: "(int \<Rightarrow> string) \<Rightarrow> gw_status \<Rightarrow> gateway_view" where
  "control_gateway_status rfc3339 st = \<lparr>GvOpen = StOpen st, GvURL = StUrl st, GvPIN = StPin st, GvQR = StQr st,
     GvOfferExpires = (if StOfferExpires st = zero_instant then '''' else rfc3339 (StOfferExpires st)),
     GvFingerprint = StFingerprint st, GvTrusted = StTrusted st, GvPairing = StPairing st,
     GvExtension = (if StExtension st = zero_instant then '''' else rfc3339 (StExtension st))\<rparr>"

record recovery_view =
  RvState :: string
  RvChanged :: bool
  RvPlanID :: string
  RvPlanAction :: string
  RvRemove :: "string list"
  RvRetained :: "string list"

record network_view =
  NvProfile :: string
  NvAllowed :: "string list"
  NvRouteChanged :: bool

record logging_view =
  LvLevel :: string
  LvExpires :: string

record storage_row =
  SrSuffix :: string
  SrCategory :: string
  SrKind :: string
  SrName :: string
  SrBytes :: int

record storage_view =
  SvSnapshotBytes :: int
  SvVersionBytes :: int
  SvSnapshotCount :: int
  SvVersionGroups :: int
  SvInventory :: "storage_row list"

record onboarding_view =
  OvPlanID :: string
  OvSource :: string
  OvCard :: string
  OvKind :: string
  OvFolderType :: string
  OvFolderID :: string
  OvLabel :: string
  OvPath :: string
  OvFiles :: int
  OvDirectories :: int
  OvContent :: int
  OvAvailable :: int
  OvSnapshotPossible :: bool
  OvPeers :: int
  OvStatesWarning :: bool
  OvJoin :: bool
  OvOfferDevice :: string
  OvExpires :: string

text \<open>
  The fields of \<open>Status\<close> beyond those of \<open>view\<close>.  The diagnostics of a reply are not checked and not
  modelled.
\<close>

record screen_status = view +
  ScController :: string
  ScVersion :: string
  ScDevice :: string
  ScRecovery :: recovery_view
  ScNetwork :: "network_view option"
  ScGateway :: "gateway_view option"
  ScLogging :: "logging_view option"
  ScStorage :: "storage_view option"
  ScOnboarding :: "onboarding_view option"
  ScCapabilities :: "string list"

definition when_given :: "('a \<Rightarrow> bool) \<Rightarrow> 'a option \<Rightarrow> bool" where
  "when_given p x = (case x of None \<Rightarrow> True | Some y \<Rightarrow> p y)"

definition valid_gateway_view :: "gateway_view \<Rightarrow> bool" where
  "valid_gateway_view g \<longleftrightarrow> GvTrusted g \<le> 32 \<and> (GvOpen g \<longrightarrow> GvURL g \<noteq> '''' \<and> GvFingerprint g \<noteq> '''') \<and>
     (GvPairing g \<longrightarrow> GvOpen g \<and> length (GvPIN g) = 4 \<and> GvQR g \<noteq> '''' \<and> GvOfferExpires g \<noteq> '''')"

definition valid_transfer :: "ui_transfer \<Rightarrow> bool" where
  "valid_transfer t \<longleftrightarrow> 0 \<le> TrLocal t \<and> 0 \<le> TrGlobal t \<and> 0 \<le> TrNeed t \<and> 0 \<le> TrIn t \<and> 0 \<le> TrOut t"

definition valid_onboarding_view :: "onboarding_view \<Rightarrow> bool" where
  "valid_onboarding_view p \<longleftrightarrow> length (OvPlanID p) = 32 \<and> valid_ui_id (OvPlanID p) \<and> valid_ui_id (OvSource p) \<and>
     OvCard p \<noteq> '''' \<and> valid_ui_id (OvFolderID p) \<and> valid_display_text (OvLabel p) 96 \<and>
     OvPath p \<noteq> '''' \<and> length (OvPath p) \<le> 1024 \<and> OvKind p \<in> set folder_kinds \<and> OvFolderType p \<in> set folder_types \<and>
     0 \<le> OvFiles p \<and> 0 \<le> OvDirectories p \<and> 0 \<le> OvContent p \<and> 0 \<le> OvAvailable p \<and> 1 \<le> OvPeers p \<and>
     OvExpires p \<noteq> '''' \<and> length (OvExpires p) \<le> 64 \<and> OvJoin p = (OvOfferDevice p \<noteq> '''') \<and>
     (OvJoin p \<longrightarrow> valid_ui_id (OvOfferDevice p))"

definition valid_storage_row :: "storage_row \<Rightarrow> bool" where
  "valid_storage_row r \<longleftrightarrow> SrSuffix r \<noteq> '''' \<and> SrName r \<noteq> '''' \<and> 0 \<le> SrBytes r \<and>
     SrCategory r \<in> {''snapshot'', ''versions''} \<and> SrKind r \<in> {''saves'', ''states'', ''other''}"

definition valid_storage_view :: "storage_view \<Rightarrow> bool" where
  "valid_storage_view s \<longleftrightarrow> 0 \<le> SvSnapshotBytes s \<and> 0 \<le> SvVersionBytes s \<and> 0 \<le> SvSnapshotCount s \<and> 0 \<le> SvVersionGroups s \<and>
     length (SvInventory s) \<le> 128 \<and> (\<forall>r \<in> set (SvInventory s). valid_storage_row r)"

definition valid_recovery_view :: "recovery_view \<Rightarrow> bool" where
  "valid_recovery_view r \<longleftrightarrow> RvState r \<in> {''ready'', ''pending'', ''error''} \<and>
     length (RvRemove r) \<le> 64 \<and> length (RvRetained r) \<le> 32 \<and>
     (RvPlanID r \<noteq> '''' \<longrightarrow> length (RvPlanID r) = 32 \<and> RvPlanAction r \<in> {''index-only'', ''full'', ''available-only''})"

text \<open>The state of a card is one of the five by its type.\<close>

definition valid_card_row :: "card_row \<Rightarrow> bool" where
  "valid_card_row c \<longleftrightarrow> CrID c \<noteq> '''' \<and> (CrSource c \<noteq> '''' \<longrightarrow> valid_ui_id (CrSource c)) \<and> 0 \<le> CrRetained c \<and> length (CrIssues c) \<le> 128"

definition remote_states :: "string list" where
  "remote_states = [''local-only'', ''current'', ''syncing'', ''offline'', ''paused'', ''not-sharing'', ''unknown'']"

definition valid_live_row :: "live_row \<Rightarrow> bool" where
  "valid_live_row f \<longleftrightarrow> 0 \<le> LrLocalBytes f \<and> 0 \<le> LrGlobalBytes f \<and> 0 \<le> LrLocalItems f \<and> 0 \<le> LrGlobalItems f \<and>
     0 \<le> LrNeedBytes f \<and> 0 \<le> LrNeedItems f \<and> 0 \<le> LrRemoteNeedBytes f \<and> 0 \<le> LrRemoteNeedItems f \<and>
     0 \<le> PFiles (LrFirst f) \<and> 0 \<le> PDirectories (LrFirst f) \<and> 0 \<le> PBytes (LrFirst f) \<and>
     length (LrConflicts f) \<le> LrConflictCount f \<and> length (LrConflicts f) \<le> 64 \<and> length (DeviceIDs f) \<le> 33 \<and>
     length (Reasons f) \<le> 16 \<and> length (RowIssues f) \<le> 128 \<and>
     (LrRemoteState f \<noteq> '''' \<longrightarrow> LrRemoteState f \<in> set remote_states) \<and>
     (LrRemotePeer f \<noteq> '''' \<longrightarrow> valid_display_text (LrRemotePeer f) 64) \<and>
     (\<forall>d \<in> set (DeviceIDs f). valid_ui_id d) \<and>
     (PState (LrFirst f) \<noteq> '''' \<longrightarrow> PState (LrFirst f) \<in> {''required'', ''preparing'', ''ready'', ''complete'', ''error''}) \<and>
     length (PSnapshot (LrFirst f)) \<le> 96 \<and> length (PMessage (LrFirst f)) \<le> 240 \<and>
     (\<forall>c \<in> set (LrConflicts f). valid_display_text c 256)"

definition valid_peer_status :: "peer_status \<Rightarrow> bool" where
  "valid_peer_status p \<longleftrightarrow> PsID p \<noteq> '''' \<and> PsName p \<noteq> '''' \<and> PsState p \<in> {''offline'', ''connected'', ''paused'', ''pending''} \<and>
     PsConnection p \<in> {''none'', ''local'', ''direct'', ''relay''}"

definition valid_offer_status :: "offer_status \<Rightarrow> bool" where
  "valid_offer_status q \<longleftrightarrow> valid_ui_id (OsFolder q) \<and> valid_display_text (OsLabel q) 96 \<and> OsDevice q \<noteq> '''' \<and> OsSuffix q \<noteq> '''' \<and>
     valid_display_text (OsDeviceName q) 64 \<and> length (OsOfferedAt q) \<le> 64"

definition row_limits :: "screen_status \<Rightarrow> bool" where
  "row_limits s \<longleftrightarrow> length (VwCards s) \<le> 128 \<and> length (VwRows s) \<le> 128 \<and> length (VwPeers s) \<le> 128 \<and>
     length (VwOffers s) \<le> 32 \<and> length (VwIssues s) \<le> 128 \<and> length (ScCapabilities s) \<le> 64"

definition valid_screen_status :: "screen_status \<Rightarrow> bool" where
  "valid_screen_status s \<longleftrightarrow> ScController s \<in> {''running'', ''recovery-pending'', ''error''} \<and>
     VwUpstream s \<in> {''stopped'', ''starting'', ''running'', ''error'', ''conflict''} \<and>
     when_given (\<lambda>n. NvProfile n \<in> {''lan-only'', ''sync-anywhere''}) (ScNetwork s) \<and>
     when_given valid_gateway_view (ScGateway s) \<and> when_given valid_transfer (VwTransfer s) \<and>
     when_given (\<lambda>l. LvLevel l \<in> {''normal'', ''debug''}) (ScLogging s) \<and>
     when_given valid_onboarding_view (ScOnboarding s) \<and> when_given valid_storage_view (ScStorage s) \<and>
     valid_recovery_view (ScRecovery s) \<and> (VwUpstream s = ''running'' \<longrightarrow> ScVersion s \<noteq> '''' \<and> ScDevice s \<noteq> '''') \<and>
     row_limits s \<and> list_all valid_card_row (VwCards s) \<and> list_all valid_live_row (VwRows s) \<and>
     list_all valid_peer_status (VwPeers s) \<and> list_all valid_offer_status (VwOffers s)"

section \<open>Handling a request\<close>

datatype ui_reply = Ui_Done string screen_status | Ui_Failed string string

text \<open>
  An operation returns a new status or the code of an error, and changes the state of the
  controller.
\<close>

type_synonym 's operations = "op_field \<Rightarrow> (ui_call \<Rightarrow> 's \<Rightarrow> (string + screen_status) \<times> 's) option"

definition unavailable_code :: "op_field \<Rightarrow> string" where
  "unavailable_code f = (if f = Op_Status then ''internal'' else ''unsupported-op'')"

definition finish_reply :: "string \<Rightarrow> string + screen_status \<Rightarrow> ui_reply" where
  "finish_reply i r = (case r of Inl code \<Rightarrow> Ui_Failed i code
     | Inr st \<Rightarrow> if valid_screen_status st then Ui_Done i st else Ui_Failed i ''internal'')"

definition run_op :: "'s operations \<Rightarrow> op_field \<Rightarrow> ui_request \<Rightarrow> 's \<Rightarrow> ui_reply \<times> 's" where
  "run_op ops f q s = (case ops f of
     None \<Rightarrow> (if f = Op_Status \<and> \<not> empty_object (UrArguments q) then (Ui_Failed (UrID q) ''bad-arguments'', s)
              else (Ui_Failed (UrID q) (unavailable_code f), s))
   | Some g \<Rightarrow> (case parse_call f (UrOperation q) (UrArguments q) of
       Inl e \<Rightarrow> (Ui_Failed (UrID q) ''bad-arguments'', s)
     | Inr c \<Rightarrow> (case g c s of (r, s) \<Rightarrow> (finish_reply (UrID q) r, s))))"

definition ui_handle :: "(string \<Rightarrow> json option) \<Rightarrow> 's operations \<Rightarrow> string \<Rightarrow> 's \<Rightarrow> ui_reply \<times> 's" where
  "ui_handle parse ops payload s = (case decode_request parse payload of
     Inl e \<Rightarrow> (Ui_Failed '''' ''bad-request'', s)
   | Inr q \<Rightarrow> (let response = (if valid_ui_id (UrID q) then UrID q else '''')
       in if UrVersion q \<noteq> 1 then (Ui_Failed response ''unsupported-version'', s)
          else if response = '''' then (Ui_Failed '''' ''bad-request'', s)
          else (case map_of op_fields (UrOperation q) of
            None \<Rightarrow> (Ui_Failed (UrID q) ''unsupported-op'', s) | Some f \<Rightarrow> run_op ops f q s)))"

text \<open>
  One connection of the server.  \<open>encode\<close> marshals a reply; the bytes of the answer are the
  output, a connection that is closed unanswered has none.
\<close>

definition reply_id :: "ui_reply \<Rightarrow> string" where
  "reply_id r = (case r of Ui_Done i st \<Rightarrow> i | Ui_Failed i code \<Rightarrow> i)"

definition bounded_reply :: "(ui_reply \<Rightarrow> string) \<Rightarrow> ui_reply \<Rightarrow> ui_reply" where
  "bounded_reply encode r = (if length (encode r) > semantic_max_payload then Ui_Failed (reply_id r) ''internal'' else r)"

definition ui_exchange :: "(string \<Rightarrow> json option) \<Rightarrow> (ui_reply \<Rightarrow> string) \<Rightarrow> 's operations \<Rightarrow> chunk list \<Rightarrow> answers \<Rightarrow> 's \<Rightarrow> string \<times> 's" where
  "ui_exchange parse encode ops input rs s =
     (let valid = (\<lambda>t. parse t \<noteq> None)
      in case fst (read_frame valid input) of
           Inl e \<Rightarrow> ('''', s)
         | Inr payload \<Rightarrow> (case ui_handle parse ops payload s of
             (r, s') \<Rightarrow> (fst (snd (write_frame valid rs (encode (bounded_reply encode r)) '''')), s')))"

section \<open>An operation needs a sound, confirmed request\<close>

text \<open>What the arguments of a call are, whatever the bytes of the request.\<close>

fun sound_call :: "ui_call \<Rightarrow> bool" where
  "sound_call Call_Status = True"
| "sound_call (Call_Enroll s) = valid_ui_id s"
| "sound_call (Call_Network p) = (p \<in> {''lan-only'', ''sync-anywhere''})"
| "sound_call (Call_Gateway op) = (op \<in> {''gateway.open'', ''gateway.keepalive'', ''gateway.close'', ''gateway.extend'', ''gateway.revoke-all''})"
| "sound_call (Call_Folder op i n) = (if op = ''folder.rename'' then i \<noteq> '''' \<and> length i \<le> 256 \<and> valid_display_text n 96
     else valid_ui_id i \<and> n = '''' \<and> op \<in> {''folder.pause'', ''folder.resume'', ''folder.rescan'', ''folder.stop''})"
| "sound_call (Call_Inspect i) = valid_ui_id i"
| "sound_call (Call_Plan s k t ds) = (valid_ui_id s \<and> k \<in> set folder_kinds \<and> t \<in> set folder_types \<and>
     ds \<noteq> [] \<and> length ds \<le> 32 \<and> (\<forall>d \<in> set ds. valid_ui_id d))"
| "sound_call (Call_Offer_Plan f d s k t) = (valid_ui_id f \<and> valid_ui_id d \<and> valid_ui_id s \<and> k \<in> set folder_kinds \<and> t \<in> set folder_types)"
| "sound_call (Call_Offer op f d) = (op \<in> {''folder.offer.ignore'', ''folder.offer.restore''} \<and> valid_ui_id f \<and> valid_ui_id d)"
| "sound_call (Call_Create p s m) = (length p = 32 \<and> valid_ui_id p \<and> m)"
| "sound_call (Call_Prepare f) = valid_ui_id f"
| "sound_call (Call_Start f h) = (valid_ui_id f \<and> h)"
| "sound_call (Call_Type f t) = (valid_ui_id f \<and> t \<in> set folder_types)"
| "sound_call (Call_Membership op f d) = (op \<in> {''folder.share'', ''folder.unshare''} \<and> valid_ui_id f \<and> valid_ui_id d)"
| "sound_call (Call_Device op d n) = (if op = ''device.remove'' then valid_ui_id d \<and> n = ''''
     else op \<in> {''device.add'', ''device.rename''} \<and> d \<noteq> '''' \<and> length d \<le> 256 \<and> valid_display_text n 64)"
| "sound_call (Call_Reset a) = (a \<in> {''index-only'', ''full'', ''available-only''})"
| "sound_call (Call_Log l) = (l \<in> {''normal'', ''debug''})"
| "sound_call Call_Diagnostics = True"
| "sound_call (Call_Cleanup s c k n b) = (valid_display_text s 16 \<and> c \<in> {''snapshot'', ''versions''} \<and> k \<in> set folder_kinds \<and>
     valid_display_text n 128 \<and> 0 \<le> b \<and> b \<le> 9007199254740991)"

text \<open>The calls that destroy data, start a synchronisation, change who takes part, or open the device.\<close>

fun needs_confirmation :: "ui_call \<Rightarrow> bool" where
  "needs_confirmation (Call_Network p) = True"
| "needs_confirmation (Call_Gateway op) = (op \<in> {''gateway.extend'', ''gateway.revoke-all''})"
| "needs_confirmation (Call_Folder op i n) = (op = ''folder.stop'')"
| "needs_confirmation (Call_Offer op f d) = True"
| "needs_confirmation (Call_Create p s m) = True"
| "needs_confirmation (Call_Prepare f) = True"
| "needs_confirmation (Call_Start f h) = True"
| "needs_confirmation (Call_Type f t) = True"
| "needs_confirmation (Call_Membership op f d) = True"
| "needs_confirmation (Call_Device op d n) = (op = ''device.remove'')"
| "needs_confirmation (Call_Reset a) = True"
| "needs_confirmation (Call_Log l) = True"
| "needs_confirmation (Call_Cleanup s c k n b) = True"
| "needs_confirmation c = False"

text \<open>An argument named \<open>confirmed\<close> (in the letter case that the decoder accepts) that is \<open>true\<close>.\<close>

definition confirms :: "json option \<Rightarrow> bool" where
  "confirms raw = (case raw of Some (JObj kvs) \<Rightarrow> \<exists>(k, v) \<in> set kvs. fold_name k = ''confirmed'' \<and> v = JBool True | _ \<Rightarrow> False)"

definition keeps_confirmed :: "string \<Rightarrow> ui_arguments setter \<Rightarrow> bool" where
  "keeps_confirmed n f \<longleftrightarrow> (\<forall>s v s'. f s v = Inr s' \<longrightarrow> ArConfirmed s' \<longrightarrow> ArConfirmed s \<or> n = ''confirmed'' \<and> v = JBool True)"

lemma setters_keep_confirmed:
  "(\<And>x s. ArConfirmed (u x s) = ArConfirmed s) \<Longrightarrow> keeps_confirmed n (set_string u)"
  "(\<And>x s. ArConfirmed (w x s) = ArConfirmed s) \<Longrightarrow> keeps_confirmed n (set_strings w)"
  "(\<And>x s. ArConfirmed (i x s) = ArConfirmed s) \<Longrightarrow> keeps_confirmed n (set_int i)"
  "(\<And>x s. ArConfirmed (b x s) = ArConfirmed s) \<Longrightarrow> keeps_confirmed n (set_bool b)"
  by (auto simp: keeps_confirmed_def setter_defs sum_bind_Inr split: json.splits if_splits)

lemma confirmed_sets: "keeps_confirmed ''confirmed'' (set_bool (\<lambda>x s. s\<lparr>ArConfirmed := x\<rparr>))"
  by (auto simp: keeps_confirmed_def set_bool_def split: json.splits)

lemma fields_keep_confirmed: "list_all (\<lambda>(n, f). keeps_confirmed n f) argument_fields"
  unfolding argument_fields_def list.pred_inject prod.case
  by (intro conjI confirmed_sets TrueI setters_keep_confirmed) simp_all

lemma confirming_setter:
  assumes "(n, f) \<in> set argument_fields" "f s v = Inr s'" "ArConfirmed s'" "\<not> ArConfirmed s"
  shows "n = ''confirmed'' \<and> v = JBool True"
  using assms fields_keep_confirmed unfolding list_all_iff keeps_confirmed_def by fast

lemma fold_confirmed: "fold_name ''confirmed'' = ''confirmed''"
  by code_simp


lemma find_field_named:
  assumes "find_field spec key = Some f"
  shows "\<exists>n. (n, f) \<in> set spec \<and> fold_name n = fold_name key"
  using assms unfolding find_field_def
  by (auto split: option.splits dest!: map_of_SomeD simp: find_Some_iff) (metis nth_mem)

lemma confirming_fields:
  assumes "decode_fields True (filter P argument_fields) kvs s = Inr a" "ArConfirmed a" "\<not> ArConfirmed s"
  shows "\<exists>(k, v) \<in> set kvs. fold_name k = ''confirmed'' \<and> v = JBool True"
  using assms
proof (induction kvs arbitrary: s)
  case Nil
  then show ?case by simp
next
  case (Cons kv kvs)
  obtain k v where kv: "kv = (k, v)" by (cases kv)
  from Cons.prems(1) kv obtain f s' where f: "find_field (filter P argument_fields) k = Some f" and s': "f s v = Inr s'"
    and rest: "decode_fields True (filter P argument_fields) kvs s' = Inr a"
    by (auto simp: sum_bind_Inr split: option.splits)
  from find_field_named [OF f] obtain n where n: "(n, f) \<in> set argument_fields" "fold_name n = fold_name k" by auto

  show ?case
  proof (cases "ArConfirmed s'")
    case True
    from confirming_setter [OF n(1) s' True Cons.prems(3)] n(2) fold_confirmed kv show ?thesis by force
  next
    case False
    from Cons.IH [OF rest Cons.prems(2) False] show ?thesis by auto
  qed
qed

lemma arguments_withD:
  assumes "arguments_with names ok f raw = Inr x"
  shows "\<exists>a. ok a \<and> x = f a \<and> (ArConfirmed a \<longrightarrow> confirms raw)"
proof -
  from assms obtain v a where v: "raw = Some v" and ok: "ok a" and x: "x = f a"
    and d: "decode_struct True (filter (\<lambda>(n, f). n \<in> set names) argument_fields) zero_arguments v = Inr a"
    unfolding arguments_with_def by (auto simp: sum_bind_Inr split: option.splits if_splits)
  have "confirms raw" if c: "ArConfirmed a"
  proof (cases v)
    case (JObj kvs)
    from d JObj have "decode_fields True (filter (\<lambda>(n, f). n \<in> set names) argument_fields) kvs zero_arguments = Inr a"
      by (simp add: decode_struct_def)
    from confirming_fields [OF this c] JObj v show ?thesis by (auto simp: confirms_def zero_arguments_def)
  qed (use d c in \<open>auto simp: decode_struct_def zero_arguments_def\<close>)
  with ok x show ?thesis by blast
qed

lemma strict_map_of:
  assumes "strict_map raw = Some m" "map_of m k = Some v"
  shows "\<exists>kvs. raw = Some (JObj kvs) \<and> (k, v) \<in> set kvs"
proof -
  from assms(1) obtain kvs where raw: "raw = Some (JObj kvs)" and m: "m = fold (\<lambda>(k, v) m. AList.update k v m) kvs []"
    by (auto simp: strict_map_def split: option.splits json.splits)
  have "map_of (fold (\<lambda>(k, v) m. AList.update k v m) xs m0) k = Some v \<Longrightarrow> (k, v) \<in> set xs \<or> map_of m0 k = Some v" for xs m0
  proof (induction xs arbitrary: m0)
    case (Cons kv xs)
    from Cons.IH [of "AList.update (fst kv) (snd kv) m0"] Cons.prems show ?case
      by (auto simp: case_prod_unfold update_conv' split: if_splits)
  qed simp
  from this [of kvs "[]"] assms(2) m raw show ?thesis by auto
qed

lemma id_argumentsD: "id_arguments field raw = Inr i \<Longrightarrow> valid_ui_id i"
  by (auto simp: id_arguments_def split: option.splits if_splits)

lemma confirmed_id_argumentsD:
  assumes "confirmed_id_arguments field raw = Inr i"
  shows "valid_ui_id i \<and> confirms raw"
proof -
  from assms obtain m where m: "strict_map raw = Some m" and c: "map_of m ''confirmed'' = Some (JBool True)" and i: "valid_ui_id i"
    by (auto simp: confirmed_id_arguments_def split: option.splits if_splits)
  from strict_map_of [OF m c] obtain kvs where "raw = Some (JObj kvs)" "(''confirmed'', JBool True) \<in> set kvs" by blast
  with fold_confirmed have "confirms raw" unfolding confirms_def by force
  with i show ?thesis by simp
qed

lemma named_argumentsD: "named_arguments a b maximum raw = Inr (i, n) \<Longrightarrow> i \<noteq> '''' \<and> length i \<le> 256 \<and> valid_display_text n maximum"
  by (auto simp: named_arguments_def split: option.splits if_splits)

lemma op_names:
  "map_of op_fields op = Some Op_Gateway \<Longrightarrow>
     op \<in> {''gateway.open'', ''gateway.keepalive'', ''gateway.close'', ''gateway.extend'', ''gateway.revoke-all''}"
  "map_of op_fields op = Some Op_Folder \<Longrightarrow>
     op \<in> {''folder.pause'', ''folder.resume'', ''folder.rescan'', ''folder.stop'', ''folder.rename''}"
  "map_of op_fields op = Some Op_Offer \<Longrightarrow> op \<in> {''folder.offer.ignore'', ''folder.offer.restore''}"
  "map_of op_fields op = Some Op_Membership \<Longrightarrow> op \<in> {''folder.share'', ''folder.unshare''}"
  "map_of op_fields op = Some Op_Device \<Longrightarrow> op \<in> {''device.add'', ''device.rename'', ''device.remove''}"
  by (drule map_of_SomeD; auto simp: op_fields_def)+

lemma reset_phrase_action: "reset_phrase a \<noteq> '''' \<Longrightarrow> a \<in> {''index-only'', ''full'', ''available-only''}"
  by (auto simp: reset_phrase_def split: if_splits)

lemma confirmed_call:
  "sum_bind (confirmed_arguments raw) (\<lambda>u. Inr x) = Inr c \<Longrightarrow> confirms raw \<and> c = x"
  unfolding confirmed_arguments_def by (cases raw) (auto simp: sum_bind_Inr dest!: arguments_withD)

lemma gateway_call:
  assumes c: "parse_call Op_Gateway op raw = Inr c"
  shows "c = Call_Gateway op \<and> (op \<in> {''gateway.extend'', ''gateway.revoke-all''} \<longrightarrow> confirms raw)"
proof (cases "op \<in> {''gateway.extend'', ''gateway.revoke-all''}")
  case True
  with c have d: "sum_bind (confirmed_arguments raw) (\<lambda>u. Inr (Call_Gateway op)) = Inr c"
    unfolding parse_call_def op_field.case by (simp only: if_True)
  from confirmed_call [OF d] show ?thesis by blast
next
  case False
  with c have "on_empty (Call_Gateway op) raw = Inr c" unfolding parse_call_def op_field.case by (simp only: if_False)
  with False show ?thesis by (simp only: on_empty_def split: if_splits) auto
qed

lemma folder_call:
  "parse_call Op_Folder op raw = Inr c \<Longrightarrow> op \<noteq> ''folder.stop'' \<Longrightarrow> op \<noteq> ''folder.rename'' \<Longrightarrow>
     \<exists>i. valid_ui_id i \<and> c = Call_Folder op i ''''"
  "parse_call Op_Folder ''folder.stop'' raw = Inr c \<Longrightarrow> \<exists>i. valid_ui_id i \<and> c = Call_Folder ''folder.stop'' i '''' \<and> confirms raw"
  "parse_call Op_Folder ''folder.rename'' raw = Inr c \<Longrightarrow>
     \<exists>i n. c = Call_Folder ''folder.rename'' i n \<and> i \<noteq> '''' \<and> length i \<le> 256 \<and> valid_display_text n 96"
  unfolding parse_call_def op_field.case
  by (auto simp: sum_bind_Inr dest: id_argumentsD confirmed_id_argumentsD named_argumentsD)

lemma sound_folder_call:
  assumes op: "op \<in> {''folder.pause'', ''folder.resume'', ''folder.rescan'', ''folder.stop'', ''folder.rename''}"
    and c: "parse_call Op_Folder op raw = Inr c"
  shows "sound_call c \<and> (needs_confirmation c \<longrightarrow> confirms raw)"
proof -
  consider "op = ''folder.stop''" | "op = ''folder.rename''" | "op \<in> {''folder.pause'', ''folder.resume'', ''folder.rescan''}"
    using op by blast
  then show ?thesis
  proof cases
    case 1
    from folder_call(2) [OF c [unfolded 1]] show ?thesis by auto
  next
    case 2
    from folder_call(3) [OF c [unfolded 2]] show ?thesis by auto
  next
    case 3
    then have "op \<noteq> ''folder.stop''" "op \<noteq> ''folder.rename''" by auto
    from folder_call(1) [OF c this] 3 show ?thesis by auto
  qed
qed

lemma device_call:
  "parse_call Op_Device ''device.remove'' raw = Inr c \<Longrightarrow> \<exists>d. valid_ui_id d \<and> c = Call_Device ''device.remove'' d '''' \<and> confirms raw"
  "parse_call Op_Device op raw = Inr c \<Longrightarrow> op \<noteq> ''device.remove'' \<Longrightarrow>
     \<exists>d n. c = Call_Device op d n \<and> d \<noteq> '''' \<and> length d \<le> 256 \<and> valid_display_text n 64"
  unfolding parse_call_def op_field.case
  by (auto simp: sum_bind_Inr dest: confirmed_id_argumentsD named_argumentsD)

lemma sound_device_call:
  assumes op: "op \<in> {''device.add'', ''device.rename'', ''device.remove''}" and c: "parse_call Op_Device op raw = Inr c"
  shows "sound_call c \<and> (needs_confirmation c \<longrightarrow> confirms raw)"
proof (cases "op = ''device.remove''")
  case True
  from device_call(1) [OF c [unfolded True]] show ?thesis by auto
next
  case False
  from device_call(2) [OF c False] False op show ?thesis by auto
qed

lemma membership_call:
  "folder_membership_arguments raw = Inr (f, d) \<Longrightarrow> valid_ui_id f \<and> valid_ui_id d \<and> confirms raw"
  unfolding folder_membership_arguments_def by (auto dest!: arguments_withD)

lemma parse_call_sound:
  assumes op: "map_of op_fields op = Some f" and c: "parse_call f op raw = Inr c"
  shows "sound_call c \<and> (needs_confirmation c \<longrightarrow> confirms raw)"
proof (cases f)
  case Op_Gateway
  from gateway_call [OF c [unfolded Op_Gateway]] have eq: "c = Call_Gateway op"
    and "op \<in> {''gateway.extend'', ''gateway.revoke-all''} \<longrightarrow> confirms raw" by blast+
  with op_names(1) [OF op [unfolded Op_Gateway]] show ?thesis by (simp only: sound_call.simps needs_confirmation.simps simp_thms)
next
  case Op_Folder
  show ?thesis by (rule sound_folder_call [OF op_names(2) [OF op [unfolded Op_Folder]] c [unfolded Op_Folder]])
next
  case Op_Device
  show ?thesis by (rule sound_device_call [OF op_names(5) [OF op [unfolded Op_Device]] c [unfolded Op_Device]])
next
  case Op_Offer
  with c obtain a d where m: "folder_membership_arguments raw = Inr (a, d)" and eq: "c = Call_Offer op a d"
    by (auto simp: parse_call_def sum_bind_Inr)
  from membership_call [OF m] op_names(3) [OF op [unfolded Op_Offer]] show ?thesis
    by (simp only: eq sound_call.simps needs_confirmation.simps simp_thms)
next
  case Op_Membership
  with c obtain a d where m: "folder_membership_arguments raw = Inr (a, d)" and eq: "c = Call_Membership op a d"
    by (auto simp: parse_call_def sum_bind_Inr)
  from membership_call [OF m] op_names(4) [OF op [unfolded Op_Membership]] show ?thesis
    by (simp only: eq sound_call.simps needs_confirmation.simps simp_thms)
next
  case Op_Reset
  with c show ?thesis
    by (auto simp: parse_call_def sum_bind_Inr reset_arguments_def dest!: arguments_withD reset_phrase_action)
qed (use c in \<open>auto simp: parse_call_def on_empty_def sum_bind_Inr enroll_card_arguments_def network_profile_arguments_def
      onboarding_plan_arguments_def offer_plan_arguments_def onboarding_create_arguments_def first_sync_prepare_arguments_def
      first_sync_start_arguments_def folder_type_arguments_def log_level_arguments_def storage_cleanup_arguments_def
      dest!: arguments_withD id_argumentsD split: if_splits\<close>)

text \<open>How a request is answered: refused with the state as it was, or by one call of one operation.\<close>

lemma run_op_cases:
  assumes "run_op ops f q s = (r, s')"
  obtains code where "r = Ui_Failed (UrID q) code" "s' = s"
  | g c res where "ops f = Some g" "parse_call f (UrOperation q) (UrArguments q) = Inr c"
      "g c s = (res, s')" "r = finish_reply (UrID q) res"
  using assms unfolding run_op_def by (auto split: option.splits sum.splits prod.splits if_splits)

lemma ui_handle_cases:
  assumes "ui_handle parse ops payload s = (r, s')"
  obtains (Refused) i code where "r = Ui_Failed i code" "s' = s" "length i \<le> max_identifier"
  | (Ran) q f g c res where "decode_request parse payload = Inr q" "UrVersion q = 1" "valid_ui_id (UrID q)"
      "map_of op_fields (UrOperation q) = Some f" "ops f = Some g" "parse_call f (UrOperation q) (UrArguments q) = Inr c"
      "g c s = (res, s')" "r = finish_reply (UrID q) res"
proof (cases "decode_request parse payload")
  case (Inl e)
  with assms Refused [of "''''" "''bad-request''"] show ?thesis by (auto simp: ui_handle_def max_identifier_def)
next
  case (Inr q)
  define i where "i = (if valid_ui_id (UrID q) then UrID q else '''')"
  have short: "length i \<le> max_identifier" by (simp add: i_def valid_ui_id_def)
  have run: "ui_handle parse ops payload s = (if UrVersion q \<noteq> 1 then (Ui_Failed i ''unsupported-version'', s)
      else if i = '''' then (Ui_Failed '''' ''bad-request'', s)
      else (case map_of op_fields (UrOperation q) of None \<Rightarrow> (Ui_Failed (UrID q) ''unsupported-op'', s) | Some f \<Rightarrow> run_op ops f q s))"
    by (simp only: ui_handle_def Inr sum.case Let_def i_def)
  show ?thesis
  proof (cases "UrVersion q = 1 \<and> i \<noteq> ''''")
    case False
    with run assms Refused [OF _ _ short] Refused [of "''''" "''bad-request''"] show ?thesis
      by (auto split: if_splits simp: max_identifier_def)
  next
    case True
    then have q: "valid_ui_id (UrID q)" and v: "UrVersion q = 1" and i: "i = UrID q" by (auto simp: i_def split: if_splits)
    show ?thesis
    proof (cases "map_of op_fields (UrOperation q)")
      case None
      with run assms True Refused [OF _ _ short] i show ?thesis by auto
    next
      case (Some f)
      with run assms True have "run_op ops f q s = (r, s')" by simp
      then show ?thesis
      proof (cases rule: run_op_cases)
        case (1 code)
        with Refused [OF _ _ short] i show ?thesis by blast
      next
        case (2 g c res)
        with Ran [OF Inr v q Some] show ?thesis by blast
      qed
    qed
  qed
qed

lemma finish_reply_done: "finish_reply i res = Ui_Done j st \<Longrightarrow> j = i \<and> res = Inr st \<and> valid_screen_status st"
  by (auto simp: finish_reply_def split: sum.splits if_splits)

lemma reply_id_short:
  assumes "ui_handle parse ops payload s = (r, s')"
  shows "length (reply_id r) \<le> max_identifier"
  using assms
proof (cases rule: ui_handle_cases)
  case (Refused i code)
  then show ?thesis by (simp add: reply_id_def)
next
  case (Ran q f g c res)
  then show ?thesis by (auto simp: reply_id_def finish_reply_def valid_ui_id_def split: sum.splits)
qed

text \<open>More rows than a reply may have are an error of the whole reply.\<close>

lemma crowded_status_is_refused: "length (VwPeers st) > 128 \<Longrightarrow> finish_reply i (Inr st) = Ui_Failed i ''internal''"
  by (simp add: finish_reply_def valid_screen_status_def row_limits_def)

section \<open>A sample\<close>

definition sample_screen :: screen_status where
  "sample_screen = \<lparr>VwUpstream = ''stopped'', VwGame = zero_game_state, VwCards = [], VwRows = [], VwPeers = [], VwOffers = [],
     VwTransfer = None, VwIssues = [], ScController = ''running'', ScVersion = '''', ScDevice = '''',
     ScRecovery = \<lparr>RvState = ''ready'', RvChanged = False, RvPlanID = '''', RvPlanAction = '''', RvRemove = [], RvRetained = []\<rparr>,
     ScNetwork = Some \<lparr>NvProfile = ''lan-only'', NvAllowed = [], NvRouteChanged = False\<rparr>, ScGateway = None, ScLogging = None,
     ScStorage = None, ScOnboarding = None, ScCapabilities = [''status.get'']\<rparr>"

text \<open>A controller that keeps a list of what it is asked for.\<close>

definition logging_ops :: "ui_call list operations" where
  "logging_ops f = Some (\<lambda>c s. (Inr sample_screen, s @ [c]))"

definition sample_ui_json :: json where
  "sample_ui_json = JObj [(''v'', JInt 1), (''id'', JStr ''u-1''), (''op'', JStr ''reset.prepare''),
     (''args'', JObj [(''action'', JStr ''full''), (''confirmed'', JBool True), (''confirmation'', JStr ''RESET SYNCTHING'')])]"

definition sample_ui_parse :: "string \<Rightarrow> json option" where
  "sample_ui_parse t = (if t = ''{reset}'' then Some sample_ui_json else if t = ''{}'' then Some (JObj []) else None)"

definition sample_ui_encode :: "ui_reply \<Rightarrow> string" where
  "sample_ui_encode r = ''{}''"

lemma sample_ui_run:
  "ui_handle sample_ui_parse logging_ops ''{reset}'' [] = (Ui_Done ''u-1'' sample_screen, [Call_Reset ''full''])"
  by code_simp

lemma sample_ui_read: "read_frame (\<lambda>t. sample_ui_parse t \<noteq> None) [Bytes (put_uint32 7 @ ''{reset}'')] = (Inr ''{reset}'', [Bytes ''''])"
  by (simp add: read_frame_def Let_def frame_prefix_bytes_def get_put_uint32 transport_max_payload_def semantic_max_payload_def sample_ui_parse_def)

section \<open>Claims\<close>



text \<open>
  C40. A connection on which one request was read gets exactly one answer, however large the status is
  that the operation returns: a frame of at most 64 KiB that decodes to the reply itself, or to the error
  \<open>internal\<close> with the id of the request when the reply does not fit.
\<close>

theorem exchange_answers_in_bounds:
  assumes input: "read_frame (\<lambda>t. parse t \<noteq> None) input = (Inr payload, rest)"
    and handled: "ui_handle parse ops payload s = (r, s')"
    and json: "\<forall>x. parse (encode x) \<noteq> None"
    and small: "\<forall>i. length i \<le> max_identifier \<longrightarrow> length (encode (Ui_Failed i ''internal'')) \<le> semantic_max_payload"
  shows "\<exists>out. ui_exchange parse encode ops input [] s = (out, s') \<and> length out \<le> 4 + 65536 \<and>
     decode_frame (\<lambda>t. parse t \<noteq> None) out = Inr (encode (bounded_reply encode r)) \<and>
     (length (encode r) \<le> 65536 \<longrightarrow> bounded_reply encode r = r) \<and>
     (length (encode r) > 65536 \<longrightarrow> bounded_reply encode r = Ui_Failed (reply_id r) ''internal'')"
proof -
  let ?m = "encode (bounded_reply encode r)"
  have fits: "length ?m \<le> semantic_max_payload"
    using small reply_id_short [OF handled] by (simp add: bounded_reply_def)
  then have enc: "encode_frame (\<lambda>t. parse t \<noteq> None) ?m = Inr (put_uint32 (length ?m) @ ?m)"
    using json by (simp add: encode_frame_def)
  have "ui_exchange parse encode ops input [] s = (put_uint32 (length ?m) @ ?m, s')"
    using input handled enc by (simp add: ui_exchange_def write_frame_def)
  moreover have "decode_frame (\<lambda>t. parse t \<noteq> None) (put_uint32 (length ?m) @ ?m) = Inr ?m"
    using enc by (simp only: frame_round_trip)
  ultimately show ?thesis using fits by (auto simp: bounded_reply_def semantic_max_payload_def)
qed

theorem exchange_answers_in_bounds_witness:
  "\<exists>out. ui_exchange sample_ui_parse sample_ui_encode logging_ops [Bytes (put_uint32 7 @ ''{reset}'')] [] [] = (out, [Call_Reset ''full'']) \<and>
     length out \<le> 4 + 65536 \<and>
     decode_frame (\<lambda>t. sample_ui_parse t \<noteq> None) out = Inr (sample_ui_encode (bounded_reply sample_ui_encode (Ui_Done ''u-1'' sample_screen))) \<and>
     (length (sample_ui_encode (Ui_Done ''u-1'' sample_screen)) \<le> 65536 \<longrightarrow>
        bounded_reply sample_ui_encode (Ui_Done ''u-1'' sample_screen) = Ui_Done ''u-1'' sample_screen) \<and>
     (length (sample_ui_encode (Ui_Done ''u-1'' sample_screen)) > 65536 \<longrightarrow>
        bounded_reply sample_ui_encode (Ui_Done ''u-1'' sample_screen) = Ui_Failed (reply_id (Ui_Done ''u-1'' sample_screen)) ''internal'')"
  by (rule exchange_answers_in_bounds [OF sample_ui_read sample_ui_run])
    (simp_all add: sample_ui_parse_def sample_ui_encode_def semantic_max_payload_def)

end
