(* ===== verification/Session.thy ===== *)
theory Session
  imports Live_Status Snapshot Managed_Folders
begin

text \<open>
  What the controller holds while it runs: the first-sync manager with the control store, the
  connection to Syncthing, the configured folders and the status; and the steps that its operations
  and its recoveries share (\<open>controller/run.go\<close>, \<open>membership.go\<close>, \<open>local_stop.go\<close>, \<open>relocation.go\<close>).
\<close>

section \<open>State\<close>

record 'u session =
  Sync :: sync_machine
  Up :: "'u upstream"
  SFolders :: "configured_folder list"
  View :: view

text \<open>
  What does not change: the environment of the first-sync code, the JSON parser, the server, the
  parser of times and the device's own id.
\<close>

record 'u session_env =
  SeSync :: sync_env
  SeParse :: "string \<Rightarrow> json option"
  SeServer :: "'u server"
  SeClock :: clock
  SeSelf :: string

type_synonym ('u, 'a) sess = "('u session, 'a) prog"

definition on_sync :: "(sync_machine, 'a) prog \<Rightarrow> ('u, 'a) sess" where
  "on_sync m = (\<lambda>s. case m (Sync s) of (r, t) \<Rightarrow> (r, s\<lparr>Sync := t\<rparr>))"

definition on_disk :: "(json, 'a) io \<Rightarrow> ('u, 'a) sess" where
  "on_disk m = on_sync (on_card m)"

definition on_up :: "('u, 'a) up \<Rightarrow> ('u, 'a) sess" where
  "on_up m = (\<lambda>s. case m (Up s) of
     (Inl e, u) \<Rightarrow> (Failed e, s\<lparr>Up := u\<rparr>) | (Inr x, u) \<Rightarrow> (Ok x, s\<lparr>Up := u\<rparr>))"

definition controls_of :: "'u session \<Rightarrow> (string \<times> control_record) list" where
  "controls_of s = Records (Store (Sync s))"

definition control_op_do :: "'u session_env \<Rightarrow> control_op \<Rightarrow> ('u, unit) sess" where
  "control_op_do env op = on_sync (control_do (SeSync env) op)"

definition pause_up :: "'u session_env \<Rightarrow> string \<Rightarrow> bool \<Rightarrow> ('u, unit) sess" where
  "pause_up env i b = on_up (set_folder_paused (SeParse env) (SeServer env) i b)"

definition set_view :: "(view \<Rightarrow> view) \<Rightarrow> ('u, unit) sess" where
  "set_view g = pr_put (\<lambda>s. s\<lparr>View := g (View s)\<rparr>)"

definition put_folder :: "nat \<Rightarrow> configured_folder \<Rightarrow> ('u, unit) sess" where
  "put_folder n f = pr_put (\<lambda>s. s\<lparr>SFolders := (SFolders s)[n := f]\<rparr>)"

text \<open>\<open>session.Folders[index].Paused = paused\<close>.\<close>

definition mark_paused :: "nat \<Rightarrow> bool \<Rightarrow> ('u, unit) sess" where
  "mark_paused n b = pr_put (\<lambda>s. s\<lparr>SFolders := (SFolders s)[n := (SFolders s ! n)\<lparr>FPaused := b\<rparr>]\<rparr>)"

section \<open>The status\<close>

definition refresh_live :: "'u session_env \<Rightarrow> ('u, unit) sess" where
  "refresh_live env =
     pr_bind (pr_get SFolders) (\<lambda>folders.
     pr_bind (pr_try (on_up (read_ui_status (SeParse env) (SeServer env) (SeClock env) folders (SeSelf env)))) (\<lambda>r.
     case r of
       Inl _ \<Rightarrow> set_view apply_live_error
     | Inr live \<Rightarrow> pr_put (\<lambda>s. s\<lparr>View := apply_ignored_offers (apply_live_status (View s) live) (Offers (Store (Sync s)))\<rparr>)))"

definition show_first_sync :: "('u, unit) sess" where
  "show_first_sync = pr_put (\<lambda>s. s\<lparr>View := apply_first_sync_status (Sync s) (View s)\<rparr>)"

text \<open>\<open>refreshUIStatus\<close>, while there is a Syncthing to ask.\<close>

definition refresh :: "'u session_env \<Rightarrow> ('u, unit) sess" where
  "refresh env =
     pr_bind (pr_get (\<lambda>s. VwUpstream (View s))) (\<lambda>state.
     pr_bind (pr_when (state = ''running'') (refresh_live env)) (\<lambda>_. show_first_sync))"

text \<open>\<open>applyInventory\<close> and \<open>applyFirstSyncStatus\<close> on the stored status.\<close>

definition show_inventory :: "leaf_card list \<Rightarrow> ('u, unit) sess" where
  "show_inventory inventory =
     pr_bind (pr_get (\<lambda>s. (SFolders s, controls_of s, View s))) (\<lambda>(folders, controls, v).
     pr_bind (on_disk (apply_inventory inventory folders controls v)) (\<lambda>v'.
     pr_bind (set_view (\<lambda>_. v')) (\<lambda>_. show_first_sync)))"

section \<open>Letting a folder run\<close>

text \<open>
  The lines that three operations end with: the safety of every folder is computed anew and the
  folder runs when no reason is left to hold it.
\<close>

definition offline_pauses :: "leaf_card list \<Rightarrow> ('u, (string \<times> bool) list) sess" where
  "offline_pauses inventory =
     pr_bind (pr_get (\<lambda>s. (SFolders s, controls_of s))) (\<lambda>(folders, controls).
       on_disk (required_offline_pause_set inventory controls folders))"

definition held :: "(string \<times> bool) list \<Rightarrow> string \<Rightarrow> bool" where
  "held pauses i \<longleftrightarrow> map_of pauses i = Some True"

definition run_if_safe :: "'u session_env \<Rightarrow> leaf_card list \<Rightarrow> string \<Rightarrow> nat \<Rightarrow> ('u, unit) sess \<Rightarrow> ('u, unit) sess" where
  "run_if_safe env inventory i n after_run =
     pr_bind (offline_pauses inventory) (\<lambda>pauses.
     if held pauses i then pr_ret ()
     else pr_bind (pause_up env i False) (\<lambda>_. pr_bind (mark_paused n False) (\<lambda>_. after_run)))"

section \<open>Membership changes after a restart\<close>

definition has_pending_membership :: "(string \<times> control_record) list \<Rightarrow> bool" where
  "has_pending_membership controls \<longleftrightarrow> (\<exists>(i, r) \<in> set controls. PendingMembership r \<noteq> '''')"

text \<open>One turn of the loop; the code ranges over a Go map, so the order in which the loop meets the records is an argument.\<close>

type_synonym loop_order = "(string \<times> control_record) list \<Rightarrow> (string \<times> control_record) list"

definition recover_membership :: "'u session_env \<Rightarrow> string \<times> control_record \<Rightarrow> ('u, unit) sess" where
  "recover_membership env e = (case e of (i, r) \<Rightarrow>
     if PendingMembership r = '''' then pr_ret ()
     else pr_bind (pr_get (\<lambda>s. find_configured_folder (SFolders s) i)) (\<lambda>found. case found of
         None \<Rightarrow> pr_fail ''pending folder membership change has no configured folder''
       | Some (folder, n) \<Rightarrow>
           pr_bind (pr_lift (folder_with_membership folder (SeSelf env) (PendingDeviceID r) (PendingMembership r = ''share''))) (\<lambda>updated.
           pr_bind (on_up (set_managed_folder_devices (SeParse env) (SeServer env) (fst updated))) (\<lambda>_.
           pr_bind (put_folder n (fst updated)) (\<lambda>_.
             control_op_do env (Complete_Membership i))))))"

text \<open>The pause state of the recovered folders, from their rows.\<close>

definition settle_row :: "'u session_env \<Rightarrow> string list \<Rightarrow> folder_row \<Rightarrow> ('u, unit) sess" where
  "settle_row env recovered row =
     (if RowID row \<notin> set recovered then pr_ret ()
      else pr_bind (pause_up env (RowID row) (RowPaused row)) (\<lambda>_.
        pr_bind (pr_get (\<lambda>s. find_configured_folder (SFolders s) (RowID row))) (\<lambda>found. case found of
            None \<Rightarrow> pr_ret () | Some (_, n) \<Rightarrow> mark_paused n (RowPaused row))))"

definition recover_folder_memberships :: "'u session_env \<Rightarrow> leaf_card list \<Rightarrow> loop_order \<Rightarrow> ('u, unit) sess" where
  "recover_folder_memberships env inventory order =
     pr_bind (pr_get controls_of) (\<lambda>snapshot.
     pr_bind (pr_each (recover_membership env) (order snapshot)) (\<lambda>_.
       let recovered = map fst (filter (\<lambda>(i, r). PendingMembership r \<noteq> '''') snapshot)
       in if recovered = [] then pr_ret ()
         else pr_bind (pr_get (\<lambda>s. (SFolders s, controls_of s))) (\<lambda>(folders, controls).
              pr_bind (on_disk (reconcile_managed_folders inventory controls folders)) (\<lambda>rows.
                pr_each (settle_row env recovered) rows))))"

section \<open>Stopping a folder\<close>

definition has_pending_stop :: "(string \<times> control_record) list \<Rightarrow> bool" where
  "has_pending_stop controls \<longleftrightarrow> (\<exists>(i, r) \<in> set controls. PendingStop r)"

definition card_for_stop :: "control_record \<Rightarrow> leaf_card list \<Rightarrow> leaf_card option" where
  "card_for_stop r inventory = (case filter (\<lambda>c. IID (Identity c) = CardID r) inventory of [c] \<Rightarrow> Some c | _ \<Rightarrow> None)"

definition validate_stop_marker :: "string list \<Rightarrow> configured_folder \<Rightarrow> leaf_card \<Rightarrow> bool \<Rightarrow> (json, unit) io" where
  "validate_stop_marker paths folder c required =
     (let expected = managed_content_path (Source c) (FKind folder); marker = join_path [expected, FMarkerName folder]
      in if FID folder = '''' \<or> FKind folder = '''' \<or> FMarkerName folder = '''' \<or> FMarkerName folder = ''.stfolder'' \<or>
            base_name (FMarkerName folder) \<noteq> FMarkerName folder \<or> expected = '''' \<or> clean (FPath folder) \<noteq> clean expected
         then io_fail ''local stop binding does not match its physical card''
         else io_bind (io_try (lstat expected)) (\<lambda>root.
           if root \<noteq> Inr (Some Dir) then io_fail ''local stop live tree is unavailable or unsafe''
           else io_bind (io_try (lstat marker)) (\<lambda>m.
             if m = Inr None \<and> \<not> required then io_ret ()
             else if m \<noteq> Inr (Some Dir) then io_fail ''local stop marker is unavailable or unsafe''
             else io_bind (io_try (read_dir paths marker)) (\<lambda>entries.
               if entries = Inr [] then io_ret () else io_fail ''local stop marker is not an empty Leaf directory''))))"

text \<open>\<open>os.Remove\<close>: a directory must be empty.\<close>

definition os_remove :: "string list \<Rightarrow> string \<Rightarrow> ('d, bool) io" where
  "os_remove paths p = sys (\<lambda>f. case f p of
     None \<Rightarrow> (Ok False, f)
   | Some n \<Rightarrow> if n = Dir \<and> entries_of paths p f \<noteq> [] then (Failed ''directory not empty'', f) else (Ok True, f(p := None)))"

definition remove_stop_marker :: "string list \<Rightarrow> configured_folder \<Rightarrow> leaf_card \<Rightarrow> (json, unit) io" where
  "remove_stop_marker paths folder c =
     io_bind (validate_stop_marker paths folder c False) (\<lambda>_.
     io_bind (os_remove paths (join_path [FPath folder, FMarkerName folder])) (\<lambda>_.
       sync_fs (Root (Source c))))"

definition stopping_folder :: "string \<Rightarrow> control_record \<Rightarrow> leaf_card \<Rightarrow> configured_folder" where
  "stopping_folder i r c = blank_folder\<lparr>FID := i, FKind := Kind r, FPath := managed_content_path (Source c) (Kind r), FMarkerName := MarkerName r\<rparr>"

definition drop_folder :: "nat \<Rightarrow> ('u, unit) sess" where
  "drop_folder n = pr_put (\<lambda>s. s\<lparr>SFolders := take n (SFolders s) @ drop (Suc n) (SFolders s)\<rparr>)"

definition recover_stop :: "'u session_env \<Rightarrow> leaf_card list \<Rightarrow> string \<times> control_record \<Rightarrow> ('u, unit) sess" where
  "recover_stop env inventory e = (case e of (i, r) \<Rightarrow>
     if \<not> PendingStop r then pr_ret ()
     else pr_bind (pr_get (\<lambda>s. find_configured_folder (SFolders s) i)) (\<lambda>found.
       case card_for_stop r inventory of
         None \<Rightarrow> pr_fail ''pending local stop requires its enrolled writable card''
       | Some c \<Rightarrow>
           if \<not> usable_enrolled_card c then pr_fail ''pending local stop requires its enrolled writable card''
           else let paths = EnvPaths (SeSync env);
                    folder = (case found of Some (f, _) \<Rightarrow> f | None \<Rightarrow> stopping_folder i r c)
                in pr_bind (on_disk (validate_stop_marker paths folder c (found \<noteq> None))) (\<lambda>_.
                   pr_bind (pr_when (found \<noteq> None) (pause_up env i True)) (\<lambda>_.
                   pr_bind (on_up (remove_managed_folder (SeParse env) (SeServer env) i)) (\<lambda>_.
                   pr_bind (on_disk (remove_stop_marker paths folder c)) (\<lambda>_.
                   pr_bind (control_op_do env (Remove_Record i)) (\<lambda>_.
                     case found of None \<Rightarrow> pr_ret () | Some (_, n) \<Rightarrow> drop_folder n)))))))"

text \<open>
  The result is built in a copy of the folders and assigned when the call returns; on an error the
  assignment leaves the empty list.
\<close>

definition assigning_folders :: "('u, unit) sess \<Rightarrow> ('u, unit) sess" where
  "assigning_folders m = (\<lambda>s. case m s of (Failed e, t) \<Rightarrow> (Failed e, t\<lparr>SFolders := []\<rparr>) | rt \<Rightarrow> rt)"

definition recover_pending_folder_stops :: "'u session_env \<Rightarrow> leaf_card list \<Rightarrow> loop_order \<Rightarrow> ('u, unit) sess" where
  "recover_pending_folder_stops env inventory order = assigning_folders (
     pr_bind (pr_get controls_of) (\<lambda>snapshot. pr_each (recover_stop env inventory) (order snapshot)))"


section \<open>Following a card\<close>

definition relocatable :: "(string \<times> control_record) list \<Rightarrow> configured_folder \<Rightarrow> control_record option" where
  "relocatable controls folder = (case map_of controls (FID folder) of
     None \<Rightarrow> None
   | Some r \<Rightarrow>
       if \<not> complete_folder_binding r \<or> Kind r \<noteq> FKind folder \<or> MarkerName r \<noteq> FMarkerName folder \<or> PendingAdd r \<or>
          PendingMembership r \<noteq> '''' \<or> PendingStop r \<or> FType folder \<notin> {''sendonly'', ''sendreceive'', ''receiveonly''}
       then None else Some r)"

definition location_changed :: "configured_folder \<Rightarrow> leaf_card \<Rightarrow> string \<Rightarrow> bool" where
  "location_changed folder c kind \<longleftrightarrow>
     clean (FPath folder) \<noteq> clean (managed_content_path (Source c) kind) \<or>
     (FType folder \<noteq> ''sendonly'' \<and>
        (FVersioningType folder \<noteq> ''simple'' \<or> FVersioningFSType folder \<noteq> ''basic'' \<or>
         clean (FVersioningFSPath folder) \<noteq> clean (version_path (Source c) kind)))"

definition relocated_folder :: "configured_folder \<Rightarrow> leaf_card \<Rightarrow> string \<Rightarrow> configured_folder" where
  "relocated_folder folder c kind =
     (let f = folder\<lparr>FPath := managed_content_path (Source c) kind, FPaused := True\<rparr>
      in if FType folder \<noteq> ''sendonly''
         then f\<lparr>FVersioningType := ''simple'', FVersioningFSPath := version_path (Source c) kind, FVersioningFSType := ''basic''\<rparr>
         else f)"

text \<open>One turn of the loop: whether the folder was moved.  The configured folders of the result are in \<open>SFolders\<close>.\<close>

definition relocate_folder :: "'u session_env \<Rightarrow> leaf_card list \<Rightarrow> (string \<times> control_record) list \<Rightarrow> nat \<Rightarrow> ('u, bool) sess" where
  "relocate_folder env inventory controls n =
     pr_bind (pr_get (\<lambda>s. SFolders s ! n)) (\<lambda>folder.
     case relocatable controls folder of None \<Rightarrow> pr_ret False | Some r \<Rightarrow>
     (case card_for_configured_folder folder inventory controls of None \<Rightarrow> pr_ret False | Some c \<Rightarrow>
       let expected = managed_content_path (Source c) (Kind r)
       in if \<not> usable_enrolled_card c \<or> expected = '''' \<or> \<not> location_changed folder c (Kind r) then pr_ret False
          else pr_bind (pr_try (on_disk (validate_managed_marker expected (MarkerName r)))) (\<lambda>marker.
            if marker \<noteq> Inr () then pr_ret False
            else pr_bind (pr_when (FType folder \<noteq> ''sendonly'')
                   (on_disk (ensure_safe_directory_chain (Root (Source c)) (version_path (Source c) (Kind r))))) (\<lambda>_.
                 pr_bind (pause_up env (FID folder) True) (\<lambda>_.
                 pr_bind (on_up (relocate_managed_folder (SeParse env) (SeServer env) (relocated_folder folder c (Kind r)))) (\<lambda>_.
                 pr_bind (put_folder n (relocated_folder folder c (Kind r))) (\<lambda>_. pr_ret True)))))))"

fun relocate_all :: "'u session_env \<Rightarrow> leaf_card list \<Rightarrow> (string \<times> control_record) list \<Rightarrow> nat list \<Rightarrow> ('u, string list) sess" where
  "relocate_all env inventory controls [] = pr_ret []"
| "relocate_all env inventory controls (n # ns) =
     pr_bind (pr_get (\<lambda>s. FID (SFolders s ! n))) (\<lambda>i.
     pr_bind (relocate_folder env inventory controls n) (\<lambda>moved.
     pr_bind (relocate_all env inventory controls ns) (\<lambda>rest. pr_ret (if moved then i # rest else rest))))"

definition settle_relocated :: "'u session_env \<Rightarrow> (string \<times> bool) list \<Rightarrow> nat \<Rightarrow> ('u, unit) sess" where
  "settle_relocated env pauses n =
     pr_bind (pr_get (\<lambda>s. FID (SFolders s ! n))) (\<lambda>i.
     case map_of pauses i of
       None \<Rightarrow> pr_fail ''relocated folder is missing from the safety result''
     | Some paused \<Rightarrow> pr_bind (pause_up env i paused) (\<lambda>_. mark_paused n paused))"

definition relocate_managed_folders :: "'u session_env \<Rightarrow> leaf_card list \<Rightarrow> ('u, unit) sess" where
  "relocate_managed_folders env inventory =
     pr_bind (pr_get (\<lambda>s. ([0..<length (SFolders s)], controls_of s))) (\<lambda>(indices, controls).
     pr_bind (relocate_all env inventory controls indices) (\<lambda>moved.
     if moved = [] then pr_ret ()
     else pr_bind (pr_get SFolders) (\<lambda>folders.
          pr_bind (on_disk (required_offline_pause_set inventory controls folders)) (\<lambda>pauses.
            pr_each (settle_relocated env pauses) (filter (\<lambda>n. FID (folders ! n) \<in> set moved) indices)))))"

section \<open>Forgetting a peer after a restart\<close>

definition recover_pending_device_removal :: "'u session_env \<Rightarrow> ('u, unit) sess" where
  "recover_pending_device_removal env =
     pr_bind (pr_get (\<lambda>s. (PendingDeviceRemoval (Store (Sync s)), SFolders s))) (\<lambda>(d, folders).
     if d = '''' then pr_ret ()
     else if device_folder_memberships folders d \<noteq> [] then pr_fail ''pending device removal still has managed folder memberships''
     else pr_bind (on_up (remove_peer (SeParse env) (SeServer env) d (SeSelf env))) (\<lambda>_.
       control_op_do env (Complete_Device_Removal d)))"

text \<open>What \<open>Run\<close> recovers, in its order, before it takes orders.\<close>

definition recover_session :: "'u session_env \<Rightarrow> leaf_card list \<Rightarrow> loop_order \<Rightarrow> ('u, unit) sess" where
  "recover_session env inventory order =
     pr_bind (pr_get controls_of) (\<lambda>controls.
     pr_bind (pr_when (has_pending_membership controls) (recover_folder_memberships env inventory order)) (\<lambda>_.
     pr_bind (pr_get controls_of) (\<lambda>controls.
     pr_bind (pr_when (has_pending_stop controls) (recover_pending_folder_stops env inventory order)) (\<lambda>_.
     pr_bind (recover_pending_device_removal env) (\<lambda>_.
       relocate_managed_folders env inventory)))))"

end
