(* ===== verification/Onboarding.thy ===== *)
theory Onboarding
  imports Session
begin

text \<open>
  Setting up a managed folder in two steps (\<open>controller/onboarding.go\<close> and its operations in
  \<open>run.go\<close>): a plan is reviewed on the screen, and creating the folder checks everything again.  The
  bytes that are drawn, the time, the free space and the walks over the content are arguments.
\<close>

section \<open>Plans\<close>

record setup_plan =
  SpSource :: string
  SpCard :: string
  SpKind :: string
  SpType :: string
  SpFolder :: string
  SpLabel :: string
  SpPath :: string
  SpMarker :: string
  SpVersions :: string
  SpFiles :: int
  SpDirectories :: int
  SpContent :: int
  SpAvailable :: "64 word"
  SpFits :: bool
  SpPeerCount :: nat
  SpWarning :: bool
  SpOffer :: string
  SpDevices :: "string list"
  SpExpires :: int

definition onboarding_plan_lifetime :: int where "onboarding_plan_lifetime = 5 * 60 * 1000000000"
definition max_onboarding_plans :: nat where "max_onboarding_plans = 16"

text \<open>The session, the plans by their id, and the plan that the status shows.\<close>

record 'u setting_up =
  SuSession :: "'u session"
  SuPlans :: "(string \<times> setup_plan) list"
  SuShown :: "(string \<times> setup_plan) option"

record setup_input =
  SiNow :: int
  SiRandom :: "error + string"
  SiSpace :: "error + 64 word \<times> 64 word"
  SiWalk :: walk_list
  SiWalkAgain :: walk_list

definition in_session :: "('u, 'a) sess \<Rightarrow> ('u setting_up, 'a) prog" where
  "in_session m = (\<lambda>s. case m (SuSession s) of (r, t) \<Rightarrow> (r, s\<lparr>SuSession := t\<rparr>))"

definition expire_plans :: "int \<Rightarrow> ('u setting_up, unit) prog" where
  "expire_plans now = pr_put (\<lambda>s. s\<lparr>SuPlans := filter (\<lambda>(i, p). now < SpExpires p) (SuPlans s)\<rparr>)"

section \<open>Checks\<close>

definition onboarding_card :: "string \<Rightarrow> leaf_card list \<Rightarrow> error + leaf_card" where
  "onboarding_card source inventory = (case filter (\<lambda>c. ID (Source c) = source) inventory of
     [c] \<Rightarrow> if usable_enrolled_card c then Inr c else Inl ''folder setup requires the selected enrolled physical card to be present and writable''
   | _ \<Rightarrow> Inl ''folder setup requires the selected enrolled physical card to be present and writable'')"

definition validate_onboarding_selection :: "leaf_card \<Rightarrow> string \<Rightarrow> string \<Rightarrow> configured_folder list \<Rightarrow> error + unit" where
  "validate_onboarding_selection c kind typ folders =
     (let path = managed_content_path (Source c) kind
      in if kind \<notin> {''saves'', ''states''} then Inl ''Leaf v1 supports only Saves and States folders''
         else if path = '''' then Inl ''the selected source does not publish an eligible PATH-2 content tree''
         else if typ \<notin> {''sendonly'', ''sendreceive'', ''receiveonly''} then Inl ''folder setup type is unsupported''
         else if \<exists>f \<in> set folders. clean (FPath f) = clean path
         then Inl ''this card already has a managed folder for the selected content''
         else case relative_within (Root (Source c)) path of
           Inl _ \<Rightarrow> Inl ''the selected PATH-2 content tree is not confined to the card''
         | Inr _ \<Rightarrow> if clean path = clean (Root (Source c))
             then Inl ''the selected PATH-2 content tree is not confined to the card'' else Inr ())"

definition valid_onboarding_label :: "string \<Rightarrow> bool" where
  "valid_onboarding_label l \<longleftrightarrow> l \<noteq> '''' \<and> length l \<le> 96 \<and> (\<forall>c \<in> set l. \<not> (c < CHR 0x20 \<or> c = CHR 0x7F))"

definition snapshot_fits :: "int \<Rightarrow> 64 word \<Rightarrow> bool" where
  "snapshot_fits content room \<longleftrightarrow> 0 \<le> content \<and>
     (let required = (word_of_int content :: 64 word); reserve = word_of_int storage_reserve_bytes
      in required \<le> - 1 - reserve \<and> room \<ge> required + reserve)"

definition available_now :: "setup_input \<Rightarrow> error + 64 word" where
  "available_now input = sum_bind (SiSpace input) (\<lambda>(blocks, size). Inr (available_bytes blocks size))"

definition inspect_onboarding_root :: "string \<Rightarrow> string \<Rightarrow> walk_list \<Rightarrow> ('d, int \<times> int \<times> int) io" where
  "inspect_onboarding_root path marker walk =
     io_bind (io_try (lstat path)) (\<lambda>info.
     if info = Inr None then io_ret (0, 0, 0)
     else if info \<noteq> Inr (Some Dir) then io_fail ''the candidate folder root is absent, symlinked, or not a directory''
     else io_bind (lstat (join_path [path, ''.stfolder''])) (\<lambda>foreign.
     if foreign \<noteq> None then io_fail ''default .stfolder indicates a foreign Syncthing manager''
     else io_bind (lstat (join_path [path, marker])) (\<lambda>m.
     if m \<noteq> None \<and> m \<noteq> Some Dir then io_fail ''managed folder marker collides with a non-directory entry''
     else scan_snapshot_source path marker walk)))"

text \<open>The selected devices, each a configured one and none twice.\<close>

fun select_peers :: "string \<Rightarrow> string list \<Rightarrow> string list \<Rightarrow> string list \<Rightarrow> error + string list" where
  "select_peers self room seen [] = Inr seen"
| "select_peers self room seen (raw # raws) = (case normalize_device_id raw of
     Inl _ \<Rightarrow> Inl ''selected peers must be unique configured Syncthing devices''
   | Inr d \<Rightarrow> if d = self \<or> d \<in> set seen \<or> d \<notin> set room
       then Inl ''selected peers must be unique configured Syncthing devices''
       else select_peers self room (seen @ [d]) raws)"

definition selected_folder_devices :: "'u session_env \<Rightarrow> string list \<Rightarrow> ('u, string list) sess" where
  "selected_folder_devices env selected = (case normalize_device_id (SeSelf env) of
     Inl _ \<Rightarrow> pr_fail ''the local Syncthing device identity is invalid''
   | Inr self \<Rightarrow>
       if selected = [] \<or> length selected > 32 then pr_fail ''select at least one and at most 32 configured peers''
       else pr_bind (on_up (configured_folder_devices (SeParse env) (SeServer env) self)) (\<lambda>raws.
         case map_results normalize_device_id raws of
           Inl _ \<Rightarrow> pr_fail ''the configured Syncthing device list is invalid''
         | Inr room \<Rightarrow>
             if self \<notin> set room then pr_fail ''the configured Syncthing device list does not contain this device''
             else pr_bind (pr_lift (select_peers self room [] selected)) (\<lambda>peers. pr_ret (self # sort peers))))"

section \<open>Reviewing\<close>

text \<open>What an offer of another device adds: its folder, its label and the device.\<close>

record setup_offer =
  SfFolder :: string
  SfLabel :: string
  SfDevice :: string

definition no_offer :: setup_offer where "no_offer = \<lparr>SfFolder = '''', SfLabel = '''', SfDevice = ''''\<rparr>"

definition make_plan :: "'u session_env \<Rightarrow> setup_input \<Rightarrow> string \<Rightarrow> string \<Rightarrow> string \<Rightarrow> setup_offer \<Rightarrow> string list \<Rightarrow> leaf_card list \<Rightarrow>
    ('u setting_up, string \<times> setup_plan) prog" where
  "make_plan env input source kind typ offer devices inventory =
     pr_bind (expire_plans (SiNow input)) (\<lambda>_.
     pr_bind (pr_get (\<lambda>s. (length (SuPlans s), SFolders (SuSession s)))) (\<lambda>(waiting, folders).
     pr_bind (pr_check (waiting < max_onboarding_plans) ''too many folder setup plans are pending'') (\<lambda>_.
     pr_bind (pr_lift (onboarding_card source inventory)) (\<lambda>c.
     pr_bind (pr_lift (validate_onboarding_selection c kind typ folders)) (\<lambda>_.
     pr_bind (pr_lift (binding_names (EnvSha (SeSync env)) (IID (Identity c)) kind)) (\<lambda>(own, marker).
     let folder = (if SfFolder offer \<noteq> '''' then SfFolder offer else own);
         label = (if SfFolder offer \<noteq> '''' then SfLabel offer else ''Leaf '' @ folder_kind_label kind);
         path = managed_content_path (Source c) kind
     in pr_bind (pr_check (folder \<notin> FID ` set folders) ''this network folder is already configured'') (\<lambda>_.
     pr_bind (in_session (on_disk (inspect_onboarding_root path marker (SiWalk input)))) (\<lambda>(nf, nd, nb).
     pr_bind (pr_lift (available_now input)) (\<lambda>room.
     pr_bind (in_session (selected_folder_devices env devices)) (\<lambda>ds.
     pr_bind (pr_lift (SiRandom input)) (\<lambda>random.
     let i = hex_encode random;
         p = \<lparr>SpSource = source, SpCard = IID (Identity c), SpKind = kind, SpType = typ, SpFolder = folder, SpLabel = label,
              SpPath = path, SpMarker = marker, SpVersions = version_path (Source c) kind, SpFiles = nf, SpDirectories = nd,
              SpContent = nb, SpAvailable = room, SpFits = snapshot_fits nb room, SpPeerCount = length ds - 1,
              SpWarning = (kind = ''states''), SpOffer = SfDevice offer, SpDevices = ds,
              SpExpires = SiNow input + onboarding_plan_lifetime\<rparr>
     in pr_bind (pr_put (\<lambda>s. s\<lparr>SuPlans := map_put i p (SuPlans s)\<rparr>)) (\<lambda>_. pr_ret (i, p)))))))))))))"

definition plan_offer :: "'u session_env \<Rightarrow> setup_input \<Rightarrow> string \<Rightarrow> string \<Rightarrow> string \<Rightarrow> string \<Rightarrow> string \<Rightarrow> string \<Rightarrow> leaf_card list \<Rightarrow>
    ('u setting_up, string \<times> setup_plan) prog" where
  "plan_offer env input source kind typ folder label device inventory =
     pr_bind (pr_check (valid_folder_id folder) ''the offered network folder id is unsupported'') (\<lambda>_.
     case normalize_device_id device of
       Inl _ \<Rightarrow> pr_fail ''the offering device is invalid''
     | Inr d \<Rightarrow>
         if d = SeSelf env then pr_fail ''the offering device is invalid''
         else let trimmed = trim_space label;
                  shown = (if valid_onboarding_label trimmed then trimmed else ''Leaf '' @ folder_kind_label kind)
              in make_plan env input source kind typ \<lparr>SfFolder = folder, SfLabel = shown, SfDevice = d\<rparr> [d] inventory)"

section \<open>Creating\<close>

definition prepare_onboarding_storage :: "leaf_card \<Rightarrow> string \<Rightarrow> string \<Rightarrow> string \<Rightarrow> walk_list \<Rightarrow> ('d, unit) io" where
  "prepare_onboarding_storage c kind typ marker walk =
     (let path = managed_content_path (Source c) kind; marker_path = join_path [path, marker]
      in io_bind (ensure_safe_directory_chain (Root (Source c)) path) (\<lambda>_.
         io_bind (inspect_onboarding_root path marker walk) (\<lambda>_.
         io_bind (io_try (lstat marker_path)) (\<lambda>info.
         io_bind (if info = Inr None then make_dir marker_path
                  else if info \<noteq> Inr (Some Dir) then io_fail ''managed folder marker collides with a non-directory entry''
                  else io_ret ()) (\<lambda>_.
         io_bind (io_when (typ \<noteq> ''sendonly'') (ensure_safe_directory_chain (Root (Source c)) (version_path (Source c) kind))) (\<lambda>_.
         io_bind (validate_managed_marker path marker) (\<lambda>_.
           sync_fs (Root (Source c)))))))))"

text \<open>The plan, acknowledged and still true of the card.\<close>

definition binding_changed :: "(string \<Rightarrow> string) \<Rightarrow> setup_plan \<Rightarrow> leaf_card \<Rightarrow> bool" where
  "binding_changed sha p c = (case binding_names sha (IID (Identity c)) (SpKind p) of
     Inl _ \<Rightarrow> True
   | Inr (folder, marker) \<Rightarrow> (SpOffer p = '''' \<and> folder \<noteq> SpFolder p) \<or> (SpOffer p \<noteq> '''' \<and> \<not> valid_folder_id (SpFolder p)) \<or>
       marker \<noteq> SpMarker p \<or> clean (managed_content_path (Source c) (SpKind p)) \<noteq> clean (SpPath p))"

definition reviewed_plan :: "'u session_env \<Rightarrow> setup_input \<Rightarrow> string \<Rightarrow> bool \<Rightarrow> bool \<Rightarrow> leaf_card list \<Rightarrow> ('u setting_up, setup_plan \<times> leaf_card) prog" where
  "reviewed_plan env input i states manual inventory =
     pr_bind (expire_plans (SiNow input)) (\<lambda>_.
     pr_bind (pr_get (\<lambda>s. (map_of (SuPlans s) i, SFolders (SuSession s)))) (\<lambda>(found, folders). case found of
       None \<Rightarrow> pr_fail ''folder setup plan is absent or expired''
     | Some p \<Rightarrow>
         pr_bind (pr_check (manual \<and> (SpWarning p \<longrightarrow> states)) ''folder setup warnings must be acknowledged'') (\<lambda>_.
         pr_bind (pr_lift (onboarding_card (SpSource p) inventory)) (\<lambda>c.
         pr_bind (pr_check (IID (Identity c) = SpCard p) ''the physical card changed after folder setup was reviewed'') (\<lambda>_.
         pr_bind (pr_lift (validate_onboarding_selection c (SpKind p) (SpType p) folders)) (\<lambda>_.
         pr_bind (pr_check (\<not> binding_changed (EnvSha (SeSync env)) p c) ''folder setup binding changed after review'') (\<lambda>_.
         pr_bind (in_session (on_disk (inspect_onboarding_root (SpPath p) (SpMarker p) (SiWalk input)))) (\<lambda>(nf, nd, nb).
         pr_bind (if SpType p = ''sendonly'' then pr_ret ()
                  else pr_bind (pr_lift (available_now input)) (\<lambda>room.
                    pr_check (snapshot_fits nb room) ''insufficient free space for a same-card safety snapshot'')) (\<lambda>_.
           pr_ret (p, c))))))))))"

definition planned_folder :: "setup_plan \<Rightarrow> string list \<Rightarrow> configured_folder" where
  "planned_folder p devices =
     (let f = \<lparr>FID = SpFolder p, FLabel = SpLabel p, FKind = SpKind p, FPath = SpPath p, FType = SpType p, FMarkerName = SpMarker p,
            FPaused = True, FVersioningType = '''', FVersioningFSPath = '''', FVersioningFSType = '''', FDevices = devices\<rparr>
      in if SpType p \<noteq> ''sendonly''
         then f\<lparr>FVersioningType := ''simple'', FVersioningFSPath := SpVersions p, FVersioningFSType := ''basic''\<rparr> else f)"

text \<open>The record first, then the folder, then the record in force.\<close>

definition install_folder :: "'u session_env \<Rightarrow> configured_folder \<Rightarrow> leaf_card \<Rightarrow> ('u, unit) sess" where
  "install_folder env folder c =
     pr_bind (control_op_do env (Add_Record folder c True)) (\<lambda>_.
     pr_bind (pr_try (on_up (add_managed_folder (SeParse env) (SeServer env) folder))) (\<lambda>r. case r of
         Inl e \<Rightarrow> pr_bind (pr_try (control_op_do env (Remove_Record (FID folder)))) (\<lambda>undo. case undo of
             Inl _ \<Rightarrow> pr_fail ''upstream rejected the folder and control-state rollback failed''
           | Inr _ \<Rightarrow> pr_fail e)
       | Inr _ \<Rightarrow> pr_bind (pr_try (control_op_do env (Activate (FID folder)))) (\<lambda>active. case active of
             Inl _ \<Rightarrow> pr_fail ''the upstream folder was added but its durable binding is still pending recovery''
           | Inr _ \<Rightarrow> pr_ret ())))"

definition create_planned :: "'u session_env \<Rightarrow> setup_input \<Rightarrow> string \<Rightarrow> bool \<Rightarrow> bool \<Rightarrow> leaf_card list \<Rightarrow> ('u setting_up, configured_folder) prog" where
  "create_planned env input i states manual inventory =
     pr_bind (reviewed_plan env input i states manual inventory) (\<lambda>(p, c).
     pr_bind (pr_check (2 \<le> length (SpDevices p)) ''folder setup plan has no selected peers'') (\<lambda>_.
     pr_bind (in_session (selected_folder_devices env (tl (SpDevices p)))) (\<lambda>devices.
     pr_bind (in_session (on_disk (prepare_onboarding_storage c (SpKind p) (SpType p) (SpMarker p) (SiWalkAgain input)))) (\<lambda>_.
     let folder = planned_folder p devices
     in pr_bind (pr_lift (new_folder_control_record (EnvSha (SeSync env)) folder c)) (\<lambda>binding.
        pr_bind (in_session (on_disk (validate_first_sync_binding folder c binding))) (\<lambda>_.
        pr_bind (in_session (install_folder env folder c)) (\<lambda>_.
        pr_bind (pr_put (\<lambda>s. s\<lparr>SuPlans := map_del i (SuPlans s)\<rparr>)) (\<lambda>_. pr_ret folder))))))))"

section \<open>The operations of the screen\<close>

definition plan_folder_op :: "'u session_env \<Rightarrow> setup_input \<Rightarrow> error + leaf_card list \<Rightarrow> string \<Rightarrow> string \<Rightarrow> string \<Rightarrow> string list \<Rightarrow> ('u setting_up, unit) prog" where
  "plan_folder_op env input looked source kind typ devices =
     pr_bind (pr_lift looked) (\<lambda>inventory.
     pr_bind (make_plan env input source kind typ no_offer devices inventory) (\<lambda>plan.
     pr_bind (in_session (show_inventory inventory)) (\<lambda>_. pr_put (\<lambda>s. s\<lparr>SuShown := Some plan\<rparr>))))"

definition plan_offer_op :: "'u session_env \<Rightarrow> setup_input \<Rightarrow> error + leaf_card list \<Rightarrow> string \<Rightarrow> string \<Rightarrow> string \<Rightarrow> string \<Rightarrow> string \<Rightarrow> ('u setting_up, unit) prog" where
  "plan_offer_op env input looked folder device source kind typ =
     pr_bind (in_session (refresh env)) (\<lambda>_.
     pr_bind (pr_get (\<lambda>s. find_folder_offer (View (SuSession s)) folder device)) (\<lambda>found. case found of
       None \<Rightarrow> pr_fail ''not-found''
     | Some q \<Rightarrow>
         pr_bind (pr_check (\<not> OsIgnored q) ''Restore this ignored folder offer before reviewing it'') (\<lambda>_.
         pr_bind (pr_check (\<not> (OsReceive q \<or> OsRemote q)) ''Encrypted folder offers are not supported by Leaf'') (\<lambda>_.
         pr_bind (pr_lift looked) (\<lambda>inventory.
         pr_bind (plan_offer env input source kind typ (OsFolder q) (OsLabel q) (OsDevice q) inventory) (\<lambda>plan.
         pr_bind (in_session (show_inventory inventory)) (\<lambda>_. pr_put (\<lambda>s. s\<lparr>SuShown := Some plan\<rparr>))))))))"

definition create_folder_op :: "'u session_env \<Rightarrow> setup_input \<Rightarrow> error + leaf_card list \<Rightarrow> string \<Rightarrow> bool \<Rightarrow> bool \<Rightarrow> ('u setting_up, unit) prog" where
  "create_folder_op env input looked i states manual =
     pr_bind (pr_lift looked) (\<lambda>inventory.
     pr_bind (create_planned env input i states manual inventory) (\<lambda>folder.
     pr_bind (in_session (pr_put (\<lambda>s. s\<lparr>SFolders := SFolders s @ [folder]\<rparr>))) (\<lambda>_.
     pr_bind (in_session (on_sync (register_folder (FID folder)))) (\<lambda>_.
     pr_bind (in_session (show_inventory inventory)) (\<lambda>_.
     pr_bind (pr_put (\<lambda>s. s\<lparr>SuShown := None\<rparr>)) (\<lambda>_. in_session (refresh env)))))))"

end
