(* ===== verification/Session_Ops.thy ===== *)
theory Session_Ops
  imports Session
begin

text \<open>
  The operations that the handheld's screen asks for (\<open>uicontrol.Operations\<close> in \<open>controller/run.go\<close>),
  each as one program over the session.  \<open>looked\<close> is what the cards give when the operation looks.  The
  part of the status that lists snapshots and versions is not kept.  Operations do not interleave.
\<close>

definition safe_row :: "string \<Rightarrow> error \<Rightarrow> ('u, live_row) sess" where
  "safe_row i e = pr_bind (pr_get (\<lambda>s. find_row (View s) i)) (\<lambda>found. case found of
     Some row \<Rightarrow> if folder_safe_for_action row then pr_ret row else pr_fail e
   | None \<Rightarrow> pr_fail e)"

definition configured :: "string \<Rightarrow> error \<Rightarrow> ('u, configured_folder \<times> nat) sess" where
  "configured i e = pr_bind (pr_get (\<lambda>s. find_configured_folder (SFolders s) i)) (\<lambda>found. case found of
     Some x \<Rightarrow> pr_ret x | None \<Rightarrow> pr_fail e)"

text \<open>The usable card that a folder's record names.\<close>

definition folder_card :: "configured_folder \<Rightarrow> leaf_card list \<Rightarrow> error \<Rightarrow> ('u, leaf_card) sess" where
  "folder_card folder inventory e = pr_bind (pr_get controls_of) (\<lambda>controls.
     case card_for_configured_folder folder inventory controls of
       Some c \<Rightarrow> if usable_enrolled_card c then pr_ret c else pr_fail e
     | None \<Rightarrow> pr_fail e)"

definition no_card :: error where "no_card = ''the enrolled physical card is unavailable''"

section \<open>Folders\<close>

text \<open>The guard that the operations of \<open>FolderAction\<close> share.\<close>

definition action_row :: "'u session_env \<Rightarrow> string \<Rightarrow> ('u, live_row) sess" where
  "action_row env i =
     pr_bind (refresh env) (\<lambda>_.
     pr_bind (pr_get (\<lambda>s. find_row (View s) i)) (\<lambda>found. case found of
       None \<Rightarrow> pr_fail ''not-found''
     | Some row \<Rightarrow> if folder_safe_for_action row then pr_ret row
                  else pr_fail ''The folder safety checks must pass before this action''))"

definition stop_error :: error where
  "stop_error = ''The enrolled card and empty Leaf marker must be safe before stopping this folder''"

definition folder_stop :: "'u session_env \<Rightarrow> error + leaf_card list \<Rightarrow> loop_order \<Rightarrow> string \<Rightarrow> ('u, unit) sess" where
  "folder_stop env looked order i =
     pr_bind (action_row env i) (\<lambda>_.
     pr_bind (configured i ''not-found'') (\<lambda>(folder, n).
     pr_bind (pr_lift looked) (\<lambda>inventory.
     pr_bind (folder_card folder inventory stop_error) (\<lambda>c.
     pr_bind (on_disk (validate_stop_marker (EnvPaths (SeSync env)) folder c True)) (\<lambda>_.
     pr_bind (control_op_do env (Begin_Stop i)) (\<lambda>_.
     pr_bind (recover_pending_folder_stops env inventory order) (\<lambda>_.
     pr_bind (show_inventory inventory) (\<lambda>_. refresh env))))))))"

definition folder_pause :: "'u session_env \<Rightarrow> string \<Rightarrow> ('u, unit) sess" where
  "folder_pause env i =
     pr_bind (action_row env i) (\<lambda>_.
     pr_bind (control_op_do env (Set_Manual i True)) (\<lambda>_.
     pr_bind (pause_up env i True) (\<lambda>_.
     pr_bind (set_view (on_row i (\<lambda>row. row\<lparr>RowPaused := True, RowState := ''paused'',
       Reasons := append_unique (Reasons row) ''manual''\<rparr>))) (\<lambda>_. refresh env))))"

definition folder_resume :: "'u session_env \<Rightarrow> string \<Rightarrow> ('u, unit) sess" where
  "folder_resume env i =
     pr_bind (action_row env i) (\<lambda>row.
     if \<not> only_manual_pause (Reasons row) then pr_fail ''A safety pause still protects this folder''
     else pr_bind (control_op_do env (Set_Manual i False)) (\<lambda>_.
     pr_bind (pause_up env i False) (\<lambda>_.
     pr_bind (set_view (on_row i (\<lambda>row. row\<lparr>RowPaused := False, Reasons := []\<rparr>))) (\<lambda>_.
     pr_bind (pr_when (RowRescan row) (
       pr_bind (on_up (rescan_folder (SeParse env) (SeServer env) i)) (\<lambda>_.
       pr_bind (control_op_do env (Set_Pending_Rescan i False)) (\<lambda>_.
         set_view (on_row i (\<lambda>row. row\<lparr>RowRescan := False\<rparr>)))))) (\<lambda>_.
       refresh env)))))"

definition folder_rescan :: "'u session_env \<Rightarrow> string \<Rightarrow> ('u, unit) sess" where
  "folder_rescan env i =
     pr_bind (action_row env i) (\<lambda>row.
     if RowPaused row then
       pr_bind (control_op_do env (Set_Pending_Rescan i True)) (\<lambda>_.
         set_view (on_row i (\<lambda>row. row\<lparr>RowRescan := True\<rparr>)))
     else pr_bind (on_up (rescan_folder (SeParse env) (SeServer env) i)) (\<lambda>_. refresh env))"

definition folder_rename :: "'u session_env \<Rightarrow> string \<Rightarrow> string \<Rightarrow> ('u, unit) sess" where
  "folder_rename env i label =
     pr_bind (action_row env i) (\<lambda>_.
     pr_bind (on_up (rename_folder (SeParse env) (SeServer env) i label)) (\<lambda>_.
     pr_bind (set_view (on_row i (\<lambda>row. row\<lparr>RowLabel := label\<rparr>))) (\<lambda>_.
     pr_bind (pr_put (\<lambda>s. s\<lparr>SFolders := map (\<lambda>f. if FID f = i then f\<lparr>FLabel := label\<rparr> else f) (SFolders s)\<rparr>)) (\<lambda>_.
       refresh env))))"

text \<open>\<open>scan\<close> is what the scan for conflict files finds: some of their paths and their number.\<close>

definition folder_inspect :: "'u session_env \<Rightarrow> (string \<Rightarrow> error + (string list \<times> nat)) \<Rightarrow> string \<Rightarrow> ('u, unit) sess" where
  "folder_inspect env scan i =
     pr_bind (refresh env) (\<lambda>_.
     pr_bind (pr_get (\<lambda>s. find_row (View s) i)) (\<lambda>found. case found of
       None \<Rightarrow> pr_fail ''not-found''
     | Some row \<Rightarrow>
         if \<not> folder_safe_for_inspect row then pr_fail ''Conflict inspection requires a present, safe managed folder''
         else pr_bind (pr_lift (scan (RowPath row))) (\<lambda>(paths, n).
           set_view (\<lambda>v. let issue = \<lparr>IsCode = ''folder-conflicts'', IsScope = ''folder'', IsSubject = i\<rparr>;
               issues = without_subject_issue (VwIssues v) ''folder-conflicts'' i
             in (on_row i (\<lambda>row. let codes = filter (\<lambda>c. c \<noteq> ''folder-conflicts'') (RowIssues row)
                  in row\<lparr>RowIssues := if n > 0 then append_unique codes ''folder-conflicts'' else codes,
                      LrConflictCount := n, LrConflicts := paths\<rparr>) v)
                \<lparr>VwIssues := if n > 0 then append_issue issues issue else issues\<rparr>))))"

section \<open>First synchronisation\<close>

definition prepare_first_sync_op :: "'u session_env \<Rightarrow> error + leaf_card list \<Rightarrow> snapshot_input \<Rightarrow> string \<Rightarrow> ('u, unit) sess" where
  "prepare_first_sync_op env looked input i =
     (let e = ''this folder is not ready for a receive-capable first-sync snapshot''
      in pr_bind (refresh env) (\<lambda>_.
         pr_bind (safe_row i e) (\<lambda>_.
         pr_bind (configured i e) (\<lambda>(folder, n).
         pr_bind (pr_get (\<lambda>s. FirstSync (control_of (controls_of s) i) \<and> FType folder \<noteq> ''sendonly'')) (\<lambda>ready.
         pr_bind (pr_check ready e) (\<lambda>_.
         pr_bind (pr_lift looked) (\<lambda>inventory.
         pr_bind (folder_card folder inventory no_card) (\<lambda>c.
         pr_bind (on_sync (prepare_first_sync (SeSync env) input folder c)) (\<lambda>_.
         pr_bind (show_inventory inventory) (\<lambda>_. refresh env))))))))))"

definition finish_rescan :: "'u session_env \<Rightarrow> string \<Rightarrow> ('u, unit) sess" where
  "finish_rescan env i =
     pr_bind (pr_get (\<lambda>s. PendingRescan (control_of (controls_of s) i))) (\<lambda>wanted.
     pr_when wanted (pr_bind (on_up (rescan_folder (SeParse env) (SeServer env) i)) (\<lambda>_.
       control_op_do env (Set_Pending_Rescan i False))))"

definition start_first_sync_op :: "'u session_env \<Rightarrow> error + leaf_card list \<Rightarrow> string \<Rightarrow> bool \<Rightarrow> ('u, unit) sess" where
  "start_first_sync_op env looked i hub =
     pr_bind (configured i ''this folder does not have a pending first sync'') (\<lambda>(folder, n).
     pr_bind (pr_get (\<lambda>s. FirstSync (control_of (controls_of s) i))) (\<lambda>waiting.
     pr_bind (pr_check waiting ''this folder does not have a pending first sync'') (\<lambda>_.
     pr_bind (pr_lift looked) (\<lambda>inventory.
     pr_bind (folder_card folder inventory no_card) (\<lambda>c.
     pr_bind (on_sync (complete_first_sync (SeSync env) folder c hub)) (\<lambda>_.
     pr_bind (run_if_safe env inventory i n (finish_rescan env i)) (\<lambda>_.
     pr_bind (show_inventory inventory) (\<lambda>_. refresh env))))))))"

definition crosses_send_only :: "configured_folder \<Rightarrow> string \<Rightarrow> bool" where
  "crosses_send_only folder typ \<longleftrightarrow> (FType folder = ''sendonly'') \<noteq> (typ = ''sendonly'')"

definition typed_folder :: "configured_folder \<Rightarrow> string \<Rightarrow> leaf_card \<Rightarrow> configured_folder" where
  "typed_folder folder typ c =
     (let f = folder\<lparr>FType := typ, FPaused := True\<rparr>
      in if typ \<noteq> ''sendonly''
         then f\<lparr>FVersioningType := ''simple'', FVersioningFSPath := version_path (Source c) (FKind folder), FVersioningFSType := ''basic''\<rparr>
         else f)"

definition set_folder_type_op :: "'u session_env \<Rightarrow> error + leaf_card list \<Rightarrow> string \<Rightarrow> string \<Rightarrow> ('u, unit) sess" where
  "set_folder_type_op env looked i typ =
     (let e = ''the folder safety checks must pass before changing its type''
      in pr_bind (refresh env) (\<lambda>_.
         pr_bind (safe_row i e) (\<lambda>_.
         pr_bind (configured i e) (\<lambda>(folder, n).
         if FType folder = typ then pr_ret ()
         else pr_bind (pr_lift looked) (\<lambda>inventory.
         pr_bind (folder_card folder inventory no_card) (\<lambda>c.
         pr_bind (pause_up env i True) (\<lambda>_.
         pr_bind (pr_when (crosses_send_only folder typ) (on_sync (invalidate_first_sync (SeSync env) folder c))) (\<lambda>_.
         pr_bind (pr_when (typ \<noteq> ''sendonly'')
           (on_disk (ensure_safe_directory_chain (Root (Source c)) (version_path (Source c) (FKind folder))))) (\<lambda>_.
         pr_bind (on_up (set_managed_folder_type (SeParse env) (SeServer env) (typed_folder folder typ c))) (\<lambda>_.
         pr_bind (put_folder n (typed_folder folder typ c)) (\<lambda>_.
         pr_bind (run_if_safe env inventory i n (pr_ret ())) (\<lambda>_.
         pr_bind (show_inventory inventory) (\<lambda>_. refresh env)))))))))))))"

section \<open>Sharing\<close>

definition membership_intent :: "bool \<Rightarrow> string" where
  "membership_intent present = (if present then ''share'' else ''unshare'')"

definition folder_membership_op :: "'u session_env \<Rightarrow> error + leaf_card list \<Rightarrow> bool \<Rightarrow> string \<Rightarrow> string \<Rightarrow> ('u, unit) sess" where
  "folder_membership_op env looked present i raw =
     pr_bind (pr_lift (normalize_device_id raw)) (\<lambda>device.
     pr_bind (refresh env) (\<lambda>_.
     pr_bind (safe_row i ''the folder safety checks must pass before changing sharing'') (\<lambda>_.
     pr_bind (configured i ''the folder safety checks must pass before changing sharing'') (\<lambda>(folder, n).
     pr_bind (pr_get (\<lambda>s. find_peer (View s) device)) (\<lambda>peer.
     pr_bind (pr_check (case peer of Some p \<Rightarrow> \<not> PsPending p | None \<Rightarrow> False) ''sharing requires an already configured peer'') (\<lambda>_.
     pr_bind (pr_lift (folder_with_membership folder (SeSelf env) device present)) (\<lambda>(target, changed).
     pr_bind (pr_get (\<lambda>s. control_of (controls_of s) i)) (\<lambda>r.
     if \<not> changed \<and> PendingMembership r = '''' then pr_ret ()
     else if \<not> changed \<and> (PendingMembership r \<noteq> membership_intent present \<or> PendingDeviceID r \<noteq> device)
     then pr_fail ''another folder membership change is pending''
     else pr_bind (pr_lift looked) (\<lambda>inventory.
     pr_bind (control_op_do env (Begin_Membership i device (membership_intent present))) (\<lambda>_.
     pr_bind (show_inventory inventory) (\<lambda>_.
     pr_bind (on_up (set_managed_folder_devices (SeParse env) (SeServer env) target)) (\<lambda>_.
     pr_bind (put_folder n target) (\<lambda>_.
     pr_bind (control_op_do env (Complete_Membership i)) (\<lambda>_.
     pr_bind (run_if_safe env inventory i n (pr_ret ())) (\<lambda>_.
     pr_bind (show_inventory inventory) (\<lambda>_. refresh env))))))))))))))))"

section \<open>Offers, cards and peers\<close>

definition offer_action_op :: "'u session_env \<Rightarrow> bool \<Rightarrow> string \<Rightarrow> string \<Rightarrow> ('u, unit) sess" where
  "offer_action_op env ignored i device =
     pr_bind (refresh env) (\<lambda>_.
     pr_bind (pr_get (\<lambda>s. find_folder_offer (View s) i device)) (\<lambda>found.
     pr_bind (pr_check (found \<noteq> None) ''not-found'') (\<lambda>_.
     pr_bind (control_op_do env (Set_Offer_Ignored i device ignored)) (\<lambda>_. refresh env))))"

text \<open>\<open>enrolled\<close> is the result of the enrolment, \<open>looked\<close> that of the inventory after it.\<close>

definition enroll_card_op :: "source list \<Rightarrow> (source \<Rightarrow> error + unit) \<Rightarrow> error + leaf_card list \<Rightarrow> string \<Rightarrow> ('u, unit) sess" where
  "enroll_card_op sources enrolled looked i =
     (case by_id sources i of
        None \<Rightarrow> pr_fail ''not-found''
      | Some src \<Rightarrow> pr_bind (pr_lift (enrolled src)) (\<lambda>_. pr_bind (pr_lift looked) show_inventory))"

definition peer_add_op :: "'u session_env \<Rightarrow> string list \<Rightarrow> string \<Rightarrow> string \<Rightarrow> ('u, unit) sess" where
  "peer_add_op env networks d name =
     pr_bind (on_up (add_peer (SeParse env) (SeServer env) d name networks)) (\<lambda>_. refresh env)"

definition peer_rename_op :: "'u session_env \<Rightarrow> string \<Rightarrow> string \<Rightarrow> ('u, unit) sess" where
  "peer_rename_op env d name =
     pr_bind (on_up (rename_peer (SeParse env) (SeServer env) d name)) (\<lambda>_. refresh env)"

definition peer_remove_op :: "'u session_env \<Rightarrow> string \<Rightarrow> ('u, unit) sess" where
  "peer_remove_op env d =
     pr_bind (refresh env) (\<lambda>_.
     pr_bind (pr_get (\<lambda>s. find_peer (View s) d)) (\<lambda>peer.
     pr_bind (pr_check (case peer of Some p \<Rightarrow> \<not> PsPending p | None \<Rightarrow> False) ''not-found'') (\<lambda>_.
     pr_bind (pr_get (\<lambda>s. device_folder_memberships (SFolders s) d)) (\<lambda>members.
     pr_bind (pr_check (members = []) ''Unshare this peer from its managed folders before forgetting it'') (\<lambda>_.
     pr_bind (control_op_do env (Begin_Device_Removal d)) (\<lambda>_.
     pr_bind (on_up (remove_peer (SeParse env) (SeServer env) d (SeSelf env))) (\<lambda>_.
     pr_bind (control_op_do env (Complete_Device_Removal d)) (\<lambda>_. refresh env))))))))"

section \<open>All of them\<close>

text \<open>
  What the operations take from outside: what the cards give, in which order a loop over the records
  goes, the input of a snapshot, the scan for conflicts, the networks and the enrolment of a card.
\<close>

record world_inputs =
  WiLooked :: "error + leaf_card list"
  WiOrder :: loop_order
  WiSnapshot :: snapshot_input
  WiScan :: "string \<Rightarrow> error + (string list \<times> nat)"
  WiNetworks :: "string list"
  WiSources :: "source list"
  WiEnrolled :: "source \<Rightarrow> error + unit"

text \<open>The operations of the screen and the recoveries of a start.\<close>

datatype session_op =
    Stop_Folder string | Pause_Folder string | Resume_Folder string | Rescan_Folder string
  | Rename_Folder string string | Inspect_Folder string
  | Prepare_Sync string | Start_Sync string bool | Set_Type string string
  | Share_Folder bool string string | Offer_Action bool string string | Enroll_Card string
  | Add_Peer string string | Rename_Peer string string | Remove_Peer string
  | Recover_Memberships | Recover_Stops | Recover_Removal | Relocate_Folders

fun run_session_op :: "'u session_env \<Rightarrow> world_inputs \<Rightarrow> session_op \<Rightarrow> ('u, unit) sess" where
  "run_session_op env w (Stop_Folder i) = folder_stop env (WiLooked w) (WiOrder w) i"
| "run_session_op env w (Pause_Folder i) = folder_pause env i"
| "run_session_op env w (Resume_Folder i) = folder_resume env i"
| "run_session_op env w (Rescan_Folder i) = folder_rescan env i"
| "run_session_op env w (Rename_Folder i label) = folder_rename env i label"
| "run_session_op env w (Inspect_Folder i) = folder_inspect env (WiScan w) i"
| "run_session_op env w (Prepare_Sync i) = prepare_first_sync_op env (WiLooked w) (WiSnapshot w) i"
| "run_session_op env w (Start_Sync i hub) = start_first_sync_op env (WiLooked w) i hub"
| "run_session_op env w (Set_Type i typ) = set_folder_type_op env (WiLooked w) i typ"
| "run_session_op env w (Share_Folder present i d) = folder_membership_op env (WiLooked w) present i d"
| "run_session_op env w (Offer_Action ignored i d) = offer_action_op env ignored i d"
| "run_session_op env w (Enroll_Card i) = enroll_card_op (WiSources w) (WiEnrolled w) (WiLooked w) i"
| "run_session_op env w (Add_Peer d name) = peer_add_op env (WiNetworks w) d name"
| "run_session_op env w (Rename_Peer d name) = peer_rename_op env d name"
| "run_session_op env w (Remove_Peer d) = peer_remove_op env d"
| "run_session_op env w Recover_Memberships = (case WiLooked w of Inl e \<Rightarrow> pr_fail e | Inr inventory \<Rightarrow> recover_folder_memberships env inventory (WiOrder w))"
| "run_session_op env w Recover_Stops = (case WiLooked w of Inl e \<Rightarrow> pr_fail e | Inr inventory \<Rightarrow> recover_pending_folder_stops env inventory (WiOrder w))"
| "run_session_op env w Recover_Removal = recover_pending_device_removal env"
| "run_session_op env w Relocate_Folders = (case WiLooked w of Inl e \<Rightarrow> pr_fail e | Inr inventory \<Rightarrow> relocate_managed_folders env inventory)"

end
