(* ===== verification/Session_Safety.thy ===== *)
theory Session_Safety
  imports Session_Ops
begin

text \<open>
  Which operations let a folder run.  A call lets a folder run when it sets \<open>paused\<close> of a folder's
  configuration to false.  Programs without such a call are \<open>calm\<close>; the rules compose \<open>calm\<close> steps
  and the one step that lets a folder run along a program.
\<close>

section \<open>Calls\<close>

definition lets_run :: "api_call \<Rightarrow> bool" where
  "lets_run c \<longleftrightarrow> has_prefix (APath c) ''/rest/config/folders/'' \<and>
     (case ABody c of Some (JObj kvs) \<Rightarrow> (''paused'', JBool False) \<in> set kvs | _ \<Rightarrow> False)"

definition harmless :: "('u, 'a) up \<Rightarrow> bool" where
  "harmless m \<longleftrightarrow> (\<forall>u. \<exists>cs. calls (snd (m u)) = calls u @ cs \<and> (\<forall>c \<in> set cs. \<not> lets_run c))"

named_theorems harmless_intro "programs over the connection that let no folder run"

lemma harmless_ret [harmless_intro]: "harmless (up_ret x)"
  by (simp add: harmless_def up_ret_def)

lemma harmless_fail [harmless_intro]: "harmless (up_fail e)"
  by (simp add: harmless_def up_fail_def)

lemma harmless_lift [harmless_intro]: "harmless (up_lift r)"
  by (simp add: harmless_def up_lift_def)

lemma harmless_bind [harmless_intro]: "harmless m \<Longrightarrow> (\<And>x. harmless (k x)) \<Longrightarrow> harmless (up_bind m k)"
  unfolding harmless_def
proof (intro allI)
  fix u
  assume m: "\<forall>u. \<exists>cs. calls (snd (m u)) = calls u @ cs \<and> (\<forall>c \<in> set cs. \<not> lets_run c)"
    and k: "\<And>x. \<forall>u. \<exists>cs. calls (snd (k x u)) = calls u @ cs \<and> (\<forall>c \<in> set cs. \<not> lets_run c)"
  obtain cs where cs: "calls (snd (m u)) = calls u @ cs" "\<forall>c \<in> set cs. \<not> lets_run c" using m by blast
  obtain r v where r: "m u = (r, v)" by fastforce
  show "\<exists>cs. calls (snd (up_bind m k u)) = calls u @ cs \<and> (\<forall>c \<in> set cs. \<not> lets_run c)"
  proof (cases r)
    case (Inr x)
    obtain ds where "calls (snd (k x v)) = calls v @ ds" "\<forall>c \<in> set ds. \<not> lets_run c" using k by blast
    then show ?thesis using cs r Inr by (intro exI [of _ "cs @ ds"]) (auto simp: up_bind_def)
  qed (use cs r in \<open>auto simp: up_bind_def\<close>)
qed

lemma harmless_if [harmless_intro]: "(b \<Longrightarrow> harmless m) \<Longrightarrow> (\<not> b \<Longrightarrow> harmless n) \<Longrightarrow> harmless (if b then m else n)"
  by simp

lemma harmless_option [harmless_intro]:
  "(x = None \<Longrightarrow> harmless m) \<Longrightarrow> (\<And>y. x = Some y \<Longrightarrow> harmless (k y)) \<Longrightarrow> harmless (case x of None \<Rightarrow> m | Some y \<Rightarrow> k y)"
  by (cases x) simp_all

lemma harmless_sum [harmless_intro]:
  "(\<And>e. x = Inl e \<Longrightarrow> harmless (h e)) \<Longrightarrow> (\<And>y. x = Inr y \<Longrightarrow> harmless (k y)) \<Longrightarrow> harmless (case x of Inl e \<Rightarrow> h e | Inr y \<Rightarrow> k y)"
  by (cases x) simp_all

lemma harmless_pair [harmless_intro]: "(\<And>x y. p = (x, y) \<Longrightarrow> harmless (k x y)) \<Longrightarrow> harmless (case p of (x, y) \<Rightarrow> k x y)"
  by (cases p) simp

lemma harmless_Let [harmless_intro]: "(\<And>x. x = v \<Longrightarrow> harmless (k x)) \<Longrightarrow> harmless (let x = v in k x)"
  by simp

lemma harmless_json: "\<not> lets_run call \<Longrightarrow> harmless (api_json parse server output call)"
  by (auto simp: harmless_def api_json_def Let_def split: prod.split sum.split option.split)

lemma harmless_read [harmless_intro]: "harmless (api_read parse server path zero decode)"
  unfolding api_read_def
  by (intro harmless_intro harmless_json) (simp add: lets_run_def api_call_of_def)

lemma harmless_send: "\<not> lets_run (api_call_of m path body) \<Longrightarrow> harmless (api_send parse server m path body)"
  unfolding api_send_def by (intro harmless_intro harmless_json)

lemma versioning_field_pause: "(''paused'', v) \<notin> set (versioning_field q)"
  by (auto simp: versioning_field_def split: option.splits)

lemma harmless_pause [harmless_intro]: "harmless (set_folder_paused parse server i True)"
  unfolding set_folder_paused_def
  by (intro harmless_intro harmless_send) (simp add: lets_run_def api_call_of_def)

lemma harmless_folder_calls [harmless_intro]:
  "harmless (set_managed_folder_type parse server f)" "harmless (relocate_managed_folder parse server f)"
  "harmless (set_managed_folder_devices parse server f)"
  unfolding set_managed_folder_type_def relocate_managed_folder_def set_managed_folder_devices_def
  by ((intro harmless_intro harmless_send)?; simp add: lets_run_def api_call_of_def versioning_field_pause)+

lemma harmless_removal [harmless_intro]: "harmless (remove_managed_folder parse server i)" "harmless (remove_peer parse server d self)"
  unfolding remove_managed_folder_def configured_folder_present_def remove_peer_def configured_peer_present_def
  by ((intro harmless_intro harmless_send)?; simp add: lets_run_def api_call_of_def)+

lemma harmless_ui_calls [harmless_intro]:
  "harmless (rescan_folder parse server i)" "harmless (rename_folder parse server i label)"
  "harmless (add_peer parse server d name networks)" "harmless (rename_peer parse server d name)"
  unfolding rescan_folder_def rename_folder_def add_peer_def rename_peer_def patch_device_def
  by ((intro harmless_intro harmless_send)?; simp add: lets_run_def api_call_of_def has_prefix_def device_config_path_def)+

lemma harmless_scan_peers [harmless_intro]: "harmless (scan_peers parse server devices connections self folder ds scan)"
  by (induction ds arbitrary: scan) (auto simp: Let_def intro!: harmless_intro)

lemma harmless_folder_statuses [harmless_intro]: "harmless (read_folder_statuses parse server clock devices connections stats self fs s)"
  by (induction fs arbitrary: s) (auto simp: Let_def intro!: harmless_intro)

lemma harmless_status [harmless_intro]: "harmless (read_ui_status parse server clock folders self)"
  unfolding read_ui_status_def by (intro harmless_intro)


section \<open>Calm steps\<close>

text \<open>
  A calm step lets no folder run and keeps the ids of the folders; a settled step also keeps the
  folders, the files of the cards and all of the records but the wish for a rescan.
\<close>

definition run_calls :: "'u session \<Rightarrow> 'u session \<Rightarrow> api_call list" where
  "run_calls s t = filter lets_run (drop (length (calls (Up s))) (calls (Up t)))"

definition grown :: "'u session \<Rightarrow> 'u session \<Rightarrow> bool" where
  "grown s t \<longleftrightarrow> (\<exists>cs. calls (Up t) = calls (Up s) @ cs)"

definition calm_step :: "'u session \<Rightarrow> 'u session \<Rightarrow> bool" where
  "calm_step s t \<longleftrightarrow> grown s t \<and> run_calls s t = [] \<and> map FID (SFolders t) = map FID (SFolders s) \<and>
     (go_map (controls_of s) \<longrightarrow> go_map (controls_of t))"

definition calm :: "('u, 'a) sess \<Rightarrow> bool" where
  "calm m \<longleftrightarrow> (\<forall>s. sat m (\<lambda>_. calm_step s) (\<lambda>_. calm_step s) (calm_step s) s)"

definition records_like :: "(string \<times> control_record) list \<Rightarrow> (string \<times> control_record) list \<Rightarrow> bool" where
  "records_like a b \<longleftrightarrow> (\<forall>i. map_option (PendingRescan_update (\<lambda>_. False)) (map_of b i) = map_option (PendingRescan_update (\<lambda>_. False)) (map_of a i))"

definition settled_step :: "'u session \<Rightarrow> 'u session \<Rightarrow> bool" where
  "settled_step s t \<longleftrightarrow> grown s t \<and> run_calls s t = [] \<and> SFolders t = SFolders s \<and>
     files (CardW (Sync t)) = files (CardW (Sync s)) \<and>
     (go_map (controls_of s) \<longrightarrow> go_map (controls_of t) \<and> records_like (controls_of s) (controls_of t))"

definition settles :: "('u, 'a) sess \<Rightarrow> bool" where
  "settles m \<longleftrightarrow> (\<forall>s. sat m (\<lambda>_. settled_step s) (\<lambda>_. settled_step s) (settled_step s) s)"

lemma run_calls_trans: "grown s t \<Longrightarrow> grown t u \<Longrightarrow> run_calls s u = run_calls s t @ run_calls t u"
  by (auto simp: grown_def run_calls_def)

lemma grown_trans: "grown s t \<Longrightarrow> grown t u \<Longrightarrow> grown s u"
  by (auto simp: grown_def)

lemma calm_step_trans: "calm_step s t \<Longrightarrow> calm_step t u \<Longrightarrow> calm_step s u"
  unfolding calm_step_def using run_calls_trans [of s t u] grown_trans [of s t u] by auto

lemma settled_step_trans: "settled_step s t \<Longrightarrow> settled_step t u \<Longrightarrow> settled_step s u"
  unfolding settled_step_def using run_calls_trans [of s t u] grown_trans [of s t u] by (auto simp: records_like_def)

lemma quiet_calls [simp]: "calls (Up t) = calls (Up s) \<Longrightarrow> run_calls s t = []" "calls (Up t) = calls (Up s) \<Longrightarrow> grown s t"
  by (simp_all add: run_calls_def grown_def)

lemma records_like_refl [simp]: "records_like a a"
  by (simp add: records_like_def)

named_theorems calm_intro "programs over the session that let no folder run"

lemma calm_bind [calm_intro]: "calm m \<Longrightarrow> (\<And>x. calm (k x)) \<Longrightarrow> calm (pr_bind m k)"
  unfolding calm_def
proof (intro allI)
  fix s
  assume m: "\<forall>s. sat m (\<lambda>_. calm_step s) (\<lambda>_. calm_step s) (calm_step s) s"
    and k: "\<And>x. \<forall>s. sat (k x) (\<lambda>_. calm_step s) (\<lambda>_. calm_step s) (calm_step s) s"
  show "sat (pr_bind m k) (\<lambda>_. calm_step s) (\<lambda>_. calm_step s) (calm_step s) s"
    by (rule sat_bindI [OF m [rule_format]]) (auto intro: sat_mono [OF k [rule_format]] calm_step_trans)
qed

lemma settles_bind [calm_intro]: "settles m \<Longrightarrow> (\<And>x. settles (k x)) \<Longrightarrow> settles (pr_bind m k)"
  unfolding settles_def
proof (intro allI)
  fix s
  assume m: "\<forall>s. sat m (\<lambda>_. settled_step s) (\<lambda>_. settled_step s) (settled_step s) s"
    and k: "\<And>x. \<forall>s. sat (k x) (\<lambda>_. settled_step s) (\<lambda>_. settled_step s) (settled_step s) s"
  show "sat (pr_bind m k) (\<lambda>_. settled_step s) (\<lambda>_. settled_step s) (settled_step s) s"
    by (rule sat_bindI [OF m [rule_format]]) (auto intro: sat_mono [OF k [rule_format]] settled_step_trans)
qed

lemma settled_calm: "settled_step s t \<Longrightarrow> calm_step s t"
  by (simp add: settled_step_def calm_step_def)

lemma settles_calm: "settles m \<Longrightarrow> calm m"
  unfolding settles_def calm_def by (auto intro: sat_mono [of m] settled_calm)


lemma sat_on_sync: "sat (on_sync m) Q E C s \<longleftrightarrow> sat m (\<lambda>x t. Q x (s\<lparr>Sync := t\<rparr>)) (\<lambda>e t. E e (s\<lparr>Sync := t\<rparr>)) (\<lambda>t. C (s\<lparr>Sync := t\<rparr>)) (Sync s)"
  by (auto simp: sat_def on_sync_def split: prod.split outcome.split)

lemma sat_all: "(\<And>x t. m s = (Ok x, t) \<Longrightarrow> Q x t) \<Longrightarrow> (\<And>e t. m s = (Failed e, t) \<Longrightarrow> E e t) \<Longrightarrow> (\<And>t. m s = (Died, t) \<Longrightarrow> C t) \<Longrightarrow>
    sat m Q E C s"
  by (auto simp: sat_def split: prod.split outcome.split)

lemma settles_prims [calm_intro]:
  "settles (pr_ret x)" "settles (pr_fail e)" "settles (pr_get g)" "settles (pr_lift r)" "settles (pr_check b e)" "settles (set_view v)"
  "settles show_first_sync"
  by (auto simp: settles_def settled_step_def set_view_def show_first_sync_def controls_of_def split: sum.split)

lemma settles_if [calm_intro]: "(b \<Longrightarrow> settles m) \<Longrightarrow> (\<not> b \<Longrightarrow> settles n) \<Longrightarrow> settles (if b then m else n)"
  by simp

lemma settles_when [calm_intro]: "(b \<Longrightarrow> settles m) \<Longrightarrow> settles (pr_when b m)"
  by (simp add: pr_when_def calm_intro)

lemma settles_option [calm_intro]:
  "(x = None \<Longrightarrow> settles m) \<Longrightarrow> (\<And>y. x = Some y \<Longrightarrow> settles (k y)) \<Longrightarrow> settles (case x of None \<Rightarrow> m | Some y \<Rightarrow> k y)"
  by (cases x) simp_all

lemma settles_sum [calm_intro]:
  "(\<And>e. x = Inl e \<Longrightarrow> settles (h e)) \<Longrightarrow> (\<And>y. x = Inr y \<Longrightarrow> settles (k y)) \<Longrightarrow> settles (case x of Inl e \<Rightarrow> h e | Inr y \<Rightarrow> k y)"
  by (cases x) simp_all

lemma settles_pair [calm_intro]: "(\<And>x y. p = (x, y) \<Longrightarrow> settles (k x y)) \<Longrightarrow> settles (case p of (x, y) \<Rightarrow> k x y)"
  by (cases p) simp

lemma settles_try [calm_intro]: "settles m \<Longrightarrow> settles (pr_try m)"
  by (simp add: settles_def sat_try)

lemma settles_up [calm_intro]: "harmless m \<Longrightarrow> settles (on_up m)"
  unfolding settles_def
proof (intro allI)
  fix s :: "'a session"
  assume m: "harmless m"
  obtain r u where run: "m (Up s) = (r, u)" by fastforce
  have "\<exists>cs. calls u = calls (Up s) @ cs \<and> (\<forall>c \<in> set cs. \<not> lets_run c)" using m run unfolding harmless_def by (metis snd_conv)
  then have "settled_step s (s\<lparr>Up := u\<rparr>)"
    by (auto simp: settled_step_def grown_def run_calls_def controls_of_def)
  then show "sat (on_up m) (\<lambda>_. settled_step s) (\<lambda>_. settled_step s) (settled_step s) s"
    by (simp add: sat_def on_up_def run split: sum.split)
qed

text \<open>A program that only reads the card.\<close>

definition reads :: "('d, 'a) io \<Rightarrow> bool" where
  "reads m \<longleftrightarrow> (\<forall>f. wp True m (\<lambda>_ g. g = f) (\<lambda>_ g. g = f) (\<lambda>g. g = f) f)"

lemma settles_disk [calm_intro]: "reads m \<Longrightarrow> settles (on_disk m)"
  unfolding settles_def on_disk_def sat_on_sync
  by (intro allI sat_on_card [where Q' = "\<lambda>_ g. g = f" and E' = "\<lambda>_ g. g = f" and C' = "\<lambda>g. g = f" for f])
    (auto simp: reads_def settled_step_def controls_of_def)

lemma reconcile_rows_wp:
  "wp True (reconcile_managed_folders inventory controls folders)
     (\<lambda>rows g. g = f \<and> list_all2 (\<lambda>folder row. RowID row = FID folder \<and>
        (\<not> RowPaused row \<longrightarrow> safe_folder inventory controls folder f)) folders rows)
     (\<lambda>_ _. False) (\<lambda>g. g = f) f"
  unfolding reconcile_managed_folders_def by (rule io_map_wp, rule reconcile_folder_wp)

lemma reads_reconcile: "reads (reconcile_managed_folders inventory controls folders)"
  by (auto simp: reads_def intro: wp_mono [OF reconcile_rows_wp])

lemma reads_inventory: "reads (apply_inventory inventory folders controls v)"
  unfolding reads_def apply_inventory_def Let_def
  by (intro allI wp_bindI) (rule wp_mono [OF reconcile_rows_wp], auto simp: wp_ret)

lemma settles_inventory [calm_intro]: "settles (show_inventory inventory)"
  unfolding show_inventory_def by (intro calm_intro reads_inventory)

lemma settles_refresh [calm_intro]: "settles (refresh env)"
proof -
  have "settles (pr_put (\<lambda>s. s\<lparr>View := apply_ignored_offers (apply_live_status (View s) live) (Offers (Store (Sync s)))\<rparr>) :: ('a, unit) sess)" for live
    by (simp add: settles_def settled_step_def controls_of_def)
  then show ?thesis unfolding refresh_def refresh_live_def by (intro calm_intro harmless_intro)
qed


lemma control_step_maps: "control_step sha op st = Inr (Some (new, kept)) \<Longrightarrow> go_map (Records st) \<Longrightarrow> go_map (Records new) \<and> go_map (Records kept)"
  by (cases op) (auto simp: control_op_defs add_record_def sum_bind_def put_control_def go_map_put go_map_del Let_def
    split: sum.splits option.splits if_splits)

lemma control_do_result: "sat (control_do env op)
    (\<lambda>_ t. CardW t = CardW s \<and> (Store t = Store s \<or> (\<exists>new kept. control_step (EnvSha env) op (Store s) = Inr (Some (new, kept)) \<and> Store t \<in> {new, kept})))
    (\<lambda>_ t. CardW t = CardW s \<and> (Store t = Store s \<or> (\<exists>new kept. control_step (EnvSha env) op (Store s) = Inr (Some (new, kept)) \<and> Store t \<in> {new, kept})))
    (\<lambda>t. CardW t = CardW s \<and> Store t = Store s) s"
  by (auto simp: sat_def control_do_def run_control_def io_ret_def io_bind_def io_try_def
      split: sum.splits option.splits prod.splits outcome.splits)


lemma rescan_like: "control_step sha (Set_Pending_Rescan i b) st = Inr (Some (new, kept)) \<Longrightarrow> go_map (Records st) \<Longrightarrow>
    kept = new \<and> go_map (Records new) \<and> records_like (Records st) (Records new)"
  by (auto simp: go_map_put set_pending_rescan_def with_record_def sticky_def put_control_def records_like_def split: option.splits)

lemma settles_rescan_done [calm_intro]: "settles (control_op_do env (Set_Pending_Rescan i b))"
  unfolding settles_def control_op_do_def sat_on_sync
proof (intro allI)
  fix s :: "'a session"
  have "settled_step s (s\<lparr>Sync := t\<rparr>)" if "CardW t = CardW (Sync s)" and "Store t = Store (Sync s) \<or>
      (\<exists>new kept. control_step (EnvSha (SeSync env)) (Set_Pending_Rescan i b) (Store (Sync s)) = Inr (Some (new, kept)) \<and> Store t \<in> {new, kept})" for t
    using that by (auto simp: settled_step_def controls_of_def simp del: control_step.simps dest!: rescan_like)
  then show "sat (control_do (SeSync env) (Set_Pending_Rescan i b)) (\<lambda>x t. settled_step s (s\<lparr>Sync := t\<rparr>))
      (\<lambda>e t. settled_step s (s\<lparr>Sync := t\<rparr>)) (\<lambda>t. settled_step s (s\<lparr>Sync := t\<rparr>)) (Sync s)"
    by (intro sat_mono [OF control_do_result]) auto
qed

text \<open>Programs of the first-sync code: they keep the records in order.\<close>

definition keeps_maps :: "(sync_machine, 'a) prog \<Rightarrow> bool" where
  "keeps_maps m \<longleftrightarrow> (\<forall>s. go_map (Records (Store s)) \<longrightarrow> sat m (\<lambda>_ t. go_map (Records (Store t))) (\<lambda>_ t. go_map (Records (Store t)))
     (\<lambda>t. go_map (Records (Store t))) s)"

lemma keeps_maps_bind [calm_intro]: "keeps_maps m \<Longrightarrow> (\<And>x. keeps_maps (k x)) \<Longrightarrow> keeps_maps (pr_bind m k)"
  unfolding keeps_maps_def by (blast intro: sat_bindI)

lemma keeps_maps_prims [calm_intro]:
  "keeps_maps (pr_ret x)" "keeps_maps (pr_fail e)" "keeps_maps (pr_check b e)" "keeps_maps (set_progress i p)" "keeps_maps (pending_control folder)"
  "keeps_maps (on_card m)"
  by (auto simp: keeps_maps_def set_progress_def pending_control_def sat_def on_card_def on_files_def pr_ret_def pr_fail_def pr_check_def pr_put_def
      split: option.splits prod.split outcome.split)

lemma keeps_maps_control [calm_intro]: "keeps_maps (control_do env op)"
  unfolding keeps_maps_def by (intro allI impI sat_mono [OF control_do_result]) (auto dest: control_step_maps)

lemma keeps_maps_recording [calm_intro]: "keeps_maps m \<Longrightarrow> keeps_maps (recording i m)"
  unfolding keeps_maps_def by (force simp: sat_def recording_def split: prod.splits outcome.splits)

lemma keeps_maps_first_sync [calm_intro]:
  "keeps_maps (complete_first_sync env folder c hub)" "keeps_maps (invalidate_first_sync env folder c)" "keeps_maps (prepare_first_sync env input folder c)"
  unfolding complete_first_sync_def invalidate_first_sync_def prepare_first_sync_def Let_def by (intro calm_intro)+

lemma calm_sync:
  assumes m: "keeps_maps m"
  shows "calm (on_sync m :: ('u, 'a) sess)"
  unfolding calm_def sat_on_sync
proof (intro allI)
  fix s :: "'u session"
  show "sat m (\<lambda>x t. calm_step s (s\<lparr>Sync := t\<rparr>)) (\<lambda>e t. calm_step s (s\<lparr>Sync := t\<rparr>)) (\<lambda>t. calm_step s (s\<lparr>Sync := t\<rparr>)) (Sync s)"
  proof (cases "go_map (Records (Store (Sync s)))")
    case True
    then show ?thesis by (intro sat_mono [OF m [unfolded keeps_maps_def, rule_format]]) (auto simp: calm_step_def controls_of_def)
  next
    case False
    then show ?thesis by (auto simp: sat_def calm_step_def controls_of_def split: prod.split outcome.split)
  qed
qed

lemma calm_disk: "calm (on_disk m)"
  unfolding on_disk_def by (rule calm_sync) (rule keeps_maps_prims)

lemma calm_control: "calm (control_op_do env op)"
  unfolding control_op_do_def by (rule calm_sync) (rule keeps_maps_control)

lemma map_FID_update: "FID g = FID (fs ! n) \<Longrightarrow> map FID (fs[n := g]) = map FID fs"
  by (cases "n < length fs") (auto simp: map_update list_update_same_conv list_update_beyond)

lemma calm_mark: "calm (mark_paused n b)"
  by (simp add: calm_def calm_step_def mark_paused_def map_FID_update controls_of_def)

lemma calm_if: "(b \<Longrightarrow> calm m) \<Longrightarrow> (\<not> b \<Longrightarrow> calm n) \<Longrightarrow> calm (if b then m else n)"
  by simp

lemma calm_when: "(b \<Longrightarrow> calm m) \<Longrightarrow> calm (pr_when b m)"
  by (simp add: pr_when_def settles_calm settles_prims)

lemma calm_option: "(x = None \<Longrightarrow> calm m) \<Longrightarrow> (\<And>y. x = Some y \<Longrightarrow> calm (k y)) \<Longrightarrow> calm (case x of None \<Rightarrow> m | Some y \<Rightarrow> k y)"
  by (cases x) simp_all

lemma calm_pair: "(\<And>x y. p = (x, y) \<Longrightarrow> calm (k x y)) \<Longrightarrow> calm (case p of (x, y) \<Rightarrow> k x y)"
  by (cases p) simp

lemma calm_Let: "(\<And>x. x = v \<Longrightarrow> calm (k x)) \<Longrightarrow> calm (let x = v in k x)"
  by simp

lemmas calm_rules = calm_bind calm_disk calm_control calm_mark calm_if calm_when calm_option calm_pair calm_Let
  calm_sync keeps_maps_first_sync


section \<open>Steps that let safe folders run\<close>

definition good :: "leaf_card list \<Rightarrow> 'u session \<Rightarrow> string \<Rightarrow> bool" where
  "good inventory s i \<longleftrightarrow> (\<exists>folder \<in> set (SFolders s). FID folder = i \<and>
     safe_folder inventory (controls_of s) folder (files (CardW (Sync s))))"

definition safe_step :: "leaf_card list \<Rightarrow> 'u session \<Rightarrow> 'u session \<Rightarrow> bool" where
  "safe_step inventory s t \<longleftrightarrow> grown s t \<and> go_map (controls_of t) \<and> map FID (SFolders t) = map FID (SFolders s) \<and> (\<forall>i. good inventory s i \<longrightarrow> good inventory t i) \<and>
     (\<forall>c \<in> set (run_calls s t). \<exists>i. APath c = folder_path i \<and> good inventory t i)"

definition runs_safely :: "leaf_card list \<Rightarrow> 'u session \<Rightarrow> 'u session \<Rightarrow> bool" where
  "runs_safely inventory s t \<longleftrightarrow> grown s t \<and> go_map (controls_of t) \<and>
     (\<forall>c \<in> set (run_calls s t). \<exists>i. APath c = folder_path i \<and> good inventory t i)"

lemma safe_step_refl [simp]: "go_map (controls_of s) \<Longrightarrow> safe_step inventory s s"
  by (simp add: safe_step_def)

lemma safe_step_trans: "safe_step inventory s t \<Longrightarrow> safe_step inventory t u \<Longrightarrow> safe_step inventory s u"
  unfolding safe_step_def using run_calls_trans [of s t u] grown_trans [of s t u] by (simp, blast)

lemma safe_folder_like:
  assumes "records_like a b" and "safe_folder inventory a folder f"
  shows "safe_folder inventory b folder f"
proof -
  from assms(2) obtain r where r: "map_of a (FID folder) = Some r" by (auto simp: safe_folder_def)
  with assms(1) obtain q where q: "map_of b (FID folder) = Some q" "q\<lparr>PendingRescan := False\<rparr> = r\<lparr>PendingRescan := False\<rparr>"
    unfolding records_like_def by (metis (no_types, lifting) map_option_eq_Some)
  then have "CardID q = CardID r \<and> Kind q = Kind r \<and> MarkerName q = MarkerName r \<and> Manual q = Manual r \<and> FirstSync q = FirstSync r \<and>
      PendingMembership q = PendingMembership r \<and> PendingStop q = PendingStop r \<and> complete_folder_binding q = complete_folder_binding r"
    by (cases q, cases r) (simp add: complete_folder_binding_def)
  with assms(2) r q(1) show ?thesis by (auto simp: safe_folder_def)
qed

lemma safe_folder_paused [simp]: "safe_folder inventory a (folder\<lparr>FPaused := b\<rparr>) f = safe_folder inventory a folder f"
  by (simp add: safe_folder_def)

lemma settled_safe: "settled_step s t \<Longrightarrow> go_map (controls_of s) \<Longrightarrow> safe_step inventory s t"
  by (auto simp: settled_step_def safe_step_def good_def dest: safe_folder_like)

lemma calm_then_safe: "calm_step s t \<Longrightarrow> safe_step inventory t u \<Longrightarrow> runs_safely inventory s u"
  unfolding calm_step_def safe_step_def runs_safely_def using run_calls_trans [of s t u] grown_trans [of s t u] by auto

lemma calm_runs_safely: "calm_step s t \<Longrightarrow> go_map (controls_of s) \<Longrightarrow> runs_safely inventory s t"
  by (simp add: calm_step_def runs_safely_def)

abbreviation sat_safe :: "leaf_card list \<Rightarrow> ('u, 'a) sess \<Rightarrow> 'u session \<Rightarrow> bool" where
  "sat_safe inventory m s \<equiv> sat m (\<lambda>_. safe_step inventory s) (\<lambda>_. safe_step inventory s) (safe_step inventory s) s"

lemma safe_settles: "settles m \<Longrightarrow> go_map (controls_of s) \<Longrightarrow> sat_safe inventory m s"
  unfolding settles_def by (auto intro: sat_mono [of m] settled_safe)

lemma safe_bind:
  assumes "sat_safe inventory m s" and "\<And>x t. safe_step inventory s t \<Longrightarrow> sat_safe inventory (k x) t"
  shows "sat_safe inventory (pr_bind m k) s"
  by (rule sat_bindI [OF assms(1)]) (auto intro: sat_mono [OF assms(2)] safe_step_trans)

lemma good_mark: "good inventory s i \<Longrightarrow> good inventory (s\<lparr>SFolders := (SFolders s)[n := (SFolders s ! n)\<lparr>FPaused := b\<rparr>]\<rparr>) i"
proof -
  assume "good inventory s i"
  then obtain k where k: "k < length (SFolders s)" "FID (SFolders s ! k) = i" "safe_folder inventory (controls_of s) (SFolders s ! k) (files (CardW (Sync s)))"
    by (auto simp: good_def in_set_conv_nth)
  let ?fs = "(SFolders s)[n := (SFolders s ! n)\<lparr>FPaused := b\<rparr>]"
  have "?fs ! k = SFolders s ! k \<or> ?fs ! k = (SFolders s ! k)\<lparr>FPaused := b\<rparr>"
    using k(1) by (cases "n = k") simp_all
  then have "FID (?fs ! k) = i \<and> safe_folder inventory (controls_of s) (?fs ! k) (files (CardW (Sync s)))"
    using k(2,3) by (elim disjE) (simp_all only: safe_folder_paused, simp)
  moreover have "?fs ! k \<in> set ?fs" using k(1) by (intro nth_mem) simp
  ultimately show ?thesis unfolding good_def by (intro bexI [of _ "?fs ! k"]) (simp_all add: controls_of_def)
qed

lemma safe_mark: "go_map (controls_of s) \<Longrightarrow> sat_safe inventory (mark_paused n b) s"
  by (auto simp: mark_paused_def safe_step_def good_mark map_FID_update) (simp add: controls_of_def)

lemma safe_pause_up:
  assumes "go_map (controls_of s)" and "\<not> b \<Longrightarrow> good inventory s i"
  shows "sat_safe inventory (pause_up env i b) s"
proof (cases b)
  case True
  then show ?thesis using safe_settles [OF settles_up [OF harmless_pause] assms(1)] by (simp add: pause_up_def)
next
  case False

  obtain r u where run: "set_folder_paused (SeParse env) (SeServer env) i b (Up s) = (r, u)" by fastforce
  then have "calls u = calls (Up s) \<or> (\<exists>c. calls u = calls (Up s) @ [c] \<and> APath c = folder_path i)"
    by (auto simp: set_folder_paused_def up_fail_def api_send_def up_bind_def api_json_def api_call_of_def Let_def up_ret_def
        split: if_splits prod.splits sum.splits option.splits)
  then have "safe_step inventory s (s\<lparr>Up := u\<rparr>)"
    using assms False by (auto simp: safe_step_def grown_def run_calls_def good_def controls_of_def)
  then show ?thesis by (simp add: sat_def pause_up_def on_up_def run split: sum.split)
qed

lemma find_append: "find P (xs @ ys) = (case find P xs of None \<Rightarrow> find P ys | Some x \<Rightarrow> Some x)"
  by (induction xs) auto

lemma pause_set_last: "map_of (pause_set_of rows) i = map_option RowPaused (find (\<lambda>row. RowID row = i) (rev rows))"
proof -
  have "go_map m \<Longrightarrow> go_map (fold (\<lambda>row m. map_put (RowID row) (RowPaused row) m) rows m) \<and>
      map_of (fold (\<lambda>row m. map_put (RowID row) (RowPaused row) m) rows m) i =
      (case find (\<lambda>row. RowID row = i) (rev rows) of None \<Rightarrow> map_of m i | Some row \<Rightarrow> Some (RowPaused row))" for m
  proof (induction rows arbitrary: m)
    case (Cons r rows)
    show ?case using Cons.IH [OF go_map_put [OF Cons.prems, of "RowID r" "RowPaused r"]] Cons.prems
      by (auto simp: find_append split: option.split)
  qed simp
  from this [of "[]"] show ?thesis by (auto simp: pause_set_of_def split: option.split)
qed


lemma find_member: "find P xs = Some x \<Longrightarrow> x \<in> set xs \<and> P x"
  by (induction xs) (auto split: if_splits)

lemma rows_good:
  assumes rows: "list_all2 (\<lambda>folder row. RowID row = FID folder \<and> (\<not> RowPaused row \<longrightarrow> safe_folder inventory controls folder f)) folders rows"
    and "i \<in> FID ` set folders" and "\<not> held (pause_set_of rows) i"
  shows "\<exists>folder \<in> set folders. FID folder = i \<and> safe_folder inventory controls folder f"
proof -
  have ids: "map RowID rows = map FID folders"
    using rows by (induction rule: list_all2_induct) auto
  then have "i \<in> RowID ` set rows" using assms(2) by (metis list.set_map)
  then have "find (\<lambda>row. RowID row = i) (rev rows) \<noteq> None" by (auto simp: find_None_iff)
  then obtain row where row: "find (\<lambda>row. RowID row = i) (rev rows) = Some row" by blast
  then have "\<not> RowPaused row" using assms(3) by (simp add: held_def pause_set_last)
  moreover have "row \<in> set rows" "RowID row = i" using find_member [OF row] by simp_all
  moreover obtain k where k: "k < length rows" "row = rows ! k" using \<open>row \<in> set rows\<close> by (auto simp: in_set_conv_nth)
  moreover have "k < length folders" using k(1) list_all2_lengthD [OF rows] by simp
  ultimately show ?thesis using list_all2_nthD2 [OF rows k(1)]
    by (intro bexI [of _ "folders ! k"]) simp_all
qed

lemma offline_sat: "sat (offline_pauses inventory)
    (\<lambda>pauses t. settled_step s t \<and> (\<forall>i \<in> FID ` set (SFolders s). \<not> held pauses i \<longrightarrow> good inventory t i)) (\<lambda>_. settled_step s) (settled_step s) s"
proof -
  let ?f = "files (CardW (Sync s))"
  have "wp True (required_offline_pause_set inventory (controls_of s) (SFolders s)) (\<lambda>pauses g. g = ?f \<and>
      (\<forall>i \<in> FID ` set (SFolders s). \<not> held pauses i \<longrightarrow> (\<exists>folder \<in> set (SFolders s). FID folder = i \<and>
        safe_folder inventory (controls_of s) folder ?f))) (\<lambda>_ g. g = ?f) (\<lambda>g. g = ?f) ?f"
    unfolding required_offline_pause_set_def
    by (rule wp_bindI, rule wp_mono [OF reconcile_rows_wp]) (auto simp: wp_ret intro: rows_good)
  then show ?thesis
    by (auto simp: offline_pauses_def on_disk_def sat_on_sync settled_step_def controls_of_def good_def elim!: sat_on_card)
qed

definition has_folder :: "string \<Rightarrow> nat \<Rightarrow> 'u session \<Rightarrow> bool" where
  "has_folder i n s \<longleftrightarrow> go_map (controls_of s) \<and> n < length (SFolders s) \<and> FID (SFolders s ! n) = i"

lemma run_if_safe_sat:
  assumes "has_folder i n s" and "settles after_run"
  shows "sat_safe inventory (run_if_safe env inventory i n after_run) s"
proof -
  have i: "i \<in> FID ` set (SFolders s)" and maps: "go_map (controls_of s)" using assms(1) by (auto simp: has_folder_def)
  have "sat_safe inventory (pr_bind (pause_up env i False) (\<lambda>_. pr_bind (mark_paused n False) (\<lambda>_. after_run))) t"
    if "safe_step inventory s t" "good inventory t i" for t
    using that by (intro safe_bind safe_pause_up safe_mark safe_settles [OF assms(2)]) (auto simp: safe_step_def)
  note run = this
  show ?thesis unfolding run_if_safe_def
  proof (rule sat_bindI [OF offline_sat])
    fix pauses t
    assume "settled_step s t \<and> (\<forall>i \<in> FID ` set (SFolders s). \<not> held pauses i \<longrightarrow> good inventory t i)"
    then have t: "safe_step inventory s t" "\<not> held pauses i \<longrightarrow> good inventory t i" using settled_safe maps i by auto
    have maps_t: "go_map (controls_of t)" using t(1) by (simp add: safe_step_def)
    have "sat_safe inventory (if held pauses i then pr_ret () else pr_bind (pause_up env i False) (\<lambda>_. pr_bind (mark_paused n False) (\<lambda>_. after_run))) t"
      using run [OF t(1)] t(2) maps_t by simp
    then show "sat (if held pauses i then pr_ret () else pr_bind (pause_up env i False) (\<lambda>_. pr_bind (mark_paused n False) (\<lambda>_. after_run)))
        (\<lambda>_. safe_step inventory s) (\<lambda>_. safe_step inventory s) (safe_step inventory s) t"
      by (rule sat_mono) (auto intro: safe_step_trans [OF t(1)])
  qed (use settled_safe maps in auto)
qed


lemma safe_each:
  assumes "go_map (controls_of s)" and "\<And>x t. x \<in> set xs \<Longrightarrow> safe_step inventory s t \<Longrightarrow> sat_safe inventory (m x) t"
  shows "sat_safe inventory (pr_each m xs) s"
  using assms
proof (induction xs arbitrary: s)
  case (Cons x xs)
  have "sat_safe inventory (pr_each m xs) t" if t: "safe_step inventory s t" for t
  proof (rule Cons.IH)
    show "go_map (controls_of t)" using t by (simp add: safe_step_def)
    fix y u assume "y \<in> set xs" "safe_step inventory t u"
    then show "sat_safe inventory (m y) u" using Cons.prems(2) safe_step_trans [OF t] by simp
  qed
  then show ?case using Cons.prems by (auto intro: safe_bind)
qed simp

section \<open>Operations\<close>

text \<open>Steps that let no folder run, whatever else they change.\<close>

definition still_step :: "'u session \<Rightarrow> 'u session \<Rightarrow> bool" where
  "still_step s t \<longleftrightarrow> grown s t \<and> run_calls s t = [] \<and> (go_map (controls_of s) \<longrightarrow> go_map (controls_of t))"

definition still :: "('u, 'a) sess \<Rightarrow> bool" where
  "still m \<longleftrightarrow> (\<forall>s. sat m (\<lambda>_. still_step s) (\<lambda>_. still_step s) (still_step s) s)"

lemma still_step_trans: "still_step s t \<Longrightarrow> still_step t u \<Longrightarrow> still_step s u"
  unfolding still_step_def using run_calls_trans [of s t u] grown_trans [of s t u] by auto

lemma still_bind: "still m \<Longrightarrow> (\<And>x. still (k x)) \<Longrightarrow> still (pr_bind m k)"
  unfolding still_def
proof (intro allI)
  fix s
  assume m: "\<forall>s. sat m (\<lambda>_. still_step s) (\<lambda>_. still_step s) (still_step s) s"
    and k: "\<And>x. \<forall>s. sat (k x) (\<lambda>_. still_step s) (\<lambda>_. still_step s) (still_step s) s"
  show "sat (pr_bind m k) (\<lambda>_. still_step s) (\<lambda>_. still_step s) (still_step s) s"
    by (rule sat_bindI [OF m [rule_format]]) (auto intro: sat_mono [OF k [rule_format]] still_step_trans)
qed

lemma still_calm: "calm m \<Longrightarrow> still m"
  unfolding calm_def still_def by (auto intro: sat_mono [of m] simp: calm_step_def still_step_def)

lemma still_settles: "settles m \<Longrightarrow> still m"
  by (rule still_calm) (rule settles_calm)

lemma still_folders: "still (put_folder n f)" "still (drop_folder n)" "still (pr_put (\<lambda>s. s\<lparr>SFolders := g (SFolders s)\<rparr>))"
  by (simp_all add: still_def still_step_def put_folder_def drop_folder_def controls_of_def)

lemma still_if: "(b \<Longrightarrow> still m) \<Longrightarrow> (\<not> b \<Longrightarrow> still n) \<Longrightarrow> still (if b then m else n)"
  by simp

lemma still_when: "(b \<Longrightarrow> still m) \<Longrightarrow> still (pr_when b m)"
  by (simp add: pr_when_def still_settles settles_prims)

lemma still_option: "(x = None \<Longrightarrow> still m) \<Longrightarrow> (\<And>y. x = Some y \<Longrightarrow> still (k y)) \<Longrightarrow> still (case x of None \<Rightarrow> m | Some y \<Rightarrow> k y)"
  by (cases x) simp_all

lemma still_pair: "(\<And>x y. p = (x, y) \<Longrightarrow> still (k x y)) \<Longrightarrow> still (case p of (x, y) \<Rightarrow> k x y)"
  by (cases p) simp

lemma still_Let: "(\<And>x. x = v \<Longrightarrow> still (k x)) \<Longrightarrow> still (let x = v in k x)"
  by simp

lemma still_each: "(\<And>x. still (m x)) \<Longrightarrow> still (pr_each m xs)"
  by (induction xs) (simp_all add: still_bind still_settles settles_prims)

lemma still_assigning: "still m \<Longrightarrow> still (assigning_folders m)"
  unfolding still_def assigning_folders_def
  by (fastforce simp: sat_def still_step_def grown_def run_calls_def controls_of_def split: prod.splits outcome.splits)

lemma still_action: "settles (safe_row i e)" "settles (configured i e)" "settles (folder_card folder inventory e)" "settles (action_row env i)"
  unfolding safe_row_def configured_def folder_card_def action_row_def by (intro calm_intro)+

lemma settles_pause: "settles (pause_up env i True)"
  unfolding pause_up_def by (intro calm_intro harmless_intro)

lemmas still_rules = still_bind still_if still_when still_option still_pair still_Let still_each still_assigning still_folders
  calm_disk [THEN still_calm] calm_control [THEN still_calm] calm_mark [THEN still_calm]
  calm_sync [OF keeps_maps_first_sync(1), THEN still_calm] calm_sync [OF keeps_maps_first_sync(2), THEN still_calm]
  calm_sync [OF keeps_maps_first_sync(3), THEN still_calm]
  settles_prims [THEN still_settles] settles_inventory [THEN still_settles] settles_refresh [THEN still_settles]
  still_action [THEN still_settles] settles_pause [THEN still_settles] settles_up [THEN still_settles]

lemma quiet_operations:
  "still (folder_stop env looked order i)" "still (folder_pause env i)" "still (folder_rescan env i)" "still (folder_rename env i label)"
  "still (folder_inspect env scan i)" "still (prepare_first_sync_op env looked input i)" "still (offer_action_op env b i d)"
  "still (enroll_card_op sources enrolled looked i)" "still (peer_add_op env networks d name)" "still (peer_rename_op env d name)"
  "still (peer_remove_op env d)" "still (recover_pending_folder_stops env inventory order)" "still (recover_pending_device_removal env)"
  unfolding folder_stop_def folder_pause_def folder_rescan_def folder_rename_def folder_inspect_def prepare_first_sync_op_def
    offer_action_op_def enroll_card_op_def peer_add_op_def peer_rename_op_def peer_remove_op_def recover_pending_folder_stops_def
    recover_stop_def recover_pending_device_removal_def
  by ((intro still_rules harmless_intro)+)


section \<open>Operations that let a folder run\<close>

lemma still_then_safe: "still_step s t \<Longrightarrow> runs_safely inventory t u \<Longrightarrow> runs_safely inventory s u"
  unfolding still_step_def runs_safely_def using run_calls_trans [of s t u] grown_trans [of s t u] by auto

lemma safe_runs: "safe_step inventory s t \<Longrightarrow> runs_safely inventory s t"
  by (simp add: safe_step_def runs_safely_def)

text \<open>From a state with the folder \<open>i\<close> at \<open>n\<close>, or from any state with records in order.\<close>

definition lets :: "leaf_card list \<Rightarrow> ('u session \<Rightarrow> bool) \<Rightarrow> ('u, 'a) sess \<Rightarrow> bool" where
  "lets inventory P m \<longleftrightarrow> (\<forall>s. P s \<longrightarrow> sat m (\<lambda>_. runs_safely inventory s) (\<lambda>_. runs_safely inventory s) (runs_safely inventory s) s)"

definition ordered :: "'u session \<Rightarrow> bool" where "ordered s \<longleftrightarrow> go_map (controls_of s)"

definition stable :: "('u session \<Rightarrow> bool) \<Rightarrow> bool" where
  "stable P \<longleftrightarrow> (\<forall>s t. calm_step s t \<longrightarrow> P s \<longrightarrow> P t) \<and> (\<forall>s. P s \<longrightarrow> ordered s)"

lemma stable_has: "stable (has_folder i n)"
proof -
  have "has_folder i n t" if "calm_step s t" "has_folder i n s" for s t
  proof -
    have "length (SFolders t) = length (SFolders s)" using that(1) unfolding calm_step_def by (metis length_map)
    moreover have "map FID (SFolders t) ! n = map FID (SFolders s) ! n" using that(1) by (simp only: calm_step_def)
    ultimately show ?thesis using that unfolding has_folder_def calm_step_def by (metis nth_map)
  qed
  then show ?thesis by (auto simp: stable_def has_folder_def ordered_def)
qed

lemma stable_ordered: "stable ordered"
  by (simp add: stable_def ordered_def calm_step_def)

lemma still_lets: "still m \<Longrightarrow> (\<And>s. P s \<Longrightarrow> ordered s) \<Longrightarrow> lets inventory P m"
  unfolding lets_def
proof (intro allI impI)
  fix s :: "'a session"
  assume m: "still m" and P: "\<And>s. P s \<Longrightarrow> ordered s" and "P s"
  then have "ordered s" by simp
  then have runs: "runs_safely inventory s t" if "still_step s t" for t
    using that by (simp add: still_step_def runs_safely_def ordered_def)
  show "sat m (\<lambda>_. runs_safely inventory s) (\<lambda>_. runs_safely inventory s) (runs_safely inventory s) s"
    by (rule sat_mono [OF m [unfolded still_def, rule_format]]) (simp_all add: runs)
qed

lemma still_then_sat: "still_step s t \<Longrightarrow> sat k (\<lambda>_. runs_safely inventory t) (\<lambda>_. runs_safely inventory t) (runs_safely inventory t) t \<Longrightarrow>
    sat k (\<lambda>_. runs_safely inventory s) (\<lambda>_. runs_safely inventory s) (runs_safely inventory s) t"
  by (rule sat_mono, assumption) (erule still_then_safe, assumption)+

lemma lets_bind:
  assumes "calm m" and "stable P" and "\<And>x. lets inventory P (k x)"
  shows "lets inventory P (pr_bind m k)"
  unfolding lets_def
proof (intro allI impI)
  fix s assume s: "P s"
  have m: "sat m (\<lambda>_. calm_step s) (\<lambda>_. calm_step s) (calm_step s) s" using assms(1) by (simp add: calm_def)
  have still: "still_step s t" if "calm_step s t" for t using that by (simp add: calm_step_def still_step_def)
  have "ordered s" using s assms(2) by (simp add: stable_def)
  then have runs: "runs_safely inventory s t" if "calm_step s t" for t
    using that by (simp add: ordered_def calm_runs_safely)
  show "sat (pr_bind m k) (\<lambda>_. runs_safely inventory s) (\<lambda>_. runs_safely inventory s) (runs_safely inventory s) s"
  proof (rule sat_bindI [OF m])
    fix x t assume t: "calm_step s t"
    then have "P t" using s assms(2) by (auto simp: stable_def)
    then show "sat (k x) (\<lambda>_. runs_safely inventory s) (\<lambda>_. runs_safely inventory s) (runs_safely inventory s) t"
      by (intro still_then_sat [OF still [OF t]] assms(3) [unfolded lets_def, rule_format])
  qed (use runs in auto)
qed

lemma lets_if: "(b \<Longrightarrow> lets inventory P m) \<Longrightarrow> (\<not> b \<Longrightarrow> lets inventory P n) \<Longrightarrow> lets inventory P (if b then m else n)"
  by simp

lemma lets_pair: "(\<And>x y. p = (x, y) \<Longrightarrow> lets inventory P (k x y)) \<Longrightarrow> lets inventory P (case p of (x, y) \<Rightarrow> k x y)"
  by (cases p) simp

lemma find_configured_at: "find_configured_at k fs i = Some (f, n) \<Longrightarrow> k \<le> n \<and> n < k + length fs \<and> fs ! (n - k) = f \<and> FID f = i"
proof (induction fs arbitrary: k)
  case (Cons g fs)
  show ?case
  proof (cases "FID g = i")
    case False
    then have "Suc k \<le> n \<and> n < Suc k + length fs \<and> fs ! (n - Suc k) = f \<and> FID f = i"
      using Cons.prems by (intro Cons.IH) simp
    moreover from this have "n - k = Suc (n - Suc k)" by arith
    ultimately show ?thesis by simp
  qed (use Cons.prems in simp)
qed simp

lemma find_configured: "find_configured_folder fs i = Some (f, n) \<Longrightarrow> n < length fs \<and> fs ! n = f \<and> FID f = i"
  using find_configured_at [of 0 fs i f n] by (simp add: find_configured_folder_def)

lemma lets_configured:
  assumes "\<And>folder n. FID folder = i \<Longrightarrow> lets inventory (has_folder i n) (k folder n)"
  shows "lets inventory ordered (pr_bind (configured i e) (case_prod k))"
  unfolding lets_def
proof (intro allI impI)
  fix s :: "'a session" assume s: "ordered s"
  show "sat (pr_bind (configured i e) (case_prod k)) (\<lambda>_. runs_safely inventory s) (\<lambda>_. runs_safely inventory s) (runs_safely inventory s) s"
  proof (cases "find_configured_folder (SFolders s) i")
    case None
    then show ?thesis using s by (simp add: configured_def sat_bind runs_safely_def ordered_def)
  next
    case (Some x)
    obtain folder n where x: "x = (folder, n)" by (cases x)
    then have "has_folder i n s" "FID folder = i" using find_configured [of "SFolders s" i folder n] Some s by (auto simp: has_folder_def ordered_def)
    then show ?thesis using assms [unfolded lets_def] Some x by (simp add: configured_def sat_bind)
  qed
qed

lemma lets_put:
  assumes "FID f = i" and "lets inventory (has_folder i n) k"
  shows "lets inventory (has_folder i n) (pr_bind (put_folder n f) (\<lambda>_. k))"
  unfolding lets_def
proof (intro allI impI)
  fix s :: "'a session" assume s: "has_folder i n s"
  let ?t = "s\<lparr>SFolders := (SFolders s)[n := f]\<rparr>"
  have "has_folder i n ?t" using s assms(1) by (simp add: has_folder_def controls_of_def)
  moreover have "still_step s ?t" by (simp add: still_step_def controls_of_def)
  ultimately show "sat (pr_bind (put_folder n f) (\<lambda>_. k)) (\<lambda>_. runs_safely inventory s) (\<lambda>_. runs_safely inventory s) (runs_safely inventory s) s"
    using still_then_sat [OF _ assms(2) [unfolded lets_def, rule_format]] by (simp add: put_folder_def)
qed

lemma lets_run_if_safe:
  assumes "settles after_run" and "\<And>x. settles (k x)"
  shows "lets inventory (has_folder i n) (pr_bind (run_if_safe env inventory i n after_run) k)"
  unfolding lets_def
proof (intro allI impI)
  fix s :: "'a session" assume s: "has_folder i n s"
  have "sat_safe inventory (pr_bind (run_if_safe env inventory i n after_run) k) s"
    by (rule safe_bind [OF run_if_safe_sat [OF s assms(1)] safe_settles [OF assms(2)]]) (simp add: safe_step_def)
  then show "sat (pr_bind (run_if_safe env inventory i n after_run) k) (\<lambda>_. runs_safely inventory s) (\<lambda>_. runs_safely inventory s) (runs_safely inventory s) s"
    by (rule sat_mono) (simp_all add: safe_runs)
qed

lemma settles_finish: "settles (finish_rescan env i)"
  unfolding finish_rescan_def by (intro calm_intro harmless_intro)

lemma settles_tail: "settles (pr_bind (show_inventory inventory) (\<lambda>_. refresh env))"
  by (intro calm_intro)

lemmas calm_steps = settles_prims [THEN settles_calm] settles_inventory [THEN settles_calm] settles_refresh [THEN settles_calm]
  still_action [THEN settles_calm] settles_pause [THEN settles_calm] settles_up [THEN settles_calm]
  calm_disk calm_control calm_mark calm_when calm_sync keeps_maps_first_sync harmless_folder_calls


lemma lift_Inr [simp]: "pr_bind (pr_lift (Inr x)) k = k x"
  by (simp add: pr_bind_def pr_lift_def pr_ret_def)

lemma lift_Inl [simp]: "pr_bind (pr_lift (Inl e)) k = pr_fail e"
  by (simp add: pr_bind_def pr_lift_def pr_fail_def)

lemma start_first_sync_lets: "lets inventory ordered (start_first_sync_op env (Inr inventory) i hub)"
  unfolding start_first_sync_op_def lift_Inr
  by (rule lets_configured) (intro lets_bind stable_has calm_steps lets_run_if_safe settles_finish settles_tail)

lemma typed_id [simp]: "FID (typed_folder folder typ c) = FID folder"
  by (simp add: typed_folder_def Let_def)

lemma set_folder_type_lets: "lets inventory ordered (set_folder_type_op env (Inr inventory) i typ)"
  unfolding set_folder_type_op_def lift_Inr Let_def
proof (rule lets_bind [OF settles_calm [OF settles_refresh] stable_ordered], rule lets_bind [OF settles_calm [OF still_action(1)] stable_ordered],
    rule lets_configured, rule lets_if)
  fix folder :: configured_folder and n
  show "lets inventory (has_folder i n) (pr_ret ())"
    by (rule still_lets [OF settles_prims(1) [THEN still_settles]]) (simp add: has_folder_def ordered_def)
qed (intro lets_bind stable_has calm_steps lets_put lets_run_if_safe settles_tail settles_prims, simp)

lemma membership_id: "folder_with_membership folder self peer present = Inr (g, changed) \<Longrightarrow> FID g = FID folder"
  by (auto simp: folder_with_membership_def sum_bind_def Let_def split: sum.splits if_splits)

lemma lets_done: "\<lbrakk>\<And>s. P s \<Longrightarrow> ordered s; settles m\<rbrakk> \<Longrightarrow> lets inventory P m"
  by (rule still_lets) (simp_all add: still_settles)

lemma lets_lift: "\<lbrakk>\<And>s. P s \<Longrightarrow> ordered s; \<And>x. r = Inr x \<Longrightarrow> lets inventory P (k x)\<rbrakk> \<Longrightarrow> lets inventory P (pr_bind (pr_lift r) k)"
  by (cases r) (auto simp: lets_def sat_bind runs_safely_def ordered_def grown_def run_calls_def)

lemma folder_membership_lets: "lets inventory ordered (folder_membership_op env (Inr inventory) present i raw)"
  unfolding folder_membership_op_def lift_Inr
proof (rule lets_bind [OF settles_calm [OF settles_prims(4)] stable_ordered], rule lets_bind [OF settles_calm [OF settles_refresh] stable_ordered],
    rule lets_bind [OF settles_calm [OF still_action(1)] stable_ordered], rule lets_configured, 
    rule lets_bind [OF settles_calm [OF settles_prims(3)] stable_has], rule lets_bind [OF settles_calm [OF settles_prims(5)] stable_has],
    rule lets_lift, simp add: has_folder_def ordered_def)
  fix device and folder :: configured_folder and n and x :: "configured_folder \<times> bool" and row :: live_row
  assume "FID folder = i" and "folder_with_membership folder (SeSelf env) device present = Inr x"
  then have "FID (fst x) = i" using membership_id [of folder _ _ _ "fst x" "snd x"] by simp
  moreover have "has_folder i n s \<Longrightarrow> ordered s" for s :: "'a session" by (simp add: has_folder_def ordered_def)
  ultimately show "lets inventory (has_folder i n) (case x of (target, changed) \<Rightarrow>
     pr_bind (pr_get (\<lambda>s. control_of (controls_of s) i)) (\<lambda>r.
     if \<not> changed \<and> PendingMembership r = '''' then pr_ret ()
     else if \<not> changed \<and> (PendingMembership r \<noteq> membership_intent present \<or> PendingDeviceID r \<noteq> device)
     then pr_fail ''another folder membership change is pending''
     else pr_bind (control_op_do env (Begin_Membership i device (membership_intent present))) (\<lambda>_.
     pr_bind (show_inventory inventory) (\<lambda>_.
     pr_bind (on_up (set_managed_folder_devices (SeParse env) (SeServer env) target)) (\<lambda>_.
     pr_bind (put_folder n target) (\<lambda>_.
     pr_bind (control_op_do env (Complete_Membership i)) (\<lambda>_.
     pr_bind (run_if_safe env inventory i n (pr_ret ())) (\<lambda>_.
     pr_bind (show_inventory inventory) (\<lambda>_. refresh env)))))))))"
    by (cases x) (auto intro!: lets_bind [OF settles_calm [OF settles_prims(3)]] lets_if lets_bind stable_has calm_steps lets_put lets_run_if_safe
      settles_tail settles_prims intro: lets_done)
qed

section \<open>Recoveries that let a folder run\<close>

lemma safe_after: "safe_step inventory s t \<Longrightarrow> sat_safe inventory m t \<Longrightarrow>
    sat m (\<lambda>_. safe_step inventory s) (\<lambda>_. safe_step inventory s) (safe_step inventory s) t"
  by (rule sat_mono, assumption) (erule safe_step_trans, assumption)+

lemma still_recover_membership: "still (recover_membership env e)"
  unfolding recover_membership_def by (intro still_rules harmless_intro)

lemma safe_settle_row:
  assumes "go_map (controls_of s)" and "\<not> RowPaused row \<Longrightarrow> good inventory s (RowID row)"
  shows "sat_safe inventory (settle_row env recovered row) s"
  unfolding settle_row_def
proof (cases "RowID row \<in> set recovered")
  case True
  have "sat_safe inventory (pr_bind (pr_get (\<lambda>s. find_configured_folder (SFolders s) (RowID row))) (\<lambda>found. case found of
      None \<Rightarrow> pr_ret () | Some (_, n) \<Rightarrow> mark_paused n (RowPaused row))) t" if "go_map (controls_of t)" for t :: "'a session"
    using that by (auto split: option.split simp: safe_mark)
  note tail = this
  have "sat_safe inventory (pr_bind (pause_up env (RowID row) (RowPaused row)) (\<lambda>_.
      pr_bind (pr_get (\<lambda>s. find_configured_folder (SFolders s) (RowID row))) (\<lambda>found. case found of
        None \<Rightarrow> pr_ret () | Some (_, n) \<Rightarrow> mark_paused n (RowPaused row)))) s"
    by (rule safe_bind [OF safe_pause_up [OF assms]], assumption, rule tail) (simp add: safe_step_def)
  then show "sat_safe inventory (if RowID row \<notin> set recovered then pr_ret () else pr_bind (pause_up env (RowID row) (RowPaused row)) (\<lambda>_.
      pr_bind (pr_get (\<lambda>s. find_configured_folder (SFolders s) (RowID row))) (\<lambda>found. case found of
        None \<Rightarrow> pr_ret () | Some (_, n) \<Rightarrow> mark_paused n (RowPaused row)))) s"
    using True by simp
qed (use assms(1) in simp)

lemma safe_rows_good:
  assumes "list_all2 (\<lambda>folder row. RowID row = FID folder \<and> (\<not> RowPaused row \<longrightarrow>
      safe_folder inventory (controls_of s) folder (files (CardW (Sync s))))) (SFolders s) rows"
    and "row \<in> set rows" "\<not> RowPaused row"
  shows "good inventory s (RowID row)"
proof -
  obtain k where k: "k < length rows" "rows ! k = row" using assms(2) by (auto simp: in_set_conv_nth)
  moreover have "k < length (SFolders s)" using k(1) list_all2_lengthD [OF assms(1)] by simp
  ultimately show ?thesis using list_all2_nthD2 [OF assms(1) k(1)] assms(3)
    unfolding good_def by (intro bexI [of _ "SFolders s ! k"]) auto
qed

lemma rows_run_safely: "sat (on_disk (reconcile_managed_folders inventory (controls_of s) (SFolders s)))
    (\<lambda>rows t. settled_step s t \<and> (\<forall>row \<in> set rows. \<not> RowPaused row \<longrightarrow> good inventory t (RowID row))) (\<lambda>_. settled_step s) (settled_step s) s"
proof -
  let ?f = "files (CardW (Sync s))"
  have "wp True (reconcile_managed_folders inventory (controls_of s) (SFolders s)) (\<lambda>rows g. g = ?f \<and>
      (\<forall>row \<in> set rows. \<not> RowPaused row \<longrightarrow> good inventory s (RowID row))) (\<lambda>_ g. g = ?f) (\<lambda>g. g = ?f) ?f"
    by (rule wp_mono [OF reconcile_rows_wp]) (auto intro: safe_rows_good)
  then show ?thesis
    by (auto simp: on_disk_def sat_on_sync settled_step_def controls_of_def good_def elim!: sat_on_card)
qed

lemma lets_still_then:
  assumes m: "still m" and k: "\<And>x. lets inventory ordered (k x)"
  shows "lets inventory ordered (pr_bind m k)"
  unfolding lets_def
proof (intro allI impI)
  fix s :: "'a session" assume "ordered s"
  then have ordered: "ordered t" and runs: "runs_safely inventory s t" if "still_step s t" for t
    using that by (simp_all add: still_step_def ordered_def runs_safely_def)
  show "sat (pr_bind m k) (\<lambda>_. runs_safely inventory s) (\<lambda>_. runs_safely inventory s) (runs_safely inventory s) s"
  proof (rule sat_bindI [OF m [unfolded still_def, rule_format]])
    fix x t assume t: "still_step s t"
    show "sat (k x) (\<lambda>_. runs_safely inventory s) (\<lambda>_. runs_safely inventory s) (runs_safely inventory s) t"
      by (rule still_then_sat [OF t k [unfolded lets_def, rule_format, OF ordered [OF t]]])
  qed (use runs in auto)
qed

lemma lets_safe: "(\<And>s. ordered s \<Longrightarrow> sat_safe inventory m s) \<Longrightarrow> lets inventory ordered m"
  unfolding lets_def by (auto intro: sat_mono [of m] safe_runs)

lemma settle_rows_lets: "lets inventory ordered (pr_bind (pr_get (\<lambda>s. (SFolders s, controls_of s))) (\<lambda>(folders, controls).
    pr_bind (on_disk (reconcile_managed_folders inventory controls folders)) (\<lambda>rows. pr_each (settle_row env recovered) rows)))"
proof (rule lets_safe)
  fix s :: "'a session" assume s: "ordered s"
  have each: "sat_safe inventory (pr_each (settle_row env recovered) rows) s"
    if "\<forall>row \<in> set rows. \<not> RowPaused row \<longrightarrow> good inventory s (RowID row)" "ordered s" for rows :: "folder_row list" and s :: "'a session"
    using that by (intro safe_each safe_settle_row) (auto simp: ordered_def safe_step_def)
  have "sat_safe inventory (pr_bind (on_disk (reconcile_managed_folders inventory (controls_of s) (SFolders s))) (\<lambda>rows.
      pr_each (settle_row env recovered) rows)) s"
  proof (rule sat_bindI [OF rows_run_safely])
    fix rows :: "folder_row list" and t
    assume *: "settled_step s t \<and> (\<forall>row \<in> set rows. \<not> RowPaused row \<longrightarrow> good inventory t (RowID row))"
    then have t: "safe_step inventory s t" using s by (simp add: settled_safe ordered_def)
    have "sat_safe inventory (pr_each (settle_row env recovered) rows) t" using each [of rows t] t * by (simp add: ordered_def safe_step_def)
    then show "sat (pr_each (settle_row env recovered) rows) (\<lambda>_. safe_step inventory s) (\<lambda>_. safe_step inventory s) (safe_step inventory s) t"
      by (rule safe_after [OF t])
  qed (use s in \<open>auto simp: settled_safe ordered_def\<close>)
  then show "sat_safe inventory (pr_bind (pr_get (\<lambda>s. (SFolders s, controls_of s))) (\<lambda>(folders, controls).
    pr_bind (on_disk (reconcile_managed_folders inventory controls folders)) (\<lambda>rows. pr_each (settle_row env recovered) rows))) s" by simp
qed

lemma recover_memberships_lets: "lets inventory ordered (recover_folder_memberships env inventory order)"
  unfolding recover_folder_memberships_def Let_def
  by (intro lets_still_then still_each still_recover_membership still_settles [OF settles_prims(3)] lets_if settle_rows_lets
      lets_done settles_prims)

text \<open>Steps that let no folder run and keep the records.\<close>

definition unmoved_step :: "'u session \<Rightarrow> 'u session \<Rightarrow> bool" where
  "unmoved_step s t \<longleftrightarrow> grown s t \<and> run_calls s t = [] \<and> controls_of t = controls_of s \<and> length (SFolders t) = length (SFolders s)"

definition unmoved :: "('u, 'a) sess \<Rightarrow> bool" where
  "unmoved m \<longleftrightarrow> (\<forall>s. sat m (\<lambda>_. unmoved_step s) (\<lambda>_. unmoved_step s) (unmoved_step s) s)"

lemma unmoved_step_trans: "unmoved_step s t \<Longrightarrow> unmoved_step t u \<Longrightarrow> unmoved_step s u"
  unfolding unmoved_step_def using run_calls_trans [of s t u] grown_trans [of s t u] by auto

lemma unmoved_bind: "unmoved m \<Longrightarrow> (\<And>x. unmoved (k x)) \<Longrightarrow> unmoved (pr_bind m k)"
  unfolding unmoved_def
proof (intro allI)
  fix s
  assume m: "\<forall>s. sat m (\<lambda>_. unmoved_step s) (\<lambda>_. unmoved_step s) (unmoved_step s) s"
    and k: "\<And>x. \<forall>s. sat (k x) (\<lambda>_. unmoved_step s) (\<lambda>_. unmoved_step s) (unmoved_step s) s"
  show "sat (pr_bind m k) (\<lambda>_. unmoved_step s) (\<lambda>_. unmoved_step s) (unmoved_step s) s"
    by (rule sat_bindI [OF m [rule_format]]) (auto intro: sat_mono [OF k [rule_format]] unmoved_step_trans)
qed

lemma unmoved_prims: "unmoved (pr_ret x)" "unmoved (pr_get g)" "unmoved (put_folder n f)" "unmoved (pr_fail e)"
  by (simp_all add: unmoved_def unmoved_step_def put_folder_def controls_of_def)

lemma unmoved_disk: "unmoved (on_disk m)"
  unfolding unmoved_def on_disk_def sat_on_sync
  by (auto simp: sat_def on_card_def on_files_def unmoved_step_def controls_of_def split: prod.split outcome.split)

lemma unmoved_up: "harmless m \<Longrightarrow> unmoved (on_up m)"
  unfolding unmoved_def
proof (intro allI)
  fix s :: "'a session"
  assume m: "harmless m"
  obtain r u where run: "m (Up s) = (r, u)" by fastforce
  have "\<exists>cs. calls u = calls (Up s) @ cs \<and> (\<forall>c \<in> set cs. \<not> lets_run c)" using m run unfolding harmless_def by (metis snd_conv)
  then have "unmoved_step s (s\<lparr>Up := u\<rparr>)"
    by (auto simp: unmoved_step_def grown_def run_calls_def controls_of_def)
  then show "sat (on_up m) (\<lambda>_. unmoved_step s) (\<lambda>_. unmoved_step s) (unmoved_step s) s"
    by (simp add: sat_def on_up_def run split: sum.split)
qed

lemma unmoved_try: "unmoved m \<Longrightarrow> unmoved (pr_try m)"
  by (simp add: unmoved_def sat_try)

lemma unmoved_branches:
  "(b \<Longrightarrow> unmoved m) \<Longrightarrow> (\<not> b \<Longrightarrow> unmoved n) \<Longrightarrow> unmoved (if b then m else n)"
  "(b \<Longrightarrow> unmoved m') \<Longrightarrow> unmoved (pr_when b m')"
  "(x = None \<Longrightarrow> unmoved m) \<Longrightarrow> (\<And>y. x = Some y \<Longrightarrow> unmoved (k y)) \<Longrightarrow> unmoved (case x of None \<Rightarrow> m | Some y \<Rightarrow> k y)"
  "(\<And>w. w = v \<Longrightarrow> unmoved (h w)) \<Longrightarrow> unmoved (let w = v in h w)"
  by (auto simp: pr_when_def unmoved_prims split: option.split)

lemma unmoved_relocate: "unmoved (relocate_folder env inventory controls n)"
  unfolding relocate_folder_def pause_up_def
  by (intro unmoved_bind unmoved_branches unmoved_prims unmoved_disk unmoved_up unmoved_try harmless_intro)

lemma unmoved_relocate_all: "unmoved (relocate_all env inventory controls ns)"
  by (induction ns) (simp_all add: unmoved_bind unmoved_prims unmoved_relocate)

lemma safe_settle_relocated:
  assumes "go_map (controls_of s)" and "\<not> held pauses (FID (SFolders s ! n)) \<Longrightarrow> good inventory s (FID (SFolders s ! n))"
  shows "sat_safe inventory (settle_relocated env pauses n) s"
proof (cases "map_of pauses (FID (SFolders s ! n))")
  case (Some b)
  have "sat_safe inventory (pr_bind (pause_up env (FID (SFolders s ! n)) b) (\<lambda>_. mark_paused n b)) s"
    using assms Some by (intro safe_bind safe_pause_up safe_mark) (auto simp: held_def safe_step_def)
  then show ?thesis using Some by (simp add: settle_relocated_def)
qed (use assms(1) in \<open>simp add: settle_relocated_def\<close>)

lemma settle_relocated_each:
  assumes s: "ordered s" and pauses: "\<forall>i \<in> FID ` set (SFolders s). \<not> held pauses i \<longrightarrow> good inventory s i"
    and "\<forall>n \<in> set ns. n < length (SFolders s)"
  shows "sat_safe inventory (pr_each (settle_relocated env pauses) ns) s"
proof (rule safe_each)
  show "go_map (controls_of s)" using s by (simp add: ordered_def)
  fix n t assume n: "n \<in> set ns" and t: "safe_step inventory s t"
  have "n < length (SFolders s)" using n assms(3) by simp
  moreover have "map FID (SFolders t) = map FID (SFolders s)" using t by (simp add: safe_step_def)
  ultimately have "FID (SFolders t ! n) = FID (SFolders s ! n)" "FID (SFolders s ! n) \<in> FID ` set (SFolders s)"
    by (metis length_map nth_map) (simp add: \<open>n < length (SFolders s)\<close>)
  then show "sat_safe inventory (settle_relocated env pauses n) t"
    using t pauses by (intro safe_settle_relocated) (auto simp: safe_step_def)
qed

lemma pauses_run_safely: "sat (on_disk (required_offline_pause_set inventory (controls_of s) (SFolders s)))
    (\<lambda>pauses t. settled_step s t \<and> (\<forall>i \<in> FID ` set (SFolders s). \<not> held pauses i \<longrightarrow> good inventory t i)) (\<lambda>_. settled_step s) (settled_step s) s"
  using offline_sat [of inventory s] by (simp add: offline_pauses_def)

definition like :: "(string \<times> control_record) list \<Rightarrow> nat \<Rightarrow> 'u session \<Rightarrow> bool" where
  "like controls n s \<longleftrightarrow> ordered s \<and> controls_of s = controls \<and> length (SFolders s) = n"

lemma lets_unmoved_then:
  assumes m: "unmoved m" and k: "\<And>x. lets inventory (like controls n) (k x)"
  shows "lets inventory (like controls n) (pr_bind m k)"
  unfolding lets_def
proof (intro allI impI)
  fix s :: "'a session" assume s: "like controls n s"
  have keeps: "like controls n t" and runs: "runs_safely inventory s t" and still: "still_step s t" if "unmoved_step s t" for t
    using that s by (auto simp: unmoved_step_def ordered_def runs_safely_def still_step_def like_def)
  show "sat (pr_bind m k) (\<lambda>_. runs_safely inventory s) (\<lambda>_. runs_safely inventory s) (runs_safely inventory s) s"
  proof (rule sat_bindI [OF m [unfolded unmoved_def, rule_format]])
    fix x t assume t: "unmoved_step s t"
    show "sat (k x) (\<lambda>_. runs_safely inventory s) (\<lambda>_. runs_safely inventory s) (runs_safely inventory s) t"
      by (rule still_then_sat [OF still [OF t] k [unfolded lets_def, rule_format, OF keeps [OF t]]])
  qed (use runs in auto)
qed

lemma settle_all_relocated:
  assumes s: "ordered s" and n: "\<forall>n \<in> set (ns (SFolders s)). n < length (SFolders s)"
  shows "sat_safe inventory (pr_bind (on_disk (required_offline_pause_set inventory (controls_of s) (SFolders s))) (\<lambda>pauses.
    pr_each (settle_relocated env pauses) (ns (SFolders s)))) s"
proof (rule sat_bindI [OF pauses_run_safely])
  fix pauses t
  assume *: "settled_step s t \<and> (\<forall>i \<in> FID ` set (SFolders s). \<not> held pauses i \<longrightarrow> good inventory t i)"
  then have t: "safe_step inventory s t" using s by (simp add: settled_safe ordered_def)
  have same: "SFolders t = SFolders s" using * by (simp add: settled_step_def)
  show "sat (pr_each (settle_relocated env pauses) (ns (SFolders s))) (\<lambda>_. safe_step inventory s) (\<lambda>_. safe_step inventory s) (safe_step inventory s) t"
    by (rule safe_after [OF t settle_relocated_each]) (use * t same n in \<open>auto simp: ordered_def safe_step_def\<close>)
qed (use s in \<open>auto simp: settled_safe ordered_def\<close>)

lemma settle_relocated_lets: "lets inventory (like controls m) (pr_bind (pr_get SFolders) (\<lambda>folders.
    pr_bind (on_disk (required_offline_pause_set inventory controls folders)) (\<lambda>pauses.
      pr_each (settle_relocated env pauses) (filter (\<lambda>n. FID (folders ! n) \<in> set moved) [0..<m]))))"
  unfolding lets_def
proof (intro allI impI)
  fix s :: "'a session" assume s: "like controls m s"
  have "sat_safe inventory (pr_bind (on_disk (required_offline_pause_set inventory (controls_of s) (SFolders s))) (\<lambda>pauses.
      pr_each (settle_relocated env pauses) (filter (\<lambda>n. FID (SFolders s ! n) \<in> set moved) [0..<m]))) s"
    using settle_all_relocated [of s "\<lambda>folders. filter (\<lambda>n. FID (folders ! n) \<in> set moved) [0..<m]"] s by (simp add: like_def)
  then show "sat (pr_bind (pr_get SFolders) (\<lambda>folders.
      pr_bind (on_disk (required_offline_pause_set inventory controls folders)) (\<lambda>pauses.
      pr_each (settle_relocated env pauses) (filter (\<lambda>n. FID (folders ! n) \<in> set moved) [0..<m]))))
      (\<lambda>_. runs_safely inventory s) (\<lambda>_. runs_safely inventory s) (runs_safely inventory s) s"
    using s by (auto simp: like_def intro: sat_mono safe_runs)
qed

lemma relocate_lets: "lets inventory ordered (relocate_managed_folders env inventory)"
  unfolding lets_def
proof (intro allI impI)
  fix s :: "'a session" assume s: "ordered s"
  then have "like (controls_of s) (length (SFolders s)) s" by (simp add: like_def)
  moreover have "lets inventory (like (controls_of s) (length (SFolders s))) (pr_bind (relocate_all env inventory (controls_of s) [0..<length (SFolders s)])
      (\<lambda>moved. if moved = [] then pr_ret ()
       else pr_bind (pr_get SFolders) (\<lambda>folders.
          pr_bind (on_disk (required_offline_pause_set inventory (controls_of s) folders)) (\<lambda>pauses.
            pr_each (settle_relocated env pauses) (filter (\<lambda>n. FID (folders ! n) \<in> set moved) [0..<length (SFolders s)])))))"
    by (intro lets_unmoved_then unmoved_relocate_all lets_if settle_relocated_lets) (rule lets_done, simp_all add: like_def settles_prims)
  ultimately show "sat (relocate_managed_folders env inventory) (\<lambda>_. runs_safely inventory s) (\<lambda>_. runs_safely inventory s) (runs_safely inventory s) s"
    by (simp add: lets_def relocate_managed_folders_def)
qed

end
