(* ===== verification/Session_Claims.thy ===== *)
theory Session_Claims
  imports Session_Safety
begin

text \<open>
  What the operations of a session promise, and what some of them do not keep.
\<close>

section \<open>Only safe folders run\<close>

lemma quiet_when_blind:
  "still (start_first_sync_op env (Inl e) i hub)" "still (set_folder_type_op env (Inl e) i typ)"
  "still (folder_membership_op env (Inl e) present i d)"
  unfolding start_first_sync_op_def set_folder_type_op_def folder_membership_op_def Let_def lift_Inl
  by ((intro still_rules harmless_intro)+)

lemma session_op_lets:
  assumes "\<forall>i. op \<noteq> Resume_Folder i" and "\<forall>cards. WiLooked w = Inr cards \<longrightarrow> cards = inventory"
  shows "lets inventory ordered (run_session_op env w op)"
proof -
  have quiet: "still m \<Longrightarrow> lets inventory ordered m" for m :: "('a, unit) sess"
    by (rule still_lets)
  show ?thesis
  proof (cases "WiLooked w")
    case (Inl e)
    then show ?thesis using assms(1)
      by (cases op) (auto intro!: quiet quiet_operations quiet_when_blind simp: settles_prims [THEN still_settles])
  next
    case (Inr cards)
    then show ?thesis using assms
      by (cases op) (auto intro!: quiet quiet_operations start_first_sync_lets set_folder_type_lets folder_membership_lets
        recover_memberships_lets relocate_lets)
  qed
qed


text \<open>
  A start at which the sharing of a folder is to be finished: the folder is made to share with this
  device alone, its safety is computed anew, and it runs.
\<close>

definition live_server :: "unit server" where
  "live_server c u = (Inr \<lparr>AStatus = 200, APayload = ''{}''\<rparr>, u)"

definition live_parse :: "string \<Rightarrow> json option" where
  "live_parse s = Some (JObj [(''paused'', JBool True), (''devices'', JArr [json_device sample_device])])"

definition live_clock :: clock where "live_clock s = None"

definition live_size :: "control_document \<Rightarrow> nat" where "live_size d = 9"

definition doc_size :: "json \<Rightarrow> nat" where "doc_size d = 9"

definition live_tree :: "json fs" where
  "live_tree p = (if p = ''/card/Saves'' \<or> p = ''/card/Saves/.leaf-saves-000000000000'' then Some Dir else None)"

definition live_control_tree :: "control_document fs" where
  "live_control_tree p = (if p = ''/s'' then Some Dir else None)"

definition live_env :: "unit session_env" where
  "live_env = \<lparr>SeSync = \<lparr>EnvSha = sample_sha, EnvControlSize = live_size, EnvControlPath = control_path, EnvDocSize = doc_size,
     EnvNow = ''now'', EnvStamp = ''x'', EnvPaths = []\<rparr>, SeParse = live_parse, SeServer = live_server, SeClock = live_clock,
     SeSelf = sample_device\<rparr>"

definition unsharing :: folder_control where
  "unsharing = \<lparr>Records = [(''leaf-saves'', (sample_record False)\<lparr>PendingMembership := ''unshare'', PendingDeviceID := sample_device_of CHR ''B''\<rparr>)],
     Offers = [], PendingDeviceRemoval = ''''\<rparr>"

definition live_session :: "unit session" where
  "live_session = \<lparr>Sync = \<lparr>CardW = \<lparr>files = live_tree, plan = []\<rparr>, ControlW = \<lparr>files = live_control_tree, plan = []\<rparr>,
      Store = unsharing, Progress = []\<rparr>, Up = \<lparr>calls = [], peer_state = ()\<rparr>, SFolders = [sample_folder],
     View = \<lparr>VwUpstream = ''running'', VwGame = zero_game_state, VwCards = [], VwRows = [], VwPeers = [], VwOffers = [], VwTransfer = None, VwIssues = []\<rparr>\<rparr>"

definition live_snapshot :: snapshot_input where
  "live_snapshot = \<lparr>ScanWalk = [], CopyWalk = [], FreeStats = Inl '''', ManifestSize = length\<rparr>"

definition live_world :: world_inputs where
  "live_world = \<lparr>WiLooked = Inr sample_inventory, WiOrder = (\<lambda>xs. xs), WiSnapshot = live_snapshot, WiScan = (\<lambda>p. Inl ''''),
     WiNetworks = [], WiSources = [], WiEnrolled = (\<lambda>s. Inl '''')\<rparr>"


lemma live_device: "normalize_device_id sample_device = Inr sample_device"
  unfolding sample_device_def by (rule sample_device_normal) (rule device_chars)

lemma live_membership: "folder_with_membership sample_folder sample_device (sample_device_of CHR ''B'') False = Inr (sample_folder, False)"
  using sample_device_normal [OF device_chars(1)] sample_device_normal [OF device_chars(2)] live_device
  by (simp add: folder_with_membership_def sample_folder_def sum_bind_def) (simp add: sample_device_def)

lemma live_request: "managed_folder_api_request sample_folder = Inr \<lparr>QID = ''leaf-saves'', QLabel = ''Saves'', QPath = ''/card/Saves'', QType = ''sendonly'',
              QDevices = [sample_device], QMarkerName = ''.leaf-saves-000000000000'', QVersioning = None\<rparr>"
proof -
  have "collect_devices ''managed folder device list is invalid or duplicated'' [] [sample_device] = Inr [sample_device]"
    using live_device by simp
  moreover have "valid_folder_id ''leaf-saves'' \<and> is_abs ''/card/Saves'' \<and> base_name ''.leaf-saves-000000000000'' = ''.leaf-saves-000000000000'' \<and>
     valid_display_name ''Saves'' max_folder_name \<and> trim_space ''Saves'' = ''Saves'' \<and> clean ''/card/Saves'' = ''/card/Saves'' \<and> 1 \<le> max_folder_devices"
    by code_simp
  ultimately show ?thesis by (simp add: managed_folder_api_request_def sample_folder_def sum_bind_def)
qed

definition share_call :: api_call where
  "share_call = api_call_of PATCH ''/rest/config/folders/leaf-saves'' (Some (JObj [(''devices'', JArr [json_device sample_device]), (''paused'', JBool True)]))"

definition read_call :: api_call where
  "read_call = api_call_of GET ''/rest/config/folders/leaf-saves'' None"

definition resume_call :: api_call where
  "resume_call = api_call_of PATCH ''/rest/config/folders/leaf-saves'' (Some (JObj [(''paused'', JBool False)]))"

lemma live_path: "folder_path ''leaf-saves'' = ''/rest/config/folders/leaf-saves''"
  by code_simp

lemma live_calls: "set_managed_folder_devices live_parse live_server sample_folder \<lparr>calls = cs, peer_state = ()\<rparr> =
    (Inr (), \<lparr>calls = cs @ [share_call, read_call], peer_state = ()\<rparr>)"
proof -
  have view: "decode_struct False membership_spec zero_view (JObj [(''paused'', JBool True), (''devices'', JArr [json_device sample_device])]) =
      Inr (zero_view\<lparr>WPaused := True, WDevices := [sample_device]\<rparr>)"
    by code_simp
  have same: "same_managed_folder_devices [sample_device] [sample_device]"
    by (simp add: same_managed_folder_devices_def live_device)
  have "trim_space ''{}'' = ''{}''" by code_simp
  moreover have "FID sample_folder = ''leaf-saves''" by (simp add: sample_folder_def)
  ultimately show ?thesis
    by (simp add: set_managed_folder_devices_def live_request up_bind_def up_lift_def api_send_def api_read_def api_json_def
      live_server_def live_parse_def view same up_ret_def live_path share_call_def read_call_def Let_def max_api_response_bytes_def)
qed

lemma live_done: "\<exists>w. control_do (SeSync live_env) (Complete_Membership ''leaf-saves'') (Sync live_session) =
    (Ok (), (Sync live_session)\<lparr>Store := sample_control False, ControlW := w\<rparr>)"
proof -
  have run: "case control_do (SeSync live_env) (Complete_Membership ''leaf-saves'') (Sync live_session) of (r, t) \<Rightarrow>
      r = Ok () \<and> Store t = sample_control False \<and> Progress t = []"
    by code_simp
  obtain r t where t: "control_do (SeSync live_env) (Complete_Membership ''leaf-saves'') (Sync live_session) = (r, t)" by fastforce
  have "CardW t = CardW (Sync live_session)"
    using control_do_result [of "SeSync live_env" "Complete_Membership ''leaf-saves''" "Sync live_session"] t
    by (auto simp: sat_def split: outcome.splits)
  then show ?thesis using run t by (intro exI [of _ "ControlW t"]) (auto simp: live_session_def)
qed

lemma live_pause: "set_folder_paused live_parse live_server ''leaf-saves'' False \<lparr>calls = cs, peer_state = ()\<rparr> =
    (Inr (), \<lparr>calls = cs @ [resume_call], peer_state = ()\<rparr>)"
proof -
  have "valid_folder_id ''leaf-saves''" by code_simp
  then show ?thesis
    by (simp add: set_folder_paused_def up_bind_def api_send_def api_json_def
      live_server_def up_ret_def live_path resume_call_def Let_def max_api_response_bytes_def)
qed

lemma live_rows: "\<exists>row w. reconcile_managed_folders sample_inventory (Records (sample_control False)) [sample_folder] \<lparr>files = live_tree, plan = []\<rparr>
    = (Ok [row], w) \<and> RowID row = ''leaf-saves'' \<and> \<not> RowPaused row"
proof -
  have "case fst (reconcile_managed_folders sample_inventory (Records (sample_control False)) [sample_folder] \<lparr>files = live_tree, plan = []\<rparr>)
      of Ok [row] \<Rightarrow> RowID row = ''leaf-saves'' \<and> \<not> RowPaused row | _ \<Rightarrow> False"
    by code_simp
  then show ?thesis
    by (cases "reconcile_managed_folders sample_inventory (Records (sample_control False)) [sample_folder] \<lparr>files = live_tree, plan = []\<rparr>")
      (auto split: outcome.splits list.splits)
qed

lemma live_recovery: "\<exists>t. run_session_op live_env live_world Recover_Memberships live_session = (Ok (), t) \<and>
    calls (Up t) = calls (Up live_session) @ [share_call, read_call, resume_call]"
proof -
  obtain w where w: "control_do (SeSync live_env) (Complete_Membership ''leaf-saves'') (Sync live_session) =
    (Ok (), (Sync live_session)\<lparr>Store := sample_control False, ControlW := w\<rparr>)" using live_done by blast
  obtain row v where row: "reconcile_managed_folders sample_inventory (Records (sample_control False)) [sample_folder] \<lparr>files = live_tree, plan = []\<rparr>
    = (Ok [row], v)" "RowID row = ''leaf-saves''" "\<not> RowPaused row" using live_rows by blast
  have id: "FID sample_folder = ''leaf-saves''" by (simp add: sample_folder_def)
  note w' = w [unfolded live_session_def unsharing_def live_env_def, simplified]
  show ?thesis
    using row(2,3) id
    apply (simp add: live_world_def recover_folder_memberships_def live_session_def unsharing_def controls_of_def recover_membership_def
      find_configured_folder_def live_membership settle_row_def pr_bind_def pr_get_def pr_lift_def pr_ret_def pr_put_def on_up_def pause_up_def
      live_calls live_pause mark_paused_def put_folder_def control_op_do_def on_sync_def on_disk_def on_card_def on_files_def row(1) w' Let_def live_env_def)
    done
qed


section \<open>What is not kept\<close>


definition stopping_session :: "unit session" where
  "stopping_session = live_session\<lparr>Sync := (Sync live_session)\<lparr>Store := sample_control True\<rparr>\<rparr>"


definition unpause_call :: "string \<Rightarrow> api_call" where
  "unpause_call i = api_call_of PATCH (folder_path i) (Some (JObj [(''paused'', JBool False)]))"

lemma unpause_sent: "valid_folder_id i \<Longrightarrow> \<exists>r v. set_folder_paused parse server i False u = (r, v) \<and> calls v = calls u @ [unpause_call i]"
  by (auto simp: set_folder_paused_def api_send_def up_bind_def api_json_def unpause_call_def Let_def up_ret_def split: prod.split sum.split)

lemma still_calls: "still m \<Longrightarrow> m s = (r, t) \<Longrightarrow> \<exists>cs. calls (Up t) = calls (Up s) @ cs"
  unfolding still_def sat_def still_step_def grown_def by (drule spec [of _ s]) (auto split: outcome.splits)

lemma manual_keeps_first_sync: "control_step sha (Set_Manual i b) st = Inr (Some (new, kept)) \<Longrightarrow> x = new \<or> x = kept \<Longrightarrow> go_map (Records st) \<Longrightarrow>
    FirstSync (control_of (Records x) j) = FirstSync (control_of (Records st) j)"
  by (auto simp: set_manual_def with_record_def sticky_def put_control_def control_of_def split: option.splits if_splits)

lemma row_keeps_first_sync: "records_like a b \<Longrightarrow> FirstSync (control_of b i) = FirstSync (control_of a i)"
proof -
  assume "records_like a b"
  then have "map_option (PendingRescan_update (\<lambda>_. False)) (map_of b i) = map_option (PendingRescan_update (\<lambda>_. False)) (map_of a i)"
    by (simp add: records_like_def)
  then have "map_option FirstSync (map_option (PendingRescan_update (\<lambda>_. False)) (map_of b i)) =
      map_option FirstSync (map_option (PendingRescan_update (\<lambda>_. False)) (map_of a i))" by simp
  then show ?thesis by (auto simp: control_of_def option.map_comp comp_def split: option.splits)
qed

text \<open>
  C39. Resume goes by the row that was shown: when its reasons are at most the manual pause, the folder
  is let run, whatever the folder's record and the cards say by now.
\<close>

theorem resume_trusts_the_row:
  assumes "go_map (controls_of s)" and "action_row env i s = (Ok row, s1)" and "only_manual_pause (Reasons row)" and "valid_folder_id i"
    and "control_op_do env (Set_Manual i False) s1 = (Ok (), s2)"
    and "folder_resume env i s = (r, t)"
  shows "FirstSync (control_of (controls_of s2) i) = FirstSync (control_of (controls_of s) i) \<and>
    (\<exists>cs. calls (Up t) = calls (Up s2) @ unpause_call i # cs)"
proof
  have s1: "settled_step s s1" using still_action(4) [of env i] assms(2) unfolding settles_def sat_def
    by (auto dest!: spec [of _ s])
  then have maps: "go_map (controls_of s1)" and same: "FirstSync (control_of (controls_of s1) i) = FirstSync (control_of (controls_of s) i)"
    using assms(1) by (auto simp: settled_step_def row_keeps_first_sync)
  obtain y where y: "control_do (SeSync env) (Set_Manual i False) (Sync s1) = (Ok (), y)" "s2 = s1\<lparr>Sync := y\<rparr>"
    using assms(5) by (auto simp: control_op_do_def on_sync_def split: prod.splits)
  have "Store y = Store (Sync s1) \<or> (\<exists>new kept. control_step (EnvSha (SeSync env)) (Set_Manual i False) (Store (Sync s1)) = Inr (Some (new, kept)) \<and>
      Store y \<in> {new, kept})"
    using control_do_result [of "SeSync env" "Set_Manual i False" "Sync s1"] y(1) by (auto simp: sat_def)
  then have "FirstSync (control_of (controls_of s2) i) = FirstSync (control_of (controls_of s1) i)"
    using maps y(2) manual_keeps_first_sync [of "EnvSha (SeSync env)" i False "Store (Sync s1)"]
    by (auto simp: controls_of_def simp del: control_step.simps)
  then show "FirstSync (control_of (controls_of s2) i) = FirstSync (control_of (controls_of s) i)" using same by simp
  obtain q v where send: "set_folder_paused (SeParse env) (SeServer env) i False (Up s2) = (q, v)" "calls v = calls (Up s2) @ [unpause_call i]"
    using unpause_sent [OF assms(4)] by blast
  let ?rest = "pr_bind (set_view (on_row i (\<lambda>row. row\<lparr>RowPaused := False, Reasons := []\<rparr>))) (\<lambda>_.
     pr_bind (pr_when (RowRescan row) (
       pr_bind (on_up (rescan_folder (SeParse env) (SeServer env) i)) (\<lambda>_.
       pr_bind (control_op_do env (Set_Pending_Rescan i False)) (\<lambda>_.
         set_view (on_row i (\<lambda>row. row\<lparr>RowRescan := False\<rparr>)))))) (\<lambda>_.
       refresh env))"
  have rest: "still ?rest" by (intro still_rules harmless_intro)
  have "folder_resume env i s = (case q of Inl e \<Rightarrow> (Failed e, s2\<lparr>Up := v\<rparr>) | Inr _ \<Rightarrow> ?rest (s2\<lparr>Up := v\<rparr>))"
    using assms(2,3,5) send(1) by (cases q) (simp_all add: folder_resume_def pr_bind_def pause_up_def on_up_def)
  note run = this
  show "\<exists>cs. calls (Up t) = calls (Up s2) @ unpause_call i # cs"
  proof (cases q)
    case Inl
    then show ?thesis using run assms(6) send(2) by auto
  next
    case Inr
    then have "?rest (s2\<lparr>Up := v\<rparr>) = (r, t)" using run assms(6) by simp
    from still_calls [OF rest this] show ?thesis using send(2) by auto
  qed
qed

definition waiting_store :: folder_control where
  "waiting_store = \<lparr>Records = [(''leaf-saves'', (sample_record False)\<lparr>Manual := True, FirstSync := True\<rparr>)], Offers = [], PendingDeviceRemoval = ''''\<rparr>"

definition paused_row :: live_row where
  "paused_row = fresh_row \<lparr>RowID = ''leaf-saves'', RowLabel = ''Saves'', RowKind = ''saves'', RowPath = ''/card/Saves'', RowCard = ''card'',
     RowType = ''sendreceive'', RowState = ''paused'', RowPaused = True, Reasons = [''manual''], RowRescan = False, RowVersioning = '''', RowIssues = [],
     PeerCount = 0, DeviceIDs = []\<rparr>"

definition paused_session :: "unit session" where
  "paused_session = live_session\<lparr>Sync := (Sync live_session)\<lparr>Store := waiting_store\<rparr>,
     View := (View live_session)\<lparr>VwRows := [paused_row]\<rparr>\<rparr>"

theorem resume_trusts_the_row_witness:
  "\<exists>t r. folder_resume live_env ''leaf-saves'' paused_session = (r, t) \<and> unpause_call ''leaf-saves'' \<in> set (calls (Up t)) \<and>
     FirstSync (control_of (controls_of paused_session) ''leaf-saves'')"
proof -
  have "decode_slice decode_ui_device (JObj [(''paused'', JBool True), (''devices'', JArr [json_device sample_device])]) = Inl ''cannot unmarshal into slice''"
    by (simp add: decode_slice_def)
  moreover have "trim_space ''{}'' = ''{}''" by code_simp
  ultimately obtain u where "read_ui_status live_parse live_server live_clock [sample_folder] sample_device \<lparr>calls = [], peer_state = ()\<rparr> =
      (Inl ''cannot unmarshal into slice'', u)"
    by (simp add: read_ui_status_def api_read_def up_bind_def api_json_def live_server_def live_parse_def max_api_response_bytes_def Let_def up_lift_def)
  then obtain s1 row where s1: "action_row live_env ''leaf-saves'' paused_session = (Ok row, s1)" "Sync s1 = Sync paused_session" "Reasons row = [''manual'']"
    by (simp add: action_row_def refresh_def refresh_live_def pr_bind_def pr_get_def pr_when_def pr_try_def on_up_def paused_session_def live_session_def
      live_env_def set_view_def pr_put_def show_first_sync_def apply_live_error_def apply_first_sync_status_def find_row_def folder_safe_for_action_def
      paused_row_def fresh_row_def folder_row.defs live_row.defs pr_ret_def)
  have run: "case control_do (SeSync live_env) (Set_Manual ''leaf-saves'' False) (Sync paused_session) of (r, t) \<Rightarrow> r = Ok ()"
    by code_simp
  obtain s2 where "control_op_do live_env (Set_Manual ''leaf-saves'' False) s1 = (Ok (), s2)"
    using run s1(2) by (auto simp: control_op_do_def on_sync_def split: prod.splits)
  moreover obtain r t where "folder_resume live_env ''leaf-saves'' paused_session = (r, t)" by fastforce
  moreover have "valid_folder_id ''leaf-saves''" by code_simp
  moreover have "go_map (controls_of paused_session)" by (simp add: go_map_def paused_session_def waiting_store_def controls_of_def)
  moreover have "FirstSync (control_of (controls_of paused_session) ''leaf-saves'')"
    by (simp add: paused_session_def waiting_store_def controls_of_def control_of_def)
  ultimately show ?thesis using resume_trusts_the_row [OF _ s1(1)] s1(3) by (fastforce simp: only_manual_pause_def)
qed

end
