(* ===== verification/Onboarding_Claims.thy ===== *)
theory Onboarding_Claims
  imports Onboarding Session_Claims Network_Profile
begin

text \<open>
  What creating a planned folder promises: the steps of the code inverted from its success.
\<close>

section \<open>Steps that succeed\<close>

lemma in_session_Ok: "in_session m s = (Ok x, t) \<longleftrightarrow> (\<exists>u. m (SuSession s) = (Ok x, u) \<and> t = s\<lparr>SuSession := u\<rparr>)"
  by (auto simp: in_session_def split: prod.splits)

lemma on_up_Ok: "on_up m s = (Ok x, t) \<longleftrightarrow> (\<exists>u. m (Up s) = (Inr x, u) \<and> t = s\<lparr>Up := u\<rparr>)"
  by (auto simp: on_up_def split: prod.splits sum.splits)

lemmas setup_Ok = run_Ok in_session_Ok

lemma on_disk_frame:
  assumes "on_disk m s = (Ok x, t)"
  shows "\<exists>w. t = s\<lparr>Sync := (Sync s)\<lparr>CardW := w\<rparr>\<rparr>"
  using assms by (auto simp: on_disk_def on_sync_def on_card_def on_files_def split: prod.splits)

lemma on_disk_post:
  assumes "on_disk m s = (Ok x, t)" and "wp True m Q (\<lambda>_ _. True) (\<lambda>_. True) (files (CardW (Sync s)))"
  shows "Q x (files (CardW (Sync t)))"
proof -
  have "sat (on_disk m) (\<lambda>x t. Q x (files (CardW (Sync t)))) (\<lambda>_ _. True) (\<lambda>_. True) s"
    unfolding on_disk_def sat_on_sync by (rule sat_on_card [OF assms(2)]) simp_all
  then show ?thesis using assms(1) by (simp add: sat_def)
qed

lemma control_Ok:
  assumes "control_op_do env op s = (Ok u, t)"
  shows "\<exists>w m. t = s\<lparr>Sync := (Sync s)\<lparr>Store := m, ControlW := w\<rparr>\<rparr> \<and>
    (control_step (EnvSha (SeSync env)) op (Store (Sync s)) = Inr None \<and> m = Store (Sync s) \<or>
     (\<exists>kept. control_step (EnvSha (SeSync env)) op (Store (Sync s)) = Inr (Some (m, kept))))"
  using assms
  by (auto simp: control_op_do_def on_sync_def control_do_def run_control_def io_ret_def io_bind_def io_try_def
      split: prod.splits outcome.splits option.splits sum.splits)

lemma select_peers_sound:
  assumes "select_peers self room seen raws = Inr ds" "distinct seen" "self \<notin> set seen"
  shows "\<exists>new. ds = seen @ new \<and> map_results normalize_device_id raws = Inr new \<and> distinct ds \<and> self \<notin> set ds \<and> set new \<subseteq> set room"
  using assms
proof (induction self room seen raws rule: select_peers.induct)
  case (2 self room seen raw raws)
  then obtain d where d: "normalize_device_id raw = Inr d" "d \<noteq> self" "d \<notin> set seen" "d \<in> set room"
    and rest: "select_peers self room (seen @ [d]) raws = Inr ds"
    by (auto split: sum.splits if_splits)
  from 2(1) [OF d(1) _ rest] d 2(3,4) obtain new where "ds = (seen @ [d]) @ new" "map_results normalize_device_id raws = Inr new"
    "distinct ds" "self \<notin> set ds" "set new \<subseteq> set room" by auto
  then show ?case using d by (intro exI [of _ "d # new"]) auto
qed auto

definition shared_with :: "'u session_env \<Rightarrow> string list \<Rightarrow> bool" where
  "shared_with env ds \<longleftrightarrow> (\<exists>self peers. normalize_device_id (SeSelf env) = Inr self \<and> ds = self # peers \<and>
     peers \<noteq> [] \<and> length peers \<le> 32 \<and> distinct ds \<and> (\<forall>d \<in> set ds. canonical_device d))"

lemma selected_results_length: "map_results f xs = Inr ys \<Longrightarrow> length ys = length xs"
  by (induction xs arbitrary: ys) (auto simp: sum_bind_Inr)

lemma map_results_canonical: "map_results normalize_device_id xs = Inr ys \<Longrightarrow> \<forall>d \<in> set ys. canonical_device d"
  by (induction xs arbitrary: ys) (auto simp: sum_bind_Inr dest: normalize_canonical)

lemma configured_devices_logs: "logs (configured_folder_devices parse server self) (\<lambda>cs. cs = [api_call_of GET ''/rest/config/devices'' None])"
  by (auto simp: logs_def configured_folder_devices_def up_bind_Inr dest!: logsE [OF api_read_logs] split: sum.splits if_splits)

lemma selected_Ok:
  assumes "selected_folder_devices env sel s = (Ok ds, t)"
  shows "shared_with env ds \<and> (\<exists>u. t = s\<lparr>Up := u\<rparr> \<and> calls u = calls (Up s) @ [api_call_of GET ''/rest/config/devices'' None])"
proof -
  from assms obtain self where self: "normalize_device_id (SeSelf env) = Inr self"
    by (auto simp: selected_folder_devices_def setup_Ok)
  with assms obtain u room peers where n: "sel \<noteq> []" "length sel \<le> 32" and p: "select_peers self room [] sel = Inr peers"
    and ds: "ds = self # sort peers" and t: "t = s\<lparr>Up := u\<rparr>"
    and read: "\<exists>raws. configured_folder_devices (SeParse env) (SeServer env) self (Up s) = (Inr raws, u)"
    by (auto simp: selected_folder_devices_def setup_Ok on_up_Ok)
  from select_peers_sound [OF p] have d: "map_results normalize_device_id sel = Inr peers" "distinct peers" "self \<notin> set peers" by auto
  have "length peers = length sel" using selected_results_length [OF d(1)] .
  moreover have "\<forall>d \<in> set ds. canonical_device d" using map_results_canonical [OF d(1)] normalize_canonical [OF self] ds by auto
  moreover have "length (sort peers) = length peers" by simp
  moreover have "calls u = calls (Up s) @ [api_call_of GET ''/rest/config/devices'' None]"
    using read logsE [OF configured_devices_logs] by fastforce
  ultimately show ?thesis using self ds n d(2,3) t unfolding shared_with_def by (auto simp del: length_sort)
qed

lemma onboarding_card_sound: "onboarding_card source inventory = Inr c \<Longrightarrow> c \<in> set inventory \<and> usable_enrolled_card c \<and> ID (Source c) = source"
  unfolding onboarding_card_def by (auto split: list.splits if_splits dest!: arg_cong [where f = set])

lemma install_Ok:
  assumes "install_folder env folder c s = (Ok u, t)" and "go_map (controls_of s)"
  shows "\<exists>r q. new_folder_control_record (EnvSha (SeSync env)) folder c = Inr r \<and> FID folder \<notin> fst ` set (controls_of s) \<and>
    map_of (controls_of t) (FID folder) = Some r \<and> managed_folder_api_request folder = Inr q \<and>
    calls (Up t) = calls (Up s) @ [api_call_of POST ''/rest/config/folders'' (Some (json_request q))] \<and>
    CardW (Sync t) = CardW (Sync s) \<and> SFolders t = SFolders s"
proof -
  from assms(1) obtain s1 s2 where add: "control_op_do env (Add_Record folder c True) s = (Ok (), s1)"
    and up: "on_up (add_managed_folder (SeParse env) (SeServer env) folder) s1 = (Ok (), s2)"
    and act: "control_op_do env (Activate (FID folder)) s2 = (Ok (), t)"
    by (auto simp: install_folder_def setup_Ok pr_try_Ok)
  from control_Ok [OF add] obtain w m where s1: "s1 = s\<lparr>Sync := (Sync s)\<lparr>Store := m, ControlW := w\<rparr>\<rparr>"
    and step: "add_record (EnvSha (SeSync env)) folder c True (Store (Sync s)) = Inr None \<and> m = Store (Sync s) \<or>
      (\<exists>kept. add_record (EnvSha (SeSync env)) folder c True (Store (Sync s)) = Inr (Some (m, kept)))" by auto
  then obtain r where r: "new_folder_control_record (EnvSha (SeSync env)) folder c = Inr r" and fresh: "FID folder \<notin> fst ` set (controls_of s)"
    and m: "m = put_control (FID folder) (r\<lparr>PendingAdd := True\<rparr>) (Store (Sync s))"
    by (auto simp: add_record_def sum_bind_Inr rolled_back_def controls_of_def split: if_splits)
  from up obtain u where u: "add_managed_folder (SeParse env) (SeServer env) folder (Up s1) = (Inr (), u)" and s2: "s2 = s1\<lparr>Up := u\<rparr>"
    by (auto simp: on_up_Ok)
  then obtain q where q: "managed_folder_api_request folder = Inr q"
    and send: "api_send (SeParse env) (SeServer env) POST ''/rest/config/folders'' (Some (json_request q)) (Up s1) = (Inr (), u)"
    by (auto simp: add_managed_folder_def up_bind_Inr split: if_splits dest: sym)
  have log: "calls u = calls (Up s) @ [api_call_of POST ''/rest/config/folders'' (Some (json_request q))]"
    using logsE [OF api_send_logs send] s1 by auto
  from control_Ok [OF act] obtain w2 m2 where t: "t = s2\<lparr>Sync := (Sync s2)\<lparr>Store := m2, ControlW := w2\<rparr>\<rparr>"
    and step2: "activate (FID folder) m = Inr None \<and> m2 = m \<or> (\<exists>kept. activate (FID folder) m = Inr (Some (m2, kept)))"
    using s1 s2 by auto
  have got: "map_of (Records m) (FID folder) = Some (r\<lparr>PendingAdd := True\<rparr>)" and gm: "go_map (Records m)"
    using assms(2) m by (simp_all add: put_control_def controls_of_def go_map_put)
  have "r\<lparr>PendingAdd := False\<rparr> = r"
    using r by (auto simp: new_folder_control_record_def blank_record_def split: if_splits sum.splits)
  then have "map_of (Records m2) (FID folder) = Some r"
    using step2 got gm by (auto simp: activate_def with_record_def rolled_back_def put_control_def)
  then show ?thesis using r fresh q log s1 s2 t by (auto simp: controls_of_def)
qed

lemma validated_binding:
  "wp True (validate_first_sync_binding folder c b) (\<lambda>_ g. marker_present (FPath folder) (FMarkerName folder) g \<and>
     CardID b = IID (Identity c) \<and> clean (FPath folder) = clean (managed_content_path (Source c) (FKind folder))) (\<lambda>_ _. True) (\<lambda>_. True) f"
  by (auto simp: validate_first_sync_binding_def validate_managed_marker_def marker_present_def wp_exec split: option.split)

lemma new_record_protects:
  "new_folder_control_record sha folder c = Inr r \<Longrightarrow> FirstSync r \<and> FirstSyncEpoch r = 1 \<and> \<not> PendingAdd r \<and> CardID r = IID (Identity c)"
  by (auto simp: new_folder_control_record_def blank_record_def split: if_splits sum.splits)

lemma reviewed_Ok:
  assumes "reviewed_plan env input i states manual inventory s = (Ok (p, c), t)"
  shows "(i, p) \<in> set (SuPlans s) \<and> SiNow input < SpExpires p \<and> manual \<and> (SpWarning p \<longrightarrow> states) \<and>
    onboarding_card (SpSource p) inventory = Inr c \<and> IID (Identity c) = SpCard p \<and>
    validate_onboarding_selection c (SpKind p) (SpType p) (SFolders (SuSession s)) = Inr () \<and>
    \<not> binding_changed (EnvSha (SeSync env)) p c \<and>
    SFolders (SuSession t) = SFolders (SuSession s) \<and> controls_of (SuSession t) = controls_of (SuSession s) \<and>
    calls (Up (SuSession t)) = calls (Up (SuSession s))"
proof -
  let ?s = "s\<lparr>SuPlans := filter (\<lambda>(i, p). SiNow input < SpExpires p) (SuPlans s)\<rparr>"
  from assms obtain q where q: "map_of (SuPlans ?s) i = Some q"
    by (auto simp: reviewed_plan_def expire_plans_def setup_Ok split: option.splits)
  with assms obtain u x where u: "on_disk (inspect_onboarding_root (SpPath p) (SpMarker p) (SiWalk input)) (SuSession s) = (Ok x, u)"
    and p: "q = p" "manual" "SpWarning p \<longrightarrow> states" "onboarding_card (SpSource p) inventory = Inr c" "IID (Identity c) = SpCard p"
      "validate_onboarding_selection c (SpKind p) (SpType p) (SFolders (SuSession s)) = Inr ()"
      "\<not> binding_changed (EnvSha (SeSync env)) p c" and t: "SuSession t = u"
    by (auto simp: reviewed_plan_def expire_plans_def setup_Ok)
  from on_disk_frame [OF u] t have "SFolders (SuSession t) = SFolders (SuSession s)" "controls_of (SuSession t) = controls_of (SuSession s)"
    "calls (Up (SuSession t)) = calls (Up (SuSession s))" by (auto simp: controls_of_def)
  moreover from map_of_SomeD [OF q] p(1) have "(i, p) \<in> set (SuPlans s)" "SiNow input < SpExpires p" by auto
  ultimately show ?thesis using p by blast
qed

section \<open>Claims\<close>


section \<open>A sample\<close>

definition setup_marker :: string where "setup_marker = ''.leaf-saves-000000000000''"

definition setup_card :: leaf_card where
  "setup_card = \<lparr>Source = sample_source\<lparr>source.SavesPath := ''/m/S''\<rparr>, Identity = \<lparr>IVersion = 1, IID = replicate 32 CHR ''0''\<rparr>,
     State = Enrolled, Present = True, Writable = True, DuplicateID = False, RetainedBytes = 0, Issues = []\<rparr>"

definition setup_review :: setup_plan where
  "setup_review = \<lparr>SpSource = ''primary'', SpCard = replicate 32 CHR ''0'', SpKind = ''saves'', SpType = ''sendonly'',
     SpFolder = ''leaf-saves-0000000000000000'', SpLabel = ''Leaf Saves'', SpPath = ''/m/S'', SpMarker = setup_marker, SpVersions = ''/m/u/v'',
     SpFiles = 0, SpDirectories = 0, SpContent = 0, SpAvailable = 0, SpFits = False, SpPeerCount = 1, SpWarning = False, SpOffer = '''',
     SpDevices = [sample_device, sample_device_of CHR ''B''], SpExpires = 5\<rparr>"

definition setup_tree :: "json fs" where
  "setup_tree p = (if p = ''/m'' \<or> p = ''/m/S'' then Some Dir else None)"

definition setup_devices :: json where
  "setup_devices = JArr [JObj [(''deviceID'', JStr sample_device)], JObj [(''deviceID'', JStr (sample_device_of CHR ''B''))]]"

definition setup_env :: "unit session_env" where
  "setup_env = live_env\<lparr>SeParse := (\<lambda>s. Some setup_devices)\<rparr>"

definition setup_machine :: "json world \<Rightarrow> sync_machine" where
  "setup_machine w = \<lparr>CardW = w, ControlW = \<lparr>files = live_control_tree, plan = []\<rparr>, Store = empty_control, Progress = []\<rparr>"

definition setup_state :: "unit setting_up" where
  "setup_state = \<lparr>SuSession = live_session\<lparr>Sync := setup_machine \<lparr>files = setup_tree, plan = []\<rparr>, SFolders := []\<rparr>,
     SuPlans = [(''p'', setup_review)], SuShown = None\<rparr>"

definition setup_asked :: setup_input where
  "setup_asked = \<lparr>SiNow = 4, SiRandom = Inl '''', SiSpace = Inl '''', SiWalk = [], SiWalkAgain = []\<rparr>"

definition setup_folder :: configured_folder where
  "setup_folder = planned_folder setup_review [sample_device, sample_device_of CHR ''B'']"

lemma setup_names:
  "binding_names sample_sha (replicate 32 CHR ''0'') ''saves'' = Inr (''leaf-saves-0000000000000000'', setup_marker)"
  "relative_within ''/m'' ''/m/S'' = Inr ''S''" "clean ''/m'' = ''/m''" "clean ''/m/S'' = ''/m/S''"
  "join_path [''/m/S'', setup_marker] = ''/m/S/.leaf-saves-000000000000''" "join_path [''/m/S'', ''.stfolder''] = ''/m/S/.stfolder''"
  "join_path [''/m'', ''S''] = ''/m/S''" "split_on CHR ''/'' ''S'' = [''S'']" "base_name setup_marker = setup_marker"
  by code_simp+

lemmas io_defs = io_bind_def io_try_def io_ret_def io_fail_def io_lift_def io_when_def lstat_def make_dir_def sync_fs_def sys_def

lemma setup_inspect:
  "f ''/m/S'' = Some Dir \<Longrightarrow> f ''/m/S/.stfolder'' = None \<Longrightarrow> f ''/m/S/.leaf-saves-000000000000'' = None \<Longrightarrow>
     inspect_onboarding_root ''/m/S'' setup_marker [] \<lparr>files = f, plan = []\<rparr> = (Ok (0, 0, 0), \<lparr>files = f, plan = []\<rparr>)"
  by (simp add: inspect_onboarding_root_def scan_snapshot_source_def io_defs setup_names)

definition setup_marked :: "json fs" where
  "setup_marked = setup_tree(''/m/S/.leaf-saves-000000000000'' \<mapsto> Dir)"

lemma setup_prepare:
  "prepare_onboarding_storage setup_card ''saves'' ''sendonly'' setup_marker [] \<lparr>files = setup_tree, plan = []\<rparr> =
     (Ok (), \<lparr>files = setup_marked, plan = []\<rparr>)"
proof -
  have "managed_content_path (Source setup_card) ''saves'' = ''/m/S''" "Root (Source setup_card) = ''/m''"
    by (simp_all add: managed_content_path_def setup_card_def sample_source_def)
  moreover have "setup_marker \<noteq> ''.stfolder''" "setup_marker \<noteq> ''''" by (simp_all add: setup_marker_def)
  ultimately show ?thesis
    using setup_inspect [of setup_tree]
    by (simp add: prepare_onboarding_storage_def ensure_safe_directory_chain_def validate_managed_marker_def io_defs setup_names
      setup_tree_def setup_marked_def Let_def)
qed

lemma setup_validated:
  "CardID b = replicate 32 CHR ''0'' \<Longrightarrow> Kind b = ''saves'' \<Longrightarrow> MarkerName b = setup_marker \<Longrightarrow>
     validate_first_sync_binding setup_folder setup_card b \<lparr>files = setup_marked, plan = []\<rparr> = (Ok (), \<lparr>files = setup_marked, plan = []\<rparr>)"
proof -
  have "managed_content_path (Source setup_card) ''saves'' = ''/m/S''" "IID (Identity setup_card) = replicate 32 CHR ''0''"
    by (simp_all add: managed_content_path_def setup_card_def sample_source_def)
  moreover have "setup_marker \<noteq> ''.stfolder''" "setup_marker \<noteq> ''''" by (simp_all add: setup_marker_def)
  moreover have "FPath setup_folder = ''/m/S'' \<and> FKind setup_folder = ''saves'' \<and> FMarkerName setup_folder = setup_marker \<and> FType setup_folder = ''sendonly''"
    by (simp add: setup_folder_def planned_folder_def setup_review_def Let_def)
  ultimately show "CardID b = replicate 32 CHR ''0'' \<Longrightarrow> Kind b = ''saves'' \<Longrightarrow> MarkerName b = setup_marker \<Longrightarrow> ?thesis"
    by (simp add: validate_first_sync_binding_def validate_managed_marker_def io_defs setup_names setup_tree_def setup_marked_def)
qed

lemma setup_record: "case new_folder_control_record sample_sha setup_folder setup_card of
    Inl e \<Rightarrow> False | Inr b \<Rightarrow> CardID b = replicate 32 CHR ''0'' \<and> Kind b = ''saves'' \<and> MarkerName b = setup_marker"
  by code_simp

lemma setup_controls: "case control_do (SeSync setup_env) (Add_Record setup_folder setup_card True) (setup_machine \<lparr>files = setup_tree, plan = []\<rparr>) of
    (r, t) \<Rightarrow> r = Ok () \<and> (case control_do (SeSync setup_env) (Activate (FID setup_folder)) t of (r', t') \<Rightarrow> r' = Ok ())"
  by code_simp

lemma setup_peer_devices:
  "normalize_device_id sample_device = Inr sample_device"
  "normalize_device_id (sample_device_of CHR ''B'') = Inr (sample_device_of CHR ''B'')"
  "sample_device \<noteq> sample_device_of CHR ''B''"
  using live_device sample_device_normal [OF device_chars(2)] by (simp_all add: sample_device_def)

lemma setup_decoded: "decode_slice decode_device_id setup_devices = Inr [sample_device, sample_device_of CHR ''B'']"
  by (simp add: decode_slice_def setup_devices_def decode_device_id_def decode_struct_def device_spec_def find_field_def set_string_def)

lemma setup_selected:
  "\<exists>u. selected_folder_devices setup_env [sample_device_of CHR ''B''] s = (Ok [sample_device, sample_device_of CHR ''B''], s\<lparr>Up := u\<rparr>)"
proof -
  have room: "1 \<le> max_folder_devices" "\<not> max_folder_devices < 2" by code_simp+
  have read: "\<exists>u. configured_folder_devices (SeParse setup_env) live_server sample_device (Up s) = (Inr [sample_device, sample_device_of CHR ''B''], u)"
  proof -
    have "trim_space ''{}'' = ''{}''" by code_simp
    then have "\<exists>u. api_read (SeParse setup_env) live_server ''/rest/config/devices'' [] (decode_slice decode_device_id) (Up s) =
        (Inr [sample_device, sample_device_of CHR ''B''], u)"
      using setup_decoded
      by (simp add: api_read_def up_bind_def api_json_def live_server_def setup_env_def up_lift_def max_api_response_bytes_def Let_def)
    then show ?thesis using setup_peer_devices room
      by (auto simp: configured_folder_devices_def up_bind_def up_lift_def up_ret_def order_devices_def)
  qed
  then obtain u where "configured_folder_devices (SeParse setup_env) live_server sample_device (Up s) = (Inr [sample_device, sample_device_of CHR ''B''], u)"
    by blast
  moreover have "SeSelf setup_env = sample_device" "SeServer setup_env = live_server" by (simp_all add: setup_env_def live_env_def)
  ultimately show ?thesis using setup_peer_devices
    by (intro exI [of _ u]) (auto simp: selected_folder_devices_def pr_bind_def on_up_def pr_lift_def pr_ret_def)
qed

lemma setup_added: "\<exists>u. add_managed_folder (SeParse setup_env) live_server setup_folder up0 = (Inr (), u)"
proof -
  have "valid_folder_id ''leaf-saves-0000000000000000'' \<and> is_abs ''/m/S'' \<and> setup_marker \<noteq> '''' \<and> setup_marker \<noteq> ''.stfolder'' \<and>
     valid_display_name (trim_space ''Leaf Saves'') max_folder_name \<and> 2 \<le> max_folder_devices"
    by code_simp
  moreover have "FPath setup_folder = ''/m/S'' \<and> FID setup_folder = ''leaf-saves-0000000000000000'' \<and> FMarkerName setup_folder = setup_marker \<and>
     FType setup_folder = ''sendonly'' \<and> FLabel setup_folder = ''Leaf Saves'' \<and> FDevices setup_folder = [sample_device, sample_device_of CHR ''B'']"
    by (simp add: setup_folder_def planned_folder_def setup_review_def Let_def)
  ultimately obtain q where "managed_folder_api_request setup_folder = Inr q"
    using setup_peer_devices by (auto simp: managed_folder_api_request_def setup_names sum_bind_def Let_def)
  moreover have "length (FDevices setup_folder) = 2" by (simp add: setup_folder_def planned_folder_def Let_def)
  ultimately show ?thesis
    by (simp add: add_managed_folder_def up_bind_def up_lift_def api_send_def api_json_def live_server_def max_api_response_bytes_def up_ret_def Let_def)
qed

lemma control_do_card:
  "control_do env op (s\<lparr>CardW := w\<rparr>) = (case control_do env op s of (r, t) \<Rightarrow> (r, t\<lparr>CardW := w\<rparr>))"
  by (auto simp: control_do_def split: prod.splits outcome.splits option.splits)

lemma setup_installed:
  assumes "Sync s = setup_machine w"
  shows "\<exists>t. install_folder setup_env setup_folder setup_card s = (Ok (), t)"
proof -
  let ?m = "setup_machine \<lparr>files = setup_tree, plan = []\<rparr>"
  obtain r t where t: "control_do (SeSync setup_env) (Add_Record setup_folder setup_card True) ?m = (r, t)" by fastforce
  obtain r' t' where t': "control_do (SeSync setup_env) (Activate (FID setup_folder)) t = (r', t')" by fastforce
  have ok: "r = Ok ()" "r' = Ok ()" using setup_controls t t' by auto
  have m: "Sync s = ?m\<lparr>CardW := w\<rparr>" using assms by (simp add: setup_machine_def)
  have server: "SeServer setup_env = live_server" by (simp add: setup_env_def live_env_def)
  have one: "control_op_do setup_env (Add_Record setup_folder setup_card True) s = (Ok (), s\<lparr>Sync := t\<lparr>CardW := w\<rparr>\<rparr>)"
    using t ok(1) by (simp add: control_op_do_def on_sync_def m control_do_card)
  obtain u where u: "on_up (add_managed_folder (SeParse setup_env) (SeServer setup_env) setup_folder) (s\<lparr>Sync := t\<lparr>CardW := w\<rparr>\<rparr>) =
      (Ok (), s\<lparr>Sync := t\<lparr>CardW := w\<rparr>, Up := u\<rparr>)"
    using setup_added [of "Up s"] server by (auto simp: on_up_def)
  have two: "control_op_do setup_env (Activate (FID setup_folder)) (s\<lparr>Sync := t\<lparr>CardW := w\<rparr>, Up := u\<rparr>) =
      (Ok (), s\<lparr>Sync := t'\<lparr>CardW := w\<rparr>, Up := u\<rparr>)"
    using t' ok(2) by (simp add: control_op_do_def on_sync_def control_do_card)
  from one u two show ?thesis by (simp add: install_folder_def pr_bind_def pr_try_def pr_ret_def)
qed

lemma setup_checks:
  "onboarding_card ''primary'' [setup_card] = Inr setup_card"
  "validate_onboarding_selection setup_card ''saves'' ''sendonly'' [] = Inr ()"
  "\<not> binding_changed sample_sha setup_review setup_card" "IID (Identity setup_card) = SpCard setup_review"
  by code_simp+

lemma setup_reviewed: "reviewed_plan setup_env setup_asked ''p'' False True [setup_card] setup_state = (Ok (setup_review, setup_card), setup_state)"
proof -
  have p: "SpSource setup_review = ''primary'' \<and> SpKind setup_review = ''saves'' \<and> SpType setup_review = ''sendonly'' \<and> SpPath setup_review = ''/m/S'' \<and>
     SpMarker setup_review = setup_marker \<and> \<not> SpWarning setup_review \<and> SpExpires setup_review = 5"
    by (simp add: setup_review_def)
  have sha: "EnvSha (SeSync setup_env) = sample_sha" by (simp add: setup_env_def live_env_def)
  have disk: "on_disk (inspect_onboarding_root ''/m/S'' setup_marker []) (SuSession setup_state) = (Ok (0, 0, 0), SuSession setup_state)"
    using setup_inspect [of setup_tree]
    by (simp add: on_disk_def on_sync_def on_card_def on_files_def setup_state_def setup_machine_def setup_tree_def)
  have s: "SuPlans setup_state = [(''p'', setup_review)]" "SFolders (SuSession setup_state) = []" "setup_state\<lparr>SuPlans := [(''p'', setup_review)]\<rparr> = setup_state"
    by (simp_all add: setup_state_def)
  show ?thesis
    using setup_checks p sha disk s
    by (simp add: reviewed_plan_def expire_plans_def pr_bind_def pr_put_def pr_get_def pr_check_def pr_lift_def pr_ret_def in_session_def setup_asked_def)
qed

lemma setup_run: "\<exists>t. create_planned setup_env setup_asked ''p'' False True [setup_card] setup_state = (Ok setup_folder, t)"
proof -
  have p: "SpKind setup_review = ''saves'' \<and> SpType setup_review = ''sendonly'' \<and> SpMarker setup_review = setup_marker \<and>
     SpDevices setup_review = [sample_device, sample_device_of CHR ''B'']"
    by (simp add: setup_review_def)
  obtain u where u: "selected_folder_devices setup_env [sample_device_of CHR ''B''] (SuSession setup_state) =
      (Ok [sample_device, sample_device_of CHR ''B''], (SuSession setup_state)\<lparr>Up := u\<rparr>)"
    using setup_selected by blast
  let ?w = "\<lparr>files = setup_marked, plan = []\<rparr>" and ?s = "(SuSession setup_state)\<lparr>Up := u\<rparr>"
  have disk: "on_disk (prepare_onboarding_storage setup_card ''saves'' ''sendonly'' setup_marker []) ?s = (Ok (), ?s\<lparr>Sync := setup_machine ?w\<rparr>)"
    using setup_prepare by (simp add: on_disk_def on_sync_def on_card_def on_files_def setup_state_def setup_machine_def)
  obtain b where b: "new_folder_control_record sample_sha setup_folder setup_card = Inr b"
      "CardID b = replicate 32 CHR ''0''" "Kind b = ''saves''" "MarkerName b = setup_marker"
    using setup_record by (auto split: sum.splits)
  have val: "on_disk (validate_first_sync_binding setup_folder setup_card b) (?s\<lparr>Sync := setup_machine ?w\<rparr>) = (Ok (), ?s\<lparr>Sync := setup_machine ?w\<rparr>)"
    using setup_validated [OF b(2-4)] by (simp add: on_disk_def on_sync_def on_card_def on_files_def setup_machine_def)
  obtain t where t: "install_folder setup_env setup_folder setup_card (?s\<lparr>Sync := setup_machine ?w\<rparr>) = (Ok (), t)"
    using setup_installed [of "?s\<lparr>Sync := setup_machine ?w\<rparr>" ?w] by auto
  have sha: "EnvSha (SeSync setup_env) = sample_sha" by (simp add: setup_env_def live_env_def)
  have folder: "planned_folder setup_review [sample_device, sample_device_of CHR ''B''] = setup_folder" by (simp add: setup_folder_def)
  show ?thesis
    using setup_reviewed p u disk b(1) val t sha folder
    by (simp add: create_planned_def pr_bind_def pr_check_def pr_ret_def in_session_def pr_lift_def pr_put_def setup_asked_def Let_def)
qed


end
