(* ===== verification/Run_Loop.thy ===== *)
theory Run_Loop
  imports Session_Claims Gateway Network_Profile Controller_Config
begin

text \<open>
  The loop of \<open>Runner.Run\<close> (\<open>controller/run.go\<close>): what the controller does while it runs, with the
  events of the lifecycle service, the checks before a game that it starts and cancels, the changes
  of the network, the gateway, and the ways it ends.  Operations of the screen run between two turns
  of the loop; how they and the loop share the status is a relation of its own.
\<close>

section \<open>State\<close>

datatype upstream_run = No_Upstream | Running_Upstream | Stopped_Upstream | Unstopped_Upstream | Gone_Upstream

text \<open>
  A check that was started: its event, its folders, the connection it answers on, counted from the
  first, and whether its context is still open.
\<close>

record loop_check =
  LcEvent :: event
  LcFolders :: "configured_folder list"
  LcLink :: nat
  LcLive :: bool

text \<open>
  \<open>LoCancel\<close> is the function that cancels a check, given by the position of the check; \<open>LoNetwork\<close>
  and \<open>LoGateway\<close> are there when the upstream process offers them.
\<close>

record 'u loop_state =
  LoSession :: "'u session"
  LoGame :: game_state
  LoLaunch :: string
  LoCancel :: "nat option"
  LoChecks :: "loop_check list"
  LoLink :: subscription
  LoLinks :: nat
  LoUpstream :: upstream_run
  LoNetwork :: "(network_manager \<times> network_document world) option"
  LoGateway :: "gateway option"

record 'u loop_env =
  LeSession :: "'u session_env"
  LeConfig :: controller_config
  LeMarshal :: "json \<Rightarrow> string"
  LePolls :: nat
  LeNetSize :: "network_document \<Rightarrow> nat"
  LeNetPath :: string
  LeGateway :: gw_env
  LeStop :: "error option"

text \<open>
  What the \<open>select\<close> of a turn receives: the end of the context, of the upstream process or of the
  control socket, a tick with the instant, the routes and the addresses of that moment, a failed read
  from the lifecycle service with what connecting again meets, and an event with the cards that are
  found then.  \<open>LeStop\<close> is the error of \<open>Shutdown\<close>, if it fails.
\<close>

datatype loop_input =
    Context_Over
  | Upstream_Ended bool
  | Control_Ended "error option"
  | Tick int "error + string list" "error + ip_address list"
  | Link_Broken bool "lifecycle_attempt list" bool
  | Lifecycle_Event event "error + leaf_card list"

datatype loop_end = Goes_On | Returned "error option"

type_synonym ('u, 'a) loop = "('u loop_state, 'a) prog"

definition on_session :: "('u, 'a) sess \<Rightarrow> ('u, 'a) loop" where
  "on_session m = (\<lambda>s. case m (LoSession s) of (r, t) \<Rightarrow> (r, s\<lparr>LoSession := t\<rparr>))"

section \<open>Stopping\<close>

text \<open>\<open>shutdownUpstream\<close>: nothing to do without a process.\<close>

definition shutdown_upstream :: "error option \<Rightarrow> ('u, error option) loop" where
  "shutdown_upstream answer = (\<lambda>s.
     if LoUpstream s = No_Upstream then (Ok None, s)
     else case answer of
       None \<Rightarrow> (Ok None, s\<lparr>LoUpstream := Stopped_Upstream\<rparr>)
     | Some e \<Rightarrow> (Ok (Some ''stop upstream''), s\<lparr>LoUpstream := Unstopped_Upstream\<rparr>))"

definition cancel_nth :: "nat \<Rightarrow> loop_check list \<Rightarrow> loop_check list" where
  "cancel_nth n cs = (if n < length cs then cs[n := (cs ! n)\<lparr>LcLive := False\<rparr>] else cs)"

text \<open>\<open>gameCheckCancel()\<close>, when there is one.\<close>

definition cancel_check :: "('u, unit) loop" where
  "cancel_check = pr_put (\<lambda>s. case LoCancel s of None \<Rightarrow> s | Some n \<Rightarrow> s\<lparr>LoChecks := cancel_nth n (LoChecks s)\<rparr>)"

definition close_gateway :: "gateway \<Rightarrow> gateway" where
  "close_gateway g = snd (gw_close g)"

text \<open>
  What is deferred to the return: the contexts of all checks are cancelled, the gateway and the
  connection are closed.
\<close>

definition loop_return :: "error option \<Rightarrow> ('u, loop_end) loop" where
  "loop_return e = pr_bind (pr_put (\<lambda>s. s\<lparr>LoChecks := map (\<lambda>c. c\<lparr>LcLive := False\<rparr>) (LoChecks s),
       LoGateway := map_option close_gateway (LoGateway s), LoLink := close_subscription (LoLink s)\<rparr>)) (\<lambda>_.
     pr_ret (Returned e))"

definition stop_and_return :: "'u loop_env \<Rightarrow> ('u, loop_end) loop" where
  "stop_and_return env = pr_bind (shutdown_upstream (LeStop env)) loop_return"

text \<open>The upstream process is stopped and the loop ends with an error, that of the stop if it fails.\<close>

definition fail_stopped :: "'u loop_env \<Rightarrow> error \<Rightarrow> ('u, loop_end) loop" where
  "fail_stopped env e = pr_bind (shutdown_upstream (LeStop env)) (\<lambda>r.
     loop_return (Some (case r of None \<Rightarrow> e | Some e' \<Rightarrow> e')))"

section \<open>A turn\<close>

definition show_game :: "('u, unit) loop" where
  "show_game = pr_put (\<lambda>s. s\<lparr>LoSession := (LoSession s)\<lparr>View := (View (LoSession s))\<lparr>VwGame := LoGame s\<rparr>\<rparr>\<rparr>)"

text \<open>The changes of the network; the status' own fields for the network and the gateway are not kept.\<close>

definition network_turn :: "'u loop_env \<Rightarrow> error + string list \<Rightarrow> ('u, bool) loop" where
  "network_turn env routes = (\<lambda>s. case LoNetwork s of
     None \<Rightarrow> (Ok False, s)
   | Some (m, w) \<Rightarrow>
       (case refresh_network (SeParse (LeSession env)) (SeServer (LeSession env)) (LePolls env) (LeNetSize env) (LeNetPath env)
          (SeSelf (LeSession env)) routes (m, Up (LoSession s), w) of
          (r, m', u, w') \<Rightarrow> (r, s\<lparr>LoNetwork := Some (m', w'), LoSession := (LoSession s)\<lparr>Up := u\<rparr>\<rparr>)))"

definition gateway_turn :: "'u loop_env \<Rightarrow> int \<Rightarrow> error + ip_address list \<Rightarrow> ('u, unit) loop" where
  "gateway_turn env now found = (\<lambda>s. case LoGateway s of
     None \<Rightarrow> (Ok (), s)
   | Some g \<Rightarrow> (case gw_tick (LeGateway env) now found g of (_, g') \<Rightarrow> (Ok (), s\<lparr>LoGateway := Some g'\<rparr>)))"

definition tick_turn :: "'u loop_env \<Rightarrow> int \<Rightarrow> error + string list \<Rightarrow> error + ip_address list \<Rightarrow> ('u, loop_end) loop" where
  "tick_turn env now routes found =
     pr_bind (pr_try (network_turn env routes)) (\<lambda>r. case r of
       Inl _ \<Rightarrow> fail_stopped env ''refresh LAN boundary''
     | Inr changed \<Rightarrow>
         pr_bind (pr_when changed (pr_put (\<lambda>s. s\<lparr>LoGateway := map_option close_gateway (LoGateway s)\<rparr>))) (\<lambda>_.
         pr_bind (gateway_turn env now found) (\<lambda>_. pr_ret Goes_On)))"

definition broken_turn :: "'u loop_env \<Rightarrow> bool \<Rightarrow> lifecycle_attempt list \<Rightarrow> bool \<Rightarrow> ('u, loop_end) loop" where
  "broken_turn env over attempts over_after =
     (if over then stop_and_return env
      else
        pr_bind (pr_put (\<lambda>s. s\<lparr>LoLink := close_subscription (LoLink s)\<rparr>)) (\<lambda>_.
        pr_bind (pr_get LoCancel) (\<lambda>running.
        pr_bind (pr_when (running \<noteq> None) (pr_bind cancel_check (\<lambda>_. pr_put (\<lambda>s. s\<lparr>LoCancel := None, LoLaunch := ''''\<rparr>)))) (\<lambda>_.
        case establish_lifecycle (SeParse (LeSession env)) (LeMarshal env) (LeConfig env) attempts of
          Inl e \<Rightarrow> if over_after \<or> e = ''context canceled'' then stop_and_return env else fail_stopped env e
        | Inr (link, state) \<Rightarrow>
            pr_bind (pr_put (\<lambda>s. s\<lparr>LoLink := link, LoLinks := LoLinks s + 1\<rparr>)) (\<lambda>_.
            if CfgMode (LeConfig env) = Stop_Mode \<and> Active state then stop_and_return env
            else pr_bind (pr_put (\<lambda>s. s\<lparr>LoGame := state\<rparr>)) (\<lambda>_.
                 pr_bind show_game (\<lambda>_. pr_ret Goes_On)))))))"

text \<open>\<open>SendError\<close> on the connection of the loop.\<close>

definition send_reason :: "'u loop_env \<Rightarrow> string \<Rightarrow> string \<Rightarrow> ('u, bool) loop" where
  "send_reason env launch reason = (\<lambda>s.
     case send_error (SeParse (LeSession env)) (LeMarshal env) launch reason (LoLink s) of
       (Inl _, link) \<Rightarrow> (Ok False, s\<lparr>LoLink := link\<rparr>) | (Inr _, link) \<Rightarrow> (Ok True, s\<lparr>LoLink := link\<rparr>))"

text \<open>The folders of a check, from the cards that are found; when looking fails that is the error.\<close>

definition select_check_folders :: "event \<Rightarrow> error + leaf_card list \<Rightarrow> ('u, error + configured_folder list) loop" where
  "select_check_folders ev cards =
     pr_bind (pr_get (\<lambda>s. (SFolders (LoSession s), controls_of (LoSession s)))) (\<lambda>(folders, controls).
     pr_bind (pr_try (on_session (on_disk (folders_for_game_check ev (case cards of Inl _ \<Rightarrow> [] | Inr found \<Rightarrow> found) folders controls)))) (\<lambda>chosen.
       pr_ret (case cards of Inl e \<Rightarrow> Inl ''refresh card inventory'' | Inr _ \<Rightarrow> chosen)))"

text \<open>\<open>handleLifecycleEvent\<close>.\<close>

definition handle_lifecycle_event :: "'u loop_env \<Rightarrow> event \<Rightarrow> ('u, error option) loop" where
  "handle_lifecycle_event env ev =
     (if Name ev = ''game.start'' then
        pr_bind (send_reason env (LaunchID ev) ''pause-unavailable'') (\<lambda>sent_it.
          pr_ret (if sent_it then None else Some ''reject game.start''))
      else if Name ev \<in> {''game.cancel'', ''game.abort'', ''game.finish''} then pr_ret None
      else pr_ret (Some ''unsupported LIFE-1 event''))"

definition check_turn :: "'u loop_env \<Rightarrow> event \<Rightarrow> error + leaf_card list \<Rightarrow> ('u, error option) loop" where
  "check_turn env ev cards =
     pr_bind (pr_get LoLaunch) (\<lambda>launch.
     if launch = LaunchID ev then pr_ret None
     else
       pr_bind cancel_check (\<lambda>_.
       pr_bind (select_check_folders ev cards) (\<lambda>chosen. case chosen of
         Inl _ \<Rightarrow>
           pr_bind (send_reason env (LaunchID ev) ''unsafe-card-binding'') (\<lambda>sent_it.
           if \<not> sent_it then pr_ret (Some ''reject game.check'')
           else pr_bind (pr_put (\<lambda>s. s\<lparr>LoCancel := None, LoLaunch := LaunchID ev\<rparr>)) (\<lambda>_. pr_ret None))
       | Inr folders \<Rightarrow>
           pr_bind (pr_put (\<lambda>s. s\<lparr>LoCancel := Some (length (LoChecks s)), LoLaunch := LaunchID ev,
             LoChecks := LoChecks s @ [\<lparr>LcEvent = ev, LcFolders = folders, LcLink = LoLinks s, LcLive = True\<rparr>]\<rparr>)) (\<lambda>_.
             pr_ret None))))"

definition other_turn :: "'u loop_env \<Rightarrow> event \<Rightarrow> ('u, error option) loop" where
  "other_turn env ev =
     pr_bind (pr_get LoLaunch) (\<lambda>launch.
     pr_bind (pr_when (Name ev \<in> {''game.cancel'', ''game.abort'', ''game.finish''} \<and> LaunchID ev = launch)
       (pr_bind cancel_check (\<lambda>_. pr_put (\<lambda>s. s\<lparr>LoCancel := None, LoLaunch := ''''\<rparr>)))) (\<lambda>_.
       handle_lifecycle_event env ev))"

definition event_turn :: "'u loop_env \<Rightarrow> event \<Rightarrow> error + leaf_card list \<Rightarrow> ('u, loop_end) loop" where
  "event_turn env ev cards =
     pr_bind (if Name ev = ''game.check'' then check_turn env ev cards else other_turn env ev) (\<lambda>r. case r of
       Some e \<Rightarrow> loop_return (Some e)
     | None \<Rightarrow> pr_bind (pr_put (\<lambda>s. s\<lparr>LoGame := reconcile_game_state (LoGame s) ev\<rparr>)) (\<lambda>_.
               pr_bind show_game (\<lambda>_. pr_ret Goes_On)))"

text \<open>
  One turn.  An upstream process that ended by itself is not stopped, unless the context is over as well.
  \<open>offered\<close> says which inputs can come: without a process there is none that ends, and the ticker runs
  for the network and the gateway only.
\<close>

definition offered :: "'u loop_state \<Rightarrow> loop_input \<Rightarrow> bool" where
  "offered s input = (case input of
     Upstream_Ended _ \<Rightarrow> LoUpstream s = Running_Upstream
   | Tick _ _ _ \<Rightarrow> LoNetwork s \<noteq> None \<or> LoGateway s \<noteq> None
   | _ \<Rightarrow> True)"

fun loop_turn :: "'u loop_env \<Rightarrow> loop_input \<Rightarrow> ('u, loop_end) loop" where
  "loop_turn env Context_Over = stop_and_return env"
| "loop_turn env (Upstream_Ended over) =
     (if over then stop_and_return env
      else pr_bind (pr_put (\<lambda>s. s\<lparr>LoUpstream := Gone_Upstream\<rparr>)) (\<lambda>_.
        loop_return (Some ''upstream exited unexpectedly'')))"
| "loop_turn env (Control_Ended e) = fail_stopped env ''UI control socket failed''"
| "loop_turn env (Tick now routes found) = tick_turn env now routes found"
| "loop_turn env (Link_Broken over attempts over_after) = broken_turn env over attempts over_after"
| "loop_turn env (Lifecycle_Event ev cards) = event_turn env ev cards"

text \<open>
  The controller: a turn of the loop, whatever the \<open>select\<close> receives, or an operation of the screen
  between two turns.  The second component is the result once the loop has returned.
\<close>

inductive controller_step :: "'u loop_env \<Rightarrow> 'u loop_state \<times> loop_end \<Rightarrow> 'u loop_state \<times> loop_end \<Rightarrow> bool" for env where
  turn: "offered s input \<Longrightarrow> loop_turn env input s = (Ok r, t) \<Longrightarrow> controller_step env (s, Goes_On) (t, r)"
| operation: "run_session_op (LeSession env) w op (LoSession s) = (r, u) \<Longrightarrow> r \<noteq> Died \<Longrightarrow>
     controller_step env (s, Goes_On) (s\<lparr>LoSession := u\<rparr>, Goes_On)"

inductive controller_runs :: "'u loop_env \<Rightarrow> 'u loop_state \<times> loop_end \<Rightarrow> 'u loop_state \<times> loop_end \<Rightarrow> bool" for env where
  starts: "controller_runs env x x"
| steps: "controller_runs env x y \<Longrightarrow> controller_step env y z \<Longrightarrow> controller_runs env x z"


section \<open>The game in the status\<close>

text \<open>No operation of the screen changes what the status says of the game.\<close>

definition keeps_game :: "('u, 'a) sess \<Rightarrow> bool" where
  "keeps_game m \<longleftrightarrow> (\<forall>s. VwGame (View (snd (m s))) = VwGame (View s))"

named_theorems game_intro "programs over the session that keep the game of the status"

lemma keeps_game_bind [game_intro]: "keeps_game m \<Longrightarrow> (\<And>x. keeps_game (k x)) \<Longrightarrow> keeps_game (pr_bind m k)"
  unfolding keeps_game_def pr_bind_def by (auto split: prod.split outcome.split) (metis snd_conv)+

lemma keeps_game_prims [game_intro]:
  "keeps_game (pr_ret x)" "keeps_game (pr_fail e)" "keeps_game (pr_get g)" "keeps_game (pr_lift r)" "keeps_game (pr_check b e)"
  by (auto simp: keeps_game_def pr_ret_def pr_fail_def pr_get_def pr_lift_def pr_check_def split: sum.split)

lemma keeps_game_parts [game_intro]:
  "keeps_game (on_sync m)" "keeps_game (on_up u)" "keeps_game (on_disk d)" "keeps_game (put_folder n f)" "keeps_game (mark_paused n b)"
  "keeps_game show_first_sync" "keeps_game (drop_folder n)"
  by (auto simp: keeps_game_def on_sync_def on_up_def on_disk_def put_folder_def mark_paused_def show_first_sync_def drop_folder_def
      pr_put_def apply_first_sync_status_def split: prod.split sum.split)

lemma keeps_game_branches [game_intro]:
  "(b \<Longrightarrow> keeps_game m) \<Longrightarrow> (\<not> b \<Longrightarrow> keeps_game n) \<Longrightarrow> keeps_game (if b then m else n)"
  "(b \<Longrightarrow> keeps_game m0) \<Longrightarrow> keeps_game (pr_when b m0)"
  "(x = None \<Longrightarrow> keeps_game m) \<Longrightarrow> (\<And>y. x = Some y \<Longrightarrow> keeps_game (k y)) \<Longrightarrow> keeps_game (case x of None \<Rightarrow> m | Some y \<Rightarrow> k y)"
  "(\<And>e. r = Inl e \<Longrightarrow> keeps_game (h e)) \<Longrightarrow> (\<And>z. r = Inr z \<Longrightarrow> keeps_game (l z)) \<Longrightarrow> keeps_game (case r of Inl e \<Rightarrow> h e | Inr z \<Rightarrow> l z)"
  "(\<And>a c. p = (a, c) \<Longrightarrow> keeps_game (q a c)) \<Longrightarrow> keeps_game (case p of (a, c) \<Rightarrow> q a c)"
  "(\<And>v. v = w \<Longrightarrow> keeps_game (j v)) \<Longrightarrow> keeps_game (let v = w in j v)"
  by (auto simp: pr_when_def keeps_game_prims split: option.split sum.split prod.split)

lemma keeps_game_try [game_intro]: "keeps_game m \<Longrightarrow> keeps_game (pr_try m)"
  unfolding keeps_game_def pr_try_def by (auto split: prod.split outcome.split) (metis snd_conv)+

lemma keeps_game_each [game_intro]: "(\<And>x. x \<in> set xs \<Longrightarrow> keeps_game (m x)) \<Longrightarrow> keeps_game (pr_each m xs)"
  by (induction xs) (simp_all add: game_intro)

lemma keeps_game_assigning [game_intro]: "keeps_game m \<Longrightarrow> keeps_game (assigning_folders m)"
  unfolding keeps_game_def assigning_folders_def by (auto split: prod.split outcome.split) (metis snd_conv)+

lemma keeps_game_view [game_intro]: "(\<And>v. VwGame (g v) = VwGame v) \<Longrightarrow> keeps_game (set_view g)"
  by (simp add: keeps_game_def set_view_def pr_put_def)

lemma keeps_game_live: "keeps_game (pr_put (\<lambda>s. s\<lparr>View := apply_ignored_offers (apply_live_status (View s) live) (Offers (Store (Sync s)))\<rparr>))"
  by (simp add: keeps_game_def pr_put_def apply_ignored_offers_def apply_live_status_def Let_def split: prod.split)

lemma keeps_game_refresh [game_intro]: "keeps_game (refresh env)"
  unfolding refresh_def refresh_live_def by (intro game_intro keeps_game_live) (simp add: apply_live_error_def)

lemma apply_inventory_game: "apply_inventory inventory folders controls v w = (Ok v', w') \<Longrightarrow> VwGame v' = VwGame v"
  by (auto simp: apply_inventory_def apply_card_inventory_def io_bind_def io_ret_def Let_def split: prod.splits outcome.splits)

lemma keeps_game_inventory [game_intro]: "keeps_game (show_inventory inventory)"
  unfolding keeps_game_def
  by (auto simp: show_inventory_def pr_bind_def pr_get_def on_disk_def on_sync_def on_card_def on_files_def set_view_def pr_put_def
        show_first_sync_def apply_first_sync_status_def split: prod.split outcome.split dest: apply_inventory_game)

lemma keeps_game_control [game_intro]: "keeps_game (control_op_do env op)" "keeps_game (pause_up env i b)"
  unfolding control_op_do_def pause_up_def by (intro game_intro)+

lemma keeps_game_rename: "keeps_game (pr_put (\<lambda>s. s\<lparr>SFolders := g s\<rparr>))"
  by (simp add: keeps_game_def pr_put_def)

lemma keeps_game_reads [game_intro]:
  "keeps_game (safe_row i e)" "keeps_game (configured i e)" "keeps_game (folder_card folder inventory e)" "keeps_game (action_row env i)"
  "keeps_game (offline_pauses inventory)" "keeps_game (finish_rescan env i)"
  unfolding safe_row_def configured_def folder_card_def action_row_def offline_pauses_def finish_rescan_def
  by (intro game_intro)+

lemma keeps_game_run [game_intro]: "keeps_game after_run \<Longrightarrow> keeps_game (run_if_safe env inventory i n after_run)"
  unfolding run_if_safe_def by (intro game_intro)

lemma keeps_game_recoveries [game_intro]:
  "keeps_game (recover_folder_memberships env inventory order)" "keeps_game (recover_pending_folder_stops env inventory order)"
  "keeps_game (recover_pending_device_removal env)"
  unfolding recover_folder_memberships_def recover_membership_def settle_row_def recover_pending_folder_stops_def recover_stop_def
    recover_pending_device_removal_def
  by (intro game_intro)+

lemma keeps_game_relocate_all: "keeps_game (relocate_all env inventory controls ns)"
  by (induction ns) (auto simp: relocate_folder_def intro!: game_intro)

lemma keeps_game_relocate [game_intro]: "keeps_game (relocate_managed_folders env inventory)"
  unfolding relocate_managed_folders_def settle_relocated_def by (intro game_intro keeps_game_relocate_all)

lemma on_row_game [simp]: "VwGame (on_row i g v) = VwGame v"
  by (simp add: on_row_def)

lemma operations_keep_game: "keeps_game (run_session_op env w op)"
proof -
  have "keeps_game (folder_stop env looked order i)" "keeps_game (folder_pause env i)" "keeps_game (folder_resume env i)"
    "keeps_game (folder_rescan env i)" "keeps_game (folder_rename env i label)" "keeps_game (folder_inspect env scan i)" for looked order i label scan
    unfolding folder_stop_def folder_pause_def folder_resume_def folder_rescan_def folder_rename_def folder_inspect_def Let_def
    by ((intro game_intro keeps_game_rename; simp)+)
  moreover have "keeps_game (prepare_first_sync_op env looked snap i)" "keeps_game (start_first_sync_op env looked i hub)"
    "keeps_game (set_folder_type_op env looked i ty)" "keeps_game (folder_membership_op env looked b i d)" for looked snap i hub ty b d
    unfolding prepare_first_sync_op_def start_first_sync_op_def set_folder_type_op_def folder_membership_op_def Let_def
    by (intro game_intro)+
  moreover have "keeps_game (offer_action_op env b i d)" "keeps_game (enroll_card_op sources enrolled looked i)" "keeps_game (peer_add_op env networks d name)"
    "keeps_game (peer_rename_op env d name)" "keeps_game (peer_remove_op env d)" for b i d sources enrolled looked networks name
    unfolding offer_action_op_def enroll_card_op_def peer_add_op_def peer_rename_op_def peer_remove_op_def
    by (intro game_intro)+
  ultimately show ?thesis
    by (cases op) (auto intro!: game_intro)
qed


section \<open>The order of the checks\<close>

text \<open>
  While the loop runs: the status shows the game that the loop knows of, and a check that is not
  cancelled is the one that the loop can cancel, is for the launch that the loop remembers, and
  answers on the connection of now.
\<close>

definition checks_current :: "loop_check list \<Rightarrow> nat option \<Rightarrow> string \<Rightarrow> nat \<Rightarrow> bool" where
  "checks_current cs cancel launch links \<longleftrightarrow>
     (\<forall>n < length cs. LcLive (cs ! n) \<longrightarrow> cancel = Some n) \<and>
     (\<forall>n. cancel = Some n \<longrightarrow> n < length cs \<and> LaunchID (LcEvent (cs ! n)) = launch \<and> LcLink (cs ! n) = links)"

definition in_order_now :: "'u loop_state \<Rightarrow> bool" where
  "in_order_now s \<longleftrightarrow> VwGame (View (LoSession s)) = LoGame s \<and> LoUpstream s \<in> {No_Upstream, Running_Upstream} \<and>
     checks_current (LoChecks s) (LoCancel s) (LoLaunch s) (LoLinks s)"

definition ended_clean :: "error option \<Rightarrow> 'u loop_state \<Rightarrow> bool" where
  "ended_clean e s \<longleftrightarrow> (\<forall>c \<in> set (LoChecks s). \<not> LcLive c) \<and> (\<forall>g. LoGateway s = Some g \<longrightarrow> GwInstance g = None) \<and>
     closed (LoLink s) \<and> (e = None \<longrightarrow> LoUpstream s \<in> {No_Upstream, Stopped_Upstream})"

definition turn_kept :: "loop_end \<Rightarrow> 'u loop_state \<Rightarrow> bool" where
  "turn_kept r s \<longleftrightarrow> (case r of Goes_On \<Rightarrow> in_order_now s | Returned e \<Rightarrow> ended_clean e s)"

abbreviation sat_turn :: "('u, loop_end) loop \<Rightarrow> 'u loop_state \<Rightarrow> bool" where
  "sat_turn m s \<equiv> sat m turn_kept (\<lambda>_ _. False) (\<lambda>_. True) s"

lemma gateway_closed [simp]: "GwInstance (close_gateway g) = None"
  by (simp add: close_gateway_def gw_close_def pr_put_def)

lemma closed_subscription [simp]: "closed (close_subscription l)"
  by (simp add: close_subscription_def)

lemma return_sat: "(e = None \<longrightarrow> LoUpstream s \<in> {No_Upstream, Stopped_Upstream}) \<Longrightarrow> sat_turn (loop_return e) s"
  by (auto simp: loop_return_def turn_kept_def ended_clean_def)

lemma shutdown_sat:
  "sat (shutdown_upstream answer) (\<lambda>r t. r = None \<longrightarrow> LoUpstream t \<in> {No_Upstream, Stopped_Upstream}) (\<lambda>_ _. False) (\<lambda>_. True) s"
  by (simp add: sat_def shutdown_upstream_def split: option.split)

lemma stop_sat: "sat_turn (stop_and_return env) s" "sat_turn (fail_stopped env e) s"
  unfolding stop_and_return_def fail_stopped_def by (rule sat_bindI [OF shutdown_sat]; auto intro: return_sat)+

lemma cancel_nth_facts [simp]:
  "length (cancel_nth n cs) = length cs" "n < length cs \<Longrightarrow> \<not> LcLive (cancel_nth n cs ! n)"
  "m \<noteq> n \<Longrightarrow> cancel_nth n cs ! m = cs ! m" "LcEvent (cancel_nth n cs ! m) = LcEvent (cs ! m)" "LcLink (cancel_nth n cs ! m) = LcLink (cs ! m)"
  by (auto simp: cancel_nth_def nth_list_update)

text \<open>After cancelling there is no open check, whether or not the loop forgets which one it was.\<close>

definition none_open :: "'u loop_state \<Rightarrow> bool" where
  "none_open s \<longleftrightarrow> (\<forall>n < length (LoChecks s). \<not> LcLive (LoChecks s ! n))"

lemma in_order_live: "in_order_now s \<Longrightarrow> n < length (LoChecks s) \<Longrightarrow> LcLive (LoChecks s ! n) \<Longrightarrow> LoCancel s = Some n"
  unfolding in_order_now_def checks_current_def by blast

lemma in_order_quiet: "in_order_now s \<Longrightarrow> LoCancel s = None \<Longrightarrow> none_open s"
  unfolding in_order_now_def checks_current_def none_open_def by fastforce

lemma cancelled: "in_order_now s \<Longrightarrow> none_open (s\<lparr>LoChecks := (case LoCancel s of None \<Rightarrow> LoChecks s | Some n \<Rightarrow> cancel_nth n (LoChecks s))\<rparr>)"
proof (cases "LoCancel s")
  case (Some n)
  assume order: "in_order_now s"
  have "\<not> LcLive (cancel_nth n (LoChecks s) ! m)" if m: "m < length (LoChecks s)" for m
  proof (cases "m = n")
    case True
    with m show ?thesis by simp
  next
    case False
    with order m Some show ?thesis by (auto dest: in_order_live)
  qed
  then show ?thesis by (simp add: Some none_open_def)
qed (simp add: in_order_quiet)

lemma cancel_sat:
  "in_order_now s \<Longrightarrow> sat cancel_check (\<lambda>_ t. none_open t \<and> t = s\<lparr>LoChecks := (case LoCancel s of None \<Rightarrow> LoChecks s | Some n \<Rightarrow> cancel_nth n (LoChecks s))\<rparr>)
     E C s"
  using cancelled [of s] by (auto simp: cancel_check_def split: option.splits)

lemma sat_on_session:
  "sat (on_session m) Q E C s \<longleftrightarrow>
     sat m (\<lambda>x t. Q x (s\<lparr>LoSession := t\<rparr>)) (\<lambda>e t. E e (s\<lparr>LoSession := t\<rparr>)) (\<lambda>t. C (s\<lparr>LoSession := t\<rparr>)) (LoSession s)"
  by (auto simp: sat_def on_session_def split: prod.split outcome.split)

lemma send_sat: "(\<And>b l. Q b (s\<lparr>LoLink := l\<rparr>)) \<Longrightarrow> sat (send_reason env launch reason) Q E C s"
  by (simp add: sat_def send_reason_def split: prod.split sum.split)

text \<open>The choice of the folders reads the card, and covers the card of the game when it succeeds.\<close>

definition chosen_safely :: "event \<Rightarrow> error + leaf_card list \<Rightarrow> 'u session \<Rightarrow> configured_folder list \<Rightarrow> bool" where
  "chosen_safely ev cards u folders \<longleftrightarrow> (\<exists>found c. cards = Inr found \<and> game_card ev found = Inr c \<and>
     card_covered found (controls_of u) (SFolders u) c folders (files (CardW (Sync u))))"

definition same_session :: "'u session \<Rightarrow> 'u session \<Rightarrow> bool" where
  "same_session u v \<longleftrightarrow> View v = View u \<and> SFolders v = SFolders u \<and> controls_of v = controls_of u \<and>
     files (CardW (Sync v)) = files (CardW (Sync u))"

lemma select_sat:
  "sat (select_check_folders ev cards)
     (\<lambda>r t. \<exists>u. t = s\<lparr>LoSession := u\<rparr> \<and> same_session (LoSession s) u \<and>
        (\<forall>folders. r = Inr folders \<longrightarrow> chosen_safely ev cards (LoSession s) folders)) (\<lambda>_ _. False) (\<lambda>_. True) s"
proof -
  let ?u = "LoSession s"
  let ?found = "case cards of Inl _ \<Rightarrow> [] | Inr found \<Rightarrow> found"
  have "sat (on_session (on_disk (folders_for_game_check ev ?found (SFolders ?u) (controls_of ?u))))
     (\<lambda>folders t. \<exists>u. t = s\<lparr>LoSession := u\<rparr> \<and> same_session ?u u \<and> (\<exists>c. game_card ev ?found = Inr c \<and>
        card_covered ?found (controls_of ?u) (SFolders ?u) c folders (files (CardW (Sync ?u)))))
     (\<lambda>_ t. \<exists>u. t = s\<lparr>LoSession := u\<rparr> \<and> same_session ?u u) (\<lambda>_. True) s"
    unfolding sat_on_session on_disk_def sat_on_sync
    by (rule sat_on_card, rule folders_for_game_check_wp [of ev ?found "SFolders ?u" "controls_of ?u" "files (CardW (Sync ?u))"])
      (auto simp: same_session_def controls_of_def)
  then show ?thesis
    unfolding select_check_folders_def
    by (cases cards) (auto simp: sat_bind sat_try chosen_safely_def same_session_def elim!: sat_mono)
qed


lemma quiet_in_order:
  "none_open t \<Longrightarrow> LoCancel t = None \<Longrightarrow> VwGame (View (LoSession t)) = LoGame t \<Longrightarrow> LoUpstream t \<in> {No_Upstream, Running_Upstream} \<Longrightarrow>
   in_order_now t"
  by (simp add: in_order_now_def checks_current_def none_open_def)

text \<open>The parts of a state that a check depends on, and what is kept while an event is handled.\<close>

definition steady :: "'u loop_state \<Rightarrow> 'u loop_state \<Rightarrow> bool" where
  "steady s t \<longleftrightarrow> LoUpstream t = LoUpstream s \<and> LoGame t = LoGame s \<and> View (LoSession t) = View (LoSession s) \<and>
     LoLinks t = LoLinks s \<and> LoGateway t = LoGateway s"

lemma steady_game: "in_order_now s \<Longrightarrow> steady s t \<Longrightarrow> VwGame (View (LoSession t)) = LoGame t \<and> LoUpstream t \<in> {No_Upstream, Running_Upstream}"
  by (simp add: in_order_now_def steady_def)

lemma show_sat: "sat show_game Q E C s \<longleftrightarrow> Q () (s\<lparr>LoSession := (LoSession s)\<lparr>View := (View (LoSession s))\<lparr>VwGame := LoGame s\<rparr>\<rparr>\<rparr>)"
  by (simp add: show_game_def)

lemma in_order_shown: "in_order_now s \<Longrightarrow> in_order_now (s\<lparr>LoGame := g, LoSession := (LoSession s)\<lparr>View := (View (LoSession s))\<lparr>VwGame := g\<rparr>\<rparr>\<rparr>)"
  unfolding in_order_now_def by simp

lemma in_order_link: "in_order_now (s\<lparr>LoLink := l\<rparr>) = in_order_now s"
  by (simp add: in_order_now_def)

text \<open>The outcome of an event: what the loop goes on with, or the error it ends with.\<close>

abbreviation event_kept :: "'u loop_state \<Rightarrow> error option \<Rightarrow> 'u loop_state \<Rightarrow> bool" where
  "event_kept s r t \<equiv> (r = None \<longrightarrow> in_order_now t)"

lemma new_check_in_order:
  assumes "none_open t" and "VwGame (View (LoSession t)) = LoGame t" and "LoUpstream t \<in> {No_Upstream, Running_Upstream}"
  shows "in_order_now (t\<lparr>LoCancel := Some (length (LoChecks t)), LoLaunch := LaunchID ev,
    LoChecks := LoChecks t @ [\<lparr>LcEvent = ev, LcFolders = folders, LcLink = LoLinks t, LcLive = True\<rparr>]\<rparr>)"
  using assms unfolding in_order_now_def checks_current_def none_open_def by (auto simp: nth_append less_Suc_eq)

lemma check_turn_sat:
  assumes order: "in_order_now s"
  shows "sat (check_turn env ev cards) (event_kept s) (\<lambda>_ _. False) (\<lambda>_. True) s"
proof -
  let ?t = "s\<lparr>LoChecks := (case LoCancel s of None \<Rightarrow> LoChecks s | Some n \<Rightarrow> cancel_nth n (LoChecks s))\<rparr>"
  have t: "none_open ?t" "VwGame (View (LoSession ?t)) = LoGame ?t" "LoUpstream ?t \<in> {No_Upstream, Running_Upstream}"
    using cancelled [OF order] order by (simp_all add: in_order_now_def)
  have kept: "none_open (?t\<lparr>LoSession := u\<rparr>) \<and> VwGame (View (LoSession (?t\<lparr>LoSession := u\<rparr>))) = LoGame (?t\<lparr>LoSession := u\<rparr>)"
    if "same_session (LoSession s) u" for u
    using t that by (simp add: none_open_def same_session_def)
  have tail: "sat (case chosen of
         Inl e \<Rightarrow> pr_bind (send_reason env (LaunchID ev) ''unsafe-card-binding'') (\<lambda>sent_it.
           if \<not> sent_it then pr_ret (Some ''reject game.check'')
           else pr_bind (pr_put (\<lambda>s. s\<lparr>LoCancel := None, LoLaunch := LaunchID ev\<rparr>)) (\<lambda>_. pr_ret None))
       | Inr folders \<Rightarrow> pr_bind (pr_put (\<lambda>s. s\<lparr>LoCancel := Some (length (LoChecks s)), LoLaunch := LaunchID ev,
             LoChecks := LoChecks s @ [\<lparr>LcEvent = ev, LcFolders = folders, LcLink = LoLinks s, LcLive = True\<rparr>]\<rparr>)) (\<lambda>_.
             pr_ret None)) (event_kept s) (\<lambda>_ _. False) (\<lambda>_. True) u"
    if "none_open u" "VwGame (View (LoSession u)) = LoGame u" "LoUpstream u \<in> {No_Upstream, Running_Upstream}" for chosen and u :: "'a loop_state"
  proof (cases chosen)
    case (Inl e)
    show ?thesis unfolding Inl sum.case sat_bind
      by (rule send_sat) (use that in \<open>auto simp: none_open_def intro!: quiet_in_order\<close>)
  next
    case (Inr folders)
    show ?thesis using new_check_in_order [OF that] by (simp add: Inr)
  qed
  show ?thesis
    unfolding check_turn_def
    by (simp add: order) (intro impI sat_bindI [OF cancel_sat [OF order]] sat_bindI [OF select_sat] tail; use kept t in auto)
qed

lemma other_turn_sat:
  assumes order: "in_order_now s"
  shows "sat (other_turn env ev) (event_kept s) (\<lambda>_ _. False) (\<lambda>_. True) s"
proof -
  have handled: "sat (handle_lifecycle_event env ev) (event_kept s) (\<lambda>_ _. False) (\<lambda>_. True) u" if "in_order_now u" for u :: "'a loop_state"
    using that unfolding handle_lifecycle_event_def by (auto simp: sat_bind in_order_link intro!: send_sat)
  have forgotten: "in_order_now (s\<lparr>LoChecks := (case LoCancel s of None \<Rightarrow> LoChecks s | Some n \<Rightarrow> cancel_nth n (LoChecks s)), LoCancel := None, LoLaunch := ''''\<rparr>)"
    using cancelled [OF order] order by (intro quiet_in_order) (auto simp: none_open_def in_order_now_def)
  show ?thesis
    unfolding other_turn_def pr_when_def
    using order handled forgotten by (auto simp: sat_bind cancel_check_def split: option.splits)
qed

lemma event_turn_sat: "in_order_now s \<Longrightarrow> sat_turn (event_turn env ev cards) s"
  unfolding event_turn_def
  by (rule sat_bindI [where R = "event_kept s" and E' = "\<lambda>_ _. False" and C' = "\<lambda>_. True"])
    (auto intro!: check_turn_sat other_turn_sat return_sat simp: sat_bind show_sat turn_kept_def in_order_shown split: option.split)


lemma broken_turn_sat:
  assumes order: "in_order_now s"
  shows "sat_turn (broken_turn env over attempts over_after) s"
proof -
  define s1 where "s1 = s\<lparr>LoLink := close_subscription (LoLink s)\<rparr>"
  have s1: "in_order_now s1" using order by (simp add: s1_def in_order_link)
  define quiet_state where "quiet_state u \<longleftrightarrow> none_open u \<and> LoCancel u = None \<and> VwGame (View (LoSession u)) = LoGame u \<and>
    LoUpstream u \<in> {No_Upstream, Running_Upstream}" for u :: "'a loop_state"
  have cancelled_first: "sat (pr_when (LoCancel s1 \<noteq> None) (pr_bind cancel_check (\<lambda>_. pr_put (\<lambda>s. s\<lparr>LoCancel := None, LoLaunch := ''''\<rparr>))))
      (\<lambda>_. quiet_state) (\<lambda>_ _. False) (\<lambda>_. True) s1"
    using cancelled [OF s1] in_order_quiet [OF s1] s1
    by (auto simp: pr_when_def sat_bind cancel_check_def quiet_state_def none_open_def in_order_now_def split: option.splits)
  have rest: "sat_turn (case r of
        Inl e \<Rightarrow> if over_after \<or> e = ''context canceled'' then stop_and_return env else fail_stopped env e
      | Inr (link, state) \<Rightarrow>
          pr_bind (pr_put (\<lambda>s. s\<lparr>LoLink := link, LoLinks := LoLinks s + 1\<rparr>)) (\<lambda>_.
          if CfgMode (LeConfig env) = Stop_Mode \<and> Active state then stop_and_return env
          else pr_bind (pr_put (\<lambda>s. s\<lparr>LoGame := state\<rparr>)) (\<lambda>_. pr_bind show_game (\<lambda>_. pr_ret Goes_On)))) u"
    if "quiet_state u" for r u
    using that by (auto simp: stop_sat show_sat turn_kept_def sat_bind quiet_state_def none_open_def intro!: quiet_in_order split: sum.split)
  show ?thesis
  proof (cases over)
    case False
    show ?thesis
      unfolding broken_turn_def if_not_P [OF False] sat_prim_binds s1_def [symmetric]
      by (rule sat_bindI [OF cancelled_first rest]) auto
  qed (simp add: broken_turn_def stop_sat)
qed

lemma tick_turn_sat:
  assumes order: "in_order_now s"
  shows "sat_turn (tick_turn env now routes found) s"
proof -
  have network: "sat (pr_try (network_turn env routes)) (\<lambda>_. in_order_now) (\<lambda>_ _. False) (\<lambda>_. True) s"
    unfolding sat_try using order
    by (auto simp: sat_def network_turn_def in_order_now_def split: option.split prod.split outcome.split)
  have gateway: "sat (gateway_turn env now found) (\<lambda>_. in_order_now) (\<lambda>_ _. False) (\<lambda>_. True) u" if "in_order_now u" for u :: "'a loop_state"
    using that by (auto simp: sat_def gateway_turn_def in_order_now_def split: option.split prod.split)
  have rest: "sat_turn (case r of
       Inl e \<Rightarrow> fail_stopped env ''refresh LAN boundary''
     | Inr changed \<Rightarrow>
         pr_bind (pr_when changed (pr_put (\<lambda>s. s\<lparr>LoGateway := map_option close_gateway (LoGateway s)\<rparr>))) (\<lambda>_.
         pr_bind (gateway_turn env now found) (\<lambda>_. pr_ret Goes_On))) u" if u: "in_order_now u" for r and u :: "'a loop_state"
  proof (cases r)
    case (Inr changed)
    have "in_order_now (u\<lparr>LoGateway := g\<rparr>)" for g using u by (simp add: in_order_now_def)
    then show ?thesis using u unfolding Inr sum.case
      by (auto simp: pr_when_def turn_kept_def intro!: sat_bindI [OF gateway])
  qed (simp add: stop_sat)
  show ?thesis unfolding tick_turn_def by (rule sat_bindI [OF network rest]) auto
qed

lemma loop_turn_sat: "in_order_now s \<Longrightarrow> sat_turn (loop_turn env i) s"
  by (cases i) (auto simp: stop_sat event_turn_sat tick_turn_sat broken_turn_sat intro: return_sat)

text \<open>A turn never fails: its errors are results of the loop.\<close>

lemma controller_step_kept:
  assumes "controller_step env (s, r) (t, q)" and "turn_kept r s"
  shows "turn_kept q t"
  using assms(1)
proof (cases rule: controller_step.cases)
  case (turn i)
  then have "in_order_now s" using assms(2) by (simp add: turn_kept_def)
  from loop_turn_sat [OF this, of env i] turn show ?thesis by (simp add: sat_def)
next
  case (operation w op a u)
  have "VwGame (View u) = VwGame (View (LoSession s))"
    using operations_keep_game [of "LeSession env" w op] operation unfolding keeps_game_def by (metis snd_conv)
  then show ?thesis using operation assms(2) by (simp add: turn_kept_def in_order_now_def)
qed


section \<open>Properties\<close>

text \<open>The loop begins without a check, with the status of the game that connecting gave.\<close>

definition loop_begins :: "'u loop_state \<Rightarrow> bool" where
  "loop_begins s \<longleftrightarrow> LoChecks s = [] \<and> LoCancel s = None \<and> VwGame (View (LoSession s)) = LoGame s \<and>
     LoUpstream s \<in> {No_Upstream, Running_Upstream}"

lemma begins_in_order: "loop_begins s \<Longrightarrow> in_order_now s"
  by (simp add: loop_begins_def in_order_now_def checks_current_def)

lemma controller_runs_kept:
  assumes "controller_runs env x y" and "turn_kept (snd x) (fst x)"
  shows "turn_kept (snd y) (fst y)"
  using assms by (induction rule: controller_runs.induct) (auto dest: controller_step_kept)

lemma one_live:
  assumes "\<forall>n < length cs. LcLive (cs ! n) \<longrightarrow> k = Some n"
  shows "length (filter LcLive cs) \<le> 1"
proof -
  have "card {n. n < length cs \<and> LcLive (cs ! n)} \<le> card (set_option k)"
    by (rule card_mono) (use assms in auto)
  also have "\<dots> \<le> 1" by (cases k) auto
  finally show ?thesis by (simp add: length_filter_conv_card)
qed


text \<open>What a turn does to the list of the checks: it cancels some and starts at most one.\<close>

definition starts_from :: "loop_input \<Rightarrow> 'u loop_state \<Rightarrow> 'u loop_state \<Rightarrow> bool" where
  "starts_from i s t \<longleftrightarrow> length (LoChecks t) = length (LoChecks s) \<or>
     (\<exists>ev cards folders cs. i = Lifecycle_Event ev cards \<and> Name ev = ''game.check'' \<and> length cs = length (LoChecks s) \<and>
        LoChecks t = cs @ [\<lparr>LcEvent = ev, LcFolders = folders, LcLink = LoLinks s, LcLive = True\<rparr>] \<and>
        chosen_safely ev cards (LoSession s) folders)"

lemma starts_from_cong: "starts_from i s t \<Longrightarrow> LoChecks u = LoChecks t \<Longrightarrow> starts_from i s u"
  by (simp add: starts_from_def)

text \<open>The post-condition of an event: an error comes without a new check.\<close>

abbreviation event_starts :: "loop_input \<Rightarrow> 'u loop_state \<Rightarrow> error option \<Rightarrow> 'u loop_state \<Rightarrow> bool" where
  "event_starts i s r t \<equiv> starts_from i s t \<and> (r \<noteq> None \<longrightarrow> length (LoChecks t) = length (LoChecks s))"

text \<open>Only an event makes the list of the checks longer.\<close>

definition same_number :: "('u, 'a) loop \<Rightarrow> bool" where
  "same_number m \<longleftrightarrow> (\<forall>s. length (LoChecks (snd (m s))) = length (LoChecks s))"

lemma same_number_bind: "same_number m \<Longrightarrow> (\<And>x. same_number (k x)) \<Longrightarrow> same_number (pr_bind m k)"
  unfolding same_number_def pr_bind_def by (auto split: prod.split outcome.split) (metis snd_conv)+

lemma same_number_prims:
  "same_number (pr_ret x)" "same_number (pr_get g)" "same_number cancel_check" "same_number show_game" "same_number (shutdown_upstream a)"
  "same_number (network_turn env routes)" "same_number (gateway_turn env now found)" "same_number (send_reason env l w)"
  "(\<And>s. length (LoChecks (u s)) = length (LoChecks s)) \<Longrightarrow> same_number (pr_put u)"
  by (auto simp: same_number_def pr_ret_def pr_get_def pr_put_def cancel_check_def show_game_def shutdown_upstream_def network_turn_def
      gateway_turn_def send_reason_def split: option.split prod.split sum.split)

lemma same_number_try: "same_number m \<Longrightarrow> same_number (pr_try m)"
  unfolding same_number_def pr_try_def by (auto split: prod.split outcome.split) (metis snd_conv)+

lemma same_number_branches:
  "(b \<Longrightarrow> same_number m) \<Longrightarrow> (\<not> b \<Longrightarrow> same_number n) \<Longrightarrow> same_number (if b then m else n)"
  "(b \<Longrightarrow> same_number m0) \<Longrightarrow> same_number (pr_when b m0)"
  "(\<And>e. r = Inl e \<Longrightarrow> same_number (h e)) \<Longrightarrow> (\<And>z. r = Inr z \<Longrightarrow> same_number (l z)) \<Longrightarrow> same_number (case r of Inl e \<Rightarrow> h e | Inr z \<Rightarrow> l z)"
  "(x = None \<Longrightarrow> same_number m') \<Longrightarrow> (\<And>y. x = Some y \<Longrightarrow> same_number (k y)) \<Longrightarrow> same_number (case x of None \<Rightarrow> m' | Some y \<Rightarrow> k y)"
  "(\<And>a c. p = (a, c) \<Longrightarrow> same_number (q a c)) \<Longrightarrow> same_number (case p of (a, c) \<Rightarrow> q a c)"
  by (auto simp: pr_when_def same_number_prims(1) split: option.split sum.split prod.split)

lemmas same_number_rules = same_number_bind same_number_prims same_number_try same_number_branches

lemma same_number_ends: "same_number (loop_return e)" "same_number (stop_and_return env)" "same_number (fail_stopped env e')"
  unfolding stop_and_return_def fail_stopped_def loop_return_def by (intro same_number_rules; simp)+

lemma same_number_turns:
  "same_number (tick_turn env now routes found)" "same_number (broken_turn env over attempts over_after)" "same_number (other_turn env ev)"
  unfolding tick_turn_def broken_turn_def other_turn_def handle_lifecycle_event_def
  by (intro same_number_rules same_number_ends; simp)+


lemma same_number_starts: "same_number m \<Longrightarrow> m u = (r, t) \<Longrightarrow> length (LoChecks u) = length (LoChecks s) \<Longrightarrow> starts_from i s t"
  unfolding same_number_def starts_from_def by (metis snd_conv)

lemma check_turn_starts:
  assumes name: "Name ev = ''game.check''"
  shows "sat (check_turn env ev cards) (event_starts (Lifecycle_Event ev cards) s) (\<lambda>_ _. True) (\<lambda>_. True) s"
proof -
  have cancelled: "sat cancel_check (\<lambda>_ t. length (LoChecks t) = length (LoChecks s) \<and> LoSession t = LoSession s \<and> LoLinks t = LoLinks s)
      (\<lambda>_ _. True) (\<lambda>_. True) s"
    by (simp add: cancel_check_def split: option.split)
  have selected: "sat (select_check_folders ev cards) (\<lambda>r t. length (LoChecks t) = length (LoChecks s) \<and> LoLinks t = LoLinks s \<and>
      (\<forall>folders. r = Inr folders \<longrightarrow> chosen_safely ev cards (LoSession s) folders)) (\<lambda>_ _. True) (\<lambda>_. True) u"
    if "length (LoChecks u) = length (LoChecks s) \<and> LoSession u = LoSession s \<and> LoLinks u = LoLinks s" for u
    using that by (intro sat_mono [OF select_sat]) auto
  have tail: "sat (case chosen of
         Inl e \<Rightarrow> pr_bind (send_reason env (LaunchID ev) ''unsafe-card-binding'') (\<lambda>sent_it.
           if \<not> sent_it then pr_ret (Some ''reject game.check'')
           else pr_bind (pr_put (\<lambda>s. s\<lparr>LoCancel := None, LoLaunch := LaunchID ev\<rparr>)) (\<lambda>_. pr_ret None))
       | Inr folders \<Rightarrow> pr_bind (pr_put (\<lambda>s. s\<lparr>LoCancel := Some (length (LoChecks s)), LoLaunch := LaunchID ev,
             LoChecks := LoChecks s @ [\<lparr>LcEvent = ev, LcFolders = folders, LcLink = LoLinks s, LcLive = True\<rparr>]\<rparr>)) (\<lambda>_.
             pr_ret None)) (event_starts (Lifecycle_Event ev cards) s) (\<lambda>_ _. True) (\<lambda>_. True) u"
    if "length (LoChecks u) = length (LoChecks s) \<and> LoLinks u = LoLinks s \<and>
      (\<forall>folders. chosen = Inr folders \<longrightarrow> chosen_safely ev cards (LoSession s) folders)" for chosen u
  proof (cases chosen)
    case (Inl e)
    show ?thesis unfolding Inl sum.case sat_bind
      by (rule send_sat) (use that in \<open>simp add: starts_from_def\<close>)
  next
    case (Inr folders)
    then show ?thesis using that name by (auto simp: starts_from_def)
  qed
  show ?thesis
    unfolding check_turn_def
    by (simp add: starts_from_def [where t = s] del: not_None_eq) (intro impI sat_bindI [OF cancelled] sat_bindI [OF selected] tail; simp)
qed

lemma loop_turn_starts: "loop_turn env i s = (Ok r, t) \<Longrightarrow> starts_from i s t"
proof (cases "\<exists>ev cards. i = Lifecycle_Event ev cards \<and> Name ev = ''game.check''")
  case True
  assume turn: "loop_turn env i s = (Ok r, t)"
  from True obtain ev cards where i: "i = Lifecycle_Event ev cards" "Name ev = ''game.check''" by blast
  have "sat (event_turn env ev cards) (\<lambda>_. starts_from i s) (\<lambda>_ _. True) (\<lambda>_. True) s"
    unfolding event_turn_def i(1) if_P [OF i(2)]
    by (rule sat_bindI [OF check_turn_starts [OF i(2)]])
      (auto simp: sat_bind show_sat loop_return_def elim: starts_from_cong split: option.split, simp add: starts_from_def)
  then show ?thesis using turn i(1) by (simp add: sat_def)
next
  case False
  assume turn: "loop_turn env i s = (Ok r, t)"
  have "same_number (event_turn env ev cards)" if "i = Lifecycle_Event ev cards" for ev cards
    using False that unfolding event_turn_def
    by (intro same_number_rules same_number_ends same_number_turns; simp)
  then have "same_number (loop_turn env i)"
    by (cases i) (auto intro!: same_number_rules same_number_ends same_number_turns)
  from same_number_starts [OF this turn] show ?thesis by simp
qed

text \<open>
  C7. A turn of the loop starts a check only for a check event of the lifecycle service, and only one; and
  no such check can let a game start early: whatever Syncthing answers and however long the check goes on,
  if it ever tells the lifecycle service to stop Syncthing, then at one of its reads every save or state
  folder whose record is bound to the game's card, as the cards were found at the turn, was safe to sync and
  in sync with each of its peers.
\<close>

theorem loop_checks_are_sound:
  assumes "loop_turn env i s = (Ok r, t)" and "length (LoChecks t) \<noteq> length (LoChecks s)"
  shows "\<exists>ev found c check. i = Lifecycle_Event ev (Inr found) \<and> Name ev = ''game.check'' \<and> game_card ev found = Inr c \<and>
    length (LoChecks t) = Suc (length (LoChecks s)) \<and> last (LoChecks t) = check \<and> LcEvent check = ev \<and>
    (\<forall>parse running self ack rounds out ended u. run_game_check parse running (LcFolders check) self ack rounds = (out, ended) \<longrightarrow>
       (u, Reply_Stop) \<in> set out \<longrightarrow>
       (\<exists>round \<in> set rounds. \<forall>(j, record) \<in> set (controls_of (LoSession s)).
          CardID record = IID (Identity c) \<longrightarrow> Kind record \<in> {''saves'', ''states''} \<longrightarrow>
          (\<exists>folder \<in> set (SFolders (LoSession s)). FID folder = j \<and> FKind folder = Kind record \<and>
             safe_folder found (controls_of (LoSession s)) folder (files (CardW (Sync (LoSession s)))) \<and>
             folder_current parse (RoundAnswers round) self folder)))"
proof -
  from loop_turn_starts [OF assms(1)] assms(2) obtain ev cards folders cs where
    i: "i = Lifecycle_Event ev cards" "Name ev = ''game.check''" and cs: "length cs = length (LoChecks s)"
    and t: "LoChecks t = cs @ [\<lparr>LcEvent = ev, LcFolders = folders, LcLink = LoLinks s, LcLive = True\<rparr>]"
    and safely: "chosen_safely ev cards (LoSession s) folders"
    unfolding starts_from_def by blast
  from safely obtain found c where c: "cards = Inr found" "game_card ev found = Inr c"
    and covered: "card_covered found (controls_of (LoSession s)) (SFolders (LoSession s)) c folders (files (CardW (Sync (LoSession s))))"
    by (auto simp: chosen_safely_def)
  have sound: "\<exists>round \<in> set rounds. \<forall>folder \<in> set folders. folder_current parse (RoundAnswers round) self folder"
    if run: "run_game_check parse running folders self ack rounds = (out, ended)" and stop: "(u, Reply_Stop) \<in> set out"
    for parse running self ack rounds out ended u
  proof -
    have "check_rounds parse folders self ack rounds start_check = (out, ended)"
      using run stop by (auto simp: run_game_check_def split: if_splits)
    from stop_rounds [OF this stop] show ?thesis using read_current by blast
  qed
  have "\<exists>round \<in> set rounds. \<forall>(j, record) \<in> set (controls_of (LoSession s)).
      CardID record = IID (Identity c) \<longrightarrow> Kind record \<in> {''saves'', ''states''} \<longrightarrow>
      (\<exists>folder \<in> set (SFolders (LoSession s)). FID folder = j \<and> FKind folder = Kind record \<and>
         safe_folder found (controls_of (LoSession s)) folder (files (CardW (Sync (LoSession s)))) \<and>
         folder_current parse (RoundAnswers round) self folder)"
    if "run_game_check parse running folders self ack rounds = (out, ended)" "(u, Reply_Stop) \<in> set out"
    for parse running self ack rounds out ended u
  proof -
    from sound [OF that] obtain round where "round \<in> set rounds" "\<forall>folder \<in> set folders. folder_current parse (RoundAnswers round) self folder"
      by blast
    with covered show ?thesis unfolding card_covered_def by (intro bexI [of _ round]) (fastforce, assumption)
  qed
  then show ?thesis using i c cs t by auto
qed


section \<open>Witnesses\<close>

definition calm_env :: "unit loop_env" where
  "calm_env = \<lparr>LeSession = live_env, LeConfig = Controller_Config.sample_config, LeMarshal = (\<lambda>_. ''{}''), LePolls = 1,
     LeNetSize = (\<lambda>_. 10), LeNetPath = ''/s/n.json'', LeGateway = sample_env, LeStop = None\<rparr>"

definition calm_session :: "unit session" where
  "calm_session = live_session\<lparr>Sync := (Sync live_session)\<lparr>Store := sample_control False\<rparr>, SFolders := [running_folder],
     View := (View live_session)\<lparr>VwGame := zero_game_state\<rparr>\<rparr>"

definition calm_loop :: "unit loop_state" where
  "calm_loop = \<lparr>LoSession = calm_session, LoGame = zero_game_state, LoLaunch = '''', LoCancel = None, LoChecks = [],
     LoLink = \<lparr>inbox = [], replies = [], sent = '''', pending = [], closed = False\<rparr>, LoLinks = 0, LoUpstream = Running_Upstream,
     LoNetwork = None, LoGateway = None\<rparr>"

abbreviation calm_input :: loop_input where
  "calm_input \<equiv> Lifecycle_Event calm_event (Inr sample_inventory)"

lemma calm_chosen: "\<exists>w. folders_for_game_check calm_event sample_inventory [running_folder] (Records (sample_control False)) \<lparr>files = live_tree, plan = []\<rparr>
    = (Ok [running_folder], w)"
proof -
  have "fst (folders_for_game_check calm_event sample_inventory [running_folder] (Records (sample_control False)) \<lparr>files = live_tree, plan = []\<rparr>)
    = Ok [running_folder]" by code_simp
  then show ?thesis by (metis prod.collapse)
qed

lemma calm_turn: "\<exists>t. loop_turn calm_env calm_input calm_loop = (Ok Goes_On, t) \<and> LoUpstream t = Running_Upstream \<and> LoNetwork t = None \<and>
    LoChecks t = [\<lparr>LcEvent = calm_event, LcFolders = [running_folder], LcLink = 0, LcLive = True\<rparr>]"
proof -
  obtain w where w: "folders_for_game_check calm_event sample_inventory [running_folder] (Records (sample_control False)) \<lparr>files = live_tree, plan = []\<rparr>
    = (Ok [running_folder], w)" using calm_chosen by blast
  have ev: "Name calm_event = ''game.check''" "LaunchID calm_event = ''l1''" by (simp_all add: calm_event_def)
  show ?thesis
    by (simp add: event_turn_def check_turn_def select_check_folders_def cancel_check_def show_game_def calm_loop_def calm_session_def live_session_def
        controls_of_def on_session_def on_disk_def on_sync_def on_card_def on_files_def pr_bind_def pr_get_def pr_put_def pr_try_def pr_ret_def w ev)
qed


theorem loop_checks_are_sound_witness:
  "\<exists>t check. loop_turn calm_env calm_input calm_loop = (Ok Goes_On, t) \<and> last (LoChecks t) = check \<and>
     run_game_check calm_parse True (LcFolders check) sample_device 1000 [calm_round] = ([(5, Reply_Stop)], True) \<and>
     (\<exists>folder \<in> set (SFolders (LoSession calm_loop)). folder_current calm_parse calm_answers sample_device folder)"
proof -
  obtain t where t: "loop_turn calm_env calm_input calm_loop = (Ok Goes_On, t)"
    "LoChecks t = [\<lparr>LcEvent = calm_event, LcFolders = [running_folder], LcLink = 0, LcLive = True\<rparr>]"
    using calm_turn by blast
  have longer: "length (LoChecks t) \<noteq> length (LoChecks calm_loop)" by (simp add: t(2) calm_loop_def)
  have out: "run_game_check calm_parse True [running_folder] sample_device 1000 [calm_round] = ([(5, Reply_Stop)], True)"
    by code_simp
  have card: "game_card calm_event sample_inventory = Inr (hd sample_inventory)" by code_simp
  have bound: "(''leaf-saves'', Folder_Control.sample_record False) \<in> set (controls_of (LoSession calm_loop))"
    "CardID (Folder_Control.sample_record False) = IID (Identity (hd sample_inventory))" "Kind (Folder_Control.sample_record False) = ''saves''"
    by (simp_all add: calm_loop_def calm_session_def controls_of_def sample_control_def Folder_Control.sample_record_def sample_inventory_def)
  have last: "last (LoChecks t) = \<lparr>LcEvent = calm_event, LcFolders = [running_folder], LcLink = 0, LcLive = True\<rparr>" by (simp add: t(2))
  from loop_checks_are_sound [OF t(1) longer] obtain c where "game_card calm_event sample_inventory = Inr c"
    and sound: "\<And>parse running self ack rounds out ended u. run_game_check parse running (LcFolders (last (LoChecks t))) self ack rounds = (out, ended) \<Longrightarrow>
       (u, Reply_Stop) \<in> set out \<Longrightarrow>
       \<exists>round \<in> set rounds. \<forall>(j, record) \<in> set (controls_of (LoSession calm_loop)).
          CardID record = IID (Identity c) \<longrightarrow> Kind record \<in> {''saves'', ''states''} \<longrightarrow>
          (\<exists>folder \<in> set (SFolders (LoSession calm_loop)). FID folder = j \<and> FKind folder = Kind record \<and>
             safe_folder sample_inventory (controls_of (LoSession calm_loop)) folder (files (CardW (Sync (LoSession calm_loop)))) \<and>
             folder_current parse (RoundAnswers round) self folder)"
    by blast
  then have c: "c = hd sample_inventory" using card by simp
  have out': "run_game_check calm_parse True (LcFolders (last (LoChecks t))) sample_device 1000 [calm_round] = ([(5, Reply_Stop)], True)"
    using out by (simp add: last)
  from sound [OF out', of 5] obtain round folder where "round \<in> set [calm_round]" "folder \<in> set (SFolders (LoSession calm_loop))"
    "folder_current calm_parse (RoundAnswers round) sample_device folder"
    using bound unfolding c by fastforce
  then show ?thesis
    using t(1) out' by (intro exI [of _ t] exI [of _ "last (LoChecks t)"]) (auto simp: calm_round_def)
qed


section \<open>Changes of the network\<close>

lemma fail_stopped_ends:
  "sat (fail_stopped env e) (\<lambda>r t. (\<exists>e'. r = Returned (Some e')) \<and> LoUpstream t \<noteq> Running_Upstream \<and>
     (\<forall>g. LoGateway t = Some g \<longrightarrow> GwInstance g = None)) (\<lambda>_ _. False) (\<lambda>_. False) s"
proof -
  have "sat (shutdown_upstream (LeStop env)) (\<lambda>_ t. LoUpstream t \<noteq> Running_Upstream) (\<lambda>_ _. False) (\<lambda>_. False) s"
    by (simp add: sat_def shutdown_upstream_def split: option.split)
  then show ?thesis
    unfolding fail_stopped_def by (rule sat_bindI) (auto simp: loop_return_def)
qed

lemma closed_gateway_idle:
  "(\<And>g. LoGateway s = Some g \<Longrightarrow> GwInstance g = None) \<Longrightarrow>
   sat (gateway_turn env now found) (\<lambda>_ t. LoNetwork t = LoNetwork s \<and> (\<forall>g. LoGateway t = Some g \<longrightarrow> GwInstance g = None)) (\<lambda>_ _. False) (\<lambda>_. False) s"
  by (auto simp: sat_def gateway_turn_def gw_tick_def pr_bind_def pr_get_def pr_ret_def split: option.split)



definition roaming_loop :: "unit loop_state" where
  "roaming_loop = calm_loop\<lparr>LoNetwork := Some (\<lparr>NMProfile = Sync_Anywhere, NMAllowed = [], NMObserved = [''192.168.1.0/24'']\<rparr>, \<lparr>files = (\<lambda>_. None), plan = []\<rparr>),
     LoGateway := Some sample_open\<rparr>"


section \<open>A check that is not answered\<close>

text \<open>
  The launch of a rejected check is remembered without a check to cancel, so that a break of the connection
  does not forget it: when the same check is sent again on the new connection, with the cards in order by
  then, the loop neither starts it nor answers.
\<close>

lemma stops_return:
  fixes s :: "'a loop_state"
  shows "sat (stop_and_return env) (\<lambda>r _. r \<noteq> Goes_On) (\<lambda>_ _. True) (\<lambda>_. True) s"
  "sat (fail_stopped env e) (\<lambda>r _. r \<noteq> Goes_On) (\<lambda>_ _. True) (\<lambda>_. True) s"
proof -
  have quiet: "sat (shutdown_upstream a) (\<lambda>_ _. True) (\<lambda>_ _. True) (\<lambda>_. True) s" for a
    by (simp add: sat_def split: prod.split outcome.split)
  have ends: "sat (loop_return e) (\<lambda>r _. r \<noteq> Goes_On) (\<lambda>_ _. True) (\<lambda>_. True) u" for e and u :: "'a loop_state"
    by (simp add: loop_return_def)
  show "sat (stop_and_return env) (\<lambda>r _. r \<noteq> Goes_On) (\<lambda>_ _. True) (\<lambda>_. True) s"
    "sat (fail_stopped env e) (\<lambda>r _. r \<noteq> Goes_On) (\<lambda>_ _. True) (\<lambda>_. True) s"
    unfolding stop_and_return_def fail_stopped_def by (rule sat_bindI [OF quiet ends]; simp)+
qed

lemma broken_keeps_rejected:
  assumes "LoCancel s = None" and "broken_turn env False attempts over s = (Ok Goes_On, t)"
  shows "LoLaunch t = LoLaunch s \<and> LoCancel t = None"
proof -
  have "sat (broken_turn env False attempts over) (\<lambda>r t. r = Goes_On \<longrightarrow> LoLaunch t = LoLaunch s \<and> LoCancel t = None) (\<lambda>_ _. True) (\<lambda>_. True) s"
    using assms(1)
    by (auto simp: broken_turn_def pr_when_def show_sat sat_bind [of show_game] intro: sat_mono [OF stops_return(1)] sat_mono [OF stops_return(2)]
        split: sum.split prod.split)
  then show ?thesis using assms(2) by (simp add: sat_def)
qed

lemma rejected_check_is_not_answered:
  assumes "Name ev = ''game.check''" and "LoLaunch s = LaunchID ev" and "LoCancel s = None"
    and "loop_turn env (Link_Broken False attempts over) s = (Ok Goes_On, t)"
    and "loop_turn env (Lifecycle_Event ev (Inr found)) t = (Ok r, u)"
  shows "LoChecks u = LoChecks t \<and> LoLink u = LoLink t"
proof -
  have "LoLaunch t = LaunchID ev" using broken_keeps_rejected [OF assms(3)] assms(2,4) by simp
  then show ?thesis
    using assms(1,5) by (auto simp: event_turn_def check_turn_def show_game_def pr_bind_def pr_get_def pr_put_def pr_ret_def)
qed

section \<open>The status between two threads\<close>

text \<open>
  The screen is served by a goroutine of its own.  It and the loop share the status in an
  \<open>atomic.Value\<close>; each reads it, changes its copy, and stores the copy.  The loop changes what it says of
  the game and the screen anything else; while a status is refreshed the screen's copy is open for as long as
  Syncthing takes to answer.
\<close>

record shared_status =
  ShGame :: game_state
  ShStored :: view
  ShLoop :: "view option"
  ShScreen :: "view option"

inductive status_step :: "shared_status \<Rightarrow> shared_status \<Rightarrow> bool" where
  loop_loads: "ShLoop s = None \<Longrightarrow> status_step s (s\<lparr>ShGame := reconcile_game_state (ShGame s) ev, ShLoop := Some (ShStored s)\<rparr>)"
| loop_stores: "ShLoop s = Some v \<Longrightarrow> status_step s (s\<lparr>ShStored := v\<lparr>VwGame := ShGame s\<rparr>, ShLoop := None\<rparr>)"
| screen_loads: "ShScreen s = None \<Longrightarrow> status_step s (s\<lparr>ShScreen := Some (ShStored s)\<rparr>)"
| screen_stores: "ShScreen s = Some v \<Longrightarrow> VwGame w = VwGame v \<Longrightarrow> status_step s (s\<lparr>ShStored := w, ShScreen := None\<rparr>)"

inductive status_runs :: "shared_status \<Rightarrow> shared_status \<Rightarrow> bool" where
  status_starts: "status_runs s s"
| status_steps: "status_runs s t \<Longrightarrow> status_step t u \<Longrightarrow> status_runs s u"

definition both_idle :: "shared_status \<Rightarrow> bool" where
  "both_idle s \<longleftrightarrow> ShLoop s = None \<and> ShScreen s = None"

text \<open>
  An update of the loop is lost when it falls between the two accesses of the screen: from any idle state,
  a check event can leave the status with the game of before, and nothing corrects it until the next event.
\<close>

lemma lost_game:
  fixes ev :: event
  assumes "both_idle s" and "Name ev = ''game.check''"
  shows "\<exists>t. status_runs s t \<and> both_idle t \<and> Active (ShGame t) \<and> StateLaunchID (ShGame t) = LaunchID ev \<and> VwGame (ShStored t) = VwGame (ShStored s)"
proof -
  define s1 where "s1 = s\<lparr>ShScreen := Some (ShStored s)\<rparr>"
  define s2 where "s2 = s1\<lparr>ShGame := reconcile_game_state (ShGame s1) ev, ShLoop := Some (ShStored s1)\<rparr>"
  define s3 where "s3 = s2\<lparr>ShStored := (ShStored s1)\<lparr>VwGame := ShGame s2\<rparr>, ShLoop := None\<rparr>"
  define s4 where "s4 = s3\<lparr>ShStored := ShStored s, ShScreen := None\<rparr>"
  note idle = assms(1) [unfolded both_idle_def]
  have "status_step s s1" unfolding s1_def by (rule screen_loads) (use idle in simp)
  moreover have "status_step s1 s2" unfolding s2_def by (rule loop_loads) (use idle in \<open>simp add: s1_def\<close>)
  moreover have "status_step s2 s3" unfolding s3_def by (rule loop_stores) (simp add: s2_def)
  moreover have "status_step s3 s4" unfolding s4_def by (rule screen_stores) (simp_all add: s3_def s2_def s1_def)
  ultimately have "status_runs s s4" by (meson status_starts status_steps)
  moreover have "both_idle s4" by (simp add: s4_def s3_def both_idle_def)
  moreover have "ShGame s4 = reconcile_game_state (ShGame s) ev" by (simp add: s4_def s3_def s2_def s1_def)
  ultimately show ?thesis using assms(2) by (intro exI [of _ s4]) (simp add: reconcile_game_state_def s4_def)
qed

text \<open>
  The loop's next event corrects it when the screen is not between its two accesses.
\<close>

lemma game_corrected:
  assumes "ShLoop s = None" and "status_step s t" and "ShLoop t = Some v" and "status_step t u" and "ShLoop u = None"
  shows "VwGame (ShStored u) = ShGame u"
  using assms(2-5) by (auto elim!: status_step.cases simp: assms(1))

end
