(* ===== verification/Spec2Isabelle.thy ===== *)
theory Spec2Isabelle
  imports Pause_Edit Card_Registry Life_Client Leaf_Sources Upstream Folder_Reconcile Network_Profile Snapshot Managed_Folders Reset Game_Check Ui_Protocol Onboarding_Claims Run_Loop
begin

text \<open>
  Verification of Leaf Syncthing, the controller that runs Syncthing for the saves and states of a
  handheld console (Go code under \<open>src/internal\<close>).

  \<^bold>\<open>The program.\<close>  The service \<open>leaf-syncthing\<close> runs one pinned Syncthing as a child process.  On start
  (\<open>controller/bootstrap.go\<close>) it loads its configuration from the environment, takes its lock,
  completes an interrupted reset, subscribes to the lifecycle service of the launcher (LIFE-1),
  recovers the configuration file and the identity of Syncthing, opens the durable record of its
  folders and writes the pauses that must hold into the configuration before Syncthing starts.  While it
  runs (\<open>controller/run.go\<close>) it reads events of games, checks before a game that everything is in sync,
  follows changes of the network, serves a guarded web interface (\<open>internal/gateway\<close>) and answers the
  screen (\<open>internal/uicontrol\<close>), whose operations talk to Syncthing over its REST interface
  (\<open>internal/syncthing\<close>) and to the memory cards (\<open>internal/cards\<close>, \<open>internal/leaf\<close>).

  \<^bold>\<open>Theories.\<close>  Each theory models the file that it names, in the order of the code; a definition has
  the name of the function with underscores (\<open>recoverStopsLocked\<close> is \<open>recover_stops\<close>), a struct is a
  record whose fields carry a short prefix, an enumeration is a datatype.

  \<^item> Foundations.  \<open>Prelude\<close>: strings, Go maps, results, system calls with faults and the calculus
    \<open>wp\<close> for them.  \<open>Programs\<close>: programs over state in memory and several families of files (\<open>sat\<close>).
    \<open>Frames\<close>: invariants along a program (\<open>keeps\<close>).  \<open>Json\<close>: decoding into structs, strict or not.
    \<open>Crash_Store\<close>: the locale \<open>crash_store\<close>, the contract of a file that survives power loss.
    \<open>Single_Store\<close>: the stores with one temporary file, which interpret it.  \<open>Card_Tree\<close>: directories
    as a whole.  \<open>Go_Path\<close>: \<open>path/filepath\<close> and \<open>leaf/pathguard.go\<close>.
  \<^item> The environment and the cards.  \<open>Leaf_Sources\<close> (\<open>leaf/env.go\<close>, \<open>leaf/sources.go\<close>, \<open>leaf/systems.go\<close>),
    \<open>Card_Identity\<close> (\<open>cards/cards.go\<close>), \<open>Card_Registry\<close> (\<open>cards/registry.go\<close>; interprets
    \<open>crash_store\<close>), \<open>Controller_Config\<close> (\<open>LoadConfig\<close>, its checks, the lock, the directories and the
    subscription of \<open>controller/bootstrap.go\<close>).
  \<^item> Transports.  \<open>Frame_Wire\<close> (\<open>life1/wire.go\<close>, \<open>controller/ctl1.go\<close>), \<open>Life_Client\<close>
    (\<open>life1/client.go\<close>), \<open>Upstream\<close> (\<open>syncthing/api.go\<close>, \<open>managed_folders.go\<close>), \<open>Ui_Status\<close>
    (\<open>syncthing/ui.go\<close>), \<open>Ui_Protocol\<close> (\<open>uicontrol/protocol.go\<close> and the exchange of \<open>server.go\<close>).
  \<^item> The configuration of Syncthing.  \<open>Config_Store\<close> (\<open>config_recovery.go\<close>; interprets
    \<open>crash_store\<close>), \<open>Pause_Edit\<close> (\<open>offline_pause.go\<close>, \<open>initial_profile.go\<close>), \<open>Managed_Folders\<close>
    (\<open>folders.go\<close>), \<open>Device_Ids\<close>, \<open>Network_Profile\<close> (both \<open>network.go\<close>).
  \<^item> The folders.  \<open>Folder_Control\<close> (\<open>controller/folder_state.go\<close>; interprets \<open>crash_store\<close>),
    \<open>Folder_Reconcile\<close> (\<open>controller/folders.go\<close>), \<open>First_Sync\<close> and \<open>Snapshot\<close>
    (\<open>controller/first_sync.go\<close>), \<open>Reset\<close> (\<open>controller/reset.go\<close>).
  \<^item> The session.  \<open>Game_Check\<close> (both \<open>game_check.go\<close>), \<open>Live_Status\<close> (\<open>controller/ui.go\<close>), \<open>Session\<close>
    (\<open>membership.go\<close>, \<open>local_stop.go\<close>, \<open>relocation.go\<close> and the recoveries of \<open>run.go\<close>),
    \<open>Session_Ops\<close> (the operations of the screen), \<open>Session_Safety\<close> and \<open>Session_Claims\<close> (what they let
    run), \<open>Onboarding\<close> and \<open>Onboarding_Claims\<close> (\<open>controller/onboarding.go\<close>), \<open>Run_Loop\<close> (the loop of
    \<open>Runner.Run\<close>).
  \<^item> The web interface.  \<open>Browser_Trust\<close> (\<open>gateway/trust.go\<close>), \<open>Proxy_Filter\<close> (\<open>gateway/proxy.go\<close>),
    \<open>Gateway\<close> (\<open>gateway/gateway.go\<close>).

  \<^bold>\<open>How code becomes definitions.\<close>  Code on memory only is a function; one that can fail returns
  \<open>error + 'a\<close> with the text of its error.  Code that touches files is in \<open>'a io\<close>: the file map
  (paths to nodes: absent, directory, link, file with its document or with junk) and a plan of faults,
  one for each system call, which may succeed, fail, or be the point where the process dies.  A write
  that fails or dies leaves junk.  \<open>wp c m Q\<close> says that \<open>Q\<close> holds for the result and the file map under
  every plan, and that the file map satisfies \<open>Q\<close> with a death whenever \<open>c\<close>.  Code that mixes files of several
  kinds, Syncthing and memory is a \<open>prog\<close> over a record with one world for each; \<open>sat m Q E C s\<close> gives
  its post-conditions for a result, an error and a death.  Several families of files have separate fault plans,
  so a theorem covers all interleavings of their faults.  The server is a function from a call and its
  own state to an answer: no theorem about safety assumes anything of it, unless its statement says so.

  \<^bold>\<open>Parameters.\<close>  What lies outside of the repository is an argument: the JSON parser \<open>parse\<close> and the
  marshaller (with a round-trip hypothesis where one is used), the XML decoder and encoder (documents are token lists), digests
  (\<open>sha\<close>; SHA-256 in hexadecimal), the size of a marshalled document (\<open>sz\<close>), the answers of Syncthing,
  directory walks, the paths that a card can hold (finite, for what enumerates a directory), random
  tokens, clocks, routing tables, the TLS certificate and the addresses of the listener.

  \<^bold>\<open>The fault model.\<close>  Power is lost between system calls.  What was written and renamed before is
  there afterwards: reordering by the file system is not modelled, so the calls of \<open>sync\<close> are
  steps that can fail or be the last, and nothing more.  Operations are atomic with respect to each other (the mutexes of the
  code); the one place where the code shares state without a mutex, the status of the screen, is the
  relation \<open>status_step\<close> of \<open>Run_Loop\<close>.

  \<^bold>\<open>Termination.\<close>  Loops over tokens, chunks and lists are recursive functions with a measure, or
  structural.  Loops that wait (the check before a game, the polls of a network profile, the attempts to
  subscribe) take the list of what each round meets, or their number of polls; \<open>game_check_answers_in_time\<close> states
  how many rounds are enough, and the others end with the list.  There is no fuel that a
  result could depend on.

  \<^bold>\<open>What the lemmas show.\<close>
  \<^item> Files that survive faults: the configuration, the registry, the control store and the choice of a
    network hold the old or the new document after a power loss anywhere (C16 to C18, C20, C23, C25);
    enrolment, snapshots and resets are all or nothing (C4, C9 to C11, C22).
  \<^item> No folder runs before it is safe: the reconciliation (C1), the operations and recoveries (C2), the
    first synchronisation (C3, C5), a new folder (C15); and where the code does not keep that (C38, C39).
  \<^item> Games: a game starts only when everything is in sync and the check answers in time (C6 to C8, C19).
  \<^item> Boundaries: what the web interface passes on, shows and counts (C12, C13, C26, C27), what the screen
    can ask for (C14, C40), framing and lifecycle events (C30 to C32), paths, sources, ids and numbers
    (C28, C29, C35 to C37).
  \<^bold>\<open>Not modelled.\<close>  The foreground program (\<open>internal/catui\<close>) and the C code draw the screen and hold no
  durable state; the programs under \<open>cmd\<close> parse flags and start what is modelled here.  Of the
  web interface: the generation of certificates, the reverse proxy and the listener are the standard library's, with
  the decisions over them modelled.  Of the server of the screen: the socket, its
  deadlines and its goroutines.  The child process (\<open>syncthing/process.go\<close>, \<open>proc_linux.go\<close>), the
  routing tables (\<open>routes_linux.go\<close>), \<open>syncfs\<close> and the parent's death signal are system interfaces.
\<close>

end
